(* ===== verification/Prelude.thy ===== *)
theory Prelude
  imports Main "HOL-Library.AList" "HOL-Library.Char_ord" "HOL-Library.List_Lexorder"
begin

text \<open>
  What every component shares: the development's fact collections, Go's \<open>int\<close> with its
  64-bit wrap-around and truncating division, the functions of Go's \<open>strings\<close>, \<open>strconv\<close> and
  \<open>fmt\<close> packages that the sources call, Go maps as association lists with distinct keys, and the
  interface of a transition system with its invariant rule.

  A Go string is a sequence of bytes and so is a HOL \<open>string\<close>; a character outside ASCII
  appears as its UTF-8 bytes.
\<close>

named_theorems alist_simps \<open>reading an association list after an update\<close>
named_theorems invs \<open>preservation of a component's invariant by one of its operations\<close>

section \<open>Machine integers\<close>

text \<open>Go's \<open>int\<close> is 64 bits wide: a product or a sum wraps, a quotient truncates.\<close>

definition int64 :: "int \<Rightarrow> int" where
  "int64 x = (x + 2 ^ 63) mod 2 ^ 64 - 2 ^ 63"

definition go_quot :: "int \<Rightarrow> int \<Rightarrow> int" where
  "go_quot a b = sgn a * sgn b * (\<bar>a\<bar> div \<bar>b\<bar>)"

definition go_rem :: "int \<Rightarrow> int \<Rightarrow> int" where
  "go_rem a b = a - b * go_quot a b"

lemma int64_id: "- (2 ^ 63) \<le> x \<Longrightarrow> x < 2 ^ 63 \<Longrightarrow> int64 x = x"
  by (simp add: int64_def)

lemma int64_range: "- (2 ^ 63) \<le> int64 x \<and> int64 x < 2 ^ 63"
  by (simp add: int64_def)

lemma go_quot_nonneg: "0 \<le> a \<Longrightarrow> 0 < b \<Longrightarrow> go_quot a b = a div b"
  by (cases "a = 0") (simp_all add: go_quot_def)

section \<open>Strings\<close>

definition nl :: string where
  "nl = [CHR 0x0A]"

text \<open>\<open>fmt.Sprintf("%d", i)\<close>.\<close>

fun digits_of :: "nat \<Rightarrow> string" where
  "digits_of n =
     (if n < 10 then [char_of (n + 48)] else digits_of (n div 10) @ [char_of (n mod 10 + 48)])"

declare digits_of.simps [simp del]

definition itoa :: "int \<Rightarrow> string" where
  "itoa i = (if i < 0 then CHR ''-'' # digits_of (nat (- i)) else digits_of (nat i))"

text \<open>\<open>strings.HasPrefix\<close>, \<open>HasSuffix\<close>, \<open>TrimPrefix\<close>, \<open>TrimSuffix\<close>, \<open>Contains\<close>.\<close>

fun has_prefix :: "string \<Rightarrow> string \<Rightarrow> bool" where
  "has_prefix s [] = True"
| "has_prefix [] (p # ps) = False"
| "has_prefix (c # s) (p # ps) = (c = p \<and> has_prefix s ps)"

definition has_suffix :: "string \<Rightarrow> string \<Rightarrow> bool" where
  "has_suffix s p = has_prefix (rev s) (rev p)"

definition trim_prefix :: "string \<Rightarrow> string \<Rightarrow> string" where
  "trim_prefix s p = (if has_prefix s p then drop (length p) s else s)"

definition trim_suffix :: "string \<Rightarrow> string \<Rightarrow> string" where
  "trim_suffix s p = (if has_suffix s p then take (length s - length p) s else s)"

fun str_contains :: "string \<Rightarrow> string \<Rightarrow> bool" where
  "str_contains [] p = (p = [])"
| "str_contains (c # s) p = (has_prefix (c # s) p \<or> str_contains s p)"

lemma has_prefix_iff: "has_prefix s p \<longleftrightarrow> (\<exists>r. s = p @ r)"
  by (induction s p rule: has_prefix.induct) auto

lemma has_prefix_append [simp]: "has_prefix (p @ r) p"
  by (auto simp: has_prefix_iff)

lemma has_suffix_iff: "has_suffix s p \<longleftrightarrow> (\<exists>r. s = r @ p)"
proof -
  have "has_suffix s p \<longleftrightarrow> (\<exists>r. rev s = rev p @ r)"
    by (simp add: has_suffix_def has_prefix_iff)
  also have "\<dots> \<longleftrightarrow> (\<exists>r. s = r @ p)"
    by (metis rev_append rev_rev_ident)
  finally show ?thesis .
qed

text \<open>
  \<open>strings.ReplaceAll(s, old, new)\<close>: the non-overlapping occurrences of \<open>old\<close>, from the
  left. Every call of the sources has a non-empty \<open>old\<close>.
\<close>

function replace_all :: "string \<Rightarrow> string \<Rightarrow> string \<Rightarrow> string" where
  "replace_all [] old new = []"
| "replace_all (c # s) old new =
     (if old \<noteq> [] \<and> has_prefix (c # s) old
      then new @ replace_all (drop (length old) (c # s)) old new
      else c # replace_all s old new)"
  by pat_completeness auto
termination
proof (relation "measure (\<lambda>(s, old, new). length s)", goal_cases)
  case (2 c s old new)
  then show ?case by (cases old) (auto simp: le_imp_less_Suc)
qed auto

declare replace_all.simps [simp del]

lemma replace_all_absent:
  "\<not> str_contains s old \<Longrightarrow> replace_all s old new = s"
  by (induction s) (auto simp: replace_all.simps)

text \<open>\<open>strings.Join\<close> and \<open>strings.Split\<close> with a separator of one character.\<close>

fun join :: "string \<Rightarrow> string list \<Rightarrow> string" where
  "join sep [] = []"
| "join sep [x] = x"
| "join sep (x # y # xs) = x @ sep @ join sep (y # xs)"

fun split_on :: "char \<Rightarrow> string \<Rightarrow> string list" where
  "split_on d [] = [[]]"
| "split_on d (c # s) =
     (if c = d then [] # split_on d s
      else (case split_on d s of [] \<Rightarrow> [[c]] | w # ws \<Rightarrow> (c # w) # ws))"

lemma split_on_nonempty [simp]: "split_on d s \<noteq> []"
  by (induction s) (auto split: list.splits)

lemma split_on_no_sep: "d \<notin> set w \<Longrightarrow> split_on d w = [w]"
  by (induction w) auto

lemma split_on_append:
  "d \<notin> set w \<Longrightarrow> split_on d (s @ d # w) = split_on d s @ [w]"
  by (induction s) (auto simp: split_on_no_sep split: list.splits)

lemma join_split_on: "join [d] (split_on d s) = s"
proof (induction s)
  case (Cons c s)
  obtain w ws where ws: "split_on d s = w # ws"
    by (cases "split_on d s") auto
  with Cons.IH show ?case
    by (cases ws) auto
qed simp

text \<open>
  \<open>fmt.Sscanf(s, "%d", &v)\<close> into an \<open>int\<close>: leading blanks are skipped, a sign may
  follow, then at least one digit; what follows the digits is not read. \<open>None\<close> is the error
  return, which leaves the target unchanged.
\<close>

definition is_digit :: "char \<Rightarrow> bool" where
  "is_digit c = (48 \<le> (of_char c :: nat) \<and> (of_char c :: nat) \<le> 57)"

definition is_blank :: "char \<Rightarrow> bool" where
  "is_blank c = (c \<in> {CHR '' '', CHR 0x09, CHR 0x0B, CHR 0x0C, CHR 0x0D})"

definition digits_val :: "string \<Rightarrow> int" where
  "digits_val ds = foldl (\<lambda>n c. n * 10 + (int (of_char c) - 48)) 0 ds"

definition sscanf_d :: "string \<Rightarrow> int option" where
  "sscanf_d s =
     (let t = dropWhile is_blank s;
          neg = (case t of c # _ \<Rightarrow> c = CHR ''-'' | [] \<Rightarrow> False);
          u = (case t of c # r \<Rightarrow> if c = CHR ''-'' \<or> c = CHR ''+'' then r else t | [] \<Rightarrow> []);
          ds = takeWhile is_digit u;
          v = (if neg then - digits_val ds else digits_val ds)
      in if ds = [] then None
         else if v < - (2 ^ 63) \<or> 2 ^ 63 \<le> v then None else Some v)"

section \<open>Transition systems\<close>

text \<open>
  The components that wait, retry or react are step functions: \<open>step s e\<close> is the state after
  the event \<open>e\<close>, \<open>None\<close> where the code cannot take that step. \<open>run_steps\<close> is a run.
\<close>

fun run_steps :: "('s \<Rightarrow> 'e \<Rightarrow> 's option) \<Rightarrow> 's \<Rightarrow> 'e list \<Rightarrow> 's option" where
  "run_steps step s [] = Some s"
| "run_steps step s (e # es) =
     (case step s e of None \<Rightarrow> None | Some s' \<Rightarrow> run_steps step s' es)"

lemma run_steps_append:
  "run_steps step s (es @ fs) =
     (case run_steps step s es of None \<Rightarrow> None | Some s' \<Rightarrow> run_steps step s' fs)"
  by (induction es arbitrary: s) (auto split: option.splits)

text \<open>The contract of an invariant: it holds initially and every step keeps it.\<close>

locale transition_system =
  fixes init :: "'s \<Rightarrow> bool" and step :: "'s \<Rightarrow> 'e \<Rightarrow> 's option" and inv :: "'s \<Rightarrow> bool"
  assumes init_inv: "init s \<Longrightarrow> inv s"
    and step_inv: "inv s \<Longrightarrow> step s e = Some s' \<Longrightarrow> inv s'"
begin

lemma run_inv: "inv s \<Longrightarrow> run_steps step s es = Some s' \<Longrightarrow> inv s'"
  by (induction es arbitrary: s) (auto split: option.splits intro: step_inv)

lemma reachable_inv: "init s \<Longrightarrow> run_steps step s es = Some s' \<Longrightarrow> inv s'"
  using run_inv init_inv by blast

end

text \<open>
  A transition system whose own steps (\<open>own e\<close>, as opposed to what the environment does)
  decrease a rank and which is stuck only in final states: every run of own steps can be
  continued to a final state, and none is infinite.
\<close>

locale terminating_system = transition_system init step inv
  for init :: "'s \<Rightarrow> bool" and step :: "'s \<Rightarrow> 'e \<Rightarrow> 's option" and inv :: "'s \<Rightarrow> bool" +
  fixes own :: "'e \<Rightarrow> bool" and final :: "'s \<Rightarrow> bool" and rank :: "'s \<Rightarrow> nat \<times> nat \<times> nat"
  assumes rank_less: "inv s \<Longrightarrow> own e \<Longrightarrow> step s e = Some s' \<Longrightarrow>
      (rank s', rank s) \<in> less_than <*lex*> less_than <*lex*> less_than"
    and progress: "inv s \<Longrightarrow> \<not> final s \<Longrightarrow> \<exists>e. own e \<and> step s e \<noteq> None"
begin

lemma wf_rank: "wf (inv_image (less_than <*lex*> less_than <*lex*> less_than) rank)"
  by (intro wf_inv_image wf_lex_prod wf_less_than)

lemma reaches_final:
  "inv s \<Longrightarrow> \<exists>es s'. list_all own es \<and> run_steps step s es = Some s' \<and> final s'"
proof (induction s rule: wf_induct_rule [OF wf_rank])
  case (1 s)
  show ?case
  proof (cases "final s")
    case True
    then have "list_all own [] \<and> run_steps step s [] = Some s \<and> final s" by simp
    then show ?thesis by blast
  next
    case False
    with progress "1.prems" obtain e s' where e: "own e" "step s e = Some s'" by blast
    then have "(s', s) \<in> inv_image (less_than <*lex*> less_than <*lex*> less_than) rank"
      using rank_less "1.prems" by simp
    from "1.IH" [OF this step_inv [OF "1.prems" e(2)]] obtain es t
      where "list_all own es" "run_steps step s' es = Some t" "final t" by blast
    then have "list_all own (e # es) \<and> run_steps step s (e # es) = Some t \<and> final t"
      using e by simp
    then show ?thesis by blast
  qed
qed

lemma no_infinite_run:
  assumes "inv (f 0)"
  shows "\<not> (\<forall>i. own (e i) \<and> step (f i) (e i) = Some (f (Suc i)))"
proof
  assume a: "\<forall>i. own (e i) \<and> step (f i) (e i) = Some (f (Suc i))"
  have "inv (f i)" for i
    using assms a by (induction i) (auto intro: step_inv)
  then have "(f (Suc i), f i) \<in> inv_image (less_than <*lex*> less_than <*lex*> less_than) rank" for i
    unfolding in_inv_image using rank_less a by blast
  then show False using wf_rank wf_iff_no_infinite_down_chain by blast
qed

end

end
