(* ===== verification/RunTypes.thy ===== *)
theory RunTypes
  imports Complex_Main Prelude
begin

text \<open>
  The data model of \<open>internal/domain/types\<close>: the run configuration with its topologies and
  machine specifications (\<open>run.go\<close>), the built-in presets (\<open>run.go\<close>, \<open>presets.go\<close>), packages
  (\<open>packages.go\<close>), option defaults (\<open>db_defaults.go\<close>) and tenant settings with their quotas
  (\<open>settings.go\<close>).

  Go's string enumerations stay strings, because a request may carry any string; their constants
  are abbreviations. A pointer is an option. An option map is an association list with distinct
  keys. \<open>VUSScale\<close>, the only float, is a real number.
\<close>

section \<open>Enumerations\<close>

abbreviation ProviderYandex :: string where "ProviderYandex \<equiv> ''yandex''"
abbreviation ProviderDocker :: string where "ProviderDocker \<equiv> ''docker''"

abbreviation DatabasePostgres :: string where "DatabasePostgres \<equiv> ''postgres''"
abbreviation DatabaseMySQL :: string where "DatabaseMySQL \<equiv> ''mysql''"
abbreviation DatabasePicodata :: string where "DatabasePicodata \<equiv> ''picodata''"
abbreviation DatabaseYDB :: string where "DatabaseYDB \<equiv> ''ydb''"

abbreviation RoleDatabase :: string where "RoleDatabase \<equiv> ''database''"
abbreviation RoleMonitor :: string where "RoleMonitor \<equiv> ''monitor''"
abbreviation RoleStroppy :: string where "RoleStroppy \<equiv> ''stroppy''"
abbreviation RoleEtcd :: string where "RoleEtcd \<equiv> ''etcd''"
abbreviation RoleProxy :: string where "RoleProxy \<equiv> ''proxy''"
abbreviation RolePgBouncer :: string where "RolePgBouncer \<equiv> ''pgbouncer''"

type_synonym options = "(string \<times> string) list"

section \<open>Machines and topologies\<close>

record secondary_disk =
  sd_device_name :: string
  sd_size_gb :: int
  sd_type :: string

record machine_spec =
  ms_role :: string
  ms_count :: int
  ms_cpus :: int
  ms_memory_mb :: int
  ms_disk_gb :: int
  ms_disk_type :: string
  ms_secondary :: "secondary_disk list"

record postgres_topology =
  pg_master :: machine_spec
  pg_replicas :: "machine_spec list"
  pg_haproxy :: "machine_spec option"
  pg_pgbouncer :: bool
  pg_patroni :: bool
  pg_etcd :: bool
  pg_sync_replicas :: int
  pg_master_options :: options
  pg_replica_options :: options
  pg_haproxy_options :: options
  pg_pgbouncer_options :: options
  pg_patroni_options :: options
  pg_etcd_options :: options

record mysql_topology =
  my_primary :: machine_spec
  my_replicas :: "machine_spec list"
  my_proxysql :: "machine_spec option"
  my_group_repl :: bool
  my_semi_sync :: bool
  my_primary_options :: options
  my_replica_options :: options
  my_proxysql_options :: options

record picodata_tier =
  tier_name :: string
  tier_replication :: int
  tier_can_vote :: bool
  tier_count :: int

record picodata_topology =
  pico_instances :: "machine_spec list"
  pico_haproxy :: "machine_spec option"
  pico_replication :: int
  pico_shards :: int
  pico_tiers :: "picodata_tier list"
  pico_instance_options :: options
  pico_haproxy_options :: options

record ydb_topology =
  ydb_storage :: machine_spec
  ydb_database :: "machine_spec option"
  ydb_haproxy :: "machine_spec option"
  ydb_fault_tolerance :: string
  ydb_database_path :: string
  ydb_storage_options :: options
  ydb_database_options :: options
  ydb_haproxy_options :: options

record database_config =
  db_kind :: string
  db_version :: string
  db_postgres :: "postgres_topology option"
  db_mysql :: "mysql_topology option"
  db_picodata :: "picodata_topology option"
  db_ydb :: "ydb_topology option"
  db_rendered_overrides :: options

section \<open>Packages and the run configuration\<close>

record package =
  pkg_id :: string
  pkg_tenant_id :: string
  pkg_name :: string
  pkg_description :: string
  pkg_db_kind :: string
  pkg_db_version :: string
  pkg_is_builtin :: bool
  pkg_apt_packages :: "string list"
  pkg_pre_install :: "string list"
  pkg_custom_repo :: string
  pkg_custom_repo_key :: string
  pkg_deb_filename :: string
  pkg_deb_token :: string

record monitor_config =
  mon_metrics_endpoint :: string
  mon_logs_endpoint :: string

record stroppy_config =
  stp_version :: string
  stp_script :: string
  stp_duration :: string
  stp_vus :: int
  stp_pool_size :: int
  stp_scale_factor :: int
  stp_steps :: "string list"
  stp_no_steps :: "string list"
  stp_config_override_json :: string
  stp_machine :: "machine_spec option"
  stp_workload :: string
  stp_vus_scale :: real
  stp_workers :: int

record network_config =
  net_cidr :: string
  net_zone :: string

record run_config =
  rc_id :: string
  rc_provider :: string
  rc_network :: network_config
  rc_machines :: "machine_spec list"
  rc_database :: database_config
  rc_monitor :: monitor_config
  rc_stroppy :: stroppy_config
  rc_preset_id :: string
  rc_package_id :: string
  rc_platform_id :: string
  rc_machine_override :: "machine_spec option"
  rc_resolved_package :: "package option"

section \<open>Presets\<close>

definition mk_spec :: "string \<Rightarrow> int \<Rightarrow> int \<Rightarrow> int \<Rightarrow> int \<Rightarrow> machine_spec" where
  "mk_spec role count cpus mem disk = \<lparr>ms_role = role, ms_count = count, ms_cpus = cpus,
     ms_memory_mb = mem, ms_disk_gb = disk, ms_disk_type = [], ms_secondary = []\<rparr>"

text \<open>The zero value of the Postgres topology but for its master.\<close>

definition pg_topology_of :: "machine_spec \<Rightarrow> postgres_topology" where
  "pg_topology_of m = \<lparr>pg_master = m, pg_replicas = [], pg_haproxy = None, pg_pgbouncer = False,
     pg_patroni = False, pg_etcd = False, pg_sync_replicas = 0, pg_master_options = [],
     pg_replica_options = [], pg_haproxy_options = [], pg_pgbouncer_options = [],
     pg_patroni_options = [], pg_etcd_options = []\<rparr>"

definition pg_ha_options :: "string \<Rightarrow> string \<Rightarrow> options" where
  "pg_ha_options conns work_mem = [(''shared_buffers'', ''25%''), (''max_connections'', conns),
     (''work_mem'', work_mem)]"

definition postgres_presets :: "(string \<times> postgres_topology) list" where
  "postgres_presets = [
     (''single'', pg_topology_of (mk_spec RoleDatabase 1 2 4096 50)),
     (''ha'', (pg_topology_of (mk_spec RoleDatabase 1 4 8192 100))
        \<lparr>pg_replicas := [mk_spec RoleDatabase 2 4 8192 100],
         pg_haproxy := Some (mk_spec RoleProxy 1 2 2048 20),
         pg_pgbouncer := True, pg_patroni := True, pg_etcd := True, pg_sync_replicas := 1,
         pg_master_options := pg_ha_options ''200'' ''64MB'',
         pg_replica_options := pg_ha_options ''200'' ''64MB'',
         pg_pgbouncer_options := [(''pool_mode'', ''transaction''), (''max_client_conn'', ''1000''),
           (''default_pool_size'', ''25'')],
         pg_patroni_options := [(''ttl'', ''30''), (''loop_wait'', ''10''), (''retry_timeout'', ''10'')]\<rparr>),
     (''scale'', (pg_topology_of (mk_spec RoleDatabase 1 8 16384 200))
        \<lparr>pg_replicas := [mk_spec RoleDatabase 4 8 16384 200],
         pg_haproxy := Some (mk_spec RoleProxy 2 2 2048 20),
         pg_pgbouncer := True, pg_patroni := True, pg_etcd := True, pg_sync_replicas := 2,
         pg_master_options := pg_ha_options ''500'' ''128MB'' @ [(''effective_cache_size'', ''75%'')],
         pg_replica_options := pg_ha_options ''500'' ''128MB'' @ [(''effective_cache_size'', ''75%'')],
         pg_pgbouncer_options := [(''pool_mode'', ''transaction''), (''max_client_conn'', ''2000''),
           (''default_pool_size'', ''50'')],
         pg_patroni_options := [(''ttl'', ''30''), (''loop_wait'', ''10''), (''retry_timeout'', ''10'')]\<rparr>)]"

definition mysql_topology_of :: "machine_spec \<Rightarrow> mysql_topology" where
  "mysql_topology_of m = \<lparr>my_primary = m, my_replicas = [], my_proxysql = None, my_group_repl = False,
     my_semi_sync = False, my_primary_options = [], my_replica_options = [], my_proxysql_options = []\<rparr>"

definition my_repl_options :: "string \<Rightarrow> options" where
  "my_repl_options conns = [(''innodb_buffer_pool_size'', ''25%''), (''max_connections'', conns)]"

definition mysql_presets :: "(string \<times> mysql_topology) list" where
  "mysql_presets = [
     (''single'', mysql_topology_of (mk_spec RoleDatabase 1 2 4096 50)),
     (''replica'', (mysql_topology_of (mk_spec RoleDatabase 1 4 8192 100))
        \<lparr>my_replicas := [mk_spec RoleDatabase 2 4 8192 100],
         my_proxysql := Some (mk_spec RoleProxy 1 2 2048 20), my_semi_sync := True,
         my_primary_options := my_repl_options ''200'', my_replica_options := my_repl_options ''200'',
         my_proxysql_options := [(''threads'', ''4''), (''max_connections'', ''2048'')]\<rparr>),
     (''group'', (mysql_topology_of (mk_spec RoleDatabase 1 8 16384 200))
        \<lparr>my_replicas := [mk_spec RoleDatabase 2 8 16384 200],
         my_proxysql := Some (mk_spec RoleProxy 2 2 2048 20), my_group_repl := True,
         my_primary_options := my_repl_options ''500'', my_replica_options := my_repl_options ''500'',
         my_proxysql_options := [(''threads'', ''4''), (''max_connections'', ''2048'')]\<rparr>)]"

definition pico_topology_of :: "machine_spec \<Rightarrow> int \<Rightarrow> int \<Rightarrow> picodata_topology" where
  "pico_topology_of m repl shards = \<lparr>pico_instances = [m], pico_haproxy = None,
     pico_replication = repl, pico_shards = shards, pico_tiers = [], pico_instance_options = [],
     pico_haproxy_options = []\<rparr>"

definition picodata_presets :: "(string \<times> picodata_topology) list" where
  "picodata_presets = [
     (''single'', pico_topology_of (mk_spec RoleDatabase 1 2 4096 50) 1 1),
     (''cluster'', (pico_topology_of (mk_spec RoleDatabase 3 4 8192 100) 2 3)
        \<lparr>pico_haproxy := Some (mk_spec RoleProxy 1 2 2048 20)\<rparr>),
     (''scale'', (pico_topology_of (mk_spec RoleDatabase 6 8 16384 200) 3 6)
        \<lparr>pico_haproxy := Some (mk_spec RoleProxy 2 2 2048 20),
         pico_tiers := [
           \<lparr>tier_name = ''compute'', tier_replication = 1, tier_can_vote = True, tier_count = 3\<rparr>,
           \<lparr>tier_name = ''storage'', tier_replication = 2, tier_can_vote = False, tier_count = 3\<rparr>]\<rparr>)]"

definition ydb_topology_of :: "machine_spec \<Rightarrow> machine_spec option \<Rightarrow> ydb_topology" where
  "ydb_topology_of storage database = \<lparr>ydb_storage = storage, ydb_database = database,
     ydb_haproxy = None, ydb_fault_tolerance = ''none'', ydb_database_path = ''/Root/testdb'',
     ydb_storage_options = [], ydb_database_options = [], ydb_haproxy_options = []\<rparr>"

definition ydb_presets :: "(string \<times> ydb_topology) list" where
  "ydb_presets = [
     (''single'', ydb_topology_of (mk_spec RoleDatabase 1 2 4096 80) None),
     (''cluster'', ydb_topology_of (mk_spec RoleDatabase 3 4 8192 100)
        (Some (mk_spec RoleDatabase 3 4 8192 50))),
     (''scale'', ydb_topology_of (mk_spec RoleDatabase 3 8 16384 200)
        (Some (mk_spec RoleDatabase 6 8 16384 50)))]"

record preset =
  pr_id :: string
  pr_tenant_id :: string
  pr_name :: string
  pr_description :: string
  pr_db_kind :: string
  pr_is_builtin :: bool
  pr_postgres :: "postgres_topology option"
  pr_mysql :: "mysql_topology option"
  pr_picodata :: "picodata_topology option"
  pr_ydb :: "ydb_topology option"

definition describe_postgres_preset :: "string \<Rightarrow> string" where
  "describe_postgres_preset p =
     (if p = ''single'' then ''Single PostgreSQL instance''
      else if p = ''ha'' then ''PostgreSQL with Patroni, HAProxy, PgBouncer, synchronous replication''
      else if p = ''scale'' then ''PostgreSQL with 4 replicas, 2 HAProxy nodes, full HA stack''
      else [])"

definition describe_mysql_preset :: "string \<Rightarrow> string" where
  "describe_mysql_preset p =
     (if p = ''single'' then ''Single MySQL instance''
      else if p = ''replica'' then ''MySQL with semi-synchronous replication and ProxySQL''
      else if p = ''group'' then ''MySQL with Group Replication and ProxySQL''
      else [])"

definition describe_picodata_preset :: "string \<Rightarrow> string" where
  "describe_picodata_preset p =
     (if p = ''single'' then ''Single Picodata instance''
      else if p = ''cluster'' then ''Picodata with 3 instances, 3 shards, HAProxy''
      else if p = ''scale'' then ''Picodata with 6 instances, multi-tier deployment''
      else [])"

definition describe_ydb_preset :: "string \<Rightarrow> string" where
  "describe_ydb_preset p =
     (if p = ''single'' then ''Single-node YDB (combined storage+compute)''
      else if p = ''cluster'' then ''YDB cluster with 3 storage + 3 database nodes''
      else if p = ''scale'' then ''YDB scale cluster with 3 storage + 6 database nodes''
      else p)"

definition mk_preset :: "string \<Rightarrow> string \<Rightarrow> string \<Rightarrow> preset" where
  "mk_preset name description kind = \<lparr>pr_id = [], pr_tenant_id = [], pr_name = name,
     pr_description = description, pr_db_kind = kind, pr_is_builtin = True, pr_postgres = None,
     pr_mysql = None, pr_picodata = None, pr_ydb = None\<rparr>"

text \<open>The built-in presets, up to the order in which Go iterates over its four maps.\<close>

definition builtin_presets :: "preset list" where
  "builtin_presets =
     map (\<lambda>(name, t). (mk_preset (''PostgreSQL '' @ name) (describe_postgres_preset name) DatabasePostgres)
        \<lparr>pr_postgres := Some t\<rparr>) postgres_presets @
     map (\<lambda>(name, t). (mk_preset (''MySQL '' @ name) (describe_mysql_preset name) DatabaseMySQL)
        \<lparr>pr_mysql := Some t\<rparr>) mysql_presets @
     map (\<lambda>(name, t). (mk_preset (''Picodata '' @ name) (describe_picodata_preset name) DatabasePicodata)
        \<lparr>pr_picodata := Some t\<rparr>) picodata_presets @
     map (\<lambda>(name, t). (mk_preset (''YDB '' @ name) (describe_ydb_preset name) DatabaseYDB)
        \<lparr>pr_ydb := Some t\<rparr>) ydb_presets"

text \<open>
  \<open>TopologyJSON\<close> and \<open>ParseTopology\<close> up to the JSON bytes: the value marshalled, tagged by the
  branch that chose its type. A nil pointer marshals to \<open>null\<close>, and unmarshalling \<open>null\<close> into a
  fresh topology leaves it zero; a preset whose topology is set never gets there.
\<close>

datatype topology_json =
    JPostgres "postgres_topology option"
  | JMySQL "mysql_topology option"
  | JPicodata "picodata_topology option"
  | JYDB "ydb_topology option"
  | JEmpty

definition preset_topology_json :: "preset \<Rightarrow> topology_json" where
  "preset_topology_json p =
     (if pr_db_kind p = DatabasePostgres then JPostgres (pr_postgres p)
      else if pr_db_kind p = DatabaseMySQL then JMySQL (pr_mysql p)
      else if pr_db_kind p = DatabasePicodata then JPicodata (pr_picodata p)
      else if pr_db_kind p = DatabaseYDB then JYDB (pr_ydb p)
      else JEmpty)"

section \<open>Option defaults\<close>

definition postgres_defaults :: "string \<Rightarrow> options" where
  "postgres_defaults version =
     [(''shared_buffers'', ''25%''), (''max_connections'', ''200''), (''max_wal_size'', ''4GB''),
      (''effective_cache_size'', ''75%''), (''work_mem'', ''64MB''),
      (''maintenance_work_mem'', ''512MB''), (''wal_buffers'', ''64MB''),
      (''checkpoint_completion_target'', ''0.9''), (''random_page_cost'', ''1.1''),
      (''effective_io_concurrency'', ''200''),
      (''listen_addresses'', [CHR 0x27, CHR ''*'', CHR 0x27])] @
     (if version = ''17'' then [(''summarize_wal'', ''on'')] else [])"

definition mysql_defaults :: "string \<Rightarrow> options" where
  "mysql_defaults version =
     [(''innodb_buffer_pool_size'', ''25%''), (''max_connections'', ''200''),
      (''innodb_log_file_size'', ''1G''), (''innodb_flush_method'', ''O_DIRECT''),
      (''innodb_flush_log_at_trx_commit'', ''1''), (''innodb_io_capacity'', ''2000''),
      (''innodb_io_capacity_max'', ''4000''), (''innodb_read_io_threads'', ''8''),
      (''innodb_write_io_threads'', ''8''), (''table_open_cache'', ''4000''),
      (''thread_cache_size'', ''64''), (''bind_address'', ''0.0.0.0'')] @
     (if version = ''8.4'' then [(''default_authentication_plugin'', ''caching_sha2_password'')]
      else [])"

definition picodata_defaults :: "string \<Rightarrow> options" where
  "picodata_defaults version =
     [(''replication_factor'', ''2''), (''shards'', ''3''), (''memtx_memory'', ''2048MB''),
      (''vinyl_memory'', ''25%''), (''net_msg_max'', ''1024''), (''readahead'', ''16384''),
      (''listen'', ''0.0.0.0:3301''), (''log_level'', ''info'')]"

definition ydb_defaults :: "string \<Rightarrow> options" where
  "ydb_defaults version = [(''fault_tolerance'', ''none''), (''database_path'', ''/Root/testdb'')]"

end
