(* ===== verification/Settings.thy ===== *)
theory Settings
  imports RunTypes
begin

text \<open>
  Tenant settings of \<open>internal/domain/types/settings.go\<close>: required cloud fields, quotas and the
  OTLP settings of the load generator, the webhook filter of \<open>internal/domain/webhook\<close>, and the
  built-in packages of \<open>packages.go\<close>.
\<close>

section \<open>Cloud settings\<close>

record yandex_settings =
  y_token :: string
  y_cloud_id :: string
  y_folder_id :: string
  y_zone :: string
  y_network_id :: string
  y_network_name :: string
  y_subnet_cidr :: string
  y_platform_id :: string
  y_image_id :: string
  y_assign_public_ip :: bool
  y_ssh_user :: string
  y_ssh_public_key :: string

record cloud_settings =
  cs_yandex :: yandex_settings
  cs_server_addr :: string
  cs_binary_url :: string

record webhook_config =
  wh_urls :: "string list"
  wh_events :: "string list"
  wh_timeout :: int

record tenant_quotas =
  q_allowed_db_kinds :: "string list"
  q_allowed_providers :: "string list"
  q_max_nodes :: int
  q_max_cpus :: int
  q_max_memory_mb :: int
  q_max_disk_gb :: int
  q_max_concurrent_runs :: int

record server_settings =
  ss_cloud :: cloud_settings
  ss_webhooks :: webhook_config
  ss_quotas :: tenant_quotas

datatype settings_error = MissingYandexField string | MissingServerAddr

fun first_missing :: "(string \<times> string) list \<Rightarrow> settings_error option" where
  "first_missing [] = None"
| "first_missing ((name, val) # checks) =
     (if val = [] then Some (MissingYandexField name) else first_missing checks)"

definition yandex_validate :: "yandex_settings \<Rightarrow> settings_error option" where
  "yandex_validate y = first_missing
     [(''token'', y_token y), (''cloud_id'', y_cloud_id y), (''folder_id'', y_folder_id y),
      (''network_id'', y_network_id y), (''network_name'', y_network_name y),
      (''subnet_cidr'', y_subnet_cidr y), (''image_id'', y_image_id y)]"

definition validate_cloud :: "cloud_settings \<Rightarrow> settings_error option" where
  "validate_cloud c = (if cs_server_addr c = [] then Some MissingServerAddr else None)"

definition default_server_settings :: server_settings where
  "default_server_settings =
     \<lparr>ss_cloud = \<lparr>cs_yandex = \<lparr>y_token = [], y_cloud_id = [], y_folder_id = [],
          y_zone = ''ru-central1-b'', y_network_id = [], y_network_name = ''stroppy-net'',
          y_subnet_cidr = ''10.1.0.0/16'', y_platform_id = ''standard-v2'', y_image_id = [],
          y_assign_public_ip = False, y_ssh_user = [], y_ssh_public_key = []\<rparr>,
        cs_server_addr = [], cs_binary_url = []\<rparr>,
      ss_webhooks = \<lparr>wh_urls = [], wh_events = [], wh_timeout = 0\<rparr>,
      ss_quotas = \<lparr>q_allowed_db_kinds = [], q_allowed_providers = [], q_max_nodes = 0, q_max_cpus = 0,
        q_max_memory_mb = 0, q_max_disk_gb = 0, q_max_concurrent_runs = 0\<rparr>\<rparr>"

text \<open>Whether \<open>Send\<close> posts an event, and to which URLs.\<close>

definition webhook_targets :: "webhook_config \<Rightarrow> string \<Rightarrow> string list" where
  "webhook_targets c event =
     (if wh_urls c = [] then []
      else if wh_events c \<noteq> [] \<and> event \<notin> set (wh_events c) then []
      else wh_urls c)"

section \<open>Quotas\<close>

datatype quota_error =
    KindNotAllowed string "string list"
  | ProviderNotAllowed string "string list"
  | NodesExceeded int int
  | CPUsExceeded int int
  | MemoryExceeded int int
  | DiskExceeded int int

fun machines_within :: "tenant_quotas \<Rightarrow> machine_spec list \<Rightarrow> quota_error option" where
  "machines_within q [] = None"
| "machines_within q (m # ms) =
     (if ms_role m \<noteq> RoleDatabase then machines_within q ms
      else if q_max_nodes q > 0 \<and> ms_count m > q_max_nodes q
      then Some (NodesExceeded (ms_count m) (q_max_nodes q))
      else if q_max_cpus q > 0 \<and> ms_cpus m > q_max_cpus q
      then Some (CPUsExceeded (ms_cpus m) (q_max_cpus q))
      else if q_max_memory_mb q > 0 \<and> ms_memory_mb m > q_max_memory_mb q
      then Some (MemoryExceeded (ms_memory_mb m) (q_max_memory_mb q))
      else if q_max_disk_gb q > 0 \<and> ms_disk_gb m > q_max_disk_gb q
      then Some (DiskExceeded (ms_disk_gb m) (q_max_disk_gb q))
      else machines_within q ms)"

definition validate_quotas :: "tenant_quotas \<Rightarrow> run_config \<Rightarrow> quota_error option" where
  "validate_quotas q cfg =
     (if q_allowed_db_kinds q \<noteq> [] \<and> \<not> list_ex (\<lambda>k. k = db_kind (rc_database cfg)) (q_allowed_db_kinds q)
      then Some (KindNotAllowed (db_kind (rc_database cfg)) (q_allowed_db_kinds q))
      else if q_allowed_providers q \<noteq> [] \<and> \<not> list_ex (\<lambda>p. p = rc_provider cfg) (q_allowed_providers q)
      then Some (ProviderNotAllowed (rc_provider cfg) (q_allowed_providers q))
      else machines_within q (rc_machines cfg))"

text \<open>A limit of zero or less is no limit.\<close>

definition within_limit :: "int \<Rightarrow> int \<Rightarrow> bool" where
  "within_limit limit x \<longleftrightarrow> limit \<le> 0 \<or> x \<le> limit"

lemma exceeds_limit: "(limit > 0 \<and> x > limit) = (\<not> within_limit limit x)"
  by (auto simp: within_limit_def)

lemma machines_within_None:
  "machines_within q ms = None \<longleftrightarrow>
     (\<forall>m \<in> set ms. ms_role m = RoleDatabase \<longrightarrow>
        within_limit (q_max_nodes q) (ms_count m) \<and> within_limit (q_max_cpus q) (ms_cpus m) \<and>
        within_limit (q_max_memory_mb q) (ms_memory_mb m) \<and> within_limit (q_max_disk_gb q) (ms_disk_gb m))"
proof (induction ms)
  case (Cons m ms)
  then show ?case
    unfolding machines_within.simps exceeds_limit by (simp del: One_nat_def)
qed simp

section \<open>OTLP settings of the load generator\<close>

record monitoring_stack =
  mst_node_exporter :: string
  mst_postgres_exporter :: string
  mst_otel_col :: string
  mst_vmagent :: string
  mst_etcd :: string

definition default_monitoring :: monitoring_stack where
  "default_monitoring = \<lparr>mst_node_exporter = ''1.9.1'', mst_postgres_exporter = ''0.16.0'',
     mst_otel_col = ''0.127.0'', mst_vmagent = ''1.139.0'', mst_etcd = ''3.5.17''\<rparr>"

record stroppy_settings =
  so_version :: string
  so_exporter_type :: string
  so_endpoint :: string
  so_url_path :: string
  so_insecure :: bool
  so_headers :: string
  so_metric_prefix :: string
  so_service_name :: string

definition default_stroppy_settings :: stroppy_settings where
  "default_stroppy_settings = \<lparr>so_version = ''4.1.0'', so_exporter_type = ''http'', so_endpoint = [],
     so_url_path = ''/opentelemetry/v1/metrics'', so_insecure = True, so_headers = [],
     so_metric_prefix = ''stroppy_'', so_service_name = ''stroppy''\<rparr>"

text \<open>
  \<open>SetFromMonitoringURL\<close>; \<open>parse\<close> is \<open>url.Parse\<close>, of which the code reads the scheme and the
  host, \<open>None\<close> its error.
\<close>

definition set_from_monitoring_url ::
  "(string \<Rightarrow> (string \<times> string) option) \<Rightarrow> string \<Rightarrow> string \<Rightarrow> int \<Rightarrow> stroppy_settings \<Rightarrow> stroppy_settings"
where
  "set_from_monitoring_url parse url token account s =
     (case parse url of
        None \<Rightarrow> s
      | Some (scheme, host) \<Rightarrow>
          (let s' = s\<lparr>so_endpoint := host,
             so_url_path := ''/insert/'' @ itoa account @ ''/opentelemetry/v1/metrics'',
             so_insecure := (scheme \<noteq> ''https'')\<rparr>
           in if token \<noteq> [] then s'\<lparr>so_headers := ''Authorization=Bearer '' @ token\<rparr> else s'))"

definition set_env :: "string \<Rightarrow> string \<Rightarrow> options \<Rightarrow> options" where
  "set_env k v env = (if v \<noteq> [] then AList.update k v env else env)"

definition stroppy_env :: "stroppy_settings \<Rightarrow> string \<Rightarrow> options" where
  "stroppy_env s run_id =
     (let env = set_env ''K6_OTEL_SERVICE_NAME'' (so_service_name s)
          (set_env ''K6_OTEL_METRIC_PREFIX'' (so_metric_prefix s)
          (set_env ''K6_OTEL_HEADERS'' (so_headers s)
          (set_env ''K6_OTEL_HTTP_EXPORTER_URL_PATH'' (so_url_path s)
          (set_env ''K6_OTEL_HTTP_EXPORTER_ENDPOINT'' (so_endpoint s)
          (set_env ''K6_OTEL_EXPORTER_TYPE'' (so_exporter_type s) [])))));
          env' = (if so_insecure s then AList.update ''K6_OTEL_HTTP_EXPORTER_INSECURE'' ''true'' env else env)
      in AList.update ''OTEL_RESOURCE_ATTRIBUTES''
           (''service.name=stroppy,stroppy.run.id='' @ run_id) env')"

section \<open>Built-in packages\<close>

definition mk_package ::
  "string \<Rightarrow> string \<Rightarrow> string \<Rightarrow> string \<Rightarrow> string list \<Rightarrow> string list \<Rightarrow> package" where
  "mk_package name description kind version apt pre = \<lparr>pkg_id = [], pkg_tenant_id = [], pkg_name = name,
     pkg_description = description, pkg_db_kind = kind, pkg_db_version = version, pkg_is_builtin = True,
     pkg_apt_packages = apt, pkg_pre_install = pre, pkg_custom_repo = [], pkg_custom_repo_key = [],
     pkg_deb_filename = [], pkg_deb_token = []\<rparr>"

definition pgdg_pre_install :: "string list" where
  "pgdg_pre_install =
     [''sh -c 'echo \"deb http://apt.postgresql.org/pub/repos/apt $(lsb_release -cs)-pgdg main\" > /etc/apt/sources.list.d/pgdg.list'' @ [CHR 0x27],
      ''wget --quiet -O - https://www.postgresql.org/media/keys/ACCC4CF8.asc | apt-key add -'',
      ''apt-get update'']"

definition builtin_packages :: "package list" where
  "builtin_packages = [
     mk_package ''PostgreSQL 16'' ''Default PostgreSQL 16 from pgdg'' ''postgres'' ''16''
       [''postgresql-16'', ''postgresql-client-16''] pgdg_pre_install,
     mk_package ''PostgreSQL 17'' ''Default PostgreSQL 17 from pgdg'' ''postgres'' ''17''
       [''postgresql-17'', ''postgresql-client-17''] pgdg_pre_install,
     mk_package ''MySQL 8.0'' ''Default MySQL 8.0'' ''mysql'' ''8.0''
       [''mysql-server-8.0'', ''mysql-client''] [],
     mk_package ''MySQL 8.4'' ''Default MySQL 8.4'' ''mysql'' ''8.4''
       [''mysql-server-8.4'', ''mysql-client''] [],
     mk_package ''Picodata 25.3'' ''Default Picodata 25.3'' ''picodata'' ''25.3'' [''picodata'']
       [''curl -fsSL https://download.picodata.io/tarantool-picodata/picodata.gpg.key | gpg --no-default-keyring --keyring gnupg-ring:/etc/apt/trusted.gpg.d/picodata.gpg --import && chmod 644 /etc/apt/trusted.gpg.d/picodata.gpg'',
        ''echo \"deb https://download.picodata.io/tarantool-picodata/ubuntu/ $(lsb_release -cs) main\" > /etc/apt/sources.list.d/picodata.list'',
        ''apt-get update''],
     mk_package ''YDB 25.3''
       (''YDB '' @ [CHR 0xE2, CHR 0x80, CHR 0x94] @ '' binary downloaded directly from binaries.ydb.tech'')
       ''ydb'' ''25.3'' [] []]"

section \<open>What the quotas guarantee\<close>

text \<open>
  \<open>ValidateQuotas\<close> accepts a run exactly when its database kind and provider are allowed (an
  empty list allows all) and every machine specification of the database role is within each
  positive limit.
\<close>

theorem quotas_characterised:
  "validate_quotas q cfg = None \<longleftrightarrow>
     (q_allowed_db_kinds q = [] \<or> db_kind (rc_database cfg) \<in> set (q_allowed_db_kinds q)) \<and>
     (q_allowed_providers q = [] \<or> rc_provider cfg \<in> set (q_allowed_providers q)) \<and>
     (\<forall>m \<in> set (rc_machines cfg). ms_role m = RoleDatabase \<longrightarrow>
        within_limit (q_max_nodes q) (ms_count m) \<and> within_limit (q_max_cpus q) (ms_cpus m) \<and>
        within_limit (q_max_memory_mb q) (ms_memory_mb m) \<and> within_limit (q_max_disk_gb q) (ms_disk_gb m))"
  by (auto simp: validate_quotas_def machines_within_None list_ex_iff)

end
