(* ===== verification/Machines.thy ===== *)
theory Machines
  imports Settings
begin

text \<open>
  How a run configuration becomes a list of machines (\<open>internal/domain/run/machines.go\<close>) and
  which configurations are accepted (\<open>validate.go\<close>). \<open>bake_override\<close> is the dry run's
  \<open>BakeMachineOverrideIntoTopology\<close>, \<open>fill_machines\<close> the start's \<open>FillMachinesFromTopology\<close>; the
  theorems compare the two paths and say what the list contains.
\<close>

section \<open>Machines from the topology\<close>

definition apply_override :: "int \<Rightarrow> machine_spec option \<Rightarrow> (machine_spec \<Rightarrow> int) \<Rightarrow> int" where
  "apply_override orig override field =
     (case override of None \<Rightarrow> orig | Some ov \<Rightarrow> if field ov > 0 then field ov else orig)"

text \<open>The closure \<open>apply\<close> of the dry run.\<close>

definition bake_spec :: "machine_spec \<Rightarrow> machine_spec \<Rightarrow> machine_spec" where
  "bake_spec ov m = m\<lparr>
     ms_cpus := (if ms_cpus ov > 0 then ms_cpus ov else ms_cpus m),
     ms_memory_mb := (if ms_memory_mb ov > 0 then ms_memory_mb ov else ms_memory_mb m),
     ms_disk_gb := (if ms_disk_gb ov > 0 then ms_disk_gb ov else ms_disk_gb m),
     ms_disk_type := (if ms_disk_type ov \<noteq> [] then ms_disk_type ov else ms_disk_type m)\<rparr>"

definition bake_database :: "machine_spec \<Rightarrow> database_config \<Rightarrow> database_config" where
  "bake_database ov db =
     (if db_kind db = DatabasePostgres then
        db\<lparr>db_postgres := map_option (\<lambda>t. t\<lparr>pg_master := bake_spec ov (pg_master t),
             pg_replicas := map (bake_spec ov) (pg_replicas t)\<rparr>) (db_postgres db)\<rparr>
      else if db_kind db = DatabaseMySQL then
        db\<lparr>db_mysql := map_option (\<lambda>t. t\<lparr>my_primary := bake_spec ov (my_primary t),
             my_replicas := map (bake_spec ov) (my_replicas t)\<rparr>) (db_mysql db)\<rparr>
      else if db_kind db = DatabasePicodata then
        db\<lparr>db_picodata := map_option (\<lambda>t. t\<lparr>pico_instances := map (bake_spec ov) (pico_instances t)\<rparr>)
             (db_picodata db)\<rparr>
      else if db_kind db = DatabaseYDB then
        db\<lparr>db_ydb := map_option (\<lambda>t. t\<lparr>ydb_storage := bake_spec ov (ydb_storage t),
             ydb_database := map_option (bake_spec ov) (ydb_database t)\<rparr>) (db_ydb db)\<rparr>
      else db)"

definition bake_override :: "run_config \<Rightarrow> run_config" where
  "bake_override cfg =
     (case rc_machine_override cfg of
        None \<Rightarrow> cfg
      | Some ov \<Rightarrow> cfg\<lparr>rc_database := bake_database ov (rc_database cfg), rc_machine_override := None\<rparr>)"

definition count_with_replicas :: "machine_spec \<Rightarrow> machine_spec list \<Rightarrow> int" where
  "count_with_replicas m rs = foldl (\<lambda>n r. int64 (n + ms_count r)) (ms_count m) rs"

definition db_machine :: "machine_spec option \<Rightarrow> int \<Rightarrow> int \<Rightarrow> int \<Rightarrow> int \<Rightarrow> machine_spec \<Rightarrow> machine_spec" where
  "db_machine ov count cpus mem disk m = \<lparr>ms_role = RoleDatabase, ms_count = count,
     ms_cpus = apply_override cpus ov ms_cpus, ms_memory_mb = apply_override mem ov ms_memory_mb,
     ms_disk_gb = apply_override disk ov ms_disk_gb, ms_disk_type = ms_disk_type m,
     ms_secondary = ms_secondary m\<rparr>"

text \<open>A machine whose sizes are those of \<open>m\<close> unless overridden.\<close>

abbreviation db_machine_like :: "machine_spec option \<Rightarrow> int \<Rightarrow> machine_spec \<Rightarrow> machine_spec" where
  "db_machine_like ov count m \<equiv> db_machine ov count (ms_cpus m) (ms_memory_mb m) (ms_disk_gb m) m"

definition optional_machine :: "machine_spec option \<Rightarrow> machine_spec list" where
  "optional_machine m = (case m of None \<Rightarrow> [] | Some s \<Rightarrow> [s])"

definition at_least :: "machine_spec option \<Rightarrow> (machine_spec \<Rightarrow> int) \<Rightarrow> int \<Rightarrow> int" where
  "at_least m field x = (case m of None \<Rightarrow> x | Some d \<Rightarrow> if field d > x then field d else x)"

definition database_machines :: "machine_spec option \<Rightarrow> database_config \<Rightarrow> machine_spec list" where
  "database_machines ov db =
     (if db_kind db = DatabasePostgres then
        (case db_postgres db of
           None \<Rightarrow> []
         | Some t \<Rightarrow> db_machine_like ov (count_with_replicas (pg_master t) (pg_replicas t)) (pg_master t) #
             optional_machine (pg_haproxy t))
      else if db_kind db = DatabaseMySQL then
        (case db_mysql db of
           None \<Rightarrow> []
         | Some t \<Rightarrow> db_machine_like ov (count_with_replicas (my_primary t) (my_replicas t)) (my_primary t) #
             optional_machine (my_proxysql t))
      else if db_kind db = DatabasePicodata then
        (case db_picodata db of
           None \<Rightarrow> []
         | Some t \<Rightarrow> map (\<lambda>inst. db_machine_like ov (ms_count inst) inst) (pico_instances t) @
             optional_machine (pico_haproxy t))
      else if db_kind db = DatabaseYDB then
        (case db_ydb db of
           None \<Rightarrow> []
         | Some t \<Rightarrow>
             (let s = ydb_storage t; d = ydb_database t in
              db_machine ov (at_least d ms_count (ms_count s)) (at_least d ms_cpus (ms_cpus s))
                (at_least d ms_memory_mb (ms_memory_mb s)) (at_least d ms_disk_gb (ms_disk_gb s)) s #
              optional_machine (ydb_haproxy t)))
      else [])"

definition stroppy_machine :: "stroppy_config \<Rightarrow> machine_spec" where
  "stroppy_machine s =
     (case stp_machine s of
        None \<Rightarrow> mk_spec RoleStroppy 1 2 4096 20
      | Some m \<Rightarrow> m\<lparr>ms_role := RoleStroppy, ms_count := 1\<rparr>)"

definition fill_machines :: "run_config \<Rightarrow> run_config" where
  "fill_machines cfg =
     (if rc_machines cfg \<noteq> [] then cfg
      else cfg\<lparr>rc_machines := database_machines (rc_machine_override cfg) (rc_database cfg) @
             [stroppy_machine (rc_stroppy cfg)]\<rparr>)"

section \<open>The dry run and the start agree\<close>

lemma bake_spec_simps [simp]:
  "ms_count (bake_spec ov m) = ms_count m"
  "ms_role (bake_spec ov m) = ms_role m"
  "ms_secondary (bake_spec ov m) = ms_secondary m"
  "ms_cpus (bake_spec ov m) = apply_override (ms_cpus m) (Some ov) ms_cpus"
  "ms_memory_mb (bake_spec ov m) = apply_override (ms_memory_mb m) (Some ov) ms_memory_mb"
  "ms_disk_gb (bake_spec ov m) = apply_override (ms_disk_gb m) (Some ov) ms_disk_gb"
  "ms_disk_type ov = [] \<Longrightarrow> ms_disk_type (bake_spec ov m) = ms_disk_type m"
  by (simp_all add: bake_spec_def apply_override_def)

lemma count_with_replicas_bake [simp]:
  "count_with_replicas (bake_spec ov m) (map (bake_spec ov) rs) = count_with_replicas m rs"
  by (simp add: count_with_replicas_def foldl_map)

lemma db_machine_bake:
  "ms_disk_type ov = [] \<Longrightarrow>
     db_machine_like None n (bake_spec ov m) = db_machine_like (Some ov) n m"
  by (simp add: db_machine_def apply_override_def)

lemma at_least_bake:
  "field (bake_spec ov m) = apply_override (field m) (Some ov) field \<Longrightarrow>
   (\<And>d. field (bake_spec ov d) = apply_override (field d) (Some ov) field) \<Longrightarrow>
     at_least (map_option (bake_spec ov) d) field (field (bake_spec ov (m :: machine_spec))) =
     apply_override (at_least d field (field m)) (Some ov) field"
  by (auto simp: at_least_def apply_override_def split: option.splits)

lemma at_least_count_bake [simp]:
  "at_least (map_option (bake_spec ov) d) ms_count x = at_least d ms_count x"
  by (auto simp: at_least_def split: option.splits)

lemma apply_override_None [simp]: "apply_override x None field = x"
  by (simp add: apply_override_def)

lemma database_machines_bake:
  assumes "ms_disk_type ov = []"
  shows "database_machines None (bake_database ov db) = database_machines (Some ov) db"
proof -
  have cpus: "at_least (map_option (bake_spec ov) d) ms_cpus (apply_override (ms_cpus m) (Some ov) ms_cpus) =
      apply_override (at_least d ms_cpus (ms_cpus m)) (Some ov) ms_cpus" for d and m :: machine_spec
    using at_least_bake [of ms_cpus ov m d] by simp
  have mem: "at_least (map_option (bake_spec ov) d) ms_memory_mb
        (apply_override (ms_memory_mb m) (Some ov) ms_memory_mb) =
      apply_override (at_least d ms_memory_mb (ms_memory_mb m)) (Some ov) ms_memory_mb" for d and m :: machine_spec
    using at_least_bake [of ms_memory_mb ov m d] by simp
  have disk: "at_least (map_option (bake_spec ov) d) ms_disk_gb
        (apply_override (ms_disk_gb m) (Some ov) ms_disk_gb) =
      apply_override (at_least d ms_disk_gb (ms_disk_gb m)) (Some ov) ms_disk_gb" for d and m :: machine_spec
    using at_least_bake [of ms_disk_gb ov m d] by simp
  show ?thesis
    using assms
    by (auto simp: database_machines_def bake_database_def db_machine_def Let_def cpus mem disk
        split: option.split)
qed

text \<open>
  C27. The dry run, which bakes the override into the topology, and the start, which applies it
  while filling the machine list, provision the same machines, for every topology and override
  that leaves the disk type alone.
\<close>

theorem dry_run_matches_start:
  assumes "\<forall>ov. rc_machine_override cfg = Some ov \<longrightarrow> ms_disk_type ov = []"
  shows "rc_machines (fill_machines (bake_override cfg)) = rc_machines (fill_machines cfg)"
proof (cases "rc_machine_override cfg")
  case (Some ov)
  then show ?thesis
    using assms database_machines_bake [of ov "rc_database cfg"]
    by (simp add: fill_machines_def bake_override_def)
qed (simp add: bake_override_def)

definition sample_db :: database_config where
  "sample_db = \<lparr>db_kind = DatabaseYDB, db_version = ''25.3'', db_postgres = None, db_mysql = None,
     db_picodata = None, db_ydb = map_of ydb_presets ''cluster'', db_rendered_overrides = []\<rparr>"

definition sample_cfg :: "machine_spec option \<Rightarrow> run_config" where
  "sample_cfg ov = \<lparr>rc_id = ''run-1'', rc_provider = ProviderYandex,
     rc_network = \<lparr>net_cidr = ''10.0.0.0/24'', net_zone = []\<rparr>, rc_machines = [], rc_database = sample_db,
     rc_monitor = \<lparr>mon_metrics_endpoint = [], mon_logs_endpoint = []\<rparr>,
     rc_stroppy = \<lparr>stp_version = [], stp_script = ''tpcc/tx'', stp_duration = ''60s'', stp_vus = 1,
       stp_pool_size = 0, stp_scale_factor = 0, stp_steps = [], stp_no_steps = [],
       stp_config_override_json = [], stp_machine = None, stp_workload = [], stp_vus_scale = 0,
       stp_workers = 0\<rparr>,
     rc_preset_id = [], rc_package_id = [], rc_platform_id = [], rc_machine_override = ov,
     rc_resolved_package = None\<rparr>"

lemma quotas_characterised_witness:
  "validate_quotas (ss_quotas default_server_settings\<lparr>q_max_nodes := 2\<rparr>)
       ((sample_cfg None)\<lparr>rc_machines := [mk_spec RoleDatabase 2 4 8192 50, mk_spec RoleDatabase 2 4 8192 50]\<rparr>) = None \<and>
   validate_quotas (ss_quotas default_server_settings\<lparr>q_max_nodes := 2\<rparr>)
       ((sample_cfg None)\<lparr>rc_machines := [mk_spec RoleDatabase 3 4 8192 50]\<rparr>) \<noteq> None"
  by (simp add: quotas_characterised default_server_settings_def mk_spec_def within_limit_def)

lemma dry_run_matches_start_witness:
  "rc_machines (fill_machines (bake_override (sample_cfg (Some (mk_spec [] 0 16 0 0))))) =
     rc_machines (fill_machines (sample_cfg (Some (mk_spec [] 0 16 0 0)))) \<and>
   map ms_cpus (rc_machines (fill_machines (sample_cfg (Some (mk_spec [] 0 16 0 0))))) = [16, 2]"
proof
  show "rc_machines (fill_machines (bake_override (sample_cfg (Some (mk_spec [] 0 16 0 0))))) =
      rc_machines (fill_machines (sample_cfg (Some (mk_spec [] 0 16 0 0))))"
    by (rule dry_run_matches_start) (simp add: sample_cfg_def mk_spec_def)
qed (simp add: fill_machines_def sample_cfg_def sample_db_def database_machines_def ydb_presets_def
    ydb_topology_of_def mk_spec_def db_machine_def apply_override_def optional_machine_def
    stroppy_machine_def Let_def)

text \<open>An override of the disk type is the case where the two paths differ.\<close>

lemma disk_type_differs:
  "map ms_disk_type (rc_machines (fill_machines (bake_override
       (sample_cfg (Some ((mk_spec [] 0 0 0 0)\<lparr>ms_disk_type := ''network-ssd''\<rparr>)))))) \<noteq>
   map ms_disk_type (rc_machines (fill_machines
       (sample_cfg (Some ((mk_spec [] 0 0 0 0)\<lparr>ms_disk_type := ''network-ssd''\<rparr>)))))"
  by (simp add: fill_machines_def bake_override_def bake_database_def bake_spec_def sample_cfg_def
      sample_db_def database_machines_def ydb_presets_def ydb_topology_of_def mk_spec_def
      db_machine_def optional_machine_def stroppy_machine_def Let_def)

section \<open>What the list contains\<close>

lemma filled_stroppy: "stroppy_machine s = m \<Longrightarrow> ms_role m = RoleStroppy \<and> ms_count m = 1"
  by (auto simp: stroppy_machine_def mk_spec_def split: option.splits)

text \<open>
  When the caller named no machines, the list ends with the load generator's machine, one of
  it, in the size the caller asked for; filling again changes nothing, and a list the caller gave
  is kept as it is.
\<close>

theorem fill_machines_spec:
  "rc_machines cfg \<noteq> [] \<and> fill_machines cfg = cfg \<or>
   rc_machines cfg = [] \<and>
     (\<exists>ms m. rc_machines (fill_machines cfg) = ms @ [m] \<and> ms_role m = RoleStroppy \<and> ms_count m = 1 \<and>
        (case stp_machine (rc_stroppy cfg) of
           None \<Rightarrow> ms_cpus m = 2 \<and> ms_memory_mb m = 4096 \<and> ms_disk_gb m = 20
         | Some s \<Rightarrow> ms_cpus m = ms_cpus s \<and> ms_memory_mb m = ms_memory_mb s \<and>
             ms_disk_gb m = ms_disk_gb s)) \<and>
     fill_machines (fill_machines cfg) = fill_machines cfg"
  by (auto simp: fill_machines_def stroppy_machine_def mk_spec_def split: option.split)

section \<open>Accepted configurations\<close>

datatype config_error =
    KindRequired
  | TopologyRequired
  | TopologyMismatch string
  | ScriptIncompatible string string "string list"
  | InvalidDuration string
  | DurationSuffix string
  | NegativeVUs
  | NegativePoolSize
  | NegativeScaleFactor
  | StroppyCPUs
  | StroppyMemory
  | StroppyDisk

definition script_db_support :: "(string \<times> string list) list" where
  "script_db_support =
     [(''tpcc/procs'', [DatabasePostgres, DatabaseMySQL]),
      (''tpcc/tx'', [DatabasePostgres, DatabaseMySQL, DatabasePicodata, DatabaseYDB]),
      (''tpcb/procs'', [DatabasePostgres, DatabaseMySQL]),
      (''tpcb/tx'', [DatabasePostgres, DatabaseMySQL, DatabasePicodata, DatabaseYDB])]"

definition topology_mismatch :: "database_config \<Rightarrow> config_error option" where
  "topology_mismatch db =
     (if db_kind db = DatabasePostgres \<and> (db_mysql db \<noteq> None \<or> db_picodata db \<noteq> None) \<or>
         db_kind db = DatabaseMySQL \<and> (db_postgres db \<noteq> None \<or> db_picodata db \<noteq> None) \<or>
         db_kind db = DatabasePicodata \<and> (db_postgres db \<noteq> None \<or> db_mysql db \<noteq> None) \<or>
         db_kind db = DatabaseYDB \<and> (db_postgres db \<noteq> None \<or> db_mysql db \<noteq> None \<or> db_picodata db \<noteq> None)
      then Some (TopologyMismatch (db_kind db)) else None)"

definition config_script :: "stroppy_config \<Rightarrow> string" where
  "config_script s = (if stp_script s = [] then stp_workload s else stp_script s)"

definition script_error :: "string \<Rightarrow> string \<Rightarrow> config_error option" where
  "script_error script kind =
     (if script = [] then None
      else (case map_of script_db_support script of
          None \<Rightarrow> None
        | Some supported \<Rightarrow>
            if list_ex (\<lambda>k. k = kind) supported then None
            else Some (ScriptIncompatible script kind supported)))"

definition duration_error :: "string \<Rightarrow> config_error option" where
  "duration_error d =
     (if d = [] then None
      else if length d < 2 then Some (InvalidDuration d)
      else if last d \<notin> {CHR ''s'', CHR ''m'', CHR ''h''} then Some (DurationSuffix d)
      else None)"

definition stroppy_machine_error :: "machine_spec option \<Rightarrow> config_error option" where
  "stroppy_machine_error m =
     (case m of
        None \<Rightarrow> None
      | Some s \<Rightarrow>
          if ms_cpus s < 1 then Some StroppyCPUs
          else if ms_memory_mb s < 512 then Some StroppyMemory
          else if ms_disk_gb s < 10 then Some StroppyDisk
          else None)"

text \<open>The first error of a sequence of checks.\<close>

fun first_error :: "'e option list \<Rightarrow> 'e option" where
  "first_error [] = None"
| "first_error (None # es) = first_error es"
| "first_error (Some e # es) = Some e"

lemma first_error_None: "first_error es = None \<longleftrightarrow> (\<forall>e \<in> set es. e = None)"
  by (induction es rule: first_error.induct) auto

definition validate_config :: "run_config \<Rightarrow> config_error option" where
  "validate_config cfg =
     (let db = rc_database cfg; s = rc_stroppy cfg in
      first_error
        [if db_kind db = [] then Some KindRequired else None,
         if db_postgres db = None \<and> db_mysql db = None \<and> db_picodata db = None \<and> db_ydb db = None \<and>
            rc_preset_id cfg = [] then Some TopologyRequired else None,
         topology_mismatch db,
         script_error (config_script s) (db_kind db),
         duration_error (stp_duration s),
         if stp_vus s < 0 then Some NegativeVUs else None,
         if stp_pool_size s < 0 then Some NegativePoolSize else None,
         if stp_scale_factor s < 0 then Some NegativeScaleFactor else None,
         stroppy_machine_error (stp_machine s)])"

lemma guard_None: "(if b then Some e else None) = None \<longleftrightarrow> \<not> b"
  by simp

lemma duration_ok: "duration_error d = None \<longleftrightarrow>
    (d \<noteq> [] \<longrightarrow> (\<exists>digits u. d = digits @ [u] \<and> digits \<noteq> [] \<and> u \<in> {CHR ''s'', CHR ''m'', CHR ''h''}))"
  by (cases d rule: rev_cases) (auto simp: duration_error_def Suc_le_eq not_less)

lemma script_ok: "script_error s k = None \<longleftrightarrow>
    (s \<in> {''tpcc/procs'', ''tpcb/procs''} \<longrightarrow> k \<in> {DatabasePostgres, DatabaseMySQL}) \<and>
    (s \<in> {''tpcc/tx'', ''tpcb/tx''} \<longrightarrow> k \<in> {DatabasePostgres, DatabaseMySQL, DatabasePicodata, DatabaseYDB})"
  by (auto simp: script_error_def script_db_support_def)

lemma topology_ok: "topology_mismatch db = None \<longleftrightarrow>
    (db_kind db \<in> {DatabaseMySQL, DatabasePicodata, DatabaseYDB} \<longrightarrow> db_postgres db = None) \<and>
    (db_kind db \<in> {DatabasePostgres, DatabasePicodata, DatabaseYDB} \<longrightarrow> db_mysql db = None) \<and>
    (db_kind db \<in> {DatabasePostgres, DatabaseMySQL, DatabaseYDB} \<longrightarrow> db_picodata db = None)"
  by (auto simp: topology_mismatch_def)

lemma machine_ok: "stroppy_machine_error m = None \<longleftrightarrow>
    (\<forall>s. m = Some s \<longrightarrow> 1 \<le> ms_cpus s \<and> 512 \<le> ms_memory_mb s \<and> 10 \<le> ms_disk_gb s)"
  by (auto simp: stroppy_machine_error_def not_less split: option.splits)

text \<open>
  C33. A configuration is accepted exactly when all of this holds: it has a kind; it has a topology or a preset; for
  the four known kinds, no PostgreSQL, MySQL or Picodata topology of another kind is set; a script with stored
  procedures goes with PostgreSQL or MySQL, one with transactions with a known kind; a duration has a last
  letter that is a unit and something before it; the load parameters are not negative; and the machine of the load
  generator, if one is asked for, has a processor, 512 MB and 10 GB. A YDB topology under another kind and
  unknown kinds and scripts pass.
\<close>

theorem accepted_config:
  "validate_config cfg = None \<longleftrightarrow>
     db_kind (rc_database cfg) \<noteq> [] \<and>
     \<not> (db_postgres (rc_database cfg) = None \<and> db_mysql (rc_database cfg) = None \<and> db_picodata (rc_database cfg) = None \<and>
        db_ydb (rc_database cfg) = None \<and> rc_preset_id cfg = []) \<and>
     (db_kind (rc_database cfg) \<in> {DatabaseMySQL, DatabasePicodata, DatabaseYDB} \<longrightarrow> db_postgres (rc_database cfg) = None) \<and>
     (db_kind (rc_database cfg) \<in> {DatabasePostgres, DatabasePicodata, DatabaseYDB} \<longrightarrow> db_mysql (rc_database cfg) = None) \<and>
     (db_kind (rc_database cfg) \<in> {DatabasePostgres, DatabaseMySQL, DatabaseYDB} \<longrightarrow> db_picodata (rc_database cfg) = None) \<and>
     (config_script (rc_stroppy cfg) \<in> {''tpcc/procs'', ''tpcb/procs''} \<longrightarrow>
        db_kind (rc_database cfg) \<in> {DatabasePostgres, DatabaseMySQL}) \<and>
     (config_script (rc_stroppy cfg) \<in> {''tpcc/tx'', ''tpcb/tx''} \<longrightarrow>
        db_kind (rc_database cfg) \<in> {DatabasePostgres, DatabaseMySQL, DatabasePicodata, DatabaseYDB}) \<and>
     (stp_duration (rc_stroppy cfg) \<noteq> [] \<longrightarrow>
        (\<exists>digits u. stp_duration (rc_stroppy cfg) = digits @ [u] \<and> digits \<noteq> [] \<and>
           u \<in> {CHR ''s'', CHR ''m'', CHR ''h''})) \<and>
     0 \<le> stp_vus (rc_stroppy cfg) \<and> 0 \<le> stp_pool_size (rc_stroppy cfg) \<and> 0 \<le> stp_scale_factor (rc_stroppy cfg) \<and>
     (\<forall>m. stp_machine (rc_stroppy cfg) = Some m \<longrightarrow>
        1 \<le> ms_cpus m \<and> 512 \<le> ms_memory_mb m \<and> 10 \<le> ms_disk_gb m)"
  unfolding validate_config_def Let_def first_error_None list.set ball_simps guard_None
    topology_ok script_ok duration_ok machine_ok not_less simp_thms conj_assoc ..

lemma accepted_config_witness:
  "(\<exists>digits u. stp_duration (rc_stroppy (sample_cfg None)) = digits @ [u] \<and> digits \<noteq> [] \<and>
     u \<in> {CHR ''s'', CHR ''m'', CHR ''h''}) \<and> db_mysql (rc_database (sample_cfg None)) = None"
proof -
  have "validate_config (sample_cfg None) = None"
    by (simp add: validate_config_def sample_cfg_def sample_db_def topology_mismatch_def
        script_error_def config_script_def script_db_support_def duration_error_def
        stroppy_machine_error_def ydb_presets_def)
  moreover have "db_kind (rc_database (sample_cfg None)) = DatabaseYDB" by (simp add: sample_cfg_def sample_db_def)
  moreover have "stp_duration (rc_stroppy (sample_cfg None)) \<noteq> []" by (simp add: sample_cfg_def)
  ultimately show ?thesis using accepted_config [of "sample_cfg None"] by blast
qed

end
