(* ===== verification/DagGraph.thy ===== *)
theory DagGraph
  imports Prelude
begin

text \<open>
  The graph of \<open>internal/core/dag/dag.go\<close>: nodes, \<open>Add\<close>, \<open>Validate\<close> with its
  depth-first cycle search, \<open>Ready\<close>, \<open>ReadyAlwaysRun\<close>, and the registry that restores the
  tasks of a decoded graph. The main result is that \<open>Validate\<close> accepts exactly the graphs whose
  dependencies exist and have no cycle, whatever the order in which Go iterates over its map.

  A graph as JSON is the list of its exported fields (\<open>wire_node\<close>): the bytes between
  \<open>json.Marshal\<close> and \<open>json.Unmarshal\<close> are not modelled.
\<close>

section \<open>Nodes, graphs and errors\<close>

record 't node =
  node_id :: string
  node_type :: string
  node_deps :: "string list"
  always_run :: bool
  must_complete :: bool
  node_task :: "'t option"

record 't graph =
  g_nodes :: "'t node list"

datatype dag_error =
    DuplicateNode string
  | UnknownDep string string
  | CycleDetected "string list"
  | UnknownNodeType string string
  | NilNodeDeref

definition graph_new :: "'t graph" where
  "graph_new = \<lparr>g_nodes = []\<rparr>"

definition graph_add :: "'t graph \<Rightarrow> 't node \<Rightarrow> dag_error + 't graph" where
  "graph_add g n =
     (if \<exists>existing \<in> set (g_nodes g). node_id existing = node_id n
      then Inl (DuplicateNode (node_id n))
      else Inr (g\<lparr>g_nodes := g_nodes g @ [n]\<rparr>))"

definition node_ids :: "'t graph \<Rightarrow> string list" where
  "node_ids g = map node_id (g_nodes g)"

text \<open>\<open>index\<close>: a later node with the same id replaces an earlier one.\<close>

definition graph_index :: "'t graph \<Rightarrow> (string \<rightharpoonup> 't node)" where
  "graph_index g = foldl (\<lambda>idx n. idx(node_id n \<mapsto> n)) Map.empty (g_nodes g)"

section \<open>Ready nodes\<close>

definition deps_complete :: "'t node \<Rightarrow> (string \<Rightarrow> bool) \<Rightarrow> bool" where
  "deps_complete n fin = list_all fin (node_deps n)"

definition graph_ready :: "'t graph \<Rightarrow> (string \<Rightarrow> bool) \<Rightarrow> 't node list" where
  "graph_ready g fin = filter (\<lambda>n. \<not> fin (node_id n) \<and> deps_complete n fin) (g_nodes g)"

definition graph_ready_always_run :: "'t graph \<Rightarrow> (string \<Rightarrow> bool) \<Rightarrow> 't node list" where
  "graph_ready_always_run g fin = filter (\<lambda>n. \<not> (fin (node_id n) \<or> \<not> always_run n)) (g_nodes g)"

section \<open>Cycle detection\<close>

datatype color = White | Gray | Black

text \<open>
  The closure \<open>visit\<close> of \<open>detectCycle\<close>. The colour map is state; an error return leaves the
  nodes of the open calls grey, so the map at the error is part of the result. \<open>VPanic\<close> is the
  nil dereference of \<open>idx[id].Deps\<close> for an id that is not in the index, \<open>VFuel\<close> that the fuel
  ran out.
\<close>

datatype visit_result =
    VDone "string \<Rightarrow> color"
  | VCycle string "string \<Rightarrow> color"
  | VPanic
  | VFuel

fun visit :: "nat \<Rightarrow> (string \<rightharpoonup> 't node) \<Rightarrow> (string \<Rightarrow> color) \<Rightarrow> string \<Rightarrow> visit_result"
and visit_deps :: "nat \<Rightarrow> (string \<rightharpoonup> 't node) \<Rightarrow> (string \<Rightarrow> color) \<Rightarrow> string list \<Rightarrow> visit_result"
where
  "visit 0 idx c i = VFuel"
| "visit (Suc fuel) idx c i =
     (case idx i of
        None \<Rightarrow> VPanic
      | Some n \<Rightarrow>
          (case visit_deps fuel idx (c(i := Gray)) (node_deps n) of
             VDone c' \<Rightarrow> VDone (c'(i := Black))
           | r \<Rightarrow> r))"
| "visit_deps fuel idx c [] = VDone c"
| "visit_deps fuel idx c (d # ds) =
     (case c d of
        Gray \<Rightarrow> VCycle d c
      | White \<Rightarrow>
          (case visit fuel idx c d of
             VDone c' \<Rightarrow> visit_deps fuel idx c' ds
           | r \<Rightarrow> r)
      | Black \<Rightarrow> visit_deps fuel idx c ds)"

text \<open>
  The outer loop over the index, in the order \<open>order\<close> Go happens to iterate its map: every
  error is collected, and \<open>errors.Join\<close> of none is nil. \<open>None\<close> is a panic or missing fuel.
\<close>

fun detect_loop ::
  "nat \<Rightarrow> (string \<rightharpoonup> 't node) \<Rightarrow> (string \<Rightarrow> color) \<Rightarrow> string list \<Rightarrow> string list option" where
  "detect_loop fuel idx c [] = Some []"
| "detect_loop fuel idx c (i # order) =
     (if c i = White then
        (case visit fuel idx c i of
           VDone c' \<Rightarrow> detect_loop fuel idx c' order
         | VCycle d c' \<Rightarrow> map_option (\<lambda>errs. d # errs) (detect_loop fuel idx c' order)
         | VPanic \<Rightarrow> None
         | VFuel \<Rightarrow> None)
      else detect_loop fuel idx c order)"

definition detect_cycle ::
  "nat \<Rightarrow> (string \<rightharpoonup> 't node) \<Rightarrow> string list \<Rightarrow> dag_error option" where
  "detect_cycle fuel idx order =
     (case detect_loop fuel idx (\<lambda>_. White) order of
        None \<Rightarrow> Some NilNodeDeref
      | Some [] \<Rightarrow> None
      | Some errs \<Rightarrow> Some (CycleDetected errs))"

text \<open>The first dependency, in the order of the nodes, that no node has as its id.\<close>

fun unknown_dep :: "(string \<rightharpoonup> 't node) \<Rightarrow> string \<Rightarrow> string list \<Rightarrow> dag_error option" where
  "unknown_dep idx i [] = None"
| "unknown_dep idx i (d # ds) =
     (case idx d of None \<Rightarrow> Some (UnknownDep i d) | Some _ \<Rightarrow> unknown_dep idx i ds)"

fun unknown_deps :: "(string \<rightharpoonup> 't node) \<Rightarrow> 't node list \<Rightarrow> dag_error option" where
  "unknown_deps idx [] = None"
| "unknown_deps idx (n # ns) =
     (case unknown_dep idx (node_id n) (node_deps n) of
        Some e \<Rightarrow> Some e
      | None \<Rightarrow> unknown_deps idx ns)"

definition graph_validate :: "'t graph \<Rightarrow> string list \<Rightarrow> dag_error option" where
  "graph_validate g order =
     (let idx = graph_index g in
      case unknown_deps idx (g_nodes g) of
        Some e \<Rightarrow> Some e
      | None \<Rightarrow> detect_cycle (length (g_nodes g)) idx order)"

text \<open>The orders Go may iterate the index in: each id of a node once.\<close>

definition map_order :: "'t graph \<Rightarrow> string list \<Rightarrow> bool" where
  "map_order g order \<longleftrightarrow> distinct order \<and> set order = set (node_ids g)"

section \<open>The registry and decoded graphs\<close>

type_synonym 't registry = "string \<rightharpoonup> 't"

definition reg_register :: "'t registry \<Rightarrow> string \<Rightarrow> 't \<Rightarrow> 't registry" where
  "reg_register r ty factory = r(ty \<mapsto> factory)"

text \<open>What JSON carries of a node: every field but the task.\<close>

record wire_node =
  w_id :: string
  w_type :: string
  w_deps :: "string list"
  w_always_run :: bool
  w_must_complete :: bool

definition wire_of :: "'t node \<Rightarrow> wire_node" where
  "wire_of n = \<lparr>w_id = node_id n, w_type = node_type n, w_deps = node_deps n,
     w_always_run = always_run n, w_must_complete = must_complete n\<rparr>"

definition unwire :: "wire_node \<Rightarrow> 't \<Rightarrow> 't node" where
  "unwire w t = \<lparr>node_id = w_id w, node_type = w_type w, node_deps = w_deps w,
     always_run = w_always_run w, must_complete = w_must_complete w, node_task = Some t\<rparr>"

definition graph_marshal :: "'t graph \<Rightarrow> string list \<Rightarrow> dag_error + wire_node list" where
  "graph_marshal g order =
     (case graph_validate g order of
        Some e \<Rightarrow> Inl e
      | None \<Rightarrow> Inr (map wire_of (g_nodes g)))"

fun restore_tasks :: "'t registry \<Rightarrow> wire_node list \<Rightarrow> dag_error + 't node list" where
  "restore_tasks r [] = Inr []"
| "restore_tasks r (w # ws) =
     (case r (w_type w) of
        None \<Rightarrow> Inl (UnknownNodeType (w_type w) (w_id w))
      | Some t \<Rightarrow>
          (case restore_tasks r ws of
             Inl e \<Rightarrow> Inl e
           | Inr ns \<Rightarrow> Inr (unwire w t # ns)))"

definition reg_unmarshal ::
  "'t registry \<Rightarrow> wire_node list \<Rightarrow> string list \<Rightarrow> dag_error + 't graph" where
  "reg_unmarshal r ws order =
     (case restore_tasks r ws of
        Inl e \<Rightarrow> Inl e
      | Inr ns \<Rightarrow>
          (let g = \<lparr>g_nodes = ns\<rparr> in
           case graph_validate g order of Some e \<Rightarrow> Inl e | None \<Rightarrow> Inr g))"

section \<open>The dependency relation\<close>

definition dep_edges :: "(string \<rightharpoonup> 't node) \<Rightarrow> (string \<times> string) set" where
  "dep_edges idx = {(x, y). \<exists>n. idx x = Some n \<and> y \<in> set (node_deps n)}"

definition deps_closed :: "(string \<rightharpoonup> 't node) \<Rightarrow> bool" where
  "deps_closed idx \<longleftrightarrow> (\<forall>x y. (x, y) \<in> dep_edges idx \<longrightarrow> y \<in> dom idx)"

lemma dep_edgesI: "idx x = Some n \<Longrightarrow> y \<in> set (node_deps n) \<Longrightarrow> (x, y) \<in> dep_edges idx"
  by (auto simp: dep_edges_def)

lemma dep_edgesE:
  assumes "(x, y) \<in> dep_edges idx"
  obtains n where "idx x = Some n" and "y \<in> set (node_deps n)"
  using assms by (auto simp: dep_edges_def)

lemma foldl_index_dom:
  "dom (foldl (\<lambda>idx n. idx(node_id n \<mapsto> n)) m ns) = dom m \<union> node_id ` set ns"
  by (induction ns arbitrary: m) auto

lemma dom_graph_index: "dom (graph_index g) = set (node_ids g)"
  by (simp add: graph_index_def node_ids_def foldl_index_dom)

lemma foldl_index_in:
  "foldl (\<lambda>idx n. idx(node_id n \<mapsto> n)) m ns i = Some n \<Longrightarrow> m i = Some n \<or> n \<in> set ns \<and> node_id n = i"
  by (induction ns arbitrary: m) (fastforce split: if_splits)+

lemma graph_index_Some: "graph_index g i = Some n \<Longrightarrow> n \<in> set (g_nodes g) \<and> node_id n = i"
  unfolding graph_index_def using foldl_index_in by fastforce

lemma foldl_index_other:
  "i \<notin> node_id ` set ns \<Longrightarrow> foldl (\<lambda>idx n. idx(node_id n \<mapsto> n)) m ns i = m i"
  by (induction ns arbitrary: m) auto

lemma foldl_index_distinct:
  "distinct (map node_id ns) \<Longrightarrow> n \<in> set ns \<Longrightarrow>
     foldl (\<lambda>idx n. idx(node_id n \<mapsto> n)) m ns (node_id n) = Some n"
  by (induction ns arbitrary: m) (auto simp: foldl_index_other)

lemma graph_index_distinct:
  "distinct (node_ids g) \<Longrightarrow> n \<in> set (g_nodes g) \<Longrightarrow> graph_index g (node_id n) = Some n"
  by (simp add: graph_index_def node_ids_def foldl_index_distinct)

lemma dep_edges_distinct:
  assumes "distinct (node_ids g)"
  shows "dep_edges (graph_index g) = {(node_id n, d) | n d. n \<in> set (g_nodes g) \<and> d \<in> set (node_deps n)}"
  using assms by (auto simp: dep_edges_def graph_index_distinct dest: graph_index_Some)

lemma graph_add_distinct [invs]:
  "graph_add g n = Inr g' \<Longrightarrow> distinct (node_ids g) \<Longrightarrow> distinct (node_ids g')"
  by (force simp: graph_add_def node_ids_def split: if_splits)

section \<open>Correctness of the depth-first search\<close>

subsection \<open>The fuel is enough\<close>

definition whites :: "(string \<rightharpoonup> 't node) \<Rightarrow> (string \<Rightarrow> color) \<Rightarrow> string set" where
  "whites idx c = {i \<in> dom idx. c i = White}"

lemma finite_whites: "finite (dom idx) \<Longrightarrow> finite (whites idx c)"
  by (auto simp: whites_def)

lemma whites_paint:
  "c i = White \<Longrightarrow> i \<in> dom idx \<Longrightarrow> x \<noteq> White \<Longrightarrow> whites idx (c(i := x)) = whites idx c - {i}"
  by (auto simp: whites_def)

lemma card_whites_paint:
  assumes "finite (dom idx)" "c i = White" "i \<in> dom idx"
  shows "card (whites idx c) = Suc (card (whites idx (c(i := Gray))))"
proof -
  have "i \<in> whites idx c" using assms by (simp add: whites_def)
  then have "card (whites idx c) = Suc (card (whites idx c - {i}))"
    by (rule card.remove [OF finite_whites [OF assms(1)]])
  then show ?thesis using assms by (simp add: whites_paint)
qed

text \<open>
  A search that finishes leaves grey exactly what was grey, keeps black what was black, paints
  nothing white and ends with the visited ids black.
\<close>

definition extends :: "(string \<Rightarrow> color) \<Rightarrow> (string \<Rightarrow> color) \<Rightarrow> bool" where
  "extends c c' \<longleftrightarrow> (\<forall>i. (c i = Gray \<longleftrightarrow> c' i = Gray) \<and> (c i = Black \<longrightarrow> c' i = Black))"

lemma extends_refl [simp]: "extends c c"
  by (simp add: extends_def)

lemma extends_trans: "extends c c' \<Longrightarrow> extends c' c'' \<Longrightarrow> extends c c''"
  by (auto simp: extends_def)

lemma extends_whites: "extends c c' \<Longrightarrow> whites idx c' \<subseteq> whites idx c"
proof
  fix i assume e: "extends c c'" and i: "i \<in> whites idx c'"
  from e i show "i \<in> whites idx c" by (cases "c i") (auto simp: extends_def whites_def)
qed

lemma visit_extends:
  "visit fuel idx c i = VDone c' \<Longrightarrow> c i = White \<Longrightarrow> extends c c' \<and> c' i = Black"
  "visit_deps fuel idx c ds = VDone c' \<Longrightarrow> extends c c' \<and> (\<forall>d \<in> set ds. c' d = Black)"
proof (induction fuel idx c i and fuel idx c ds arbitrary: c' and c' rule: visit_visit_deps.induct)
  case (2 fuel idx c i)
  then obtain n c1 where n: "idx i = Some n"
    and v: "visit_deps fuel idx (c(i := Gray)) (node_deps n) = VDone c1" and c': "c' = c1(i := Black)"
    by (auto split: option.splits visit_result.splits)
  have e: "extends (c(i := Gray)) c1"
    using "2.IH" [OF n] v unfolding fun_upd_def by blast
  have x: "extends c (c1(i := Black))"
    unfolding extends_def
  proof
    fix j
    from e have "((c(i := Gray)) j = Gray \<longleftrightarrow> c1 j = Gray) \<and> ((c(i := Gray)) j = Black \<longrightarrow> c1 j = Black)"
      unfolding extends_def by blast
    with \<open>c i = White\<close> show "(c j = Gray \<longleftrightarrow> (c1(i := Black)) j = Gray) \<and> (c j = Black \<longrightarrow> (c1(i := Black)) j = Black)"
      by (cases "j = i") simp_all
  qed
  show ?case unfolding c' by (intro conjI x) simp
next
  case (4 fuel idx c d ds)
  show ?case
  proof (cases "c d")
    case White
    with "4.prems" obtain c1 where v: "visit fuel idx c d = VDone c1"
      and r: "visit_deps fuel idx c1 ds = VDone c'"
      by (auto split: visit_result.splits)
    have "extends c c1 \<and> c1 d = Black" by (rule "4.IH"(1) [OF White v White])
    moreover have "extends c1 c' \<and> (\<forall>d \<in> set ds. c' d = Black)" by (rule "4.IH"(2) [OF White v r])
    ultimately show ?thesis by (auto simp: extends_def)
  next
    case Black
    with "4.prems" have r: "visit_deps fuel idx c ds = VDone c'" by simp
    have "extends c c' \<and> (\<forall>d \<in> set ds. c' d = Black)" by (rule "4.IH"(3) [OF Black r])
    with Black show ?thesis by (auto simp: extends_def)
  next
    case Gray
    with "4.prems" show ?thesis by simp
  qed
next
  case (1 idx c i)
  then show ?case by simp
next
  case (3 fuel idx c)
  then show ?case by simp
qed


lemma visit_fuel:
  assumes "finite (dom idx)" and "deps_closed idx"
  shows "c i = White \<Longrightarrow> i \<in> dom idx \<Longrightarrow> card (whites idx c) \<le> fuel \<Longrightarrow>
           visit fuel idx c i \<noteq> VFuel \<and> visit fuel idx c i \<noteq> VPanic"
    and "set ds \<subseteq> dom idx \<Longrightarrow> card (whites idx c) \<le> fuel \<Longrightarrow>
           visit_deps fuel idx c ds \<noteq> VFuel \<and> visit_deps fuel idx c ds \<noteq> VPanic"
  using assms
proof (induction fuel idx c i and fuel idx c ds rule: visit_visit_deps.induct)
  case (1 idx c i)
  then have "i \<in> whites idx c" by (simp add: whites_def)
  with 1 show ?case using finite_whites [OF "1.prems"(4), of c] by auto
next
  case (2 fuel idx c i)
  then obtain n where n: "idx i = Some n" by auto
  have "set (node_deps n) \<subseteq> dom idx"
    using "2.prems"(5) n unfolding deps_closed_def by (blast intro: dep_edgesI)
  moreover have "card (whites idx (c(i := Gray))) \<le> fuel"
    using card_whites_paint [of idx c i] "2.prems" by simp
  ultimately have "visit_deps fuel idx (c(i := Gray)) (node_deps n) \<noteq> VFuel \<and>
      visit_deps fuel idx (c(i := Gray)) (node_deps n) \<noteq> VPanic"
    using "2.IH" [OF n] "2.prems"(4,5) unfolding fun_upd_def by blast
  then show ?case using n by (auto split: visit_result.splits)
next
  case (3 fuel idx c)
  then show ?case by simp
next
  case (4 fuel idx c d ds)
  have ds: "d \<in> dom idx" "set ds \<subseteq> dom idx" using "4.prems"(1) by auto
  show ?case
  proof (cases "c d")
    case White
    have v: "visit fuel idx c d \<noteq> VFuel \<and> visit fuel idx c d \<noteq> VPanic"
      by (rule "4.IH"(1) [OF White White ds(1) "4.prems"(2-4)])
    show ?thesis
    proof (cases "visit fuel idx c d")
      case (VDone c1)
      have "card (whites idx c1) \<le> card (whites idx c)"
        using visit_extends(1) [OF VDone White] extends_whites finite_whites "4.prems"(3)
        by (blast intro: card_mono)
      then have "card (whites idx c1) \<le> fuel" using "4.prems"(2) by simp
      from "4.IH"(2) [OF White VDone ds(2) this "4.prems"(3,4)] show ?thesis
        using White VDone by simp
    qed (use v White in simp_all)
  next
    case Black
    from "4.IH"(3) [OF Black ds(2) "4.prems"(2-4)] show ?thesis using Black by simp
  qed simp
qed

subsection \<open>An error means a cycle\<close>

lemma visit_cycle:
  "visit fuel idx c i = VCycle x c' \<Longrightarrow> c i = White \<Longrightarrow>
     (\<forall>g. c g = Gray \<longrightarrow> (g, i) \<in> (dep_edges idx)\<^sup>*) \<Longrightarrow> (x, x) \<in> (dep_edges idx)\<^sup>+"
  "visit_deps fuel idx c ds = VCycle x c' \<Longrightarrow>
     (\<forall>g. c g = Gray \<longrightarrow> (g, u) \<in> (dep_edges idx)\<^sup>*) \<Longrightarrow> (\<forall>d \<in> set ds. (u, d) \<in> dep_edges idx) \<Longrightarrow>
     (x, x) \<in> (dep_edges idx)\<^sup>+"
proof (induction fuel idx c i and fuel idx c ds arbitrary: x c' and x c' u rule: visit_visit_deps.induct)
  case (1 idx c i)
  then show ?case by simp
next
  case (2 fuel idx c i)
  then obtain n where n: "idx i = Some n"
    and v: "visit_deps fuel idx (c(i := Gray)) (node_deps n) = VCycle x c'"
    by (auto split: option.splits visit_result.splits)
  have "\<forall>g. (c(i := Gray)) g = Gray \<longrightarrow> (g, i) \<in> (dep_edges idx)\<^sup>*"
    using "2.prems"(3) by simp
  moreover have "\<forall>d \<in> set (node_deps n). (i, d) \<in> dep_edges idx"
    using n by (auto intro: dep_edgesI)
  ultimately show ?case
    using "2.IH" [OF n] v unfolding fun_upd_def by blast
next
  case (3 fuel idx c)
  then show ?case by simp
next
  case (4 fuel idx c d ds)
  have ud: "(u, d) \<in> dep_edges idx" and ds: "\<forall>d \<in> set ds. (u, d) \<in> dep_edges idx"
    using "4.prems"(3) by auto
  show ?case
  proof (cases "c d")
    case Gray
    then have "(d, u) \<in> (dep_edges idx)\<^sup>*" using "4.prems"(2) by blast
    from this ud have "(d, d) \<in> (dep_edges idx)\<^sup>+" by (rule rtrancl_into_trancl1)
    then show ?thesis using Gray "4.prems"(1) by simp
  next
    case White
    show ?thesis
    proof (cases "visit fuel idx c d")
      case (VDone c1)
      have "extends c c1" using visit_extends(1) [OF VDone White] by blast
      then have g: "\<forall>g. c1 g = Gray \<longrightarrow> (g, u) \<in> (dep_edges idx)\<^sup>*"
        using "4.prems"(2) unfolding extends_def by blast
      have "visit_deps fuel idx c1 ds = VCycle x c'" using "4.prems"(1) White VDone by simp
      then show ?thesis by (rule "4.IH"(2) [OF White VDone _ g ds])
    next
      case (VCycle y c1)
      have "\<forall>g. c g = Gray \<longrightarrow> (g, d) \<in> (dep_edges idx)\<^sup>*"
        using "4.prems"(2) ud by (blast intro: rtrancl_into_rtrancl)
      from "4.IH"(1) [OF White VCycle White this] show ?thesis
        using "4.prems"(1) White VCycle by simp
    qed (use "4.prems"(1) White in simp_all)
  next
    case Black
    with "4.prems"(1) have "visit_deps fuel idx c ds = VCycle x c'" by simp
    then show ?thesis by (rule "4.IH"(3) [OF Black _ "4.prems"(2) ds])
  qed
qed


text \<open>
  After an error the open nodes stay grey, so later searches may stop at a node that is on no cycle; but it always
  leads to one. The node of the first error is on a cycle.
\<close>

definition leads_to_cycle :: "(string \<rightharpoonup> 't node) \<Rightarrow> string \<Rightarrow> bool" where
  "leads_to_cycle idx x \<longleftrightarrow> (\<exists>y. (x, y) \<in> (dep_edges idx)\<^sup>* \<and> (y, y) \<in> (dep_edges idx)\<^sup>+)"

lemma leads_back: "(x, y) \<in> (dep_edges idx)\<^sup>* \<Longrightarrow> leads_to_cycle idx y \<Longrightarrow> leads_to_cycle idx x"
  unfolding leads_to_cycle_def by (blast intro: rtrancl_trans)

lemma on_cycle_leads: "(x, x) \<in> (dep_edges idx)\<^sup>+ \<Longrightarrow> leads_to_cycle idx x"
  unfolding leads_to_cycle_def by blast

lemma visit_leads:
  "visit fuel idx c i = VCycle x c' \<Longrightarrow> c i = White \<Longrightarrow>
     (\<forall>g. c g = Gray \<longrightarrow> (g, i) \<in> (dep_edges idx)\<^sup>* \<or> leads_to_cycle idx g) \<Longrightarrow>
     leads_to_cycle idx x \<and> (\<forall>g. c' g = Gray \<longrightarrow> leads_to_cycle idx g)"
  "visit_deps fuel idx c ds = VCycle x c' \<Longrightarrow>
     (\<forall>g. c g = Gray \<longrightarrow> (g, u) \<in> (dep_edges idx)\<^sup>* \<or> leads_to_cycle idx g) \<Longrightarrow>
     (\<forall>d \<in> set ds. (u, d) \<in> dep_edges idx) \<Longrightarrow>
     leads_to_cycle idx x \<and> (\<forall>g. c' g = Gray \<longrightarrow> leads_to_cycle idx g)"
proof (induction fuel idx c i and fuel idx c ds arbitrary: x c' and x c' u rule: visit_visit_deps.induct)
  case (1 idx c i)
  then show ?case by simp
next
  case (2 fuel idx c i)
  then obtain n where n: "idx i = Some n"
    and v: "visit_deps fuel idx (c(i := Gray)) (node_deps n) = VCycle x c'"
    by (auto split: option.splits visit_result.splits)
  have "\<forall>g. (c(i := Gray)) g = Gray \<longrightarrow> (g, i) \<in> (dep_edges idx)\<^sup>* \<or> leads_to_cycle idx g"
    using "2.prems"(3) by simp
  moreover have "\<forall>d \<in> set (node_deps n). (i, d) \<in> dep_edges idx"
    using n by (auto intro: dep_edgesI)
  ultimately show ?case
    using "2.IH" [OF n] v unfolding fun_upd_def by blast
next
  case (3 fuel idx c)
  then show ?case by simp
next
  case (4 fuel idx c d ds)
  have ud: "(u, d) \<in> dep_edges idx" and ds: "\<forall>d \<in> set ds. (u, d) \<in> dep_edges idx"
    using "4.prems"(3) by auto
  show ?case
  proof (cases "c d")
    case Gray
    have d: "leads_to_cycle idx d"
    proof (cases "leads_to_cycle idx d")
      case False
      then have "(d, u) \<in> (dep_edges idx)\<^sup>*" using "4.prems"(2) Gray by blast
      from this ud have "(d, d) \<in> (dep_edges idx)\<^sup>+" by (rule rtrancl_into_trancl1)
      then show ?thesis by (rule on_cycle_leads)
    qed simp
    have "leads_to_cycle idx g" if "c g = Gray" for g
      using that "4.prems"(2) ud d leads_back [of g d idx] by (blast intro: rtrancl_into_rtrancl)
    then show ?thesis using d Gray "4.prems"(1) by simp
  next
    case White
    show ?thesis
    proof (cases "visit fuel idx c d")
      case (VDone c1)
      have "extends c c1" using visit_extends(1) [OF VDone White] by blast
      then have g: "\<forall>g. c1 g = Gray \<longrightarrow> (g, u) \<in> (dep_edges idx)\<^sup>* \<or> leads_to_cycle idx g"
        using "4.prems"(2) unfolding extends_def by blast
      have "visit_deps fuel idx c1 ds = VCycle x c'" using "4.prems"(1) White VDone by simp
      then show ?thesis by (rule "4.IH"(2) [OF White VDone _ g ds])
    next
      case (VCycle y c1)
      have "\<forall>g. c g = Gray \<longrightarrow> (g, d) \<in> (dep_edges idx)\<^sup>* \<or> leads_to_cycle idx g"
        using "4.prems"(2) ud by (blast intro: rtrancl_into_rtrancl)
      from "4.IH"(1) [OF White VCycle White this] show ?thesis
        using "4.prems"(1) White VCycle by simp
    qed (use "4.prems"(1) White in simp_all)
  next
    case Black
    with "4.prems"(1) have "visit_deps fuel idx c ds = VCycle x c'" by simp
    then show ?thesis by (rule "4.IH"(3) [OF Black _ "4.prems"(2) ds])
  qed
qed

lemma detect_loop_leads:
  "detect_loop fuel idx c order = Some errs \<Longrightarrow> \<forall>g. c g = Gray \<longrightarrow> leads_to_cycle idx g \<Longrightarrow>
     \<forall>x \<in> set errs. leads_to_cycle idx x"
proof (induction fuel idx c order arbitrary: errs rule: detect_loop.induct)
  case (1 fuel idx c)
  then show ?case by simp
next
  case (2 fuel idx c i order)
  show ?case
  proof (cases "c i = White")
    case True
    show ?thesis
    proof (cases "visit fuel idx c i")
      case (VDone c1)
      have "\<forall>g. c1 g = Gray \<longrightarrow> leads_to_cycle idx g"
        using visit_extends(1) [OF VDone True] "2.prems"(2) unfolding extends_def by blast
      then show ?thesis using "2.IH"(1) [OF True VDone] "2.prems" True VDone by simp
    next
      case (VCycle x c1)
      then have x: "leads_to_cycle idx x" and g: "\<forall>g. c1 g = Gray \<longrightarrow> leads_to_cycle idx g"
        using visit_leads(1) [OF VCycle True] "2.prems"(2) by blast+
      obtain es where es: "errs = x # es" "detect_loop fuel idx c1 order = Some es"
        using "2.prems"(1) True VCycle by auto
      then show ?thesis using "2.IH"(2) [OF True VCycle es(2) g] x by simp
    qed (use "2.prems" True in simp_all)
  next
    case False
    then show ?thesis using "2.IH"(3) [OF False] "2.prems" by simp
  qed
qed

lemma detect_loop_cycle:
  "detect_loop fuel idx c order = Some errs \<Longrightarrow> errs \<noteq> [] \<Longrightarrow> \<forall>g. c g \<noteq> Gray \<Longrightarrow>
     (hd errs, hd errs) \<in> (dep_edges idx)\<^sup>+"
proof (induction fuel idx c order arbitrary: errs rule: detect_loop.induct)
  case (1 fuel idx c)
  then show ?case by simp
next
  case (2 fuel idx c i order)
  show ?case
  proof (cases "c i = White")
    case True
    show ?thesis
    proof (cases "visit fuel idx c i")
      case (VDone c1)
      have "\<forall>g. c1 g \<noteq> Gray"
        using visit_extends(1) [OF VDone True] "2.prems"(3) unfolding extends_def by blast
      then show ?thesis using "2.IH"(1) [OF True VDone] "2.prems" True VDone by simp
    next
      case (VCycle x c1)
      then have "(x, x) \<in> (dep_edges idx)\<^sup>+" using visit_cycle(1) [OF VCycle True] "2.prems"(3) by blast
      then show ?thesis using "2.prems"(1) True VCycle by auto
    qed (use "2.prems" True in simp_all)
  next
    case False
    then show ?thesis using "2.IH"(3) [OF False] "2.prems" by simp
  qed
qed

subsection \<open>No error means no cycle\<close>

text \<open>The black ids are closed under dependencies and none of them lies on a cycle.\<close>

definition black_ok :: "(string \<rightharpoonup> 't node) \<Rightarrow> (string \<Rightarrow> color) \<Rightarrow> bool" where
  "black_ok idx c \<longleftrightarrow>
     (\<forall>x y. c x = Black \<longrightarrow> (x, y) \<in> dep_edges idx \<longrightarrow> c y = Black) \<and>
     (\<forall>x. c x = Black \<longrightarrow> (x, x) \<notin> (dep_edges idx)\<^sup>+)"

lemma black_ok_closed:
  assumes "black_ok idx c" and "(x, y) \<in> (dep_edges idx)\<^sup>*" and "c x = Black"
  shows "c y = Black"
  using assms(2,3) by (induction) (use assms(1) in \<open>auto simp: black_ok_def\<close>)

lemma black_ok_paint:
  assumes ok: "black_ok idx c" and i: "c i \<noteq> Black" and deps: "\<forall>y. (i, y) \<in> dep_edges idx \<longrightarrow> c y = Black"
  shows "black_ok idx (c(i := Black))"
proof -
  have cyc: "(x, x) \<notin> (dep_edges idx)\<^sup>+" if "c x = Black" for x
    using ok that unfolding black_ok_def by blast
  have "(i, i) \<notin> (dep_edges idx)\<^sup>+"
  proof
    assume "(i, i) \<in> (dep_edges idx)\<^sup>+"
    then obtain d where d: "(i, d) \<in> dep_edges idx" "(d, i) \<in> (dep_edges idx)\<^sup>*"
      by (auto dest: tranclD)
    have "c d = Black" using deps d(1) by blast
    with black_ok_closed [OF ok d(2)] i show False by simp
  qed
  moreover have "c y = Black" if "c x = Black" "(x, y) \<in> dep_edges idx" for x y
    using ok that unfolding black_ok_def by blast
  ultimately show ?thesis using cyc deps by (auto simp: black_ok_def)
qed

lemma visit_black_ok:
  "visit fuel idx c i = VDone c' \<Longrightarrow> c i = White \<Longrightarrow> black_ok idx c \<Longrightarrow> black_ok idx c'"
  "visit_deps fuel idx c ds = VDone c' \<Longrightarrow> black_ok idx c \<Longrightarrow> black_ok idx c'"
proof (induction fuel idx c i and fuel idx c ds arbitrary: c' and c' rule: visit_visit_deps.induct)
  case (1 idx c i)
  then show ?case by simp
next
  case (2 fuel idx c i)
  then obtain n c1 where n: "idx i = Some n"
    and v: "visit_deps fuel idx (c(i := Gray)) (node_deps n) = VDone c1" and c': "c' = c1(i := Black)"
    by (auto split: option.splits visit_result.splits)
  have "black_ok idx (c(i := Gray))"
    using "2.prems"(2,3) unfolding black_ok_def by (auto split: if_splits)
  then have ok: "black_ok idx c1" using "2.IH" [OF n] v unfolding fun_upd_def by blast
  have e: "extends (c(i := Gray)) c1" and ds: "\<forall>d \<in> set (node_deps n). c1 d = Black"
    using visit_extends(2) [OF v] by auto
  have "c1 i = Gray" using e unfolding extends_def by (metis fun_upd_same)
  moreover have "\<forall>y. (i, y) \<in> dep_edges idx \<longrightarrow> c1 y = Black"
    using ds n by (auto simp: dep_edges_def)
  ultimately show ?case unfolding c' by (intro black_ok_paint ok) simp_all
next
  case (3 fuel idx c)
  then show ?case by simp
next
  case (4 fuel idx c d ds)
  show ?case
  proof (cases "c d")
    case White
    with "4.prems" obtain c1 where v: "visit fuel idx c d = VDone c1"
      and r: "visit_deps fuel idx c1 ds = VDone c'"
      by (auto split: visit_result.splits)
    have "black_ok idx c1" by (rule "4.IH"(1) [OF White v White "4.prems"(2)])
    then show ?thesis by (rule "4.IH"(2) [OF White v r])
  next
    case Black
    with "4.prems"(1) have "visit_deps fuel idx c ds = VDone c'" by simp
    then show ?thesis by (rule "4.IH"(3) [OF Black _ "4.prems"(2)])
  qed (use "4.prems" in simp)
qed

lemma detect_loop_no_errs:
  "detect_loop fuel idx c order = Some [] \<Longrightarrow> black_ok idx c \<Longrightarrow> \<forall>g. c g \<noteq> Gray \<Longrightarrow>
     i \<in> set order \<or> c i = Black \<Longrightarrow> (i, i) \<notin> (dep_edges idx)\<^sup>+"
proof (induction fuel idx c order rule: detect_loop.induct)
  case (1 fuel idx c)
  then show ?case by (simp add: black_ok_def)
next
  case (2 fuel idx c j order)
  show ?case
  proof (cases "c j = White")
    case True
    with "2.prems"(1) obtain c1 where v: "visit fuel idx c j = VDone c1"
      and r: "detect_loop fuel idx c1 order = Some []"
      by (auto split: visit_result.splits)
    have e: "extends c c1" "c1 j = Black" using visit_extends(1) [OF v True] by auto
    have "\<forall>g. c1 g \<noteq> Gray" using e(1) "2.prems"(3) unfolding extends_def by blast
    moreover have "i \<in> set order \<or> c1 i = Black" using "2.prems"(4) e unfolding extends_def by auto
    ultimately show ?thesis
      by (rule "2.IH"(1) [OF True v r visit_black_ok(1) [OF v True "2.prems"(2)]])
  next
    case False
    then have "c j = Black" using "2.prems"(3) by (cases "c j") auto
    then have "i \<in> set order \<or> c i = Black" using "2.prems"(4) by auto
    moreover have "detect_loop fuel idx c order = Some []" using "2.prems"(1) False by simp
    ultimately show ?thesis using "2.IH"(3) [OF False _ "2.prems"(2,3)] by blast
  qed
qed

lemma detect_loop_total:
  assumes "finite (dom idx)" and "deps_closed idx" and "card (dom idx) \<le> fuel"
  shows "set order \<subseteq> dom idx \<Longrightarrow> detect_loop fuel idx c order \<noteq> None"
proof (induction order arbitrary: c)
  case Nil
  then show ?case by simp
next
  case (Cons i order)
  then have IH: "detect_loop fuel idx c' order \<noteq> None" for c' by simp
  have "card (whites idx c) \<le> fuel"
    using assms(1,3) card_mono [of "dom idx" "whites idx c"] by (auto simp: whites_def)
  then have "c i = White \<Longrightarrow> visit fuel idx c i \<noteq> VFuel \<and> visit fuel idx c i \<noteq> VPanic"
    using visit_fuel(1) [OF assms(1,2)] Cons.prems by simp
  then show ?case using IH by (auto split: visit_result.splits)
qed


section \<open>Validate\<close>

lemma unknown_dep_None: "unknown_dep idx i ds = None \<longleftrightarrow> set ds \<subseteq> dom idx"
  by (induction ds) (auto split: option.splits)

lemma unknown_deps_None:
  "unknown_deps idx ns = None \<longleftrightarrow> (\<forall>n \<in> set ns. set (node_deps n) \<subseteq> dom idx)"
  proof (induction ns)
  case (Cons n ns)
  then show ?case
    using unknown_dep_None [of idx "node_id n" "node_deps n"]
    by (cases "unknown_dep idx (node_id n) (node_deps n)") simp_all
qed simp

lemma finite_dom_graph_index: "finite (dom (graph_index g))"
  by (simp add: dom_graph_index)

lemma card_dom_graph_index: "card (dom (graph_index g)) \<le> length (g_nodes g)"
  using card_length [of "node_ids g"] by (simp add: dom_graph_index node_ids_def)

lemma unknown_deps_closed:
  "unknown_deps (graph_index g) (g_nodes g) = None \<Longrightarrow> deps_closed (graph_index g)"
  by (force simp: deps_closed_def unknown_deps_None dest: graph_index_Some elim!: dep_edgesE)

lemma trancl_dep_dom: "(x, y) \<in> (dep_edges idx)\<^sup>+ \<Longrightarrow> x \<in> dom idx"
  by (induction rule: trancl_induct) (auto elim!: dep_edgesE)

lemma detect_cycle_None:
  assumes "map_order g order" and closed: "deps_closed (graph_index g)"
  shows "detect_cycle (length (g_nodes g)) (graph_index g) order = None \<longleftrightarrow>
    acyclic (dep_edges (graph_index g))"
proof -
  let ?idx = "graph_index g" and ?n = "length (g_nodes g)"
  have ord: "set order = dom ?idx" using assms(1) by (simp add: map_order_def dom_graph_index)
  obtain errs where e: "detect_loop ?n ?idx (\<lambda>_. White) order = Some errs"
    using detect_loop_total [OF finite_dom_graph_index closed card_dom_graph_index] ord by blast
  show ?thesis
  proof (cases errs)
    case Nil
    have "(i, i) \<notin> (dep_edges ?idx)\<^sup>+" if "i \<in> dom ?idx" for i
      using detect_loop_no_errs [of ?n ?idx "\<lambda>_. White" order i] e Nil that ord
      by (simp add: black_ok_def)
    then have "acyclic (dep_edges ?idx)"
      unfolding acyclic_def using trancl_dep_dom [of _ _ ?idx] by blast
    then show ?thesis using e Nil by (simp add: detect_cycle_def)
  next
    case (Cons x xs)
    then have "(x, x) \<in> (dep_edges ?idx)\<^sup>+"
      using detect_loop_cycle [OF e] by simp
    then show ?thesis using e Cons by (auto simp: detect_cycle_def acyclic_def)
  qed
qed


lemma graph_validate_None:
  assumes "map_order g order"
  shows "graph_validate g order = None \<longleftrightarrow>
    (\<forall>n \<in> set (g_nodes g). set (node_deps n) \<subseteq> set (node_ids g)) \<and>
    acyclic (dep_edges (graph_index g))"
proof (cases "unknown_deps (graph_index g) (g_nodes g)")
  case None
  then show ?thesis
    using detect_cycle_None [OF assms unknown_deps_closed [OF None]]
      unknown_deps_None [of "graph_index g" "g_nodes g"] None
    by (simp add: graph_validate_def Let_def dom_graph_index)
next
  case (Some e)
  then have "\<not> (\<forall>n \<in> set (g_nodes g). set (node_deps n) \<subseteq> dom (graph_index g))"
    using unknown_deps_None [of "graph_index g" "g_nodes g"] by auto
  then show ?thesis using Some by (simp add: graph_validate_def Let_def dom_graph_index)
qed

lemma unknown_dep_Some:
  "unknown_dep idx i ds = Some e \<Longrightarrow> \<exists>d \<in> set ds. e = UnknownDep i d \<and> d \<notin> dom idx"
  by (induction ds) (auto split: option.splits)

lemma unknown_deps_Some:
  "unknown_deps idx ns = Some e \<Longrightarrow>
     \<exists>n \<in> set ns. \<exists>d \<in> set (node_deps n). e = UnknownDep (node_id n) d \<and> d \<notin> dom idx"
  by (induction ns) (auto split: option.splits dest: unknown_dep_Some)

lemma detect_cycle_Some:
  assumes "map_order g order" and closed: "deps_closed (graph_index g)"
    and "detect_cycle (length (g_nodes g)) (graph_index g) order = Some e"
  shows "\<exists>errs. e = CycleDetected errs \<and> errs \<noteq> [] \<and> (hd errs, hd errs) \<in> (dep_edges (graph_index g))\<^sup>+ \<and>
    (\<forall>x \<in> set errs. leads_to_cycle (graph_index g) x)"
proof -
  have ord: "set order = dom (graph_index g)"
    using assms(1) by (simp add: map_order_def dom_graph_index)
  obtain errs where e:
    "detect_loop (length (g_nodes g)) (graph_index g) (\<lambda>_. White) order = Some errs"
    using detect_loop_total [OF finite_dom_graph_index closed card_dom_graph_index] ord by blast
  have "errs \<noteq> []" "Some e = Some (CycleDetected errs)"
    using assms(3) e by (auto simp: detect_cycle_def split: list.splits)
  then show ?thesis using detect_loop_cycle [OF e] detect_loop_leads [OF e] by simp
qed

text \<open>
  C3. Whatever order Go picks for its map, \<open>Validate\<close> returns nil for exactly the graphs whose
  every dependency names a node and whose dependency relation has no cycle; an unknown-dependency
  error names a node and a dependency of it that is missing; a cycle error means that every
  dependency is known, the node it names first is on a cycle, and every other node it names leads to
  one. The search never dereferences a missing node and its recursion is never deeper than the number
  of nodes (the fuel given).
\<close>

theorem validate_correct:
  assumes order: "map_order g order"
  shows "case graph_validate g order of
      None \<Rightarrow> (\<forall>n \<in> set (g_nodes g). set (node_deps n) \<subseteq> set (node_ids g)) \<and>
        acyclic (dep_edges (graph_index g))
    | Some (UnknownDep i d) \<Rightarrow>
        (\<exists>n \<in> set (g_nodes g). node_id n = i \<and> d \<in> set (node_deps n)) \<and> d \<notin> set (node_ids g)
    | Some (CycleDetected errs) \<Rightarrow>
        (\<forall>n \<in> set (g_nodes g). set (node_deps n) \<subseteq> set (node_ids g)) \<and>
        errs \<noteq> [] \<and> (hd errs, hd errs) \<in> (dep_edges (graph_index g))\<^sup>+ \<and>
        (\<forall>x \<in> set errs. leads_to_cycle (graph_index g) x)
    | Some _ \<Rightarrow> False"
proof (cases "unknown_deps (graph_index g) (g_nodes g)")
  case None
  then have v: "graph_validate g order = detect_cycle (length (g_nodes g)) (graph_index g) order"
    by (simp add: graph_validate_def)
  have k: "\<forall>n \<in> set (g_nodes g). set (node_deps n) \<subseteq> set (node_ids g)"
    using None unknown_deps_None [of "graph_index g" "g_nodes g"] by (simp add: dom_graph_index)
  note cyc = detect_cycle_None [OF order unknown_deps_closed [OF None]]
  show ?thesis
  proof (cases "graph_validate g order")
    case (Some e)
    then show ?thesis
      using cyc k v detect_cycle_Some [OF order unknown_deps_closed [OF None], of e] by auto
  qed (use cyc k v in simp)
next
  case (Some e)
  then show ?thesis
    using unknown_deps_Some [OF Some] by (auto simp: graph_validate_def Let_def dom_graph_index)
qed

definition sample_node :: "string \<Rightarrow> string list \<Rightarrow> nat node" where
  "sample_node i ds = \<lparr>node_id = i, node_type = i, node_deps = ds, always_run = False,
     must_complete = False, node_task = Some 7\<rparr>"

definition sample_graph :: "nat graph" where
  "sample_graph = \<lparr>g_nodes = [sample_node ''net'' [], sample_node ''machines'' [''net''],
     sample_node ''db'' [''machines''], sample_node ''run'' [''db'', ''machines'']]\<rparr>"

lemma validate_correct_witness:
  "graph_validate sample_graph [''db'', ''run'', ''net'', ''machines''] = None \<and>
   acyclic (dep_edges (graph_index sample_graph))"
proof -
  have o: "map_order sample_graph [''db'', ''run'', ''net'', ''machines'']"
    by (auto simp: map_order_def node_ids_def sample_graph_def sample_node_def)
  have v: "graph_validate sample_graph [''db'', ''run'', ''net'', ''machines''] = None"
    by code_simp
  show ?thesis using validate_correct [OF o] v by simp
qed

text \<open>
  Not every node that the error names is on a cycle: with A on B, B on C, C on B and D on A, the search from A stops at
  B, and then the search from D at A.
\<close>

lemma innocent_node_named:
  "graph_validate \<lparr>g_nodes = [sample_node ''A'' [''B''], sample_node ''B'' [''C''], sample_node ''C'' [''B''],
     sample_node ''D'' [''A'']]\<rparr> [''A'', ''D'', ''B'', ''C''] = Some (CycleDetected [''B'', ''A''])"
  by code_simp

subsection \<open>Ranked graphs\<close>

text \<open>
  The contract a graph builder keeps: every dependency of a node is a node of a smaller rank.
  A graph that keeps it is accepted by \<open>Validate\<close>.
\<close>

locale ranked_graph =
  fixes g :: "'t graph" and rank :: "string \<Rightarrow> nat"
  assumes dep_known: "n \<in> set (g_nodes g) \<Longrightarrow> d \<in> set (node_deps n) \<Longrightarrow> d \<in> set (node_ids g)"
    and dep_rank: "n \<in> set (g_nodes g) \<Longrightarrow> d \<in> set (node_deps n) \<Longrightarrow> rank d < rank (node_id n)"
begin

lemma edges_decrease: "dep_edges (graph_index g) \<subseteq> {(x, y). rank y < rank x}"
  using dep_rank by (fastforce simp: dep_edges_def dest: graph_index_Some)

lemma trancl_decrease: "(x, y) \<in> (dep_edges (graph_index g))\<^sup>+ \<Longrightarrow> rank y < rank x"
  by (induction rule: trancl_induct) (use edges_decrease in force)+

lemma no_cycle: "acyclic (dep_edges (graph_index g))"
  using trancl_decrease by (force simp: acyclic_def)

lemma valid: "map_order g order \<Longrightarrow> graph_validate g order = None"
  using graph_validate_None [of g order] dep_known no_cycle by blast

end

section \<open>Decoding what was encoded\<close>

lemma restore_tasks_wire:
  "(\<And>n. n \<in> set ns \<Longrightarrow> node_task n = r (node_type n) \<and> r (node_type n) \<noteq> None) \<Longrightarrow>
     restore_tasks r (map wire_of ns) = Inr (ns :: 't node list)"
proof (induction ns)
  case (Cons n ns)
  obtain t where "r (node_type n) = Some t" "node_task n = Some t"
    using Cons.prems [of n] by auto
  then have "unwire (wire_of n) t = n" "r (w_type (wire_of n)) = Some t"
    by (simp_all add: unwire_def wire_of_def)
  with Cons show ?case by simp
qed simp

text \<open>
  C21. A graph that \<open>MarshalJSON\<close> accepted is restored by a registry that holds the task of
  each of its node types: the decoded graph is the encoded one, whatever the two map orders.
\<close>

theorem unmarshal_marshal:
  assumes "graph_marshal g order = Inr ws"
    and "\<And>n. n \<in> set (g_nodes g) \<Longrightarrow> node_task n = r (node_type n) \<and> r (node_type n) \<noteq> None"
    and "map_order g order" and "map_order g order'"
  shows "reg_unmarshal r ws order' = Inr (g :: 't graph)"
proof -
  have v: "graph_validate g order = None" and ws: "ws = map wire_of (g_nodes g)"
    using assms(1) by (auto simp: graph_marshal_def split: option.splits)
  have "graph_validate g order' = None"
    using v graph_validate_None assms(3,4) by blast
  moreover have "restore_tasks r ws = Inr (g_nodes g)"
    unfolding ws by (rule restore_tasks_wire) (rule assms(2))
  ultimately show ?thesis
    by (cases g) (simp add: reg_unmarshal_def)
qed

lemma unmarshal_marshal_witness:
  "\<exists>ws. graph_marshal sample_graph [''db'', ''run'', ''net'', ''machines''] = Inr ws \<and>
     reg_unmarshal (\<lambda>_. Some 7) ws [''net'', ''machines'', ''db'', ''run''] = Inr sample_graph"
proof -
  have m: "graph_marshal sample_graph [''db'', ''run'', ''net'', ''machines''] =
      Inr (map wire_of (g_nodes sample_graph))"
    by code_simp
  have "reg_unmarshal (\<lambda>_. Some 7) (map wire_of (g_nodes sample_graph))
      [''net'', ''machines'', ''db'', ''run''] = Inr sample_graph"
    by (rule unmarshal_marshal [OF m])
      (auto simp: map_order_def node_ids_def sample_graph_def sample_node_def)
  with m show ?thesis by blast
qed

end
