(* ===== verification/Builder.thy ===== *)
theory Builder
  imports Machines DagGraph
begin

text \<open>
  \<open>Build\<close> of \<open>internal/domain/run/builder.go\<close>: from a run configuration to the graph the executor
  runs and the registry that restores it. The tasks are values of \<open>task\<close> with the parts of the
  configuration their Go structs hold; the handles they share (client, deployer, state, settings,
  token issuer) are left out. The builder's struct is the record \<open>builder\<close>, threaded through the
  same sequence of calls as in the code.
\<close>

section \<open>Phases and tasks\<close>

definition PhaseNetwork :: string where "PhaseNetwork = ''network''"
definition PhaseMachines :: string where "PhaseMachines = ''machines''"
definition PhaseInstallDB :: string where "PhaseInstallDB = ''install_db''"
definition PhaseConfigureDB :: string where "PhaseConfigureDB = ''configure_db''"
definition PhaseInstallMonitor :: string where "PhaseInstallMonitor = ''install_monitor''"
definition PhaseConfigureMonitor :: string where "PhaseConfigureMonitor = ''configure_monitor''"
definition PhaseInstallStroppy :: string where "PhaseInstallStroppy = ''install_stroppy''"
definition PhaseRunStroppy :: string where "PhaseRunStroppy = ''run_stroppy''"
definition PhaseInstallEtcd :: string where "PhaseInstallEtcd = ''install_etcd''"
definition PhaseConfigureEtcd :: string where "PhaseConfigureEtcd = ''configure_etcd''"
definition PhaseInstallProxy :: string where "PhaseInstallProxy = ''install_proxy''"
definition PhaseConfigureProxy :: string where "PhaseConfigureProxy = ''configure_proxy''"
definition PhaseInstallPgBouncer :: string where "PhaseInstallPgBouncer = ''install_pgbouncer''"
definition PhaseConfigurePgBouncer :: string where "PhaseConfigurePgBouncer = ''configure_pgbouncer''"
definition PhaseInstallPatroni :: string where "PhaseInstallPatroni = ''install_patroni''"
definition PhaseConfigurePatroni :: string where "PhaseConfigurePatroni = ''configure_patroni''"
definition PhaseInitYDBCluster :: string where "PhaseInitYDBCluster = ''init_ydb_cluster''"
definition PhaseStartYDBDatabase :: string where "PhaseStartYDBDatabase = ''start_ydb_database''"
definition PhaseTeardown :: string where "PhaseTeardown = ''teardown''"

lemmas phase_defs = PhaseNetwork_def PhaseMachines_def PhaseInstallDB_def
  PhaseConfigureDB_def PhaseInstallMonitor_def PhaseConfigureMonitor_def
  PhaseInstallStroppy_def PhaseRunStroppy_def PhaseInstallEtcd_def
  PhaseConfigureEtcd_def PhaseInstallProxy_def PhaseConfigureProxy_def
  PhaseInstallPgBouncer_def PhaseConfigurePgBouncer_def PhaseInstallPatroni_def
  PhaseConfigurePatroni_def PhaseInitYDBCluster_def PhaseStartYDBDatabase_def
  PhaseTeardown_def

text \<open>The phases are pairwise different; from here on their text does not matter.\<close>

lemma phases_distinct:
  "distinct
    [PhaseNetwork, PhaseMachines, PhaseInstallDB, PhaseConfigureDB,
     PhaseInstallMonitor, PhaseConfigureMonitor, PhaseInstallStroppy, PhaseRunStroppy,
     PhaseInstallEtcd, PhaseConfigureEtcd, PhaseInstallProxy, PhaseConfigureProxy,
     PhaseInstallPgBouncer, PhaseConfigurePgBouncer, PhaseInstallPatroni, PhaseConfigurePatroni,
     PhaseInitYDBCluster, PhaseStartYDBDatabase, PhaseTeardown]"
  "distinct
    [PhaseTeardown, PhaseStartYDBDatabase, PhaseInitYDBCluster, PhaseConfigurePatroni,
     PhaseInstallPatroni, PhaseConfigurePgBouncer, PhaseInstallPgBouncer, PhaseConfigureProxy,
     PhaseInstallProxy, PhaseConfigureEtcd, PhaseInstallEtcd, PhaseRunStroppy,
     PhaseInstallStroppy, PhaseConfigureMonitor, PhaseInstallMonitor, PhaseConfigureDB,
     PhaseInstallDB, PhaseMachines, PhaseNetwork]"
  by (simp_all add: phase_defs)

lemmas phase_neq [simp] = phases_distinct [simplified]

datatype task =
    NetworkTask network_config string string
  | MachinesTask run_config string string
  | PgInstallTask string "postgres_topology option" "package option"
  | PgConfigTask string "postgres_topology option" options
  | MySQLInstallTask string "mysql_topology option" "package option"
  | MySQLConfigTask "mysql_topology option" options
  | PicoInstallTask string "picodata_topology option" "package option"
  | PicoConfigTask "picodata_topology option" options
  | YDBInstallTask string "ydb_topology option" "package option"
  | YDBConfigTask "ydb_topology option" options
  | YDBInitTask "ydb_topology option"
  | YDBStartDBTask "ydb_topology option" options
  | PatroniInstallTask
  | PatroniConfigTask string "postgres_topology option" options
  | NoopTask
  | EtcdInstallTask
  | EtcdConfigTask
  | MonitorInstallTask string
  | MonitorConfigTask monitor_config string string string string int
  | PgBouncerInstallTask
  | PgBouncerConfigTask "postgres_topology option" options
  | ProxyInstallTask string
  | ProxyConfigTask string "postgres_topology option" "mysql_topology option"
      "picodata_topology option" "ydb_topology option" options
  | StroppyInstallTask stroppy_config
  | StroppyRunTask stroppy_config stroppy_settings string string string string int
  | TeardownTask string

record deps =
  dp_server_addr :: string
  dp_monitoring_url :: string
  dp_monitoring_token :: string
  dp_account_id :: int
  dp_tenant_id :: string
  dp_parse_url :: "string \<Rightarrow> (string \<times> string) option"

record builder =
  b_graph :: "task graph"
  b_reg :: "task registry"
  b_stroppy_deps :: "string list"

datatype build_error = UnsupportedKind string | InvalidGraph dag_error

section \<open>Adding nodes\<close>

definition add_node :: "bool \<Rightarrow> bool \<Rightarrow> string \<Rightarrow> string list \<Rightarrow> task \<Rightarrow> builder \<Rightarrow> builder" where
  "add_node must always phase ds t b =
     b\<lparr>b_graph := (case graph_add (b_graph b) \<lparr>node_id = phase, node_type = phase, node_deps = ds,
            always_run = always, must_complete = must, node_task = Some t\<rparr> of
          Inl _ \<Rightarrow> b_graph b | Inr g \<Rightarrow> g),
       b_reg := reg_register (b_reg b) phase t\<rparr>"

definition b_add :: "string \<Rightarrow> string list \<Rightarrow> task \<Rightarrow> builder \<Rightarrow> builder" where
  "b_add = add_node False False"

definition b_add_must_complete :: "string \<Rightarrow> string list \<Rightarrow> task \<Rightarrow> builder \<Rightarrow> builder" where
  "b_add_must_complete = add_node True False"

definition b_add_always_run :: "string \<Rightarrow> string list \<Rightarrow> task \<Rightarrow> builder \<Rightarrow> builder" where
  "b_add_always_run = add_node False True"

definition b_stroppy_dep :: "string \<Rightarrow> builder \<Rightarrow> builder" where
  "b_stroppy_dep phase b = b\<lparr>b_stroppy_deps := b_stroppy_deps b @ [phase]\<rparr>"

section \<open>Conditional phases\<close>

definition needs_etcd :: "database_config \<Rightarrow> bool" where
  "needs_etcd db = (if db_kind db = DatabasePostgres
     then (case db_postgres db of None \<Rightarrow> False | Some t \<Rightarrow> pg_etcd t) else False)"

definition needs_patroni :: "database_config \<Rightarrow> bool" where
  "needs_patroni db = (if db_kind db = DatabasePostgres
     then (case db_postgres db of None \<Rightarrow> False | Some t \<Rightarrow> pg_patroni t) else False)"

definition needs_pgbouncer :: "database_config \<Rightarrow> bool" where
  "needs_pgbouncer db = (if db_kind db = DatabasePostgres
     then (case db_postgres db of None \<Rightarrow> False | Some t \<Rightarrow> pg_pgbouncer t) else False)"

definition needs_proxy :: "database_config \<Rightarrow> bool" where
  "needs_proxy db =
     (if db_kind db = DatabasePostgres then
        (case db_postgres db of None \<Rightarrow> False | Some t \<Rightarrow> pg_haproxy t \<noteq> None)
      else if db_kind db = DatabaseMySQL then
        (case db_mysql db of None \<Rightarrow> False | Some t \<Rightarrow> my_proxysql t \<noteq> None)
      else if db_kind db = DatabasePicodata then
        (case db_picodata db of None \<Rightarrow> False | Some t \<Rightarrow> pico_haproxy t \<noteq> None)
      else if db_kind db = DatabaseYDB then
        (case db_ydb db of None \<Rightarrow> False | Some t \<Rightarrow> ydb_haproxy t \<noteq> None)
      else False)"

definition needs_ydb_init :: "database_config \<Rightarrow> bool" where
  "needs_ydb_init db = (db_kind db = DatabaseYDB \<and> db_ydb db \<noteq> None)"

definition add_ydb_phases :: "run_config \<Rightarrow> builder \<Rightarrow> builder" where
  "add_ydb_phases cfg b =
     (let db = rc_database cfg;
          b = b_add PhaseInitYDBCluster [PhaseConfigureDB] (YDBInitTask (db_ydb db)) b;
          b = b_add PhaseStartYDBDatabase [PhaseInitYDBCluster]
                (YDBStartDBTask (db_ydb db) (db_rendered_overrides db)) b
      in b_stroppy_dep PhaseStartYDBDatabase b)"

definition add_etcd :: "string list \<Rightarrow> builder \<Rightarrow> builder" where
  "add_etcd after b =
     b_add PhaseConfigureEtcd [PhaseInstallEtcd] EtcdConfigTask
       (b_add PhaseInstallEtcd after EtcdInstallTask b)"

definition add_pgbouncer :: "run_config \<Rightarrow> string list \<Rightarrow> builder \<Rightarrow> builder" where
  "add_pgbouncer cfg after b =
     (let db = rc_database cfg;
          b = b_add PhaseInstallPgBouncer after PgBouncerInstallTask b;
          b = b_add PhaseConfigurePgBouncer [PhaseInstallPgBouncer, PhaseConfigureDB]
                (PgBouncerConfigTask (db_postgres db) (db_rendered_overrides db)) b
      in b_stroppy_dep PhaseConfigurePgBouncer b)"

definition add_proxy :: "run_config \<Rightarrow> string list \<Rightarrow> builder \<Rightarrow> builder" where
  "add_proxy cfg after b =
     (let db = rc_database cfg;
          b = b_add PhaseInstallProxy after (ProxyInstallTask (db_kind db)) b;
          b = b_add PhaseConfigureProxy [PhaseInstallProxy, PhaseConfigureDB]
                (ProxyConfigTask (db_kind db) (db_postgres db) (db_mysql db) (db_picodata db)
                  (db_ydb db) (db_rendered_overrides db)) b
      in b_stroppy_dep PhaseConfigureProxy b)"

definition db_tasks :: "run_config \<Rightarrow> build_error + (task \<times> task)" where
  "db_tasks cfg =
     (let db = rc_database cfg; pkg = rc_resolved_package cfg; ov = db_rendered_overrides db in
      if db_kind db = DatabasePostgres then
        Inr (PgInstallTask (db_version db) (db_postgres db) pkg,
             PgConfigTask (db_version db) (db_postgres db) ov)
      else if db_kind db = DatabaseMySQL then
        Inr (MySQLInstallTask (db_version db) (db_mysql db) pkg, MySQLConfigTask (db_mysql db) ov)
      else if db_kind db = DatabasePicodata then
        Inr (PicoInstallTask (db_version db) (db_picodata db) pkg, PicoConfigTask (db_picodata db) ov)
      else if db_kind db = DatabaseYDB then
        Inr (YDBInstallTask (db_version db) (db_ydb db) pkg, YDBConfigTask (db_ydb db) ov)
      else Inl (UnsupportedKind (db_kind db)))"

section \<open>Build\<close>

definition after_machines :: "string list" where
  "after_machines = [PhaseMachines]"

definition add_infrastructure :: "run_config \<Rightarrow> deps \<Rightarrow> builder \<Rightarrow> builder" where
  "add_infrastructure cfg dp b =
     b_add_must_complete PhaseMachines [PhaseNetwork]
       (MachinesTask cfg (dp_server_addr dp) (dp_tenant_id dp))
       (b_add_must_complete PhaseNetwork []
          (NetworkTask (rc_network cfg) (rc_provider cfg) (rc_id cfg)) b)"

definition config_db_deps :: "run_config \<Rightarrow> string list" where
  "config_db_deps cfg = [PhaseInstallDB] @
     (if needs_etcd (rc_database cfg) then [PhaseConfigureEtcd] else [])"

definition add_database :: "run_config \<Rightarrow> task \<Rightarrow> task \<Rightarrow> builder \<Rightarrow> builder" where
  "add_database cfg install config b =
     (let db = rc_database cfg;
          b = b_add PhaseInstallDB after_machines install b
      in if needs_patroni db then
           b_add PhaseConfigureDB [PhaseConfigurePatroni] NoopTask
             (b_add PhaseConfigurePatroni (config_db_deps cfg @ [PhaseInstallPatroni])
                (PatroniConfigTask (db_version db) (db_postgres db) (db_rendered_overrides db))
                (b_add PhaseInstallPatroni after_machines PatroniInstallTask b))
         else b_add PhaseConfigureDB (config_db_deps cfg) config b)"

definition add_monitoring :: "run_config \<Rightarrow> deps \<Rightarrow> builder \<Rightarrow> builder" where
  "add_monitoring cfg dp b =
     (let kind = db_kind (rc_database cfg) in
      b_add PhaseConfigureMonitor
        ([PhaseInstallMonitor, PhaseConfigureDB] @
           (if needs_ydb_init (rc_database cfg) then [PhaseStartYDBDatabase] else []))
        (MonitorConfigTask (rc_monitor cfg) (rc_id cfg) kind (dp_monitoring_url dp)
           (dp_monitoring_token dp) (dp_account_id dp))
        (b_add PhaseInstallMonitor after_machines (MonitorInstallTask kind) b))"

definition run_stroppy_settings :: "run_config \<Rightarrow> deps \<Rightarrow> stroppy_settings" where
  "run_stroppy_settings cfg dp =
     (let s = default_stroppy_settings\<lparr>so_metric_prefix :=
            map (\<lambda>c. if c = CHR ''-'' then CHR ''_'' else c) (rc_id cfg) @ ''_''\<rparr>
      in if dp_monitoring_url dp \<noteq> []
         then set_from_monitoring_url (dp_parse_url dp) (dp_monitoring_url dp)
                (dp_monitoring_token dp) (dp_account_id dp) s
         else s)"

definition add_stroppy :: "run_config \<Rightarrow> deps \<Rightarrow> builder \<Rightarrow> builder" where
  "add_stroppy cfg dp b =
     (let b = b_add PhaseInstallStroppy after_machines (StroppyInstallTask (rc_stroppy cfg)) b;
          b = b_stroppy_dep PhaseInstallStroppy (b_stroppy_dep PhaseConfigureMonitor
                (b_stroppy_dep PhaseConfigureDB b))
      in b_add PhaseRunStroppy (b_stroppy_deps b)
           (StroppyRunTask (rc_stroppy cfg) (run_stroppy_settings cfg dp) (db_kind (rc_database cfg))
              (rc_id cfg) (dp_monitoring_url dp) (dp_monitoring_token dp) (dp_account_id dp)) b)"

text \<open>The builder when \<open>build\<close> reaches its call of \<open>Validate\<close>.\<close>

definition build_nodes :: "run_config \<Rightarrow> deps \<Rightarrow> build_error + builder" where
  "build_nodes cfg dp =
     (let db = rc_database cfg;
          b = \<lparr>b_graph = graph_new, b_reg = Map.empty, b_stroppy_deps = []\<rparr>;
          b = add_infrastructure cfg dp b;
          b = (if needs_etcd db then add_etcd after_machines b else b)
      in case db_tasks cfg of
           Inl e \<Rightarrow> Inl e
         | Inr (install, config) \<Rightarrow>
             (let b = add_database cfg install config b;
                  b = add_monitoring cfg dp b;
                  b = (if needs_pgbouncer db then add_pgbouncer cfg after_machines b else b);
                  b = (if needs_proxy db then add_proxy cfg after_machines b else b);
                  b = (if needs_ydb_init db then add_ydb_phases cfg b else b);
                  b = add_stroppy cfg dp b
              in Inr (b_add_always_run PhaseTeardown [PhaseRunStroppy]
                       (TeardownTask (rc_provider cfg)) b)))"

definition build :: "run_config \<Rightarrow> deps \<Rightarrow> string list \<Rightarrow> build_error + (task graph \<times> task registry)" where
  "build cfg dp order =
     (case build_nodes cfg dp of
        Inl e \<Rightarrow> Inl e
      | Inr b \<Rightarrow>
          (case graph_validate (b_graph b) order of
             Some e \<Rightarrow> Inl (InvalidGraph e)
           | None \<Rightarrow> Inr (b_graph b, b_reg b)))"

section \<open>The shape of the graph\<close>

text \<open>A node without its task: id, dependencies, \<open>AlwaysRun\<close>, \<open>MustComplete\<close>.\<close>

type_synonym shape = "string \<times> string list \<times> bool \<times> bool"

definition shape_of :: "'t node \<Rightarrow> shape" where
  "shape_of n = (node_id n, node_deps n, always_run n, must_complete n)"

definition b_shape :: "builder \<Rightarrow> shape list" where
  "b_shape b = map shape_of (g_nodes (b_graph b))"

definition add_shape :: "shape \<Rightarrow> shape list \<Rightarrow> shape list" where
  "add_shape x xs = (if list_ex (\<lambda>y. fst y = fst x) xs then xs else xs @ [x])"

lemma b_shape_add:
  "b_shape (add_node must always phase ds t b) = add_shape (phase, ds, always, must) (b_shape b)"
  by (auto simp: b_shape_def add_node_def add_shape_def graph_add_def shape_of_def list_ex_iff
      split: sum.split)

lemma b_shape_stroppy_dep [simp]: "b_shape (b_stroppy_dep p b) = b_shape b"
  by (simp add: b_shape_def b_stroppy_dep_def)

lemma b_deps_add [simp]: "b_stroppy_deps (add_node must always phase ds t b) = b_stroppy_deps b"
  by (simp add: add_node_def)

lemma b_deps_dep [simp]: "b_stroppy_deps (b_stroppy_dep p b) = b_stroppy_deps b @ [p]"
  by (simp add: b_stroppy_dep_def)

definition only_if :: "bool \<Rightarrow> 'a list \<Rightarrow> 'a list" where
  "only_if c xs = (if c then xs else [])"

text \<open>The nodes a run has, as a function of its five optional parts.\<close>

definition expected_shape :: "bool \<Rightarrow> bool \<Rightarrow> bool \<Rightarrow> bool \<Rightarrow> bool \<Rightarrow> shape list" where
  "expected_shape etcd patroni pgb proxy ydb =
     [(PhaseNetwork, [], False, True), (PhaseMachines, [PhaseNetwork], False, True)] @
     only_if etcd [(PhaseInstallEtcd, [PhaseMachines], False, False),
       (PhaseConfigureEtcd, [PhaseInstallEtcd], False, False)] @
     [(PhaseInstallDB, [PhaseMachines], False, False)] @
     (if patroni then
        [(PhaseInstallPatroni, [PhaseMachines], False, False),
         (PhaseConfigurePatroni, [PhaseInstallDB] @ only_if etcd [PhaseConfigureEtcd] @ [PhaseInstallPatroni],
            False, False),
         (PhaseConfigureDB, [PhaseConfigurePatroni], False, False)]
      else [(PhaseConfigureDB, [PhaseInstallDB] @ only_if etcd [PhaseConfigureEtcd], False, False)]) @
     [(PhaseInstallMonitor, [PhaseMachines], False, False),
      (PhaseConfigureMonitor, [PhaseInstallMonitor, PhaseConfigureDB] @ only_if ydb [PhaseStartYDBDatabase],
         False, False)] @
     only_if pgb [(PhaseInstallPgBouncer, [PhaseMachines], False, False),
       (PhaseConfigurePgBouncer, [PhaseInstallPgBouncer, PhaseConfigureDB], False, False)] @
     only_if proxy [(PhaseInstallProxy, [PhaseMachines], False, False),
       (PhaseConfigureProxy, [PhaseInstallProxy, PhaseConfigureDB], False, False)] @
     only_if ydb [(PhaseInitYDBCluster, [PhaseConfigureDB], False, False),
       (PhaseStartYDBDatabase, [PhaseInitYDBCluster], False, False)] @
     [(PhaseInstallStroppy, [PhaseMachines], False, False),
      (PhaseRunStroppy, only_if pgb [PhaseConfigurePgBouncer] @ only_if proxy [PhaseConfigureProxy] @
         only_if ydb [PhaseStartYDBDatabase] @
         [PhaseConfigureDB, PhaseConfigureMonitor, PhaseInstallStroppy], False, False),
      (PhaseTeardown, [PhaseRunStroppy], True, False)]"

lemmas builder_ops = b_add_def b_add_must_complete_def b_add_always_run_def add_infrastructure_def
  add_etcd_def add_database_def add_monitoring_def add_pgbouncer_def add_proxy_def add_ydb_phases_def
  add_stroppy_def config_db_deps_def after_machines_def

lemma b_shape_new [simp]: "b_shape \<lparr>b_graph = graph_new, b_reg = r, b_stroppy_deps = d\<rparr> = []"
  by (simp add: b_shape_def graph_new_def)

lemma add_shape_fresh:
  "list_all (\<lambda>y. fst y \<noteq> fst x) xs \<Longrightarrow> add_shape x xs = xs @ [x]"
  by (auto simp: add_shape_def list_ex_iff list_all_iff)

lemma build_nodes_shape:
  assumes "db_tasks cfg = Inr tasks"
  shows "\<exists>b. build_nodes cfg dp = Inr b \<and>
    b_shape b = expected_shape (needs_etcd (rc_database cfg)) (needs_patroni (rc_database cfg))
      (needs_pgbouncer (rc_database cfg)) (needs_proxy (rc_database cfg)) (needs_ydb_init (rc_database cfg))"
  using assms
  by (cases "needs_etcd (rc_database cfg)"; cases "needs_patroni (rc_database cfg)";
      cases "needs_pgbouncer (rc_database cfg)"; cases "needs_proxy (rc_database cfg)";
      cases "needs_ydb_init (rc_database cfg)")
    (simp_all add: build_nodes_def Let_def builder_ops b_shape_add add_shape_fresh
      expected_shape_def only_if_def split: prod.split)

end
