(* ===== verification/BuilderProps.thy ===== *)
theory BuilderProps
  imports Builder
begin

text \<open>
  What \<open>Build\<close> guarantees for every configuration: the graph is valid whatever the map order,
  infrastructure is the only part that must complete and teardown the only part that always runs,
  the load test comes after everything else, and the registry restores the graph after a restart.
\<close>

section \<open>The built graph is ranked\<close>

definition built_graph :: "run_config \<Rightarrow> deps \<Rightarrow> task graph" where
  "built_graph cfg dp = (case build_nodes cfg dp of Inl _ \<Rightarrow> graph_new | Inr b \<Rightarrow> b_graph b)"

definition build_rank :: "string \<Rightarrow> nat" where
  "build_rank p =
     (case map_of [(PhaseNetwork, 0), (PhaseMachines, 1), (PhaseInstallDB, 2), (PhaseInstallEtcd, 2),
        (PhaseInstallMonitor, 2), (PhaseInstallProxy, 2), (PhaseInstallPgBouncer, 2),
        (PhaseInstallPatroni, 2), (PhaseInstallStroppy, 2), (PhaseConfigureEtcd, 3),
        (PhaseConfigurePatroni, 4), (PhaseConfigureDB, 5), (PhaseConfigureProxy, 6),
        (PhaseConfigurePgBouncer, 6), (PhaseInitYDBCluster, 6), (PhaseStartYDBDatabase, 7),
        (PhaseConfigureMonitor, 8), (PhaseRunStroppy, 9), (PhaseTeardown, 10 :: nat)] p of
        None \<Rightarrow> 0 | Some r \<Rightarrow> r)"

lemma expected_ranked:
  "list_all (\<lambda>(p, ds, a, m). list_all (\<lambda>d. d \<in> fst ` set (expected_shape etcd patroni pgb proxy ydb) \<and>
      build_rank d < build_rank p) ds) (expected_shape etcd patroni pgb proxy ydb)"
  by (cases etcd; cases patroni; cases pgb; cases proxy; cases ydb)
    (simp_all add: expected_shape_def only_if_def build_rank_def)

lemma expected_distinct: "distinct (map fst (expected_shape etcd patroni pgb proxy ydb))"
  by (cases etcd; cases patroni; cases pgb; cases proxy; cases ydb)
    (simp_all add: expected_shape_def only_if_def)

text \<open>Every node but the last two has a dependent other than the teardown.\<close>

lemma expected_cases:
  assumes "(p, ds, a, m) \<in> set (expected_shape etcd patroni pgb proxy ydb)"
  shows "p \<in> {PhaseRunStroppy, PhaseTeardown} \<or> p = PhaseNetwork \<or> p = PhaseMachines \<or>
    p = PhaseInstallDB \<or> p = PhaseConfigureDB \<or> p = PhaseInstallMonitor \<or> p = PhaseConfigureMonitor \<or>
    p = PhaseInstallStroppy \<or> etcd \<and> p = PhaseInstallEtcd \<or> etcd \<and> p = PhaseConfigureEtcd \<or>
    patroni \<and> p = PhaseInstallPatroni \<or> patroni \<and> p = PhaseConfigurePatroni \<or>
    pgb \<and> p = PhaseInstallPgBouncer \<or> pgb \<and> p = PhaseConfigurePgBouncer \<or>
    proxy \<and> p = PhaseInstallProxy \<or> proxy \<and> p = PhaseConfigureProxy \<or>
    ydb \<and> p = PhaseInitYDBCluster \<or> ydb \<and> p = PhaseStartYDBDatabase"
  using assms unfolding expected_shape_def only_if_def by (simp split: if_splits) blast+

text \<open>The dependencies that lead back from the load test.\<close>

definition dependent :: "shape list \<Rightarrow> string \<Rightarrow> string \<Rightarrow> bool" where
  "dependent xs q p \<longleftrightarrow> q \<noteq> PhaseTeardown \<and> list_ex (\<lambda>(x, es, a, m). x = q \<and> p \<in> set es) xs"

lemma expected_edges:
  shows "dependent (expected_shape etcd patroni pgb proxy ydb) PhaseMachines PhaseNetwork" "dependent (expected_shape etcd patroni pgb proxy ydb) PhaseInstallDB PhaseMachines"
    "dependent (expected_shape etcd patroni pgb proxy ydb) PhaseConfigureMonitor PhaseConfigureDB" "dependent (expected_shape etcd patroni pgb proxy ydb) PhaseConfigureMonitor PhaseInstallMonitor"
    "dependent (expected_shape etcd patroni pgb proxy ydb) PhaseRunStroppy PhaseConfigureMonitor" "dependent (expected_shape etcd patroni pgb proxy ydb) PhaseRunStroppy PhaseInstallStroppy"
    "etcd \<Longrightarrow> dependent (expected_shape etcd patroni pgb proxy ydb) PhaseConfigureEtcd PhaseInstallEtcd"
    "patroni \<Longrightarrow> dependent (expected_shape etcd patroni pgb proxy ydb) PhaseConfigurePatroni PhaseInstallPatroni"
    "patroni \<Longrightarrow> dependent (expected_shape etcd patroni pgb proxy ydb) PhaseConfigureDB PhaseConfigurePatroni"
    "patroni \<Longrightarrow> dependent (expected_shape etcd patroni pgb proxy ydb) PhaseConfigurePatroni PhaseInstallDB"
    "\<not> patroni \<Longrightarrow> dependent (expected_shape etcd patroni pgb proxy ydb) PhaseConfigureDB PhaseInstallDB"
    "patroni \<Longrightarrow> etcd \<Longrightarrow> dependent (expected_shape etcd patroni pgb proxy ydb) PhaseConfigurePatroni PhaseConfigureEtcd"
    "\<not> patroni \<Longrightarrow> etcd \<Longrightarrow> dependent (expected_shape etcd patroni pgb proxy ydb) PhaseConfigureDB PhaseConfigureEtcd"
    "pgb \<Longrightarrow> dependent (expected_shape etcd patroni pgb proxy ydb) PhaseConfigurePgBouncer PhaseInstallPgBouncer"
    "pgb \<Longrightarrow> dependent (expected_shape etcd patroni pgb proxy ydb) PhaseRunStroppy PhaseConfigurePgBouncer"
    "proxy \<Longrightarrow> dependent (expected_shape etcd patroni pgb proxy ydb) PhaseConfigureProxy PhaseInstallProxy"
    "proxy \<Longrightarrow> dependent (expected_shape etcd patroni pgb proxy ydb) PhaseRunStroppy PhaseConfigureProxy"
    "ydb \<Longrightarrow> dependent (expected_shape etcd patroni pgb proxy ydb) PhaseStartYDBDatabase PhaseInitYDBCluster"
    "ydb \<Longrightarrow> dependent (expected_shape etcd patroni pgb proxy ydb) PhaseRunStroppy PhaseStartYDBDatabase"
  unfolding dependent_def expected_shape_def only_if_def by simp_all

lemma expected_covered:
  assumes "(p, ds, a, m) \<in> set (expected_shape etcd patroni pgb proxy ydb)"
    and "p \<notin> {PhaseRunStroppy, PhaseTeardown}"
  shows "\<exists>q. dependent (expected_shape etcd patroni pgb proxy ydb) q p"
  using expected_cases [OF assms(1)] assms(2)
  by (cases patroni) (elim disjE conjE; blast intro: expected_edges)+

lemma expected_flags:
  "list_all (\<lambda>(p, ds, always, must). (always \<longleftrightarrow> p = PhaseTeardown) \<and>
      (must \<longleftrightarrow> p \<in> {PhaseNetwork, PhaseMachines})) (expected_shape etcd patroni pgb proxy ydb)"
  by (cases etcd; cases patroni; cases pgb; cases proxy; cases ydb)
    (simp_all add: expected_shape_def only_if_def)

lemma expected_rank_le:
  "list_all (\<lambda>(p, ds, a, m). p \<in> {PhaseRunStroppy, PhaseTeardown} \<or> build_rank p < 9)
     (expected_shape etcd patroni pgb proxy ydb)"
  by (cases etcd; cases patroni; cases pgb; cases proxy; cases ydb)
    (simp_all add: expected_shape_def only_if_def build_rank_def)

lemma built_graph_shape:
  "g_nodes (built_graph cfg dp) = [] \<or>
   (\<exists>etcd patroni pgb proxy ydb.
      map shape_of (g_nodes (built_graph cfg dp)) = expected_shape etcd patroni pgb proxy ydb)"
proof (cases "db_tasks cfg")
  case (Inl e)
  then have "build_nodes cfg dp = Inl e" by (simp add: build_nodes_def Let_def)
  then show ?thesis by (simp add: built_graph_def graph_new_def)
next
  case (Inr tasks)
  from build_nodes_shape [OF Inr] obtain b where "build_nodes cfg dp = Inr b"
    "\<exists>e p g x y. b_shape b = expected_shape e p g x y" by blast
  then show ?thesis by (auto simp: built_graph_def b_shape_def)
qed

lemma node_ids_shape: "node_ids g = map fst (map shape_of (g_nodes g))"
  by (simp add: node_ids_def shape_of_def)

text \<open>A statement about all nodes of a built graph, by its shapes.\<close>

lemma built_node_cases:
  assumes "n \<in> set (g_nodes (built_graph cfg dp))"
  obtains etcd patroni pgb proxy ydb where
    "shape_of n \<in> set (expected_shape etcd patroni pgb proxy ydb)"
    "map shape_of (g_nodes (built_graph cfg dp)) = expected_shape etcd patroni pgb proxy ydb"
proof -
  obtain e p g x y where s: "map shape_of (g_nodes (built_graph cfg dp)) = expected_shape e p g x y"
    using built_graph_shape [of cfg dp] assms by auto
  have "shape_of n \<in> set (map shape_of (g_nodes (built_graph cfg dp)))" using assms by simp
  then show ?thesis using that s by metis
qed

lemma built_ids: "distinct (node_ids (built_graph cfg dp))"
  using built_graph_shape [of cfg dp] expected_distinct
  unfolding node_ids_shape by (metis distinct.simps(1) list.simps(8))

interpretation built: ranked_graph "built_graph cfg dp" build_rank for cfg dp
proof (unfold_locales, goal_cases)
  case (1 n d)
  from built_node_cases [OF 1(1)] obtain e p g x y where
    s: "shape_of n \<in> set (expected_shape e p g x y)"
      "map shape_of (g_nodes (built_graph cfg dp)) = expected_shape e p g x y" by metis
  show ?case
    using bspec [OF expected_ranked [unfolded list_all_iff] s(1)] 1(2)
    unfolding node_ids_shape s(2) by (simp add: shape_of_def list_all_iff)
next
  case (2 n d)
  from built_node_cases [OF 2(1)] obtain e p g x y where
    s: "shape_of n \<in> set (expected_shape e p g x y)" by metis
  show ?case
    using bspec [OF expected_ranked [unfolded list_all_iff] s] 2(2)
    by (simp add: shape_of_def list_all_iff)
qed

section \<open>Build succeeds\<close>

definition supported_kinds :: "string list" where
  "supported_kinds = [DatabasePostgres, DatabaseMySQL, DatabasePicodata, DatabaseYDB]"

lemma db_tasks_supported:
  "(\<exists>tasks. db_tasks cfg = Inr tasks) \<longleftrightarrow> db_kind (rc_database cfg) \<in> set supported_kinds"
  by (simp add: db_tasks_def supported_kinds_def Let_def)

lemma db_tasks_unsupported:
  "db_kind (rc_database cfg) \<notin> set supported_kinds \<Longrightarrow>
     db_tasks cfg = Inl (UnsupportedKind (db_kind (rc_database cfg)))"
  by (simp add: db_tasks_def supported_kinds_def Let_def)

lemma build_ok:
  assumes "db_kind (rc_database cfg) \<in> set supported_kinds"
  shows "\<exists>b. build_nodes cfg dp = Inr b \<and> b_graph b = built_graph cfg dp \<and>
    (\<forall>order. map_order (built_graph cfg dp) order \<longrightarrow> build cfg dp order = Inr (built_graph cfg dp, b_reg b))"
proof -
  obtain tasks where "db_tasks cfg = Inr tasks" using assms db_tasks_supported by blast
  from build_nodes_shape [OF this] obtain b where b: "build_nodes cfg dp = Inr b" by blast
  then have g: "b_graph b = built_graph cfg dp" by (simp add: built_graph_def)
  then show ?thesis using b built.valid [of cfg dp] by (simp add: build_def)
qed

text \<open>
  C19. \<open>Build\<close> returns a graph for every configuration of a supported database kind, whatever
  optional components it has and whatever order Go's map has: it never reports an invalid graph.
  Every other kind is refused by name.
\<close>

theorem build_total:
  "if db_kind (rc_database cfg) \<in> set supported_kinds
   then \<forall>order. map_order (built_graph cfg dp) order \<longrightarrow>
     (\<exists>r. build cfg dp order = Inr (built_graph cfg dp, r))
   else \<forall>order. build cfg dp order = Inl (UnsupportedKind (db_kind (rc_database cfg)))"
proof (cases "db_kind (rc_database cfg) \<in> set supported_kinds")
  case True
  then show ?thesis using build_ok [OF True, of dp] by auto
next
  case False
  then show ?thesis
    using db_tasks_unsupported [OF False] by (simp add: build_def build_nodes_def Let_def)
qed

definition sample_deps :: deps where
  "sample_deps = \<lparr>dp_server_addr = ''srv'', dp_monitoring_url = [], dp_monitoring_token = [],
     dp_account_id = 1, dp_tenant_id = ''t'', dp_parse_url = (\<lambda>_. None)\<rparr>"

definition sample_built_order :: "string list" where
  "sample_built_order = node_ids (built_graph (sample_cfg None) sample_deps)"

lemma build_total_witness:
  "\<exists>r. build (sample_cfg None) sample_deps sample_built_order =
     Inr (built_graph (sample_cfg None) sample_deps, r)"
proof -
  have "db_kind (rc_database (sample_cfg None)) \<in> set supported_kinds"
    by (simp add: sample_cfg_def sample_db_def supported_kinds_def)
  moreover have "map_order (built_graph (sample_cfg None) sample_deps) sample_built_order"
    by (simp add: map_order_def sample_built_order_def built_ids)
  ultimately show ?thesis using build_total [of "sample_cfg None" sample_deps] by simp
qed

section \<open>The load test comes last\<close>

lemma built_edge:
  assumes "n \<in> set (g_nodes (built_graph cfg dp))" and "d \<in> set (node_deps n)"
  shows "(node_id n, d) \<in> dep_edges (graph_index (built_graph cfg dp))"
  using assms graph_index_distinct [OF built_ids] by (intro dep_edgesI)

lemma built_covered:
  assumes "n \<in> set (g_nodes (built_graph cfg dp))" and "node_id n \<notin> {PhaseRunStroppy, PhaseTeardown}"
  shows "\<exists>m \<in> set (g_nodes (built_graph cfg dp)). node_id n \<in> set (node_deps m) \<and> node_id m \<noteq> PhaseTeardown"
proof -
  from built_node_cases [OF assms(1)] obtain e p g x y where
    s: "shape_of n \<in> set (expected_shape e p g x y)"
      "map shape_of (g_nodes (built_graph cfg dp)) = expected_shape e p g x y" by metis
  from expected_covered [OF s(1) [unfolded shape_of_def] assms(2)]
  obtain q es a m where t: "(q, es, a, m) \<in> set (expected_shape e p g x y)"
    "node_id n \<in> set es" "q \<noteq> PhaseTeardown" by (auto simp: dependent_def list_ex_iff)
  then have "(q, es, a, m) \<in> shape_of ` set (g_nodes (built_graph cfg dp))" using s(2) by (metis list.set_map)
  then show ?thesis using t(2,3) by (auto simp: shape_of_def)
qed

lemma load_last:
  assumes "n \<in> set (g_nodes (built_graph cfg dp))" and "node_id n \<notin> {PhaseRunStroppy, PhaseTeardown}"
  shows "(PhaseRunStroppy, node_id n) \<in> (dep_edges (graph_index (built_graph cfg dp)))\<^sup>+"
  using assms
proof (induction "9 - build_rank (node_id n)" arbitrary: n rule: less_induct)
  case less
  obtain m where m: "m \<in> set (g_nodes (built_graph cfg dp))" "node_id n \<in> set (node_deps m)"
    "node_id m \<noteq> PhaseTeardown"
    using built_covered [OF less.prems] by blast
  note edge = built_edge [OF m(1,2)]
  show ?case
  proof (cases "node_id m = PhaseRunStroppy")
    case True
    then show ?thesis using edge by auto
  next
    case False
    from built_node_cases [OF less.prems(1)] obtain e p g x y where
      s: "shape_of n \<in> set (expected_shape e p g x y)" by metis
    have "build_rank (node_id n) < 9"
      using bspec [OF expected_rank_le [unfolded list_all_iff] s] less.prems(2)
      by (simp add: shape_of_def)
    moreover have "build_rank (node_id n) < build_rank (node_id m)" using built.dep_rank m(1,2) .
    ultimately have "9 - build_rank (node_id m) < 9 - build_rank (node_id n)" by simp
    from less.hyps [OF this m(1)] False m(3)
    have "(PhaseRunStroppy, node_id m) \<in> (dep_edges (graph_index (built_graph cfg dp)))\<^sup>+" by simp
    then show ?thesis using edge by (rule trancl_into_trancl)
  qed
qed

text \<open>
  C20. In every built graph the load test depends, directly or not, on every other node but the
  teardown; the teardown is the only node that always runs, and network and machines the only ones
  that must complete.
\<close>

theorem load_after_everything:
  assumes "n \<in> set (g_nodes (built_graph cfg dp))"
  shows "(node_id n \<notin> {PhaseRunStroppy, PhaseTeardown} \<longrightarrow>
      (PhaseRunStroppy, node_id n) \<in> (dep_edges (graph_index (built_graph cfg dp)))\<^sup>+) \<and>
    (always_run n \<longleftrightarrow> node_id n = PhaseTeardown) \<and>
    (must_complete n \<longleftrightarrow> node_id n \<in> {PhaseNetwork, PhaseMachines})"
proof -
  from built_node_cases [OF assms] obtain e p g x y where
    s: "shape_of n \<in> set (expected_shape e p g x y)" by metis
  have "(always_run n \<longleftrightarrow> node_id n = PhaseTeardown) \<and>
      (must_complete n \<longleftrightarrow> node_id n \<in> {PhaseNetwork, PhaseMachines})"
    using bspec [OF expected_flags [unfolded list_all_iff] s] by (simp add: shape_of_def)
  then show ?thesis using load_last [OF assms] by blast
qed

lemma sample_shape:
  "map shape_of (g_nodes (built_graph (sample_cfg None) sample_deps)) =
     expected_shape False False False False True"
proof -
  have "\<exists>tasks. db_tasks (sample_cfg None) = Inr tasks"
    unfolding db_tasks_supported by (simp add: sample_cfg_def sample_db_def supported_kinds_def)
  then obtain tasks where "db_tasks (sample_cfg None) = Inr tasks" by blast
  from build_nodes_shape [OF this, of sample_deps] obtain b where
    "build_nodes (sample_cfg None) sample_deps = Inr b"
    "b_shape b = expected_shape (needs_etcd sample_db) (needs_patroni sample_db)
      (needs_pgbouncer sample_db) (needs_proxy sample_db) (needs_ydb_init sample_db)"
    by (auto simp: sample_cfg_def)
  moreover have "needs_etcd sample_db = False" "needs_patroni sample_db = False"
    "needs_pgbouncer sample_db = False" "needs_proxy sample_db = False" "needs_ydb_init sample_db = True"
    by (simp_all add: needs_etcd_def needs_patroni_def needs_pgbouncer_def needs_proxy_def
        needs_ydb_init_def sample_db_def ydb_presets_def ydb_topology_of_def)
  ultimately show ?thesis by (simp add: built_graph_def b_shape_def)
qed

lemma load_after_everything_witness:
  "(PhaseRunStroppy, PhaseInitYDBCluster) \<in>
     (dep_edges (graph_index (built_graph (sample_cfg None) sample_deps)))\<^sup>+"
proof -
  have "PhaseInitYDBCluster \<in> set (map fst (map shape_of (g_nodes (built_graph (sample_cfg None) sample_deps))))"
    unfolding sample_shape by (simp add: expected_shape_def only_if_def)
  then obtain n where n: "n \<in> set (g_nodes (built_graph (sample_cfg None) sample_deps))"
    "node_id n = PhaseInitYDBCluster"
    by (auto simp: shape_of_def)
  then show ?thesis using load_after_everything [OF n(1)] by simp
qed

section \<open>The registry restores the graph\<close>

definition reg_ok :: "builder \<Rightarrow> bool" where
  "reg_ok b \<longleftrightarrow> (\<forall>n \<in> set (g_nodes (b_graph b)). node_type n = node_id n \<and>
     node_task n = b_reg b (node_id n) \<and> b_reg b (node_id n) \<noteq> None)"

text \<open>
  Each phase has one task, so both the node and the registry entry of a phase hold it.
\<close>

definition phase_tasks :: "run_config \<Rightarrow> deps \<Rightarrow> task \<Rightarrow> task \<Rightarrow> (string \<times> task) list" where
  "phase_tasks cfg dp install config =
     (let db = rc_database cfg; kind = db_kind db; ov = db_rendered_overrides db in
      [(PhaseNetwork, NetworkTask (rc_network cfg) (rc_provider cfg) (rc_id cfg)),
       (PhaseMachines, MachinesTask cfg (dp_server_addr dp) (dp_tenant_id dp)),
       (PhaseInstallEtcd, EtcdInstallTask), (PhaseConfigureEtcd, EtcdConfigTask),
       (PhaseInstallDB, install), (PhaseConfigureDB, if needs_patroni db then NoopTask else config),
       (PhaseInstallPatroni, PatroniInstallTask),
       (PhaseConfigurePatroni, PatroniConfigTask (db_version db) (db_postgres db) ov),
       (PhaseInstallMonitor, MonitorInstallTask kind),
       (PhaseConfigureMonitor, MonitorConfigTask (rc_monitor cfg) (rc_id cfg) kind (dp_monitoring_url dp)
          (dp_monitoring_token dp) (dp_account_id dp)),
       (PhaseInstallPgBouncer, PgBouncerInstallTask),
       (PhaseConfigurePgBouncer, PgBouncerConfigTask (db_postgres db) ov),
       (PhaseInstallProxy, ProxyInstallTask kind),
       (PhaseConfigureProxy, ProxyConfigTask kind (db_postgres db) (db_mysql db) (db_picodata db)
          (db_ydb db) ov),
       (PhaseInitYDBCluster, YDBInitTask (db_ydb db)),
       (PhaseStartYDBDatabase, YDBStartDBTask (db_ydb db) ov),
       (PhaseInstallStroppy, StroppyInstallTask (rc_stroppy cfg)),
       (PhaseRunStroppy, StroppyRunTask (rc_stroppy cfg) (run_stroppy_settings cfg dp) kind (rc_id cfg)
          (dp_monitoring_url dp) (dp_monitoring_token dp) (dp_account_id dp)),
       (PhaseTeardown, TeardownTask (rc_provider cfg))])"

lemma phase_task_at:
  "map_of (phase_tasks cfg dp install config) PhaseNetwork = Some (NetworkTask (rc_network cfg)
    (rc_provider cfg) (rc_id cfg))"
  "map_of (phase_tasks cfg dp install config) PhaseMachines = Some (MachinesTask cfg (dp_server_addr
    dp) (dp_tenant_id dp))"
  "map_of (phase_tasks cfg dp install config) PhaseInstallEtcd = Some (EtcdInstallTask)"
  "map_of (phase_tasks cfg dp install config) PhaseConfigureEtcd = Some (EtcdConfigTask)"
  "map_of (phase_tasks cfg dp install config) PhaseInstallDB = Some (install)"
  "map_of (phase_tasks cfg dp install config) PhaseConfigureDB = Some (if needs_patroni (rc_database
    cfg) then NoopTask else config)"
  "map_of (phase_tasks cfg dp install config) PhaseInstallPatroni = Some (PatroniInstallTask)"
  "map_of (phase_tasks cfg dp install config) PhaseConfigurePatroni = Some (PatroniConfigTask
    (db_version (rc_database cfg)) (db_postgres (rc_database cfg)) (db_rendered_overrides
    (rc_database cfg)))"
  "map_of (phase_tasks cfg dp install config) PhaseInstallMonitor = Some (MonitorInstallTask (db_kind
    (rc_database cfg)))"
  "map_of (phase_tasks cfg dp install config) PhaseConfigureMonitor = Some (MonitorConfigTask
    (rc_monitor cfg) (rc_id cfg) (db_kind (rc_database cfg)) (dp_monitoring_url dp)
    (dp_monitoring_token dp) (dp_account_id dp))"
  "map_of (phase_tasks cfg dp install config) PhaseInstallPgBouncer = Some (PgBouncerInstallTask)"
  "map_of (phase_tasks cfg dp install config) PhaseConfigurePgBouncer = Some (PgBouncerConfigTask
    (db_postgres (rc_database cfg)) (db_rendered_overrides (rc_database cfg)))"
  "map_of (phase_tasks cfg dp install config) PhaseInstallProxy = Some (ProxyInstallTask (db_kind
    (rc_database cfg)))"
  "map_of (phase_tasks cfg dp install config) PhaseConfigureProxy = Some (ProxyConfigTask (db_kind
    (rc_database cfg)) (db_postgres (rc_database cfg)) (db_mysql (rc_database cfg)) (db_picodata
    (rc_database cfg)) (db_ydb (rc_database cfg)) (db_rendered_overrides (rc_database cfg)))"
  "map_of (phase_tasks cfg dp install config) PhaseInitYDBCluster = Some (YDBInitTask (db_ydb
    (rc_database cfg)))"
  "map_of (phase_tasks cfg dp install config) PhaseStartYDBDatabase = Some (YDBStartDBTask (db_ydb
    (rc_database cfg)) (db_rendered_overrides (rc_database cfg)))"
  "map_of (phase_tasks cfg dp install config) PhaseInstallStroppy = Some (StroppyInstallTask
    (rc_stroppy cfg))"
  "map_of (phase_tasks cfg dp install config) PhaseRunStroppy = Some (StroppyRunTask (rc_stroppy cfg)
    (run_stroppy_settings cfg dp) (db_kind (rc_database cfg)) (rc_id cfg) (dp_monitoring_url dp)
    (dp_monitoring_token dp) (dp_account_id dp))"
  "map_of (phase_tasks cfg dp install config) PhaseTeardown = Some (TeardownTask (rc_provider cfg))"
  by (simp_all add: phase_tasks_def Let_def)

definition tasks_agree :: "(string \<rightharpoonup> task) \<Rightarrow> builder \<Rightarrow> bool" where
  "tasks_agree T b \<longleftrightarrow> (\<forall>n \<in> set (g_nodes (b_graph b)). node_type n = node_id n \<and>
     node_task n = T (node_id n) \<and> b_reg b (node_id n) = T (node_id n) \<and> T (node_id n) \<noteq> None)"

lemma tasks_agree_add:
  assumes "tasks_agree T b" and "T phase = Some t"
  shows "tasks_agree T (add_node must always phase ds t b)"
  using assms by (auto simp: tasks_agree_def add_node_def graph_add_def reg_register_def)

lemma tasks_agree_dep: "tasks_agree T b \<Longrightarrow> tasks_agree T (b_stroppy_dep p b)"
  by (simp add: tasks_agree_def b_stroppy_dep_def)

lemma tasks_agree_new: "tasks_agree T \<lparr>b_graph = graph_new, b_reg = r, b_stroppy_deps = d\<rparr>"
  by (simp add: tasks_agree_def graph_new_def)

lemma tasks_agree_if: "tasks_agree T b \<Longrightarrow> (c \<Longrightarrow> tasks_agree T (f b)) \<Longrightarrow> tasks_agree T (if c then f b else b)"
  by simp

lemma agree_stages:
  "tasks_agree (map_of (phase_tasks cfg dp install config)) b \<Longrightarrow> tasks_agree (map_of (phase_tasks cfg dp install config)) (add_infrastructure cfg dp b)"
  "tasks_agree (map_of (phase_tasks cfg dp install config)) b \<Longrightarrow> tasks_agree (map_of (phase_tasks cfg dp install config)) (add_etcd after b)"
  "tasks_agree (map_of (phase_tasks cfg dp install config)) b \<Longrightarrow> tasks_agree (map_of (phase_tasks cfg dp install config)) (add_database cfg install config b)"
  "tasks_agree (map_of (phase_tasks cfg dp install config)) b \<Longrightarrow> tasks_agree (map_of (phase_tasks cfg dp install config)) (add_monitoring cfg dp b)"
  "tasks_agree (map_of (phase_tasks cfg dp install config)) b \<Longrightarrow> tasks_agree (map_of (phase_tasks cfg dp install config)) (add_pgbouncer cfg after b)"
  "tasks_agree (map_of (phase_tasks cfg dp install config)) b \<Longrightarrow> tasks_agree (map_of (phase_tasks cfg dp install config)) (add_proxy cfg after b)"
  "tasks_agree (map_of (phase_tasks cfg dp install config)) b \<Longrightarrow> tasks_agree (map_of (phase_tasks cfg dp install config)) (add_ydb_phases cfg b)"
  "tasks_agree (map_of (phase_tasks cfg dp install config)) b \<Longrightarrow> tasks_agree (map_of (phase_tasks cfg dp install config)) (add_stroppy cfg dp b)"
  "tasks_agree (map_of (phase_tasks cfg dp install config)) b \<Longrightarrow> tasks_agree (map_of (phase_tasks cfg dp install config)) (b_add_always_run PhaseTeardown ds (TeardownTask (rc_provider cfg)) b)"
  by (simp_all add: builder_ops Let_def tasks_agree_add tasks_agree_dep phase_task_at)

lemma build_nodes_agree:
  assumes "build_nodes cfg dp = Inr b"
  obtains install config where "db_tasks cfg = Inr (install, config)"
    "tasks_agree (map_of (phase_tasks cfg dp install config)) b"
proof -
  obtain install config where t: "db_tasks cfg = Inr (install, config)"
    using assms by (cases "db_tasks cfg") (auto simp: build_nodes_def Let_def)
  have "tasks_agree (map_of (phase_tasks cfg dp install config)) b"
    using assms unfolding build_nodes_def Let_def t
    by (auto intro!: agree_stages tasks_agree_if tasks_agree_new)
  then show ?thesis using t that by blast
qed

lemma build_nodes_reg:
  assumes "build_nodes cfg dp = Inr b"
  shows "reg_ok b"
proof -
  from build_nodes_agree [OF assms] obtain T where "tasks_agree T b" by metis
  then show ?thesis by (auto simp: tasks_agree_def reg_ok_def)
qed

text \<open>
  C22. Recovery after a restart rebuilds the run it lost: the graph a built run saves is decoded by
  the registry of the same build into the same nodes with the same tasks.
\<close>

theorem recovered_graph_is_built_graph:
  assumes "build cfg dp order = Inr (g, r)" and "map_order g order" and "map_order g order'"
    and "map_order g order''"
  shows "\<exists>ws. graph_marshal g order' = Inr ws \<and> reg_unmarshal r ws order'' = Inr g"
proof -
  obtain b where b: "build_nodes cfg dp = Inr b" "g = b_graph b" "r = b_reg b"
    and v: "graph_validate g order = None"
    using assms(1) by (auto simp: build_def split: sum.splits option.splits)
  have v': "graph_validate g o1 = None" if "map_order g o1" for o1
    using that v graph_validate_None assms(2) by blast
  have "reg_ok b" by (rule build_nodes_reg [OF b(1)])
  then have "restore_tasks r (map wire_of (g_nodes g)) = Inr (g_nodes g)"
    using b by (intro restore_tasks_wire) (auto simp: reg_ok_def)
  then have "reg_unmarshal r (map wire_of (g_nodes g)) order'' = Inr g"
    using v' [OF assms(4)] by (cases g) (simp add: reg_unmarshal_def)
  moreover have "graph_marshal g order' = Inr (map wire_of (g_nodes g))"
    using v' [OF assms(3)] by (simp add: graph_marshal_def)
  ultimately show ?thesis by blast
qed

lemma recovered_graph_is_built_graph_witness:
  "\<exists>r ws. build (sample_cfg None) sample_deps sample_built_order =
       Inr (built_graph (sample_cfg None) sample_deps, r) \<and>
     reg_unmarshal r ws (rev sample_built_order) = Inr (built_graph (sample_cfg None) sample_deps)"
proof -
  have k: "db_kind (rc_database (sample_cfg None)) \<in> set supported_kinds"
    by (simp add: sample_cfg_def sample_db_def supported_kinds_def)
  have o: "map_order (built_graph (sample_cfg None) sample_deps) sample_built_order"
    "map_order (built_graph (sample_cfg None) sample_deps) (rev sample_built_order)"
    by (simp_all add: map_order_def sample_built_order_def built_ids)
  from build_ok [OF k, of sample_deps] obtain r where
    r: "build (sample_cfg None) sample_deps sample_built_order =
      Inr (built_graph (sample_cfg None) sample_deps, r)" using o(1) by blast
  show ?thesis using recovered_graph_is_built_graph [OF r o(1) o(1) o(2)] r by blast
qed

end
