(* ===== verification/DagExec.thy ===== *)
theory DagExec
  imports DagGraph
begin

text \<open>
  The executor of \<open>internal/core/dag/executor.go\<close> as a step function. The goroutine of \<open>Run\<close>
  has a phase; each node that is being executed has a worker, the goroutine that runs
  \<open>executeWithRetry\<close>; an event is one step of the main goroutine (\<open>EvMain\<close>), one step of a
  worker, or the environment cancelling the context of \<open>Run\<close> or letting the ten minutes of the
  teardown context expire. A worker's events carry what its \<open>Task.Execute\<close> returned, so every
  interleaving of the workers is a list of events.

  The status map has string keys and is iterated only to look for a status or to count one, so
  it is an association list with distinct keys. A snapshot keeps the per-node states and
  whether \<open>FinishedAt\<close> is set; the graph's JSON, the exported run state and the clock values are
  left out. \<open>st_saves\<close> are the snapshots handed to \<open>Storage.Save\<close>, whose error the executor drops: what the storage
  then holds is \<open>stored_after\<close> of theory \<open>DagRun\<close>. \<open>st_calls\<close> is a ghost field: the calls of \<open>Task.Execute\<close> in order.
\<close>

section \<open>Policy, snapshots and state\<close>

datatype status = Pending | Running | Done | Failed | Cancelled

record retry_policy =
  max_retries :: int
  base_delay :: int
  max_delay :: int

text \<open>Durations are nanoseconds in an \<open>int64\<close>.\<close>

definition second :: int where
  "second = 1000000000"

definition default_retry_policy :: retry_policy where
  "default_retry_policy = \<lparr>max_retries = 3, base_delay = 5 * second, max_delay = 60 * second\<rparr>"

record node_state =
  ns_id :: string
  ns_status :: status
  ns_error :: string

record snapshot =
  snap_nodes :: "node_state list"
  snap_finished :: bool

datatype worker_pc = LoopHead | Waiting | Executing

record worker =
  w_node :: string
  w_attempt :: int
  w_delay :: int
  w_pc :: worker_pc
  w_last_err :: "string option"

datatype run_result =
    RunNil
  | RunNodeError string string
  | RunCancelled
  | RunNotReached int

datatype phase = MainTop | MainWave | TearTop | TearWave | Returned run_result

record 't executor =
  ex_graph :: "'t graph"
  ex_retry :: retry_policy
  ex_storage :: bool

record exec =
  st_status :: "(string \<times> status) list"
  st_errors :: "(string \<times> string) list"
  st_errs :: "(string \<times> string) list"
  st_cancelled :: bool
  st_ctx_done :: bool
  st_tear_done :: bool
  st_phase :: phase
  st_workers :: "worker list"
  st_saves :: "snapshot list"
  st_calls :: "(string \<times> int) list"

definition new_executor :: "exec" where
  "new_executor = \<lparr>st_status = [], st_errors = [], st_errs = [], st_cancelled = False,
     st_ctx_done = False, st_tear_done = False, st_phase = MainTop, st_workers = [],
     st_saves = [], st_calls = []\<rparr>"

definition set_status :: "string \<Rightarrow> status \<Rightarrow> exec \<Rightarrow> exec" where
  "set_status i s st = st\<lparr>st_status := AList.update i s (st_status st)\<rparr>"

definition mark_node_done :: "string \<Rightarrow> exec \<Rightarrow> exec" where
  "mark_node_done i st = set_status i Done st"

section \<open>Snapshots\<close>

definition node_snapshot :: "exec \<Rightarrow> 't node \<Rightarrow> node_state" where
  "node_snapshot st n =
     \<lparr>ns_id = node_id n,
      ns_status = (case map_of (st_status st) (node_id n) of None \<Rightarrow> Pending | Some s \<Rightarrow> s),
      ns_error = (case map_of (st_errors st) (node_id n) of None \<Rightarrow> [] | Some m \<Rightarrow> m)\<rparr>"

definition snapshot_of :: "'t executor \<Rightarrow> exec \<Rightarrow> snapshot" where
  "snapshot_of c st =
     (let nodes = map (node_snapshot st) (g_nodes (ex_graph c))
      in \<lparr>snap_nodes = nodes,
          snap_finished = list_all (\<lambda>ns. \<not> (ns_status ns = Pending \<or> ns_status ns = Running)) nodes\<rparr>)"

definition exec_save :: "'t executor \<Rightarrow> exec \<Rightarrow> exec" where
  "exec_save c st =
     (if ex_storage c then st\<lparr>st_saves := st_saves st @ [snapshot_of c st]\<rparr> else st)"

section \<open>Helpers of the executor\<close>

definition has_failed :: "exec \<Rightarrow> bool" where
  "has_failed st \<longleftrightarrow> (\<exists>(i, s) \<in> set (st_status st). s = Failed)"

definition has_failed_or_cancelled :: "exec \<Rightarrow> bool" where
  "has_failed_or_cancelled st \<longleftrightarrow> st_cancelled st \<or> has_failed st"

definition is_done :: "exec \<Rightarrow> string \<Rightarrow> bool" where
  "is_done st i \<longleftrightarrow> map_of (st_status st) i = Some Done"

definition is_settled :: "exec \<Rightarrow> string \<Rightarrow> bool" where
  "is_settled st i \<longleftrightarrow> map_of (st_status st) i \<in> {Some Done, Some Failed, Some Cancelled}"

definition get_ready :: "'t executor \<Rightarrow> exec \<Rightarrow> 't node list" where
  "get_ready c st =
     (if has_failed st then [] else if st_cancelled st then []
      else graph_ready (ex_graph c) (is_done st))"

definition mark_done :: "'t executor \<Rightarrow> string \<Rightarrow> exec \<Rightarrow> exec" where
  "mark_done c i st = exec_save c (set_status i Done st)"

definition mark_failed :: "string \<Rightarrow> string \<Rightarrow> exec \<Rightarrow> exec" where
  "mark_failed i msg st =
     (set_status i Failed st)\<lparr>st_errors := AList.update i msg (st_errors st),
        st_errs := st_errs st @ [(i, msg)]\<rparr>"

section \<open>A worker: executeWithRetry\<close>

definition worker_of :: "exec \<Rightarrow> string \<Rightarrow> worker option" where
  "worker_of st i = find (\<lambda>w. w_node w = i) (st_workers st)"

definition put_worker :: "worker \<Rightarrow> exec \<Rightarrow> exec" where
  "put_worker w st =
     st\<lparr>st_workers := map (\<lambda>v. if w_node v = w_node w then w else v) (st_workers st)\<rparr>"

definition drop_worker :: "string \<Rightarrow> exec \<Rightarrow> exec" where
  "drop_worker i st = st\<lparr>st_workers := filter (\<lambda>v. w_node v \<noteq> i) (st_workers st)\<rparr>"

definition start_worker :: "retry_policy \<Rightarrow> 't node \<Rightarrow> worker" where
  "start_worker p n = \<lparr>w_node = node_id n, w_attempt = 0, w_delay = base_delay p,
     w_pc = LoopHead, w_last_err = None\<rparr>"

definition attempts_msg :: "retry_policy \<Rightarrow> string option \<Rightarrow> string" where
  "attempts_msg p e = ''after '' @ itoa (int64 (max_retries p + 1)) @ '' attempts: '' @
     (case e of None \<Rightarrow> ''%!w(<nil>)'' | Some m \<Rightarrow> m)"

text \<open>The head of the retry loop: give up, wait before a retry, or make the first attempt.\<close>

definition worker_head :: "'t executor \<Rightarrow> worker \<Rightarrow> exec \<Rightarrow> exec" where
  "worker_head c w st =
     (if \<not> w_attempt w \<le> max_retries (ex_retry c)
      then drop_worker (w_node w)
             (mark_failed (w_node w) (attempts_msg (ex_retry c) (w_last_err w)) st)
      else if w_attempt w > 0 then put_worker (w\<lparr>w_pc := Waiting\<rparr>) st
      else put_worker (w\<lparr>w_pc := Executing\<rparr>) st)"

definition next_delay :: "retry_policy \<Rightarrow> int \<Rightarrow> int" where
  "next_delay p d = (let d' = int64 (d * 2) in if d' > max_delay p then max_delay p else d')"

definition worker_waited :: "'t executor \<Rightarrow> worker \<Rightarrow> exec \<Rightarrow> exec" where
  "worker_waited c w st =
     put_worker (w\<lparr>w_delay := next_delay (ex_retry c) (w_delay w), w_pc := Executing\<rparr>) st"

definition worker_cancelled :: "worker \<Rightarrow> exec \<Rightarrow> exec" where
  "worker_cancelled w st =
     drop_worker (w_node w)
       ((set_status (w_node w) Cancelled st)\<lparr>st_errors :=
          AList.update (w_node w) ''cancelled'' (st_errors st)\<rparr>)"

definition worker_executed :: "'t executor \<Rightarrow> worker \<Rightarrow> string option \<Rightarrow> exec \<Rightarrow> exec" where
  "worker_executed c w outcome st =
     (let st' = st\<lparr>st_calls := st_calls st @ [(w_node w, w_attempt w)]\<rparr> in
      case outcome of
        None \<Rightarrow> drop_worker (w_node w) (mark_done c (w_node w) st')
      | Some m \<Rightarrow> put_worker (w\<lparr>w_attempt := w_attempt w + 1, w_pc := LoopHead,
                                  w_last_err := Some m\<rparr>) st')"

text \<open>
  The context of a worker: the background context for a \<open>MustComplete\<close> node of the main loop,
  the cancellable one for the others, the timed one in the teardown.
\<close>

definition must_complete_id :: "'t executor \<Rightarrow> string \<Rightarrow> bool" where
  "must_complete_id c i \<longleftrightarrow>
     (case find (\<lambda>n. node_id n = i) (g_nodes (ex_graph c)) of
        None \<Rightarrow> False | Some n \<Rightarrow> must_complete n)"

definition worker_ctx_done :: "'t executor \<Rightarrow> exec \<Rightarrow> string \<Rightarrow> bool" where
  "worker_ctx_done c st i =
     (if st_phase st = MainWave then \<not> must_complete_id c i \<and> st_ctx_done st else st_tear_done st)"

section \<open>The main goroutine\<close>

definition start_wave :: "'t executor \<Rightarrow> phase \<Rightarrow> 't node list \<Rightarrow> exec \<Rightarrow> exec" where
  "start_wave c ph ready st =
     (fold (\<lambda>n. set_status (node_id n) Running) ready st)
       \<lparr>st_phase := ph, st_workers := map (start_worker (ex_retry c)) ready\<rparr>"

text \<open>On a cancelled context every node that never ran, teardown apart, becomes cancelled.\<close>

definition cancel_pending :: "'t executor \<Rightarrow> exec \<Rightarrow> exec" where
  "cancel_pending c st =
     fold (\<lambda>n st. if map_of (st_status st) (node_id n) \<in> {None, Some Pending} \<and> \<not> always_run n
                    then set_status (node_id n) Cancelled st else st)
       (g_nodes (ex_graph c)) (st\<lparr>st_cancelled := True\<rparr>)"

definition run_result_of :: "'t executor \<Rightarrow> exec \<Rightarrow> run_result" where
  "run_result_of c st =
     (case st_errs st of
        (i, m) # _ \<Rightarrow> RunNodeError i m
      | [] \<Rightarrow>
          if st_cancelled st then RunCancelled
          else (let completed = length (filter (\<lambda>(i, s). s = Done) (st_status st));
                    total = length (g_nodes (ex_graph c))
                in if completed < total then RunNotReached (int total - int completed) else RunNil))"

definition exec_finish :: "'t executor \<Rightarrow> exec \<Rightarrow> exec" where
  "exec_finish c st = (exec_save c st)\<lparr>st_phase := Returned (run_result_of c st)\<rparr>"

definition exec_break :: "'t executor \<Rightarrow> exec \<Rightarrow> exec" where
  "exec_break c st =
     (if has_failed_or_cancelled st then st\<lparr>st_phase := TearTop\<rparr> else exec_finish c st)"

definition main_top :: "'t executor \<Rightarrow> exec \<Rightarrow> exec" where
  "main_top c st =
     (if st_ctx_done st then exec_break c (exec_save c (cancel_pending c st))
      else (let ready = get_ready c st in
            if ready = [] then exec_break c st
            else exec_save c (start_wave c MainWave ready st)))"

definition main_wave_end :: "'t executor \<Rightarrow> exec \<Rightarrow> exec" where
  "main_wave_end c st =
     (if has_failed_or_cancelled st then exec_break c (exec_save c st)
      else st\<lparr>st_phase := MainTop\<rparr>)"

definition tear_top :: "'t executor \<Rightarrow> exec \<Rightarrow> exec" where
  "tear_top c st =
     (let ready = graph_ready_always_run (ex_graph c) (is_settled st) in
      if ready = [] then exec_finish c st else start_wave c TearWave ready st)"

definition tear_wave_end :: "'t executor \<Rightarrow> exec \<Rightarrow> exec" where
  "tear_wave_end c st = (exec_save c st)\<lparr>st_phase := TearTop\<rparr>"

section \<open>Events\<close>

datatype event =
    EvCancelCtx
  | EvTearTimeout
  | EvMain
  | EvHead string
  | EvWaited string
  | EvWaitCancelled string
  | EvExecuted string "string option"

definition own_event :: "event \<Rightarrow> bool" where
  "own_event e \<longleftrightarrow> e \<noteq> EvCancelCtx \<and> e \<noteq> EvTearTimeout"

definition main_step :: "'t executor \<Rightarrow> exec \<Rightarrow> exec option" where
  "main_step c st =
     (case st_phase st of
        MainTop \<Rightarrow> Some (main_top c st)
      | MainWave \<Rightarrow> if st_workers st = [] then Some (main_wave_end c st) else None
      | TearTop \<Rightarrow> Some (tear_top c st)
      | TearWave \<Rightarrow> if st_workers st = [] then Some (tear_wave_end c st) else None
      | Returned _ \<Rightarrow> None)"

definition with_worker ::
  "exec \<Rightarrow> string \<Rightarrow> worker_pc \<Rightarrow> (worker \<Rightarrow> exec option) \<Rightarrow> exec option" where
  "with_worker st i pc f =
     (case worker_of st i of
        None \<Rightarrow> None
      | Some w \<Rightarrow> if w_pc w = pc then f w else None)"

fun exec_step :: "'t executor \<Rightarrow> exec \<Rightarrow> event \<Rightarrow> exec option" where
  "exec_step c st EvCancelCtx = Some (st\<lparr>st_ctx_done := True\<rparr>)"
| "exec_step c st EvTearTimeout =
     (if st_phase st \<in> {TearTop, TearWave} then Some (st\<lparr>st_tear_done := True\<rparr>) else None)"
| "exec_step c st EvMain = main_step c st"
| "exec_step c st (EvHead i) = with_worker st i LoopHead (\<lambda>w. Some (worker_head c w st))"
| "exec_step c st (EvWaited i) = with_worker st i Waiting (\<lambda>w. Some (worker_waited c w st))"
| "exec_step c st (EvWaitCancelled i) =
     with_worker st i Waiting
       (\<lambda>w. if worker_ctx_done c st i then Some (worker_cancelled w st) else None)"
| "exec_step c st (EvExecuted i outcome) =
     with_worker st i Executing (\<lambda>w. Some (worker_executed c w outcome st))"

text \<open>
  An executor as \<open>StartRun\<close> and the recovery set it up: the graph's ids are distinct and only
  nodes of the graph are marked done before \<open>Run\<close>.
\<close>

definition exec_init :: "'t executor \<Rightarrow> exec \<Rightarrow> bool" where
  "exec_init c st \<longleftrightarrow> distinct (node_ids (ex_graph c)) \<and>
     (\<exists>ids. set ids \<subseteq> set (node_ids (ex_graph c)) \<and> st = fold mark_node_done ids new_executor)"

section \<open>Reading the status map\<close>

abbreviation status_at :: "exec \<Rightarrow> string \<Rightarrow> status option" where
  "status_at st \<equiv> map_of (st_status st)"

declare map_of_eq_Some_iff [simp del] Some_eq_map_of_iff [simp del]

lemma status_at_set_status [simp]: "status_at (set_status i s st) = (status_at st)(i \<mapsto> s)"
  by (simp add: set_status_def update_conv')

lemma set_status_fields [simp]:
  "st_errs (set_status i s st) = st_errs st"
  "st_errors (set_status i s st) = st_errors st"
  "st_cancelled (set_status i s st) = st_cancelled st"
  "st_ctx_done (set_status i s st) = st_ctx_done st"
  "st_tear_done (set_status i s st) = st_tear_done st"
  "st_phase (set_status i s st) = st_phase st"
  "st_workers (set_status i s st) = st_workers st"
  "st_saves (set_status i s st) = st_saves st"
  "st_calls (set_status i s st) = st_calls st"
  by (simp_all add: set_status_def)

lemma exec_save_fields [simp]:
  "st_status (exec_save c st) = st_status st"
  "st_errs (exec_save c st) = st_errs st"
  "st_errors (exec_save c st) = st_errors st"
  "st_cancelled (exec_save c st) = st_cancelled st"
  "st_ctx_done (exec_save c st) = st_ctx_done st"
  "st_tear_done (exec_save c st) = st_tear_done st"
  "st_phase (exec_save c st) = st_phase st"
  "st_workers (exec_save c st) = st_workers st"
  "st_calls (exec_save c st) = st_calls st"
  by (simp_all add: exec_save_def)

lemma fold_set_status_fields [simp]:
  "st_errs (fold (\<lambda>n. set_status (node_id n) s) ns st) = st_errs st"
  "st_cancelled (fold (\<lambda>n. set_status (node_id n) s) ns st) = st_cancelled st"
  "st_ctx_done (fold (\<lambda>n. set_status (node_id n) s) ns st) = st_ctx_done st"
  by (induction ns arbitrary: st) simp_all

lemma status_at_fold:
  "status_at (fold (\<lambda>n. set_status (node_id n) s) ns st) i =
     (if i \<in> node_id ` set ns then Some s else status_at st i)"
  by (induction ns arbitrary: st) auto

lemma distinct_keys_set_status [simp]:
  "distinct (map fst (st_status st)) \<Longrightarrow> distinct (map fst (st_status (set_status i s st)))"
  by (simp add: set_status_def distinct_update)

lemma distinct_keys_fold:
  "distinct (map fst (st_status st)) \<Longrightarrow>
     distinct (map fst (st_status (fold (\<lambda>n. set_status (node_id n) s) ns st)))"
  by (induction ns arbitrary: st) simp_all

lemma cancel_pending_spec:
  defines "f \<equiv> \<lambda>n st. if status_at st (node_id n) \<in> {None, Some Pending} \<and> \<not> always_run n
    then set_status (node_id n) Cancelled st else st"
  shows "status_at (fold f ns st) i =
      (if (\<exists>n \<in> set ns. node_id n = i \<and> \<not> always_run n) \<and> status_at st i \<in> {None, Some Pending}
       then Some Cancelled else status_at st i)"
    and "distinct (map fst (st_status st)) \<Longrightarrow> distinct (map fst (st_status (fold f ns st)))"
    and "st_errs (fold f ns st) = st_errs st"
    and "st_cancelled (fold f ns st) = st_cancelled st"
    and "st_ctx_done (fold f ns st) = st_ctx_done st"
    and "st_workers (fold f ns st) = st_workers st"
    and "st_phase (fold f ns st) = st_phase st"
    and "st_calls (fold f ns st) = st_calls st"
  unfolding f_def by (induction ns arbitrary: st) auto

definition settled_status :: "status option \<Rightarrow> bool" where
  "settled_status s \<longleftrightarrow> s \<in> {Some Done, Some Failed, Some Cancelled}"

text \<open>The state is well formed: one entry per node, one worker per running node.\<close>

definition exec_wf :: "'t executor \<Rightarrow> exec \<Rightarrow> bool" where
  "exec_wf c st \<longleftrightarrow>
     distinct (node_ids (ex_graph c)) \<and>
     distinct (map fst (st_status st)) \<and>
     dom (status_at st) \<subseteq> set (node_ids (ex_graph c)) \<and>
     distinct (map w_node (st_workers st)) \<and>
     (\<forall>i. status_at st i = Some Running \<longleftrightarrow> i \<in> w_node ` set (st_workers st)) \<and>
     (\<forall>i. status_at st i \<noteq> Some Pending) \<and>
     (st_errs st = [] \<longleftrightarrow> (\<forall>i. status_at st i \<noteq> Some Failed))"

definition deps_done :: "'t executor \<Rightarrow> exec \<Rightarrow> string \<Rightarrow> bool" where
  "deps_done c st i \<longleftrightarrow>
     (\<forall>n \<in> set (g_nodes (ex_graph c)). node_id n = i \<longrightarrow>
        (\<forall>d \<in> set (node_deps n). status_at st d = Some Done))"

definition always_run_id :: "'t executor \<Rightarrow> string \<Rightarrow> bool" where
  "always_run_id c i \<longleftrightarrow> (\<exists>n \<in> set (g_nodes (ex_graph c)). node_id n = i \<and> always_run n)"

text \<open>What holds in each phase.\<close>

definition phase_ok :: "'t executor \<Rightarrow> exec \<Rightarrow> bool" where
  "phase_ok c st =
     (case st_phase st of
        MainTop \<Rightarrow> st_workers st = [] \<and> \<not> st_cancelled st \<and> st_errs st = [] \<and>
          (\<forall>i. status_at st i = Some Cancelled \<longrightarrow> st_ctx_done st)
      | MainWave \<Rightarrow> \<not> st_cancelled st \<and>
          (\<forall>i. status_at st i = Some Cancelled \<longrightarrow> st_ctx_done st) \<and>
          (\<forall>w \<in> set (st_workers st). deps_done c st (w_node w))
      | TearTop \<Rightarrow> st_workers st = [] \<and> (st_cancelled st \<or> st_errs st \<noteq> [])
      | TearWave \<Rightarrow> (st_cancelled st \<or> st_errs st \<noteq> []) \<and>
          (\<forall>w \<in> set (st_workers st). always_run_id c (w_node w))
      | Returned r \<Rightarrow> st_workers st = [] \<and> r = run_result_of c st \<and>
          (if st_cancelled st \<or> st_errs st \<noteq> []
           then (\<forall>i. always_run_id c i \<longrightarrow> settled_status (status_at st i))
           else (\<forall>i. status_at st i \<in> {None, Some Done}) \<and>
             graph_ready (ex_graph c) (is_done st) = []))"

definition exec_inv :: "'t executor \<Rightarrow> exec \<Rightarrow> bool" where
  "exec_inv c st \<longleftrightarrow> exec_wf c st \<and> phase_ok c st"

lemma has_failed_iff:
  "distinct (map fst (st_status st)) \<Longrightarrow> has_failed st \<longleftrightarrow> (\<exists>i. status_at st i = Some Failed)"
  by (auto simp: has_failed_def map_of_eq_Some_iff)

lemma has_failed_errs: "exec_wf c st \<Longrightarrow> has_failed st \<longleftrightarrow> st_errs st \<noteq> []"
  by (auto simp: exec_wf_def has_failed_iff)

lemma hfc_iff: "exec_wf c st \<Longrightarrow> has_failed_or_cancelled st \<longleftrightarrow> st_cancelled st \<or> st_errs st \<noteq> []"
  by (simp add: has_failed_or_cancelled_def has_failed_errs)

lemma run_result_save [simp]: "run_result_of c (exec_save c st) = run_result_of c st"
  by (simp add: run_result_of_def Let_def split: list.split)

lemma run_result_phase [simp]: "run_result_of c (st\<lparr>st_phase := p\<rparr>) = run_result_of c st"
  by (simp add: run_result_of_def Let_def split: list.split)

lemma run_result_calls [simp]: "run_result_of c (st\<lparr>st_calls := p\<rparr>) = run_result_of c st"
  by (simp add: run_result_of_def Let_def split: list.split)

lemma is_done_save [simp]: "is_done (exec_save c st) = is_done st"
  by (simp add: is_done_def fun_eq_iff)

lemma is_done_phase [simp]: "is_done (st\<lparr>st_phase := p\<rparr>) = is_done st"
  by (simp add: is_done_def fun_eq_iff)

lemma is_done_calls [simp]: "is_done (st\<lparr>st_calls := p\<rparr>) = is_done st"
  by (simp add: is_done_def fun_eq_iff)

lemma exec_wf_save [simp]: "exec_wf c (exec_save c st) = exec_wf c st"
  by (simp add: exec_wf_def)

lemma exec_wf_phase [simp]: "exec_wf c (st\<lparr>st_phase := p\<rparr>) = exec_wf c st"
  by (simp add: exec_wf_def)

lemma exec_wf_calls [simp]: "exec_wf c (st\<lparr>st_calls := p\<rparr>) = exec_wf c st"
  by (simp add: exec_wf_def)

lemma phase_ok_save [simp]: "phase_ok c (exec_save c st) = phase_ok c st"
  by (simp add: phase_ok_def deps_done_def split: phase.splits)

lemma phase_ok_calls [simp]: "phase_ok c (st\<lparr>st_calls := p\<rparr>) = phase_ok c st"
  by (simp add: phase_ok_def deps_done_def split: phase.splits)

section \<open>The main goroutine keeps the invariant\<close>

lemma exec_finish_inv:
  assumes "exec_wf c st" and "st_workers st = []"
    and "if st_cancelled st \<or> st_errs st \<noteq> []
      then (\<forall>i. always_run_id c i \<longrightarrow> settled_status (status_at st i))
      else (\<forall>i. status_at st i \<in> {None, Some Done}) \<and> graph_ready (ex_graph c) (is_done st) = []"
  shows "exec_inv c (exec_finish c st)"
  using assms by (cases "st_cancelled st \<or> st_errs st \<noteq> []")
    (simp_all add: exec_finish_def exec_inv_def phase_ok_def)

lemma exec_break_inv:
  assumes "exec_wf c st" and "st_workers st = []"
    and "\<not> (st_cancelled st \<or> st_errs st \<noteq> []) \<Longrightarrow>
      (\<forall>i. status_at st i \<in> {None, Some Done}) \<and> graph_ready (ex_graph c) (is_done st) = []"
  shows "exec_inv c (exec_break c st)"
proof (cases "has_failed_or_cancelled st")
  case True
  then show ?thesis using assms(1,2) by (simp add: exec_break_def exec_inv_def phase_ok_def hfc_iff)
next
  case False
  then have "\<not> (st_cancelled st \<or> st_errs st \<noteq> [])" using hfc_iff [OF assms(1)] by blast
  then show ?thesis using False assms by (auto simp: exec_break_def intro!: exec_finish_inv)
qed

lemma start_wave_fields [simp]:
  "st_phase (start_wave c ph ready st) = ph"
  "st_workers (start_wave c ph ready st) = map (start_worker (ex_retry c)) ready"
  "st_errs (start_wave c ph ready st) = st_errs st"
  "st_cancelled (start_wave c ph ready st) = st_cancelled st"
  "st_ctx_done (start_wave c ph ready st) = st_ctx_done st"
  by (simp_all add: start_wave_def)

lemma status_at_start_wave:
  "status_at (start_wave c ph ready st) i =
     (if i \<in> node_id ` set ready then Some Running else status_at st i)"
  by (simp add: start_wave_def status_at_fold)

lemma w_node_start_worker [simp]: "w_node (start_worker p n) = node_id n"
  by (simp add: start_worker_def)

lemma distinct_ids_sub:
  "distinct (node_ids g) \<Longrightarrow> distinct (map node_id (filter P (g_nodes g)))"
  by (simp add: node_ids_def distinct_map_filter)

lemma start_wave_wf:
  assumes wf: "exec_wf c st" and "st_workers st = []" and "ready = filter P (g_nodes (ex_graph c))"
    and nf: "\<And>n. n \<in> set ready \<Longrightarrow> status_at st (node_id n) \<noteq> Some Failed"
  shows "exec_wf c (start_wave c ph ready st)"
proof -
  have sub: "node_id ` set ready \<subseteq> set (node_ids (ex_graph c))"
    using assms(3) by (auto simp: node_ids_def)
  have "distinct (map node_id ready)"
    using wf assms(3) by (simp add: exec_wf_def distinct_ids_sub)
  moreover have "distinct (map fst (st_status (start_wave c ph ready st)))"
    using wf by (simp add: start_wave_def distinct_keys_fold exec_wf_def)
  moreover have "(\<forall>i. status_at (start_wave c ph ready st) i \<noteq> Some Failed) \<longleftrightarrow>
      (\<forall>i. status_at st i \<noteq> Some Failed)"
    using nf by (force simp: status_at_start_wave)
  moreover have "dom (status_at (start_wave c ph ready st)) \<subseteq> set (node_ids (ex_graph c))"
  proof
    fix i assume "i \<in> dom (status_at (start_wave c ph ready st))"
    then have "i \<in> node_id ` set ready \<or> i \<in> dom (status_at st)"
      by (auto simp: status_at_start_wave split: if_splits)
    then show "i \<in> set (node_ids (ex_graph c))" using sub wf unfolding exec_wf_def by blast
  qed
  moreover have "status_at (start_wave c ph ready st) i = Some Running \<longleftrightarrow>
      i \<in> w_node ` set (st_workers (start_wave c ph ready st))" for i
    using wf assms(2) by (auto simp: exec_wf_def status_at_start_wave image_image)
  moreover have "status_at (start_wave c ph ready st) i \<noteq> Some Pending" for i
    using wf by (simp add: exec_wf_def status_at_start_wave)
  ultimately show ?thesis
    using wf unfolding exec_wf_def by (simp add: o_def)
qed


lemma cancel_pending_fields [simp]:
  "st_errs (cancel_pending c st) = st_errs st"
  "st_cancelled (cancel_pending c st)"
  "st_ctx_done (cancel_pending c st) = st_ctx_done st"
  "st_workers (cancel_pending c st) = st_workers st"
  "st_phase (cancel_pending c st) = st_phase st"
  "st_calls (cancel_pending c st) = st_calls st"
  by (simp_all only: cancel_pending_def cancel_pending_spec) simp_all

lemma status_at_cancel_pending:
  "status_at (cancel_pending c st) i =
     (if (\<exists>n \<in> set (g_nodes (ex_graph c)). node_id n = i \<and> \<not> always_run n) \<and>
         status_at st i \<in> {None, Some Pending}
      then Some Cancelled else status_at st i)"
  unfolding cancel_pending_def cancel_pending_spec(1) by auto

lemma cancel_pending_wf:
  assumes wf: "exec_wf c st"
  shows "exec_wf c (cancel_pending c st)"
proof -
  have "dom (status_at (cancel_pending c st)) \<subseteq> set (node_ids (ex_graph c))"
  proof
    fix i assume "i \<in> dom (status_at (cancel_pending c st))"
    then have "i \<in> node_id ` set (g_nodes (ex_graph c)) \<or> i \<in> dom (status_at st)"
      by (auto simp: status_at_cancel_pending split: if_splits)
    then show "i \<in> set (node_ids (ex_graph c))" using wf by (auto simp: exec_wf_def node_ids_def)
  qed
  moreover have "distinct (map fst (st_status (cancel_pending c st)))"
    using wf unfolding cancel_pending_def by (intro cancel_pending_spec(2)) (simp add: exec_wf_def)
  moreover have "status_at (cancel_pending c st) i = Some s \<longleftrightarrow> status_at st i = Some s"
    if "s \<noteq> Cancelled" "s \<noteq> Pending" for i s
    using that by (auto simp: status_at_cancel_pending)
  moreover have "status_at (cancel_pending c st) i \<noteq> Some Pending" for i
    using wf by (simp add: exec_wf_def status_at_cancel_pending)
  ultimately show ?thesis using wf unfolding exec_wf_def by simp
qed

lemma main_top_inv [invs]:
  assumes inv: "exec_inv c st" and ph: "st_phase st = MainTop"
  shows "exec_inv c (main_top c st)"
proof -
  have wf: "exec_wf c st" and p: "st_workers st = []" "\<not> st_cancelled st" "st_errs st = []"
    and canc: "\<And>i. status_at st i = Some Cancelled \<Longrightarrow> st_ctx_done st"
    using inv ph by (auto simp: exec_inv_def phase_ok_def)
  show ?thesis
  proof (cases "st_ctx_done st")
    case True
    then show ?thesis
      using wf p by (auto simp: main_top_def cancel_pending_wf intro!: exec_break_inv)
  next
    case False
    have st: "status_at st i \<in> {None, Some Done}" for i
      using wf p canc [of i] False
      by (cases "status_at st i"; cases "the (status_at st i)") (auto simp: exec_wf_def)
    have nf: "\<not> has_failed st" using has_failed_errs [OF wf] p by simp
    have ready: "get_ready c st = graph_ready (ex_graph c) (is_done st)"
      using nf p by (simp add: get_ready_def)
    show ?thesis
    proof (cases "get_ready c st = []")
      case True
      then have "exec_inv c (exec_break c st)"
        using wf p st ready by (intro exec_break_inv) auto
      then show ?thesis using True False by (simp add: main_top_def)
    next
      case ne: False
      let ?s = "start_wave c MainWave (get_ready c st) st"
      have "exec_wf c ?s"
        by (rule start_wave_wf [OF wf p(1)])
          (use ready p(3) wf in \<open>auto simp: graph_ready_def exec_wf_def\<close>)
      moreover have "deps_done c ?s (node_id n)" if n: "n \<in> set (get_ready c st)" for n
      proof -
        have "n \<in> set (g_nodes (ex_graph c))" and d: "\<forall>d \<in> set (node_deps n). status_at st d = Some Done"
          using n ready by (auto simp: graph_ready_def deps_complete_def list_all_iff is_done_def)
        moreover have "m = n" if "m \<in> set (g_nodes (ex_graph c))" "node_id m = node_id n" for m
          using that calculation(1) wf
          by (auto simp: exec_wf_def node_ids_def distinct_map dest: inj_onD)
        moreover have "i \<notin> node_id ` set (get_ready c st)" if "status_at st i = Some Done" for i
          using that ready by (auto simp: graph_ready_def is_done_def)
        ultimately show ?thesis unfolding deps_done_def by (metis status_at_start_wave)
      qed
      moreover have "status_at ?s i \<noteq> Some Cancelled" for i
        using st [of i] by (auto simp: status_at_start_wave)
      ultimately have "exec_inv c ?s"
        using p by (auto simp: exec_inv_def phase_ok_def)
      then show ?thesis using ne False by (simp add: main_top_def exec_inv_def)
    qed
  qed
qed

lemma main_wave_end_inv [invs]:
  assumes "exec_inv c st" and "st_phase st = MainWave" and "st_workers st = []"
  shows "exec_inv c (main_wave_end c st)"
proof -
  have wf: "exec_wf c st" using assms by (simp add: exec_inv_def)
  show ?thesis
  proof (cases "has_failed_or_cancelled st")
    case True
    then show ?thesis
      using wf assms hfc_iff [OF wf] by (auto simp: main_wave_end_def intro!: exec_break_inv)
  next
    case False
    then show ?thesis
      using assms hfc_iff [OF wf] by (simp add: main_wave_end_def exec_inv_def phase_ok_def)
  qed
qed

lemma tear_top_inv [invs]:
  assumes inv: "exec_inv c st" and ph: "st_phase st = TearTop"
  shows "exec_inv c (tear_top c st)"
proof -
  have wf: "exec_wf c st" and p: "st_workers st = []" "st_cancelled st \<or> st_errs st \<noteq> []"
    using inv ph by (auto simp: exec_inv_def phase_ok_def)
  let ?ready = "graph_ready_always_run (ex_graph c) (is_settled st)"
  show ?thesis
  proof (cases "?ready = []")
    case True
    then have "settled_status (status_at st i)" if "always_run_id c i" for i
      using that by (auto simp: graph_ready_always_run_def filter_empty_conv always_run_id_def
          is_settled_def settled_status_def)
    then have "exec_inv c (exec_finish c st)" using wf p by (intro exec_finish_inv) auto
    then show ?thesis using True by (simp add: tear_top_def)
  next
    case False
    have "exec_wf c (start_wave c TearWave ?ready st)"
      by (rule start_wave_wf [OF wf p(1)])
        (auto simp: graph_ready_always_run_def is_settled_def)
    moreover have "always_run_id c (node_id n)" if "n \<in> set ?ready" for n
      using that by (auto simp: graph_ready_always_run_def always_run_id_def)
    ultimately show ?thesis
      using False p(2) by (auto simp: tear_top_def exec_inv_def phase_ok_def)
  qed
qed

lemma tear_wave_end_inv [invs]:
  assumes "exec_inv c st" and "st_phase st = TearWave" and "st_workers st = []"
  shows "exec_inv c (tear_wave_end c st)"
  using assms by (simp add: tear_wave_end_def exec_inv_def phase_ok_def)

lemma main_step_inv [invs]: "exec_inv c st \<Longrightarrow> main_step c st = Some st' \<Longrightarrow> exec_inv c st'"
  by (auto simp: main_step_def intro: invs split: phase.splits if_splits)

section \<open>The workers keep the invariant\<close>

lemma worker_of_Some:
  "worker_of st i = Some w \<Longrightarrow> w \<in> set (st_workers st) \<and> w_node w = i"
  by (auto simp: worker_of_def find_Some_iff)

lemma worker_phase:
  assumes "exec_inv c st" and "worker_of st i = Some w"
  shows "st_phase st = MainWave \<or> st_phase st = TearWave"
  using assms worker_of_Some [OF assms(2)]
  by (auto simp: exec_inv_def phase_ok_def split: phase.splits)

lemma put_worker_fields [simp]:
  "st_status (put_worker w st) = st_status st"
  "st_errs (put_worker w st) = st_errs st"
  "st_cancelled (put_worker w st) = st_cancelled st"
  "st_ctx_done (put_worker w st) = st_ctx_done st"
  "st_phase (put_worker w st) = st_phase st"
  "map w_node (st_workers (put_worker w st)) = map w_node (st_workers st)"
  by (simp_all add: put_worker_def o_def cong: if_cong)

lemma put_worker_set: "v \<in> set (st_workers (put_worker w st)) \<Longrightarrow> w_node v \<in> w_node ` set (st_workers st)"
  by (metis image_eqI image_set put_worker_fields(6))

lemma put_worker_inv:
  assumes inv: "exec_inv c st" and "worker_of st i = Some v" and "w_node w = i"
  shows "exec_inv c (put_worker w st)"
proof -
  have "w_node ` set (st_workers (put_worker w st)) = w_node ` set (st_workers st)"
    by (metis list.set_map put_worker_fields(6))
  then have "exec_wf c (put_worker w st)"
    using inv by (simp add: exec_inv_def exec_wf_def)
  moreover have "deps_done c (put_worker w st) = deps_done c st"
    by (simp add: deps_done_def fun_eq_iff)
  ultimately show ?thesis
    using inv worker_phase [OF assms(1,2)] put_worker_set [of _ w st]
    by (fastforce simp: exec_inv_def phase_ok_def)
qed

text \<open>A worker that ends with the status \<open>s\<close>.\<close>

lemma settle_inv:
  assumes inv: "exec_inv c st" and w: "worker_of st i = Some w"
    and s: "s \<in> {Done, Failed, Cancelled}"
    and status: "status_at st' = (status_at st)(i \<mapsto> s)" "distinct (map fst (st_status st'))"
    and workers: "st_workers st' = filter (\<lambda>v. w_node v \<noteq> i) (st_workers st)"
    and errs: "if s = Failed then st_errs st' \<noteq> [] else st_errs st' = st_errs st"
    and same: "st_cancelled st' = st_cancelled st" "st_ctx_done st' = st_ctx_done st"
      "st_phase st' = st_phase st"
    and canc: "s = Cancelled \<Longrightarrow> st_phase st = MainWave \<Longrightarrow> st_ctx_done st"
  shows "exec_inv c st'"
proof -
  have wf: "exec_wf c st" and ph: "phase_ok c st" using inv by (simp_all add: exec_inv_def)
  have run: "status_at st i = Some Running"
    using wf worker_of_Some [OF w] by (auto simp: exec_wf_def)
  have ne: "status_at st i \<noteq> Some Failed" "i \<in> dom (status_at st)" using run by auto
  have "exec_wf c st'"
    unfolding exec_wf_def
  proof (intro conjI allI)
    show "distinct (map w_node (st_workers st'))"
      using wf by (simp add: workers exec_wf_def distinct_map_filter)
    show "status_at st' j = Some Running \<longleftrightarrow> j \<in> w_node ` set (st_workers st')" for j
      using wf s by (auto simp: status workers exec_wf_def)
    show "(st_errs st' = []) = (\<forall>i. status_at st' i \<noteq> Some Failed)"
      using wf errs s ne by (auto simp: status exec_wf_def split: if_splits)
    show "dom (status_at st') \<subseteq> set (node_ids (ex_graph c))"
      using wf ne by (auto simp: status exec_wf_def)
  qed (use wf s in \<open>auto simp: status exec_wf_def\<close>)
  moreover have "deps_done c st j \<Longrightarrow> deps_done c st' j" for j
    using run s by (fastforce simp: deps_done_def status)
  moreover have "st_errs st \<noteq> [] \<Longrightarrow> st_errs st' \<noteq> []" using errs by (simp split: if_splits)
  ultimately show ?thesis
    using ph s canc worker_phase [OF inv w]
    by (auto simp: exec_inv_def phase_ok_def status workers same split: if_splits)
qed

lemma drop_worker_fields [simp]:
  "st_status (drop_worker i st) = st_status st"
  "st_errs (drop_worker i st) = st_errs st"
  "st_cancelled (drop_worker i st) = st_cancelled st"
  "st_ctx_done (drop_worker i st) = st_ctx_done st"
  "st_phase (drop_worker i st) = st_phase st"
  "st_workers (drop_worker i st) = filter (\<lambda>v. w_node v \<noteq> i) (st_workers st)"
  by (simp_all add: drop_worker_def)

lemma exec_inv_keys: "exec_inv c st \<Longrightarrow> distinct (map fst (st_status st))"
  by (simp add: exec_inv_def exec_wf_def)

lemma worker_head_inv [invs]:
  assumes "exec_inv c st" and "worker_of st i = Some w"
  shows "exec_inv c (worker_head c w st)"
proof -
  have i: "w_node w = i" using worker_of_Some [OF assms(2)] by simp
  show ?thesis
    unfolding worker_head_def i
    by (auto intro!: put_worker_inv [OF assms] i settle_inv [OF assms, of Failed]
        simp: mark_failed_def exec_inv_keys [OF assms(1)] set_status_def update_conv' distinct_update)
qed

lemma worker_waited_inv [invs]:
  assumes "exec_inv c st" and "worker_of st i = Some w"
  shows "exec_inv c (worker_waited c w st)"
  using worker_of_Some [OF assms(2)] by (auto simp: worker_waited_def intro!: put_worker_inv [OF assms])

lemma worker_cancelled_inv [invs]:
  assumes "exec_inv c st" and "worker_of st i = Some w" and "worker_ctx_done c st i"
  shows "exec_inv c (worker_cancelled w st)"
proof -
  have i: "w_node w = i" using worker_of_Some [OF assms(2)] by simp
  show ?thesis
    unfolding worker_cancelled_def i using assms(3)
    by (intro settle_inv [OF assms(1,2), of Cancelled])
      (auto simp: worker_ctx_done_def exec_inv_keys [OF assms(1)] split: if_splits)
qed

lemma worker_executed_inv [invs]:
  assumes "exec_inv c st" and "worker_of st i = Some w"
  shows "exec_inv c (worker_executed c w outcome st)"
proof -
  let ?s = "st\<lparr>st_calls := st_calls st @ [(w_node w, w_attempt w)]\<rparr>"
  have i: "w_node w = i" using worker_of_Some [OF assms(2)] by simp
  have inv: "exec_inv c ?s" using assms(1) by (simp add: exec_inv_def)
  have wo: "worker_of ?s i = Some w" using assms(2) by (simp add: worker_of_def)
  show ?thesis
  proof (cases outcome)
    case None
    have "exec_inv c (drop_worker i (mark_done c i ?s))"
      by (intro settle_inv [OF inv wo, of Done])
        (use exec_inv_keys [OF inv] in \<open>auto simp: mark_done_def\<close>)
    then show ?thesis by (simp add: worker_executed_def None i)
  next
    case (Some m)
    have "exec_inv c (put_worker (w\<lparr>w_attempt := w_attempt w + 1, w_pc := LoopHead,
        w_last_err := Some m\<rparr>) ?s)"
      by (rule put_worker_inv [OF inv wo]) (simp add: i)
    then show ?thesis by (simp add: worker_executed_def Some)
  qed
qed

section \<open>The executor as a transition system\<close>

lemma result_ctx [simp]:
  "run_result_of c (st\<lparr>st_ctx_done := b\<rparr>) = run_result_of c st"
  "run_result_of c (st\<lparr>st_tear_done := b\<rparr>) = run_result_of c st"
  "is_done (st\<lparr>st_ctx_done := b\<rparr>) = is_done st"
  "is_done (st\<lparr>st_tear_done := b\<rparr>) = is_done st"
  by (simp_all add: run_result_of_def Let_def is_done_def fun_eq_iff split: list.split)

lemma exec_inv_cancel_ctx [invs]: "exec_inv c st \<Longrightarrow> exec_inv c (st\<lparr>st_ctx_done := True\<rparr>)"
  by (auto simp: exec_inv_def exec_wf_def phase_ok_def deps_done_def split: phase.splits if_splits)

lemma exec_inv_tear_timeout [invs]:
  "exec_inv c st \<Longrightarrow> st_phase st \<in> {TearTop, TearWave} \<Longrightarrow> exec_inv c (st\<lparr>st_tear_done := True\<rparr>)"
  by (auto simp: exec_inv_def exec_wf_def phase_ok_def split: phase.splits)

lemma with_worker_Some:
  "with_worker st i pc f = Some st' \<longleftrightarrow>
     (\<exists>w. worker_of st i = Some w \<and> w_pc w = pc \<and> f w = Some st')"
  by (auto simp: with_worker_def split: option.splits)

lemma exec_step_inv [invs]:
  assumes "exec_inv c st" and "exec_step c st e = Some st'"
  shows "exec_inv c st'"
  using assms
  by (cases e) (auto simp: with_worker_Some intro: invs split: if_splits)

lemma status_at_marks:
  "status_at (fold mark_node_done ids st) i = (if i \<in> set ids then Some Done else status_at st i)"
  by (induction ids arbitrary: st) (auto simp: mark_node_done_def)

lemma marks_fields:
  "distinct (map fst (st_status st)) \<Longrightarrow> distinct (map fst (st_status (fold mark_node_done ids st)))"
  "st_workers (fold mark_node_done ids st) = st_workers st"
  "st_errs (fold mark_node_done ids st) = st_errs st"
  "st_cancelled (fold mark_node_done ids st) = st_cancelled st"
  "st_phase (fold mark_node_done ids st) = st_phase st"
  "st_calls (fold mark_node_done ids st) = st_calls st"
  by (induction ids arbitrary: st) (simp_all add: mark_node_done_def)

lemma exec_init_inv: "exec_init c st \<Longrightarrow> exec_inv c st"
proof -
  assume "exec_init c st"
  then obtain ids where "distinct (node_ids (ex_graph c))" "set ids \<subseteq> set (node_ids (ex_graph c))"
    and st: "st = fold mark_node_done ids new_executor"
    by (auto simp: exec_init_def)
  then show ?thesis
    by (auto simp: exec_inv_def exec_wf_def phase_ok_def status_at_marks marks_fields new_executor_def
        split: if_splits)
qed

section \<open>Retries, history and saved snapshots\<close>

definition backoff :: "retry_policy \<Rightarrow> nat \<Rightarrow> int" where
  "backoff p k = min (base_delay p * 2 ^ k) (max_delay p)"

definition sane_policy :: "retry_policy \<Rightarrow> bool" where
  "sane_policy p \<longleftrightarrow> 0 \<le> base_delay p \<and> base_delay p \<le> max_delay p \<and> max_delay p < 2 ^ 62"

lemma next_delay_backoff: "sane_policy p \<Longrightarrow> next_delay p (backoff p k) = backoff p (Suc k)"
proof -
  assume s: "sane_policy p"
  then have "0 \<le> base_delay p * 2 ^ k" by (simp add: sane_policy_def)
  then have "0 \<le> backoff p k" "backoff p k \<le> max_delay p" using s by (auto simp: backoff_def sane_policy_def)
  then have "int64 (backoff p k * 2) = backoff p k * 2"
    using s by (intro int64_id) (auto simp: sane_policy_def)
  then show ?thesis using \<open>0 \<le> base_delay p * 2 ^ k\<close>
    using s by (auto simp: next_delay_def backoff_def min_def Let_def sane_policy_def)
qed

text \<open>A worker never tries more often than the policy allows, and waits as the policy says.\<close>

definition worker_ok :: "retry_policy \<Rightarrow> worker \<Rightarrow> bool" where
  "worker_ok p w \<longleftrightarrow> 0 \<le> w_attempt w \<and>
     (w_pc w \<noteq> LoopHead \<longrightarrow> w_attempt w \<le> max_retries p) \<and>
     (w_pc w = Waiting \<longrightarrow> 0 < w_attempt w) \<and>
     (sane_policy p \<longrightarrow>
        w_delay w = backoff p (nat (if w_pc w = Executing then w_attempt w else w_attempt w - 1)))"

definition workers_ok :: "'t executor \<Rightarrow> exec \<Rightarrow> bool" where
  "workers_ok c st \<longleftrightarrow> (\<forall>w \<in> set (st_workers st). worker_ok (ex_retry c) w)"

definition calls_ok :: "'t executor \<Rightarrow> exec \<Rightarrow> bool" where
  "calls_ok c st \<longleftrightarrow> (\<forall>(i, k) \<in> set (st_calls st). 0 \<le> k \<and> k \<le> max_retries (ex_retry c) \<and>
     status_at st i \<noteq> None \<and>
     (must_complete_id c i \<longrightarrow> \<not> always_run_id c i \<longrightarrow> status_at st i \<noteq> Some Cancelled))"

definition cancel_ok :: "'t executor \<Rightarrow> exec \<Rightarrow> bool" where
  "cancel_ok c st \<longleftrightarrow> (st_cancelled st \<longrightarrow>
     (\<forall>n \<in> set (g_nodes (ex_graph c)). \<not> always_run n \<longrightarrow> status_at st (node_id n) \<noteq> None))"

definition saved_ok :: "'t executor \<Rightarrow> exec \<Rightarrow> bool" where
  "saved_ok c st \<longleftrightarrow> (\<forall>r. st_phase st = Returned r \<longrightarrow> ex_storage c \<longrightarrow>
     st_saves st \<noteq> [] \<and> last (st_saves st) = snapshot_of c st)"

definition exec_full :: "'t executor \<Rightarrow> exec \<Rightarrow> bool" where
  "exec_full c st \<longleftrightarrow> exec_inv c st \<and> workers_ok c st \<and> calls_ok c st \<and> cancel_ok c st \<and> saved_ok c st"

lemma exec_break_fields [simp]:
  "st_status (exec_break c st) = st_status st"
  "st_workers (exec_break c st) = st_workers st"
  "st_calls (exec_break c st) = st_calls st"
  "st_cancelled (exec_break c st) = st_cancelled st"
  by (simp_all add: exec_break_def exec_finish_def)

lemma exec_finish_fields [simp]:
  "st_status (exec_finish c st) = st_status st"
  "st_workers (exec_finish c st) = st_workers st"
  "st_calls (exec_finish c st) = st_calls st"
  "st_cancelled (exec_finish c st) = st_cancelled st"
  by (simp_all add: exec_finish_def)

lemma fold_set_status_calls [simp]:
  "st_calls (fold (\<lambda>n. set_status (node_id n) s) ns st) = st_calls st"
  by (induction ns arbitrary: st) simp_all

lemma start_wave_calls [simp]: "st_calls (start_wave c ph ready st) = st_calls st"
  by (simp add: start_wave_def)

lemma snapshot_cong:
  "st_status st' = st_status st \<Longrightarrow> st_errors st' = st_errors st \<Longrightarrow> snapshot_of c st' = snapshot_of c st"
proof -
  assume "st_status st' = st_status st" "st_errors st' = st_errors st"
  then have "node_snapshot st' = (node_snapshot st :: 'a node \<Rightarrow> node_state)"
    by (simp add: node_snapshot_def fun_eq_iff)
  then show ?thesis by (simp add: snapshot_of_def)
qed

subsection \<open>Workers\<close>

lemma start_worker_ok: "worker_ok p (start_worker p n)"
  by (simp add: worker_ok_def start_worker_def backoff_def sane_policy_def)

lemma main_workers_ok:
  assumes "exec_inv c st" and "workers_ok c st" and "main_step c st = Some st'"
  shows "workers_ok c st'"
  using assms
  by (auto simp: main_step_def main_top_def main_wave_end_def tear_top_def tear_wave_end_def
      workers_ok_def Let_def start_worker_ok split: phase.splits if_splits)

lemma put_worker_ok:
  "workers_ok c st \<Longrightarrow> worker_ok (ex_retry c) w \<Longrightarrow> workers_ok c (put_worker w st)"
  by (auto simp: workers_ok_def put_worker_def)

lemma workers_ok_sub:
  "workers_ok c st \<Longrightarrow> set (st_workers st') \<subseteq> set (st_workers st) \<Longrightarrow> workers_ok c st'"
  by (auto simp: workers_ok_def)

lemma worker_ok_of: "workers_ok c st \<Longrightarrow> worker_of st i = Some w \<Longrightarrow> worker_ok (ex_retry c) w"
  using worker_of_Some by (fastforce simp: workers_ok_def)

lemma mark_fields [simp]:
  "st_workers (mark_done c i st) = st_workers st"
  "st_workers (mark_failed i m st) = st_workers st"
  "st_calls (mark_done c i st) = st_calls st"
  "st_calls (mark_failed i m st) = st_calls st"
  "st_phase (mark_done c i st) = st_phase st"
  "st_phase (mark_failed i m st) = st_phase st"
  "st_cancelled (mark_done c i st) = st_cancelled st"
  "st_cancelled (mark_failed i m st) = st_cancelled st"
  "status_at (mark_done c i st) = (status_at st)(i \<mapsto> Done)"
  "status_at (mark_failed i m st) = (status_at st)(i \<mapsto> Failed)"
  by (simp_all add: mark_done_def mark_failed_def)

lemma drop_worker_calls [simp]: "st_calls (drop_worker i st) = st_calls st"
  by (simp add: drop_worker_def)

lemma put_worker_calls [simp]: "st_calls (put_worker i st) = st_calls st"
  by (simp add: put_worker_def)

lemma step_workers_ok:
  assumes inv: "exec_inv c st" and ok: "workers_ok c st" and step: "exec_step c st e = Some st'"
  shows "workers_ok c st'"
proof (cases e)
  case (EvHead i)
  then obtain w where w: "worker_of st i = Some w" "w_pc w = LoopHead" "st' = worker_head c w st"
    using step by (auto simp: with_worker_Some)
  have k: "worker_ok (ex_retry c) w" by (rule worker_ok_of [OF ok w(1)])
  show ?thesis
  proof (cases "w_attempt w \<le> max_retries (ex_retry c)")
    case True
    then show ?thesis
      unfolding w(3) worker_head_def using k w(2)
      by (auto intro!: put_worker_ok ok simp: worker_ok_def)
  next
    case False
    then show ?thesis
      unfolding w(3) worker_head_def by (auto intro!: workers_ok_sub [OF ok])
  qed
next
  case (EvWaited i)
  then obtain w where w: "worker_of st i = Some w" "w_pc w = Waiting" "st' = worker_waited c w st"
    using step by (auto simp: with_worker_Some)
  have k: "worker_ok (ex_retry c) w" by (rule worker_ok_of [OF ok w(1)])
  have "0 < w_attempt w" using k w(2) by (simp add: worker_ok_def)
  then have "nat (w_attempt w) = Suc (nat (w_attempt w - 1))" by linarith
  then show ?thesis
    unfolding w(3) worker_waited_def using k w(2)
    by (intro put_worker_ok ok) (auto simp: worker_ok_def next_delay_backoff)
next
  case (EvExecuted i outcome)
  then obtain w where w: "worker_of st i = Some w" "w_pc w = Executing"
    "st' = worker_executed c w outcome st"
    using step by (auto simp: with_worker_Some)
  have k: "worker_ok (ex_retry c) w" by (rule worker_ok_of [OF ok w(1)])
  have ok': "workers_ok c (st\<lparr>st_calls := cs\<rparr>)" for cs using ok by (simp add: workers_ok_def)
  show ?thesis
  proof (cases outcome)
    case None
    then show ?thesis unfolding w(3) worker_executed_def by (auto intro!: workers_ok_sub [OF ok])
  next
    case (Some m)
    then show ?thesis
      unfolding w(3) worker_executed_def using k w(2)
      by (auto intro!: put_worker_ok ok' simp: worker_ok_def)
  qed
next
  case (EvWaitCancelled i)
  then show ?thesis
    using step by (auto simp: with_worker_Some worker_cancelled_def intro!: workers_ok_sub [OF ok]
        split: if_splits)
next
  case EvMain
  then show ?thesis using main_workers_ok [OF inv ok] step by simp
qed (use ok step in \<open>auto simp: workers_ok_def split: if_splits\<close>)

subsection \<open>Calls\<close>

lemma calls_ok_mono:
  assumes "calls_ok c st" and "st_calls st' = st_calls st"
    and "\<And>i. status_at st i \<noteq> None \<Longrightarrow> status_at st' i \<noteq> None"
    and "\<And>i. status_at st i \<noteq> None \<Longrightarrow> must_complete_id c i \<Longrightarrow> \<not> always_run_id c i \<Longrightarrow>
      status_at st' i = Some Cancelled \<Longrightarrow> status_at st i = Some Cancelled"
  shows "calls_ok c st'"
  using assms unfolding calls_ok_def by (fastforce split: prod.splits)

lemma main_calls_ok:
  assumes "calls_ok c st" and "main_step c st = Some st'" and inv: "exec_inv c st"
  shows "calls_ok c st'"
  using assms(1)
proof (rule calls_ok_mono)
  show "st_calls st' = st_calls st"
    using assms(2) by (auto simp: main_step_def main_top_def main_wave_end_def tear_top_def
        tear_wave_end_def Let_def split: phase.splits if_splits)
  show "status_at st' i \<noteq> None" if "status_at st i \<noteq> None" for i
    using assms(2) that by (auto simp: main_step_def main_top_def main_wave_end_def tear_top_def
        tear_wave_end_def Let_def status_at_start_wave status_at_cancel_pending
        split: phase.splits if_splits)
  show "status_at st i = Some Cancelled"
    if "status_at st i \<noteq> None" "status_at st' i = Some Cancelled" for i
    using assms(2) that inv
    by (auto simp: main_step_def main_top_def main_wave_end_def tear_top_def
        tear_wave_end_def Let_def status_at_start_wave status_at_cancel_pending
        exec_inv_def exec_wf_def split: phase.splits if_splits)
qed


lemma must_complete_worker:
  "worker_ctx_done c st i \<Longrightarrow> st_phase st = MainWave \<Longrightarrow> \<not> must_complete_id c i"
  by (simp add: worker_ctx_done_def)

lemma step_calls_ok:
  assumes inv: "exec_inv c st" and ok: "workers_ok c st" and calls: "calls_ok c st"
    and step: "exec_step c st e = Some st'"
  shows "calls_ok c st'"
proof (cases e)
  case (EvHead i)
  then obtain w where w: "worker_of st i = Some w" "st' = worker_head c w st"
    using step by (auto simp: with_worker_Some)
  show ?thesis
    unfolding w(2) worker_head_def
    by (intro calls_ok_mono [OF calls]) (auto split: if_splits)
next
  case (EvWaited i)
  then show ?thesis using step
    by (auto simp: with_worker_Some worker_waited_def intro!: calls_ok_mono [OF calls])
next
  case (EvExecuted i outcome)
  then obtain w where w: "worker_of st i = Some w" "w_pc w = Executing"
    "st' = worker_executed c w outcome st"
    using step by (auto simp: with_worker_Some)
  have k: "worker_ok (ex_retry c) w" by (rule worker_ok_of [OF ok w(1)])
  have i: "w_node w = i" using worker_of_Some [OF w(1)] by simp
  have run: "status_at st i = Some Running"
    using inv worker_of_Some [OF w(1)] by (auto simp: exec_inv_def exec_wf_def)
  have "calls_ok c (st\<lparr>st_calls := st_calls st @ [(i, w_attempt w)]\<rparr>)"
    using calls k w(2) run by (auto simp: calls_ok_def worker_ok_def)
  then show ?thesis
    unfolding w(3) worker_executed_def i
    by (rule calls_ok_mono) (auto simp: Let_def split: option.splits if_splits)
next
  case (EvWaitCancelled i)
  then obtain w where w: "worker_of st i = Some w" "worker_ctx_done c st i"
    "st' = worker_cancelled w st"
    using step by (auto simp: with_worker_Some split: if_splits)
  have i: "w \<in> set (st_workers st)" "w_node w = i" using worker_of_Some [OF w(1)] by auto
  have "\<not> must_complete_id c i \<or> always_run_id c i"
    using worker_phase [OF inv w(1)] must_complete_worker [OF w(2)] inv i
    by (auto simp: exec_inv_def phase_ok_def)
  then show ?thesis
    unfolding w(3) worker_cancelled_def i
    by (intro calls_ok_mono [OF calls]) (auto split: if_splits)
next
  case EvMain
  then show ?thesis using main_calls_ok [OF calls _ inv] step by simp
qed (use calls step in \<open>auto simp: calls_ok_def split: if_splits\<close>)

subsection \<open>Cancellation and saved snapshots\<close>

lemma step_status_dom:
  assumes "exec_step c st e = Some st'" and "status_at st i \<noteq> None"
  shows "status_at st' i \<noteq> None"
  using assms
  by (cases e)
    (auto simp: with_worker_Some main_step_def main_top_def main_wave_end_def tear_top_def
      tear_wave_end_def Let_def status_at_start_wave status_at_cancel_pending worker_head_def
      worker_waited_def worker_cancelled_def worker_executed_def
      split: phase.splits if_splits option.splits)

lemma step_cancel_ok:
  assumes "cancel_ok c st" and step: "exec_step c st e = Some st'"
  shows "cancel_ok c st'"
proof (cases "st_cancelled st' = st_cancelled st")
  case True
  then show ?thesis using assms step_status_dom [OF step] by (simp add: cancel_ok_def)
next
  case False
  then have "st' = exec_break c (exec_save c (cancel_pending c st))"
    using step by (cases e)
      (auto simp: with_worker_Some main_step_def main_top_def main_wave_end_def tear_top_def
        tear_wave_end_def Let_def worker_head_def worker_waited_def worker_cancelled_def
        worker_executed_def split: phase.splits if_splits option.splits)
  then show ?thesis by (auto simp: cancel_ok_def status_at_cancel_pending)
qed

lemma exec_finish_saved: "saved_ok c (exec_finish c st)"
  by (auto simp: saved_ok_def exec_finish_def exec_save_def intro: snapshot_cong)

lemma exec_break_saved: "saved_ok c (exec_break c st)"
  using exec_finish_saved by (auto simp: exec_break_def saved_ok_def)

lemma saved_ok_phase: "\<forall>r. st_phase st \<noteq> Returned r \<Longrightarrow> saved_ok c st"
  by (simp add: saved_ok_def)

lemma main_saved_ok: "main_step c st = Some st' \<Longrightarrow> saved_ok c st'"
  by (auto simp: main_step_def main_top_def main_wave_end_def tear_top_def tear_wave_end_def
      Let_def intro: exec_break_saved exec_finish_saved saved_ok_phase split: phase.splits if_splits)

lemma step_saved_ok:
  assumes inv: "exec_inv c st" and ok: "saved_ok c st" and step: "exec_step c st e = Some st'"
  shows "saved_ok c st'"
proof (cases "e = EvMain \<or> e = EvCancelCtx")
  case True
  then show ?thesis
  proof
    assume "e = EvMain"
    then show ?thesis using main_saved_ok step by simp
  next
    assume "e = EvCancelCtx"
    then have st': "st' = st\<lparr>st_ctx_done := True\<rparr>" using step by simp
    have "snapshot_of c st' = snapshot_of c st" unfolding st' by (rule snapshot_cong) simp_all
    then show ?thesis using ok unfolding saved_ok_def st' by simp
  qed
next
  case False
  then have "st_phase st' = st_phase st"
    using step by (cases e) (auto simp: with_worker_Some worker_head_def worker_waited_def
        worker_cancelled_def worker_executed_def Let_def split: if_splits option.splits)
  moreover have "\<forall>r. st_phase st \<noteq> Returned r"
    using False step worker_phase [OF inv] by (cases e) (auto simp: with_worker_Some split: if_splits)
  ultimately show ?thesis by (simp add: saved_ok_def)
qed

lemma exec_full_init: "exec_init c st \<Longrightarrow> exec_full c st"
  using exec_init_inv [of c st]
  by (auto simp: exec_full_def exec_init_def workers_ok_def calls_ok_def cancel_ok_def saved_ok_def
      marks_fields new_executor_def)

lemma exec_full_step: "exec_full c st \<Longrightarrow> exec_step c st e = Some st' \<Longrightarrow> exec_full c st'"
  using exec_step_inv step_workers_ok step_calls_ok step_cancel_ok step_saved_ok
  unfolding exec_full_def by blast


section \<open>Termination\<close>

definition is_running :: "exec \<Rightarrow> string \<Rightarrow> bool" where
  "is_running st i \<longleftrightarrow> status_at st i = Some Running"

definition unstarted :: "'t executor \<Rightarrow> exec \<Rightarrow> 't node list" where
  "unstarted c st =
     filter (\<lambda>n. \<not> is_settled st (node_id n) \<and> \<not> is_running st (node_id n)) (g_nodes (ex_graph c))"

definition worker_rank :: "retry_policy \<Rightarrow> worker \<Rightarrow> nat" where
  "worker_rank p w =
     3 * nat (max_retries p + 1 - w_attempt w) -
       (case w_pc w of LoopHead \<Rightarrow> 0 | Waiting \<Rightarrow> 1 | Executing \<Rightarrow> 2)"

definition phase_rank :: "phase \<Rightarrow> nat" where
  "phase_rank p = (case p of MainTop \<Rightarrow> 2 | MainWave \<Rightarrow> 2 | TearTop \<Rightarrow> 1 | TearWave \<Rightarrow> 1 | Returned _ \<Rightarrow> 0)"

definition exec_rank :: "'t executor \<Rightarrow> exec \<Rightarrow> nat \<times> nat \<times> nat" where
  "exec_rank c st =
     (phase_rank (st_phase st),
      4 * length (unstarted c st) +
        (if st_phase st \<in> {MainWave, TearWave} then 2 + 2 * length (st_workers st) else 1),
      sum_list (map (worker_rank (ex_retry c)) (st_workers st)))"

abbreviation rank_order :: "((nat \<times> nat \<times> nat) \<times> (nat \<times> nat \<times> nat)) set" where
  "rank_order \<equiv> less_than <*lex*> less_than <*lex*> less_than"

lemma unstarted_start_wave:
  assumes "ready = filter P (g_nodes (ex_graph c))" and "distinct (node_ids (ex_graph c))"
    and "\<And>n. n \<in> set ready \<Longrightarrow> n \<in> set (unstarted c st)"
  shows "length (unstarted c st) = length (unstarted c (start_wave c ph ready st)) + length ready"
proof -
  let ?ns = "g_nodes (ex_graph c)"
  have inj: "inj_on node_id (set ?ns)" using assms(2) by (simp add: node_ids_def distinct_map)
  have run: "n \<in> set ready \<longleftrightarrow> node_id n \<in> node_id ` set ready" if "n \<in> set ?ns" for n
    using that inj assms(1) by (auto dest: inj_onD)
  have u: "unstarted c (start_wave c ph ready st) = filter (\<lambda>n. n \<notin> set ready) (unstarted c st)"
    unfolding unstarted_def filter_filter
    by (rule filter_cong [OF refl])
      (auto simp: is_settled_def is_running_def status_at_start_wave run [symmetric])
  have r: "ready = filter (\<lambda>n. n \<in> set ready) (unstarted c st)"
  proof -
    have "filter (\<lambda>n. n \<in> set ready) (unstarted c st) = filter P ?ns"
      unfolding unstarted_def filter_filter
      by (rule filter_cong [OF refl]) (use assms(1,3) in \<open>auto simp: unstarted_def\<close>)
    then show ?thesis using assms(1) by simp
  qed
  show ?thesis
    using sum_length_filter_compl [of "\<lambda>n. n \<in> set ready" "unstarted c st"] r u by simp
qed

lemma exec_finish_phase [simp]: "st_phase (exec_finish c st) = Returned (run_result_of c st)"
  by (simp add: exec_finish_def)

lemma exec_break_rank [simp]: "phase_rank (st_phase (exec_break c st)) < 2"
  by (auto simp: exec_break_def phase_rank_def)

lemma phase_rank_main [simp]: "phase_rank MainTop = 2" "phase_rank MainWave = 2"
  by (simp_all add: phase_rank_def)

lemma lex_first: "a < b \<Longrightarrow> ((a, x), (b, y)) \<in> rank_order"
  by (simp add: in_lex_prod)

lemma lex_second: "a = b \<Longrightarrow> x < y \<Longrightarrow> ((a, x, u), (b, y, v)) \<in> rank_order"
  by (simp add: in_lex_prod)

lemma start_wave_rank:
  assumes "ready \<noteq> []" and "ready = filter P (g_nodes (ex_graph c))"
    and "distinct (node_ids (ex_graph c))" and "\<And>n. n \<in> set ready \<Longrightarrow> n \<in> set (unstarted c st)"
    and "st_phase st \<notin> {MainWave, TearWave}" and "ph \<in> {MainWave, TearWave}"
    and "phase_rank ph = phase_rank (st_phase st)"
  shows "(exec_rank c (start_wave c ph ready st), exec_rank c st) \<in> rank_order"
proof -
  have "0 < length ready" using assms(1) by (cases ready) simp_all
  moreover have "length (unstarted c st) = length (unstarted c (start_wave c ph ready st)) + length ready"
    by (rule unstarted_start_wave [OF assms(2,3)]) (rule assms(4))
  ultimately show ?thesis
    unfolding exec_rank_def using assms(5-7)
    by (intro lex_second) (auto simp: neq_Nil_conv)
qed

lemma unstarted_save [simp]: "unstarted c (exec_save c' st) = unstarted c st"
  by (simp add: unstarted_def is_settled_def is_running_def)

lemma exec_rank_save [simp]: "exec_rank c (exec_save c' st) = exec_rank c st"
  by (simp add: exec_rank_def)

lemma unstarted_phase [simp]: "unstarted c (st\<lparr>st_phase := p\<rparr>) = unstarted c st"
  by (simp add: unstarted_def is_settled_def is_running_def)

lemma main_step_rank:
  assumes inv: "exec_inv c st" and step: "main_step c st = Some st'"
  shows "(exec_rank c st', exec_rank c st) \<in> rank_order"
proof -
  have wf: "exec_wf c st" and d: "distinct (node_ids (ex_graph c))"
    using inv by (auto simp: exec_inv_def exec_wf_def)
  show ?thesis
  proof (cases "st_phase st")
    case MainTop
    have brk: "(exec_rank c (exec_break c s), exec_rank c st) \<in> rank_order" for s
      unfolding exec_rank_def by (rule lex_first) (simp add: MainTop)
    have st': "st' = main_top c st" using step MainTop by (simp add: main_step_def)
    have p: "st_errs st = []" "\<not> st_cancelled st" "st_workers st = []"
      and canc: "\<And>i. status_at st i = Some Cancelled \<Longrightarrow> st_ctx_done st"
      using inv MainTop by (auto simp: exec_inv_def phase_ok_def)
    show ?thesis
    proof (cases "st_ctx_done st \<or> get_ready c st = []")
      case True
      then show ?thesis using brk by (auto simp: st' main_top_def)
    next
      case False
      have r: "get_ready c st = filter (\<lambda>n. \<not> is_done st (node_id n) \<and> deps_complete n (is_done st))
          (g_nodes (ex_graph c))"
        using p has_failed_errs [OF wf] by (simp add: get_ready_def graph_ready_def)
      have "n \<in> set (unstarted c st)" if "n \<in> set (get_ready c st)" for n
        using that wf p canc False unfolding r
        by (auto simp: unstarted_def is_settled_def is_running_def is_done_def exec_wf_def)
      then have "(exec_rank c (start_wave c MainWave (get_ready c st) st), exec_rank c st) \<in> rank_order"
        by (intro start_wave_rank [OF _ r d]) (use False MainTop in \<open>auto simp: phase_rank_def\<close>)
      then show ?thesis using False by (simp add: st' main_top_def)
    qed
  next
    case MainWave
    have brk: "(exec_rank c (exec_break c s), exec_rank c st) \<in> rank_order" for s
      unfolding exec_rank_def by (rule lex_first) (simp add: MainWave)
    have "st' = exec_break c (exec_save c st) \<or> st' = st\<lparr>st_phase := MainTop\<rparr>"
      using step MainWave by (auto simp: main_step_def main_wave_end_def split: if_splits)
    moreover have "(exec_rank c (st\<lparr>st_phase := MainTop\<rparr>), exec_rank c st) \<in> rank_order"
      unfolding exec_rank_def using MainWave by (intro lex_second) simp_all
    ultimately show ?thesis using brk by blast
  next
    case TearTop
    let ?r = "graph_ready_always_run (ex_graph c) (is_settled st)"
    have st': "st' = tear_top c st" using step TearTop by (simp add: main_step_def)
    show ?thesis
    proof (cases "?r = []")
      case True
      then show ?thesis by (simp add: st' tear_top_def exec_rank_def TearTop phase_rank_def)
    next
      case False
      have "n \<in> set (unstarted c st)" if "n \<in> set ?r" for n
        using that wf inv TearTop
        by (auto simp: unstarted_def graph_ready_always_run_def is_running_def exec_inv_def
            phase_ok_def exec_wf_def)
      then have "(exec_rank c (start_wave c TearWave ?r st), exec_rank c st) \<in> rank_order"
        by (intro start_wave_rank [OF False graph_ready_always_run_def d])
          (use TearTop in \<open>auto simp: phase_rank_def\<close>)
      then show ?thesis using False by (simp add: st' tear_top_def)
    qed
  next
    case TearWave
    then show ?thesis using step
      by (auto simp: main_step_def tear_wave_end_def exec_rank_def phase_rank_def split: if_splits)
  qed (use step in \<open>simp add: main_step_def\<close>)
qed

lemma sum_list_replace:
  fixes f :: "'b \<Rightarrow> nat"
  assumes "x \<in> set xs" and "f y < f x" and "distinct (map k xs)" and "k y = k x"
  shows "sum_list (map f (map (\<lambda>v. if k v = k y then y else v) xs)) < sum_list (map f xs)"
  using assms
proof (induction xs)
  case (Cons a xs)
  show ?case
  proof (cases "a = x")
    case True
    then have "map (\<lambda>v. if k v = k y then y else v) xs = xs"
      using Cons.prems(3,4) by (intro map_idI) (auto simp: image_iff)
    then show ?thesis using True Cons.prems by simp
  next
    case False
    then have x: "x \<in> set xs" using Cons.prems(1) by simp
    then have "k a \<noteq> k x" using Cons.prems(3) by (auto simp: image_iff)
    then show ?thesis using Cons.IH [OF x] Cons.prems by simp
  qed
qed simp

lemma put_worker_rank:
  assumes inv: "exec_inv c st" and w: "worker_of st i = Some w" and "w_node v = i"
    and "worker_rank (ex_retry c) v < worker_rank (ex_retry c) w"
  shows "(exec_rank c (put_worker v st), exec_rank c st) \<in> rank_order"
proof -
  have "w \<in> set (st_workers st)" "w_node w = i" using worker_of_Some [OF w] by auto
  moreover have "distinct (map w_node (st_workers st))"
    using inv by (simp add: exec_inv_def exec_wf_def)
  ultimately have "sum_list (map (worker_rank (ex_retry c)) (st_workers (put_worker v st))) <
      sum_list (map (worker_rank (ex_retry c)) (st_workers st))"
    unfolding put_worker_def using assms(3,4)
      sum_list_replace [of w "st_workers st" "worker_rank (ex_retry c)" v w_node]
    by simp
  moreover have "length (st_workers (put_worker v st)) = length (st_workers st)"
    by (simp add: put_worker_def)
  ultimately show ?thesis
    by (simp add: exec_rank_def unstarted_def is_settled_def is_running_def)
qed

lemma drop_worker_rank:
  assumes inv: "exec_inv c st" and w: "worker_of st i = Some w"
    and "status_at st' = (status_at st)(i \<mapsto> s)" and "s \<in> {Done, Failed, Cancelled}"
    and "st_workers st' = filter (\<lambda>v. w_node v \<noteq> i) (st_workers st)" and "st_phase st' = st_phase st"
  shows "(exec_rank c st', exec_rank c st) \<in> rank_order"
proof -
  have run: "status_at st i = Some Running"
    using inv worker_of_Some [OF w] by (auto simp: exec_inv_def exec_wf_def)
  then have "unstarted c st' = unstarted c st"
    unfolding unstarted_def is_settled_def is_running_def using assms(3,4) by (intro filter_cong) auto
  moreover have "length (st_workers st') < length (st_workers st)"
    unfolding assms(5) using worker_of_Some [OF w] by (auto intro: length_filter_less)
  ultimately show ?thesis
    unfolding exec_rank_def using worker_phase [OF inv w] assms(6) by (intro lex_second) auto
qed

lemma exec_step_rank:
  assumes full: "exec_full c st" and own: "own_event e" and step: "exec_step c st e = Some st'"
  shows "(exec_rank c st', exec_rank c st) \<in> rank_order"
proof -
  have inv: "exec_inv c st" and ok: "workers_ok c st" using full by (auto simp: exec_full_def)
  show ?thesis
  proof (cases e)
    case (EvHead i)
    then obtain w where w: "worker_of st i = Some w" "w_pc w = LoopHead" "st' = worker_head c w st"
      using step by (auto simp: with_worker_Some)
    have i: "w_node w = i" using worker_of_Some [OF w(1)] by simp
    show ?thesis
    proof (cases "w_attempt w \<le> max_retries (ex_retry c)")
      case True
      then have "worker_rank (ex_retry c) (w\<lparr>w_pc := p\<rparr>) < worker_rank (ex_retry c) w"
        if "p \<noteq> LoopHead" for p
        using that w(2) by (cases p) (auto simp: worker_rank_def)
      then show ?thesis
        unfolding w(3) worker_head_def using True i by (auto intro: put_worker_rank [OF inv w(1)])
    next
      case False
      then show ?thesis
        unfolding w(3) worker_head_def i
        by (intro drop_worker_rank [OF inv w(1), of _ Failed]) auto
    qed
  next
    case (EvWaited i)
    then obtain w where w: "worker_of st i = Some w" "w_pc w = Waiting" "st' = worker_waited c w st"
      using step by (auto simp: with_worker_Some)
    have "worker_ok (ex_retry c) w" by (rule worker_ok_of [OF ok w(1)])
    then show ?thesis
      unfolding w(3) worker_waited_def using worker_of_Some [OF w(1)] w(2)
      by (intro put_worker_rank [OF inv w(1)]) (auto simp: worker_rank_def worker_ok_def)
  next
    case (EvExecuted i outcome)
    then obtain w where w: "worker_of st i = Some w" "w_pc w = Executing"
      "st' = worker_executed c w outcome st"
      using step by (auto simp: with_worker_Some)
    have k: "worker_ok (ex_retry c) w" by (rule worker_ok_of [OF ok w(1)])
    have i: "w_node w = i" using worker_of_Some [OF w(1)] by simp
    let ?s = "st\<lparr>st_calls := st_calls st @ [(i, w_attempt w)]\<rparr>"
    show ?thesis
    proof (cases outcome)
      case None
      then show ?thesis
        unfolding w(3) worker_executed_def i
        by (intro drop_worker_rank [OF inv w(1), of _ Done]) auto
    next
      case (Some m)
      have "(exec_rank c (put_worker (w\<lparr>w_attempt := w_attempt w + 1, w_pc := LoopHead,
          w_last_err := Some m\<rparr>) ?s), exec_rank c ?s) \<in> rank_order"
      proof (rule put_worker_rank)
        show "exec_inv c ?s" using inv by (simp add: exec_inv_def)
        show "worker_of ?s i = Some w" using w(1) by (simp add: worker_of_def)
      qed (use k w(2) i in \<open>auto simp: worker_rank_def worker_ok_def\<close>)
      moreover have "exec_rank c ?s = exec_rank c st"
        by (simp add: exec_rank_def unstarted_def is_settled_def is_running_def)
      ultimately show ?thesis unfolding w(3) worker_executed_def i Some by simp
    qed
  next
    case (EvWaitCancelled i)
    then obtain w where w: "worker_of st i = Some w" "st' = worker_cancelled w st"
      using step by (auto simp: with_worker_Some split: if_splits)
    then show ?thesis
      unfolding w(2) worker_cancelled_def using worker_of_Some [OF w(1)]
      by (intro drop_worker_rank [OF inv w(1), of _ Cancelled]) auto
  next
    case EvMain
    then show ?thesis using main_step_rank [OF inv] step by simp
  qed (use own in \<open>simp_all add: own_event_def\<close>)
qed

definition has_returned :: "exec \<Rightarrow> bool" where
  "has_returned st \<longleftrightarrow> (case st_phase st of Returned _ \<Rightarrow> True | _ \<Rightarrow> False)"

lemma exec_progress:
  assumes "exec_full c st" and "\<not> has_returned st"
  shows "\<exists>e. own_event e \<and> exec_step c st e \<noteq> None"
proof (cases "main_step c st")
  case None
  then have "st_workers st \<noteq> []"
    using assms(2) by (auto simp: main_step_def has_returned_def split: phase.splits if_splits)
  then obtain w ws where ws: "st_workers st = w # ws" by (cases "st_workers st") auto
  let ?i = "w_node w"
  have wo: "worker_of st ?i = Some w" by (simp add: worker_of_def ws)
  define e where "e = (case w_pc w of LoopHead \<Rightarrow> EvHead ?i | Waiting \<Rightarrow> EvWaited ?i
      | Executing \<Rightarrow> EvExecuted ?i None)"
  have "own_event e" "exec_step c st e \<noteq> None"
    using wo by (auto simp: e_def own_event_def with_worker_def split: worker_pc.split)
  then show ?thesis by blast
next
  case (Some st')
  then have "own_event EvMain \<and> exec_step c st EvMain \<noteq> None" by (simp add: own_event_def)
  then show ?thesis by blast
qed

interpretation exec_ts: terminating_system "exec_init c" "exec_step c" "exec_full c"
    own_event has_returned "exec_rank c" for c :: "'t executor"
proof (unfold_locales, goal_cases)
  case (1 s) then show ?case by (rule exec_full_init)
next
  case (2 s e s') then show ?case by (rule exec_full_step)
next
  case (3 s e s') then show ?case by (rule exec_step_rank)
next
  case (4 s) then show ?case by (rule exec_progress)
qed

end
