(* ===== verification/DagRun.thy ===== *)
theory DagRun
  imports DagExec
begin

text \<open>
  What the executor of \<open>DagExec\<close> promises to a run, for every interleaving of its workers and
  every moment of a cancellation: dependencies run first, a failure stops everything but the
  teardown, the teardown is always attempted, the returned error tells the truth, and the run
  ends.
\<close>

abbreviation exec_run :: "'t executor \<Rightarrow> exec \<Rightarrow> event list \<Rightarrow> exec option" where
  "exec_run c \<equiv> run_steps (exec_step c)"

section \<open>A concrete run\<close>

definition sample_task :: "string \<Rightarrow> string list \<Rightarrow> bool \<Rightarrow> nat node" where
  "sample_task i ds always = \<lparr>node_id = i, node_type = i, node_deps = ds, always_run = always,
     must_complete = (i = ''net''), node_task = Some 0\<rparr>"

definition sample_exec :: "nat executor" where
  "sample_exec = \<lparr>ex_graph = \<lparr>g_nodes = [sample_task ''net'' [] False, sample_task ''db'' [''net''] False,
       sample_task ''load'' [''db''] False, sample_task ''teardown'' [''load''] True]\<rparr>,
     ex_retry = \<lparr>max_retries = 1, base_delay = 5 * second, max_delay = 60 * second\<rparr>,
     ex_storage = True\<rparr>"

lemma sample_init: "exec_init sample_exec new_executor"
proof -
  have "set [] \<subseteq> set (node_ids (ex_graph sample_exec)) \<and> new_executor = fold mark_node_done [] new_executor"
    by simp
  moreover have "distinct (node_ids (ex_graph sample_exec))" by code_simp
  ultimately show ?thesis unfolding exec_init_def by blast
qed

text \<open>One node run to success, one that fails twice, then the teardown.\<close>

definition run_node :: "string \<Rightarrow> event list" where
  "run_node i = [EvMain, EvHead i, EvExecuted i None, EvMain]"

definition fail_node :: "string \<Rightarrow> event list" where
  "fail_node i = [EvMain, EvHead i, EvExecuted i (Some ''boom''), EvHead i, EvWaited i,
     EvExecuted i (Some ''boom''), EvHead i, EvMain]"

definition sample_events :: "event list" where
  "sample_events = run_node ''net'' @ fail_node ''db'' @ run_node ''teardown'' @ [EvMain]"

definition sample_final :: exec where
  "sample_final = the (exec_run sample_exec new_executor sample_events)"

lemma sample_run: "exec_run sample_exec new_executor sample_events = Some sample_final"
proof -
  have "exec_run sample_exec new_executor sample_events \<noteq> None" by code_simp
  then show ?thesis unfolding sample_final_def by (metis option.exhaust_sel)
qed

section \<open>Facts about every reachable state\<close>

lemma reach_full:
  assumes "exec_init c s0" and "exec_run c s0 es = Some st"
  shows "exec_full c st"
  by (rule exec_ts.reachable_inv [OF assms])

lemma reach_wf: "exec_init c s0 \<Longrightarrow> exec_run c s0 es = Some st \<Longrightarrow> exec_wf c st"
  using reach_full unfolding exec_full_def exec_inv_def by blast

lemma reach_phase: "exec_init c s0 \<Longrightarrow> exec_run c s0 es = Some st \<Longrightarrow> phase_ok c st"
  using reach_full unfolding exec_full_def exec_inv_def by blast

text \<open>
  C2. Dependencies run first: while the main loop executes a node, every dependency of it is
  done.
\<close>

theorem deps_before_start:
  assumes "exec_init c s0" and "exec_run c s0 es = Some st" and "st_phase st = MainWave"
    and "w \<in> set (st_workers st)" and "n \<in> set (g_nodes (ex_graph c))" and "node_id n = w_node w"
    and "d \<in> set (node_deps n)"
  shows "status_at st d = Some Done"
  using reach_phase [OF assms(1,2)] assms(3-7) by (auto simp: phase_ok_def deps_done_def)

definition sample_mid :: exec where
  "sample_mid = the (exec_run sample_exec new_executor (run_node ''net'' @ [EvMain]))"

lemma sample_mid_facts:
  "exec_run sample_exec new_executor (run_node ''net'' @ [EvMain]) = Some sample_mid"
  "st_phase sample_mid = MainWave"
  "st_workers sample_mid = [start_worker (ex_retry sample_exec) (sample_task ''db'' [''net''] False)]"
proof -
  have "exec_run sample_exec new_executor (run_node ''net'' @ [EvMain]) \<noteq> None" by code_simp
  then show "exec_run sample_exec new_executor (run_node ''net'' @ [EvMain]) = Some sample_mid"
    unfolding sample_mid_def by (metis option.exhaust_sel)
qed (code_simp+)

lemma deps_before_start_witness: "status_at sample_mid ''net'' = Some Done"
  by (rule deps_before_start [OF sample_init sample_mid_facts(1,2),
        of "start_worker (ex_retry sample_exec) (sample_task ''db'' [''net''] False)"
           "sample_task ''db'' [''net''] False"])
    (simp_all add: sample_mid_facts(3), simp_all add: sample_exec_def sample_task_def start_worker_def)

section \<open>The result of a run\<close>

text \<open>Every recorded error belongs to a node that is still failed.\<close>

definition errs_ok :: "exec \<Rightarrow> bool" where
  "errs_ok st \<longleftrightarrow> (\<forall>(i, m) \<in> set (st_errs st). status_at st i = Some Failed)"

lemma failed_stays:
  assumes inv: "exec_inv c st" and step: "exec_step c st e = Some st'"
    and failed: "status_at st i = Some Failed"
  shows "status_at st' i = Some Failed"
proof -
  have ne: "st_errs st \<noteq> []" using inv failed by (auto simp: exec_inv_def exec_wf_def)
  have run: "status_at st j = Some Running" if "worker_of st j = Some w" for j w
    using inv worker_of_Some [OF that] by (auto simp: exec_inv_def exec_wf_def)
  have nw: "worker_of st i = None" using run failed by (cases "worker_of st i") auto
  have top: "st_phase st \<noteq> MainTop" using inv ne by (auto simp: exec_inv_def phase_ok_def)
  have node: "w_node w = j" if "worker_of st j = Some w" for j w
    using worker_of_Some [OF that] by simp
  show ?thesis
  proof (cases e)
    case EvMain
    then show ?thesis
      using step failed top
      by (auto simp: main_step_def main_wave_end_def tear_top_def tear_wave_end_def Let_def
          status_at_start_wave graph_ready_always_run_def is_settled_def split: phase.splits if_splits)
  qed (use step failed nw node in \<open>auto simp: with_worker_Some worker_head_def worker_waited_def
      worker_cancelled_def worker_executed_def Let_def split: if_splits option.splits\<close>)
qed

lemma exec_finish_errs [simp]: "st_errs (exec_finish c st) = st_errs st"
  by (simp add: exec_finish_def)

lemma exec_break_errs [simp]: "st_errs (exec_break c st) = st_errs st"
  by (simp add: exec_break_def)

lemma worker_op_errs [simp]:
  "st_errs (mark_done c i st) = st_errs st"
  "st_errs (mark_failed i m st) = st_errs st @ [(i, m)]"
  by (simp_all add: mark_done_def mark_failed_def)

lemma new_error:
  assumes "exec_step c st e = Some st'" and "x \<in> set (st_errs st')"
  shows "x \<in> set (st_errs st) \<or> status_at st' (fst x) = Some Failed"
  using assms
  by (cases e) (auto simp: with_worker_Some main_step_def main_top_def main_wave_end_def tear_top_def
      tear_wave_end_def Let_def worker_head_def worker_waited_def worker_cancelled_def
      worker_executed_def split: phase.splits if_splits option.splits)

interpretation errs_ts: transition_system "exec_init c" "exec_step c" "\<lambda>st. exec_full c st \<and> errs_ok st"
  for c :: "'t executor"
proof (unfold_locales, goal_cases)
  case (1 s)
  then have "errs_ok s" by (auto simp: errs_ok_def exec_init_def marks_fields new_executor_def)
  then show ?case using exec_full_init [OF 1] by blast
next
  case (2 s e s')
  then have inv: "exec_inv c s" by (simp add: exec_full_def)
  have "status_at s' i = Some Failed" if "(i, m) \<in> set (st_errs s')" for i m
    using new_error [OF 2(2) that] failed_stays [OF inv 2(2)] 2(1) by (auto simp: errs_ok_def)
  then show ?case using exec_full_step 2 by (auto simp: errs_ok_def)
qed

lemma all_done_or_ready:
  assumes "\<forall>n \<in> set (g_nodes g). set (node_deps n) \<subseteq> set (node_ids g)"
    and acyc: "acyclic (dep_edges (graph_index g))" and dist: "distinct (node_ids g)"
    and "graph_ready g done = []" and "n \<in> set (g_nodes g)"
  shows "done (node_id n)"
proof -
  have "finite (dep_edges (graph_index g))"
  proof (rule finite_subset)
    show "dep_edges (graph_index g) \<subseteq>
        (\<Union>n \<in> set (g_nodes g). (\<lambda>d. (node_id n, d)) ` set (node_deps n))"
      using dep_edges_distinct [OF dist] by auto
  qed auto
  then have "wf ((dep_edges (graph_index g))\<inverse>)"
    using acyc by (intro finite_acyclic_wf_converse)
  moreover have "\<forall>n \<in> set (g_nodes g). node_id n = i \<longrightarrow> done i" for i
    using \<open>wf ((dep_edges (graph_index g))\<inverse>)\<close>
  proof (induction i rule: wf_induct_rule)
    case (less i)
    show ?case
    proof (intro ballI impI)
      fix m assume m: "m \<in> set (g_nodes g)" "node_id m = i"
      have "done d" if d: "d \<in> set (node_deps m)" for d
      proof -
        have "(d, i) \<in> (dep_edges (graph_index g))\<inverse>"
          using m d dep_edges_distinct [OF dist] by auto
        moreover obtain k where "k \<in> set (g_nodes g)" "node_id k = d"
          using assms(1) m(1) d by (force simp: node_ids_def)
        ultimately show ?thesis using less by blast
      qed
      then have "deps_complete m done" by (simp add: deps_complete_def list_all_iff)
      then show "done i" using assms(4) m by (auto simp: graph_ready_def filter_empty_conv)
    qed
  qed
  ultimately show ?thesis using assms(5) by blast
qed

lemma length_done:
  assumes "exec_wf c st"
  shows "length (filter (\<lambda>(i, s). s = Done) (st_status st)) = card {i. status_at st i = Some Done}"
proof -
  have d: "distinct (map fst (st_status st))" using assms by (simp add: exec_wf_def)
  then have "distinct (map fst (filter (\<lambda>(i, s). s = Done) (st_status st)))"
    by (rule distinct_map_filter)
  then have "length (filter (\<lambda>(i, s). s = Done) (st_status st)) =
      card (set (map fst (filter (\<lambda>(i, s). s = Done) (st_status st))))"
    by (metis distinct_card length_map)
  also have "set (map fst (filter (\<lambda>(i, s). s = Done) (st_status st))) =
      {i. status_at st i = Some Done}"
    using d by (force simp: map_of_eq_Some_iff)
  finally show ?thesis .
qed

lemma count_all_done:
  assumes wf: "exec_wf c st"
  shows "length (g_nodes (ex_graph c)) \<le> length (filter (\<lambda>(i, s). s = Done) (st_status st)) \<longleftrightarrow>
    (\<forall>n \<in> set (g_nodes (ex_graph c)). status_at st (node_id n) = Some Done)"
proof -
  let ?D = "{i. status_at st i = Some Done}" and ?N = "set (node_ids (ex_graph c))"
  have sub: "?D \<subseteq> ?N" using wf by (auto simp: exec_wf_def)
  have card: "length (g_nodes (ex_graph c)) = card ?N"
    using wf distinct_card [of "node_ids (ex_graph c)"] by (simp add: exec_wf_def node_ids_def)
  have "card ?N \<le> card ?D \<longleftrightarrow> ?N = ?D"
    using sub card_seteq [of ?N ?D] by auto
  also have "\<dots> \<longleftrightarrow> (\<forall>n \<in> set (g_nodes (ex_graph c)). status_at st (node_id n) = Some Done)"
    using sub by (auto simp: node_ids_def)
  finally show ?thesis by (simp add: length_done [OF wf] card)
qed

lemma run_result_sound:
  assumes init: "exec_init c s0" and run: "exec_run c s0 es = Some st"
    and ret: "st_phase st = Returned r"
    and valid: "map_order (ex_graph c) order" "graph_validate (ex_graph c) order = None"
  shows "case r of
      RunNil \<Rightarrow> \<forall>n \<in> set (g_nodes (ex_graph c)). status_at st (node_id n) = Some Done
    | RunNodeError i m \<Rightarrow> status_at st i = Some Failed \<and>
        (\<forall>n \<in> set (g_nodes (ex_graph c)). always_run n \<longrightarrow> settled_status (status_at st (node_id n)))
    | RunCancelled \<Rightarrow> \<forall>n \<in> set (g_nodes (ex_graph c)).
        status_at st (node_id n) \<in> {Some Done, Some Cancelled}
    | RunNotReached _ \<Rightarrow> False"
proof -
  have full: "exec_full c st" and errs: "errs_ok st"
    using errs_ts.reachable_inv [OF init run] by auto
  then have wf: "exec_wf c st" and ph: "phase_ok c st" and canc: "cancel_ok c st"
    by (auto simp: exec_full_def exec_inv_def)
  have r: "r = run_result_of c st" and noworkers: "st_workers st = []"
    and phase: "if st_cancelled st \<or> st_errs st \<noteq> []
           then (\<forall>i. always_run_id c i \<longrightarrow> settled_status (status_at st i))
           else (\<forall>i. status_at st i \<in> {None, Some Done}) \<and>
             graph_ready (ex_graph c) (is_done st) = []"
    using ph unfolding phase_ok_def ret phase.case by blast+
  have g: "\<forall>n \<in> set (g_nodes (ex_graph c)). set (node_deps n) \<subseteq> set (node_ids (ex_graph c))"
    "acyclic (dep_edges (graph_index (ex_graph c)))" "distinct (node_ids (ex_graph c))"
    using graph_validate_None valid wf by (auto simp: exec_wf_def)
  show ?thesis
  proof (cases "st_errs st")
    case (Cons x xs)
    obtain i m where x: "x = (i, m)" by (cases x)
    then have "r = RunNodeError i m" using r Cons by (simp add: run_result_of_def)
    moreover have "status_at st i = Some Failed" using errs Cons x by (simp add: errs_ok_def)
    ultimately show ?thesis using phase Cons by (auto simp: always_run_id_def)
  next
    case Nil
    then have nofail: "status_at st i \<noteq> Some Failed" for i using wf by (simp add: exec_wf_def)
    show ?thesis
    proof (cases "st_cancelled st")
      case True
      have "status_at st (node_id n) \<in> {Some Done, Some Cancelled}" if n: "n \<in> set (g_nodes (ex_graph c))" for n
      proof -
        have "status_at st (node_id n) \<noteq> None"
          using canc phase True n
          by (cases "always_run n") (auto simp: cancel_ok_def always_run_id_def settled_status_def)
        moreover have "status_at st (node_id n) \<noteq> Some Running"
          using wf noworkers by (simp add: exec_wf_def)
        moreover have "status_at st (node_id n) \<noteq> Some Pending" using wf by (simp add: exec_wf_def)
        ultimately show ?thesis using nofail [of "node_id n"]
          by (cases "status_at st (node_id n)"; cases "the (status_at st (node_id n))") auto
      qed
      then show ?thesis using r Nil True by (simp add: run_result_of_def)
    next
      case False
      then have "\<forall>n \<in> set (g_nodes (ex_graph c)). is_done st (node_id n)"
        using all_done_or_ready [OF g, of "is_done st"] phase Nil by auto
      then have d: "\<forall>n \<in> set (g_nodes (ex_graph c)). status_at st (node_id n) = Some Done"
        by (simp add: is_done_def)
      then have "r = RunNil"
        using r Nil False count_all_done [OF wf] by (simp add: run_result_of_def Let_def)
      then show ?thesis using d by simp
    qed
  qed
qed

text \<open>
  C1. What \<open>Run\<close> returns is true. On a graph that \<open>Validate\<close> accepts: nil means that every node
  is done; a node's error means that this node failed and that every \<open>AlwaysRun\<close> node has
  ended; "run cancelled" means that no node failed and every node has ended; and "nodes not
  reached" is never returned.
\<close>

theorem run_result_true:
  assumes init: "exec_init c s0" and run: "exec_run c s0 es = Some st"
    and ret: "st_phase st = Returned r"
    and valid: "map_order (ex_graph c) order" "graph_validate (ex_graph c) order = None"
  shows "case r of
      RunNil \<Rightarrow> \<forall>n \<in> set (g_nodes (ex_graph c)). status_at st (node_id n) = Some Done
    | RunNodeError i m \<Rightarrow> status_at st i = Some Failed \<and>
        (\<forall>n \<in> set (g_nodes (ex_graph c)). always_run n \<longrightarrow> settled_status (status_at st (node_id n)))
    | RunCancelled \<Rightarrow> \<forall>n \<in> set (g_nodes (ex_graph c)).
        status_at st (node_id n) \<in> {Some Done, Some Cancelled}
    | RunNotReached _ \<Rightarrow> False"
  by (rule run_result_sound [OF assms])

definition sample_order :: "string list" where
  "sample_order = [''load'', ''net'', ''teardown'', ''db'']"

lemma run_result_true_witness:
  "st_phase sample_final = Returned (RunNodeError ''db'' ''after 2 attempts: boom'') \<and>
   status_at sample_final ''db'' = Some Failed \<and>
   settled_status (status_at sample_final ''teardown'')"
proof -
  have ph: "st_phase sample_final = Returned (RunNodeError ''db'' ''after 2 attempts: boom'')"
    by code_simp
  have o: "map_order (ex_graph sample_exec) sample_order" by code_simp
  have v: "graph_validate (ex_graph sample_exec) sample_order = None" by code_simp
  have n: "sample_task ''teardown'' [''load''] True \<in> set (g_nodes (ex_graph sample_exec))"
    by (simp add: sample_exec_def)
  have a: "always_run (sample_task ''teardown'' [''load''] True)"
    "node_id (sample_task ''teardown'' [''load''] True) = ''teardown''"
    by (simp_all add: sample_task_def)
  have "status_at sample_final ''db'' = Some Failed \<and>
      (\<forall>n \<in> set (g_nodes (ex_graph sample_exec)). always_run n \<longrightarrow>
         settled_status (status_at sample_final (node_id n)))"
    using run_result_true [OF sample_init sample_run ph o v] by simp
  then show ?thesis using n a ph by metis
qed

section \<open>After a failure\<close>

lemma worker_op_nodes:
  assumes "exec_step c st e = Some st'" and "e \<noteq> EvMain"
  shows "w_node ` set (st_workers st') \<subseteq> w_node ` set (st_workers st)"
  using assms
  by (cases e) (auto simp: with_worker_Some worker_head_def worker_waited_def worker_cancelled_def
      worker_executed_def Let_def dest!: put_worker_set split: if_splits option.splits)

text \<open>
  C6. Once a node has failed or the run is cancelled, the only nodes that any step starts are
  \<open>AlwaysRun\<close> nodes that have not ended.
\<close>

theorem only_teardown_after_failure:
  assumes "exec_init c s0" and "exec_run c s0 es = Some st" and "has_failed_or_cancelled st"
    and step: "exec_step c st e = Some st'"
    and new: "w \<in> set (st_workers st')" "w_node w \<notin> w_node ` set (st_workers st)"
  shows "always_run_id c (w_node w) \<and> \<not> settled_status (status_at st (w_node w))"
proof -
  have wf: "exec_wf c st" and ph: "phase_ok c st" using reach_wf reach_phase assms(1,2) by blast+
  have hfc: "st_cancelled st \<or> st_errs st \<noteq> []" using assms(3) hfc_iff [OF wf] by blast
  have e: "e = EvMain" using worker_op_nodes [OF step] new by blast
  have top: "st_phase st \<noteq> MainTop" using ph hfc by (auto simp: phase_ok_def)
  have step': "main_step c st = Some st'" using step e by simp
  have "st_phase st = TearTop"
    using step' top new
    by (auto simp: main_step_def main_wave_end_def tear_wave_end_def split: phase.splits if_splits)
  then have "st' = tear_top c st" using step' by (simp add: main_step_def)
  then have "w \<in> start_worker (ex_retry c) ` set (graph_ready_always_run (ex_graph c) (is_settled st))"
    using new by (auto simp: tear_top_def Let_def split: if_splits)
  then show ?thesis
    by (auto simp: graph_ready_always_run_def always_run_id_def is_settled_def settled_status_def)
qed

definition sample_tear :: exec where
  "sample_tear = the (exec_run sample_exec new_executor (run_node ''net'' @ fail_node ''db''))"

lemma sample_tear_facts:
  "exec_run sample_exec new_executor (run_node ''net'' @ fail_node ''db'') = Some sample_tear"
  "has_failed_or_cancelled sample_tear" "st_workers sample_tear = []"
proof -
  have "exec_run sample_exec new_executor (run_node ''net'' @ fail_node ''db'') \<noteq> None" by code_simp
  then show "exec_run sample_exec new_executor (run_node ''net'' @ fail_node ''db'') = Some sample_tear"
    unfolding sample_tear_def by (metis option.exhaust_sel)
qed (code_simp+)

lemma only_teardown_after_failure_witness:
  "\<exists>st'. exec_step sample_exec sample_tear EvMain = Some st' \<and>
     map w_node (st_workers st') = [''teardown''] \<and> always_run_id sample_exec ''teardown''"
proof -
  let ?s = "tear_top sample_exec sample_tear"
  have m: "main_step sample_exec sample_tear = Some ?s"
  proof -
    have "st_phase sample_tear = TearTop" by code_simp
    then show ?thesis by (simp add: main_step_def)
  qed
  have ws: "st_workers ?s = [start_worker (ex_retry sample_exec) (sample_task ''teardown'' [''load''] True)]"
    by code_simp
  have "always_run_id sample_exec
      (w_node (start_worker (ex_retry sample_exec) (sample_task ''teardown'' [''load''] True)))"
    by (rule conjunct1 [OF only_teardown_after_failure [OF sample_init sample_tear_facts(1,2), of EvMain ?s]])
      (simp_all add: m ws sample_tear_facts(3))
  then show ?thesis using m ws by (simp add: sample_task_def)
qed

text \<open>The attempts made at a node, in order.\<close>

definition tries :: "exec \<Rightarrow> string \<Rightarrow> int list" where
  "tries st i = map snd (filter (\<lambda>x. fst x = i) (st_calls st))"

lemma tries_call [simp]:
  "tries (st\<lparr>st_calls := st_calls st @ [(i, k)]\<rparr>) j = (if j = i then tries st j @ [k] else tries st j)"
  by (simp add: tries_def)

lemma tries_same: "st_calls st' = st_calls st \<Longrightarrow> tries st' = tries st"
  by (simp add: tries_def fun_eq_iff)

text \<open>
  A worker's attempts are numbered from 0 up to its next one; a node that was never started has none, and one that
  failed has had them all.
\<close>

abbreviation numbered :: "int list \<Rightarrow> nat \<Rightarrow> bool" where
  "numbered ks n \<equiv> ks = map int [0..<n]"

definition tries_ok :: "'t executor \<Rightarrow> exec \<Rightarrow> bool" where
  "tries_ok c st \<longleftrightarrow>
     (\<forall>i. status_at st i = None \<longrightarrow> tries st i = []) \<and>
     (\<forall>w \<in> set (st_workers st). numbered (tries st (w_node w)) (nat (w_attempt w))) \<and>
     (\<forall>i. \<exists>n \<le> nat (max_retries (ex_retry c) + 1). numbered (tries st i) n) \<and>
     (\<forall>i. status_at st i = Some Failed \<longrightarrow> numbered (tries st i) (nat (max_retries (ex_retry c) + 1)))"

lemma tries_ok_keep:
  assumes "tries_ok c st" and "st_calls st' = st_calls st"
    and "\<And>i. status_at st i \<noteq> None \<Longrightarrow> status_at st' i \<noteq> None"
    and "\<And>w. w \<in> set (st_workers st') \<Longrightarrow> numbered (tries st (w_node w)) (nat (w_attempt w))"
    and "\<And>i. status_at st' i = Some Failed \<Longrightarrow> status_at st i = Some Failed \<or>
      numbered (tries st i) (nat (max_retries (ex_retry c) + 1))"
  shows "tries_ok c st'"
  using assms(1,3-5) unfolding tries_ok_def tries_same [OF assms(2)] by blast

text \<open>The main goroutine starts only nodes that were never started.\<close>

lemma main_new_workers:
  assumes inv: "exec_inv c st" and step: "main_step c st = Some st'" and w: "w \<in> set (st_workers st')"
  shows "w \<in> set (st_workers st) \<or> w_attempt w = 0 \<and> status_at st (w_node w) = None"
proof -
  have wf: "exec_wf c st" using inv by (simp add: exec_inv_def)
  show ?thesis
  proof (cases "st_phase st")
    case MainTop
    have p: "st_errs st = []" "\<not> st_cancelled st" "st_workers st = []"
      and canc: "\<And>i. status_at st i = Some Cancelled \<Longrightarrow> st_ctx_done st"
      using inv MainTop by (auto simp: exec_inv_def phase_ok_def)
    have none: "status_at st (node_id n) = None" if "n \<in> set (get_ready c st)" "\<not> st_ctx_done st" for n
      using that wf p canc [of "node_id n"] has_failed_errs [OF wf]
      by (cases "status_at st (node_id n)"; cases "the (status_at st (node_id n))")
        (auto simp: get_ready_def graph_ready_def is_done_def exec_wf_def)
    have "w \<in> start_worker (ex_retry c) ` set (get_ready c st) \<and> \<not> st_ctx_done st"
      using step w p MainTop by (auto simp: main_step_def main_top_def Let_def split: if_splits)
    then show ?thesis using none by (auto simp: start_worker_def)
  next
    case TearTop
    have none: "status_at st (node_id n) = None" if "n \<in> set (graph_ready_always_run (ex_graph c) (is_settled st))" for n
      using that wf inv TearTop
      by (cases "status_at st (node_id n)"; cases "the (status_at st (node_id n))")
        (auto simp: graph_ready_always_run_def is_settled_def exec_inv_def phase_ok_def exec_wf_def)
    have "w \<in> start_worker (ex_retry c) ` set (graph_ready_always_run (ex_graph c) (is_settled st)) \<or> w \<in> set (st_workers st)"
      using step w TearTop by (auto simp: main_step_def tear_top_def Let_def split: if_splits)
    then show ?thesis using none by (auto simp: start_worker_def)
  qed (use step w in \<open>auto simp: main_step_def main_wave_end_def tear_wave_end_def split: if_splits\<close>)
qed

lemma main_tries_ok:
  assumes inv: "exec_inv c st" and ok: "tries_ok c st" and step: "main_step c st = Some st'"
  shows "tries_ok c st'"
  using ok
proof (rule tries_ok_keep)
  show "st_calls st' = st_calls st"
    using step by (auto simp: main_step_def main_top_def main_wave_end_def tear_top_def
        tear_wave_end_def Let_def split: phase.splits if_splits)
  show "status_at st' i \<noteq> None" if "status_at st i \<noteq> None" for i
    using step_status_dom [of c st EvMain st'] step that by simp
  show "numbered (tries st (w_node w)) (nat (w_attempt w))" if "w \<in> set (st_workers st')" for w
  proof -
    have at: "\<forall>v \<in> set (st_workers st). numbered (tries st (w_node v)) (nat (w_attempt v))"
      and none: "\<forall>i. status_at st i = None \<longrightarrow> tries st i = []" using ok unfolding tries_ok_def by blast+
    from main_new_workers [OF inv step that] show ?thesis
    proof
      assume n: "w_attempt w = 0 \<and> status_at st (w_node w) = None"
      then have "tries st (w_node w) = []" using none by blast
      then show ?thesis using n by simp
    qed (use at in blast)
  qed
  show "status_at st i = Some Failed \<or> numbered (tries st i) (nat (max_retries (ex_retry c) + 1))"
    if "status_at st' i = Some Failed" for i
    using step that by (auto simp: main_step_def main_top_def main_wave_end_def tear_top_def tear_wave_end_def Let_def
        status_at_start_wave status_at_cancel_pending split: phase.splits if_splits)
qed

lemma put_worker_cases:
  "v \<in> set (st_workers (put_worker w st)) \<Longrightarrow> v = w \<or> v \<in> set (st_workers st) \<and> w_node v \<noteq> w_node w"
  by (auto simp: put_worker_def split: if_splits)

lemma drop_worker_cases: "v \<in> set (st_workers (drop_worker i st)) \<Longrightarrow> v \<in> set (st_workers st) \<and> w_node v \<noteq> i"
  by (simp add: drop_worker_def)

lemma step_tries_ok:
  assumes full: "exec_full c st" and ok: "tries_ok c st" and step: "exec_step c st e = Some st'"
  shows "tries_ok c st'"
proof -
  have inv: "exec_inv c st" and wok: "workers_ok c st" using full by (simp_all add: exec_full_def)
  note dom = step_status_dom [OF step]
  have at: "numbered (tries st (w_node w)) (nat (w_attempt w))" if "w \<in> set (st_workers st)" for w
    using ok that by (simp add: tries_ok_def)
  show ?thesis
  proof (cases e)
    case EvMain
    then show ?thesis using main_tries_ok [OF inv ok] step by simp
  next
    case (EvHead i)
    then obtain w where w: "worker_of st i = Some w" "w_pc w = LoopHead" "st' = worker_head c w st"
      using step by (auto simp: with_worker_Some)
    note wi = worker_of_Some [OF w(1)]
    have k: "0 \<le> w_attempt w" using worker_ok_of [OF wok w(1)] by (simp add: worker_ok_def)
    have all: "numbered (tries st i) (nat (max_retries (ex_retry c) + 1))" if "\<not> w_attempt w \<le> max_retries (ex_retry c)"
    proof -
      obtain n where n: "n \<le> nat (max_retries (ex_retry c) + 1)" "numbered (tries st i) n"
        using ok unfolding tries_ok_def by blast
      have "length (map int [0..<n]) = length (map int [0..<nat (w_attempt w)])" using n(2) at wi by metis
      then have "n = nat (max_retries (ex_retry c) + 1)" using n(1) that k by simp
      then show ?thesis using n(2) by simp
    qed
    show ?thesis
      by (rule tries_ok_keep [OF ok _ dom])
        (use w(3) wi at all in \<open>auto simp: worker_head_def dest!: put_worker_cases drop_worker_cases split: if_splits\<close>)
  next
    case (EvWaited i)
    then obtain w where w: "worker_of st i = Some w" "st' = worker_waited c w st"
      using step by (auto simp: with_worker_Some)
    show ?thesis
      by (rule tries_ok_keep [OF ok _ dom])
        (use w(2) worker_of_Some [OF w(1)] at in \<open>auto simp: worker_waited_def dest!: put_worker_cases\<close>)
  next
    case (EvWaitCancelled i)
    then obtain w where w: "worker_of st i = Some w" "st' = worker_cancelled w st"
      using step by (auto simp: with_worker_Some split: if_splits)
    show ?thesis
      by (rule tries_ok_keep [OF ok _ dom])
        (use w(2) worker_of_Some [OF w(1)] at in \<open>auto simp: worker_cancelled_def dest!: drop_worker_cases split: if_splits\<close>)
  next
    case (EvExecuted i outcome)
    then obtain w where w: "worker_of st i = Some w" "w_pc w = Executing" "st' = worker_executed c w outcome st"
      using step by (auto simp: with_worker_Some)
    let ?s = "st\<lparr>st_calls := st_calls st @ [(i, w_attempt w)]\<rparr>"
    note wi = worker_of_Some [OF w(1)]
    have k: "0 \<le> w_attempt w" "w_attempt w \<le> max_retries (ex_retry c)"
      using worker_ok_of [OF wok w(1)] w(2) by (simp_all add: worker_ok_def)
    have run: "status_at st i = Some Running" using inv wi by (auto simp: exec_inv_def exec_wf_def)
    have new: "numbered (tries ?s i) (nat (w_attempt w + 1))"
      using at wi k(1) by (auto simp: nat_add_distrib)
    have le: "nat (w_attempt w + 1) \<le> nat (max_retries (ex_retry c) + 1)" using k by simp
    have bound: "\<exists>n \<le> nat (max_retries (ex_retry c) + 1). numbered (tries ?s j) n" for j
    proof (cases "j = i")
      case True
      then show ?thesis using new le by blast
    next
      case False
      then show ?thesis using ok by (simp add: tries_ok_def)
    qed
    have calls: "tries st' = tries ?s"
      by (rule tries_same) (simp add: w(3) worker_executed_def Let_def wi split: option.splits)
    have ws: "numbered (tries ?s (w_node v)) (nat (w_attempt v))" if "v \<in> set (st_workers st')" for v
      using that at wi new unfolding w(3) worker_executed_def Let_def
      by (cases outcome) (auto dest!: put_worker_cases drop_worker_cases)
    have none: "tries ?s j = []" if "status_at st' j = None" for j
      using dom [of j] that run ok by (auto simp: tries_ok_def)
    have failed: "numbered (tries ?s j) (nat (max_retries (ex_retry c) + 1))" if "status_at st' j = Some Failed" for j
    proof -
      have "j \<noteq> i \<and> status_at st j = Some Failed"
        using that run wi unfolding w(3) worker_executed_def Let_def by (cases outcome) (auto split: if_splits)
      then show ?thesis using ok by (simp add: tries_ok_def)
    qed
    show ?thesis unfolding tries_ok_def calls using none ws bound failed by blast
  next
    case EvCancelCtx
    then show ?thesis using step ok by (auto intro!: tries_ok_keep [OF ok] at)
  next
    case EvTearTimeout
    then show ?thesis using step ok by (auto intro!: tries_ok_keep [OF ok] at split: if_splits)
  qed
qed

lemma reach_tries:
  assumes "exec_init c s0" and "exec_run c s0 es = Some st"
  shows "tries_ok c st"
proof -
  have "tries_ok c s" if "exec_full c s0" "tries_ok c s0" "exec_run c s0 fs = Some s" for fs s0 s
    using that
  proof (induction fs arbitrary: s0)
    case (Cons e fs)
    then show ?case using exec_full_step step_tries_ok by (fastforce split: option.splits)
  qed simp
  moreover have "tries_ok c s0"
    using assms(1) by (auto simp: tries_ok_def tries_def exec_init_def marks_fields status_at_marks new_executor_def
        split: if_splits intro: exI [of _ 0])
  ultimately show ?thesis using exec_full_init [OF assms(1)] assms(2) by blast
qed

text \<open>
  C31. The attempts at a node are numbered 0, 1, 2 and so on, each number once and in this order, and there are at most
  \<open>MaxRetries + 1\<close> of them; a node is marked as failed only after all of these. And a node that is \<open>MustComplete\<close> and
  not \<open>AlwaysRun\<close> is never cut short by a cancellation once it has been tried.
\<close>

theorem must_complete_not_interrupted:
  assumes "exec_init c s0" and "exec_run c s0 es = Some st"
  shows "(\<exists>n \<le> nat (max_retries (ex_retry c) + 1). map snd (filter (\<lambda>x. fst x = i) (st_calls st)) = map int [0..<n]) \<and>
    (status_at st i = Some Failed \<longrightarrow>
       map snd (filter (\<lambda>x. fst x = i) (st_calls st)) = map int [0..<nat (max_retries (ex_retry c) + 1)]) \<and>
    (i \<in> fst ` set (st_calls st) \<and> must_complete_id c i \<and> \<not> always_run_id c i \<longrightarrow> status_at st i \<noteq> Some Cancelled)"
  using reach_tries [OF assms] reach_full [OF assms] by (auto simp: tries_ok_def tries_def exec_full_def calls_ok_def)

lemma must_complete_not_interrupted_witness:
  "\<exists>st. exec_run sample_exec new_executor [EvMain, EvHead ''net'', EvExecuted ''net'' (Some ''x''),
       EvCancelCtx, EvHead ''net''] = Some st \<and>
     exec_step sample_exec st (EvWaitCancelled ''net'') = None \<and>
     status_at st ''net'' \<noteq> Some Cancelled"
proof -
  define st where "st = the (exec_run sample_exec new_executor [EvMain, EvHead ''net'',
      EvExecuted ''net'' (Some ''x''), EvCancelCtx, EvHead ''net''])"
  have "exec_run sample_exec new_executor [EvMain, EvHead ''net'', EvExecuted ''net'' (Some ''x''),
      EvCancelCtx, EvHead ''net''] \<noteq> None"
    by code_simp
  then have run: "exec_run sample_exec new_executor [EvMain, EvHead ''net'',
      EvExecuted ''net'' (Some ''x''), EvCancelCtx, EvHead ''net''] = Some st"
    unfolding st_def by (metis option.exhaust_sel)
  have calls: "''net'' \<in> fst ` set (st_calls st)" unfolding st_def by code_simp
  have mc: "must_complete_id sample_exec ''net''" by code_simp
  have ar: "\<not> always_run_id sample_exec ''net''" by (simp add: always_run_id_def sample_exec_def sample_task_def)
  have "exec_step sample_exec st (EvWaitCancelled ''net'') = None" unfolding st_def by code_simp
  then show ?thesis
    using run must_complete_not_interrupted [OF sample_init run, of "''net''"] calls mc ar by blast
qed

section \<open>Ending\<close>

text \<open>
  C17. From every reachable state the executor's own steps (whatever the tasks return, whenever
  the context is cancelled) can be continued until \<open>Run\<close> has returned, and no infinite sequence
  of own steps exists.
\<close>

theorem executor_terminates:
  assumes "exec_init c s0" and "exec_run c s0 es = Some st"
  shows "(\<exists>es' st'. list_all own_event es' \<and> exec_run c st es' = Some st' \<and> has_returned st') \<and>
    \<not> (\<exists>f e. f 0 = st \<and> (\<forall>k. own_event (e k) \<and> exec_step c (f k) (e k) = Some (f (Suc k))))"
  using exec_ts.reaches_final exec_ts.no_infinite_run reach_full [OF assms] by blast

lemma executor_terminates_witness:
  "\<exists>es' st'. list_all own_event es' \<and> exec_run sample_exec sample_mid es' = Some st' \<and> has_returned st'"
  using executor_terminates [OF sample_init sample_mid_facts(1)] by blast

section \<open>The last snapshot\<close>

lemma snap_finished_iff:
  fixes c :: "'t executor"
  assumes "exec_wf c st" and "st_workers st = []"
  shows "snap_finished (snapshot_of c st) \<longleftrightarrow>
    (\<forall>n \<in> set (g_nodes (ex_graph c)). status_at st (node_id n) \<noteq> None)"
proof -
  have "(case status_at st i of None \<Rightarrow> Pending | Some s \<Rightarrow> s) \<in> {Pending, Running} \<longleftrightarrow>
      status_at st i = None" for i
    using assms by (auto simp: exec_wf_def split: option.splits)
  then have "\<not> (ns_status (node_snapshot st n) = Pending \<or> ns_status (node_snapshot st n) = Running) \<longleftrightarrow>
      status_at st (node_id n) \<noteq> None" for n :: "'t node"
    by (simp add: node_snapshot_def)
  then show ?thesis
    by (simp add: snapshot_of_def list_all_iff Let_def)
qed

text \<open>
  What the storage holds after the calls of \<open>Save\<close> with these snapshots: the last one that it took. \<open>err k\<close> is the error
  of call \<open>k\<close>, which the executor drops.
\<close>

fun stored_after :: "(nat \<Rightarrow> string option) \<Rightarrow> nat \<Rightarrow> snapshot list \<Rightarrow> snapshot option \<Rightarrow> snapshot option" where
  "stored_after err k [] old = old"
| "stored_after err k (s # ss) old = stored_after err (Suc k) ss (if err k = None then Some s else old)"

lemma stored_after_last:
  "ss \<noteq> [] \<Longrightarrow> err (k + (length ss - 1)) = None \<Longrightarrow> stored_after err k ss old = Some (last ss)"
proof (induction ss arbitrary: k old)
  case (Cons s ss)
  then show ?case by (cases ss) auto
qed simp

lemma stored_after_butlast:
  "err (k + length ss) \<noteq> None \<Longrightarrow> stored_after err k (ss @ [s]) old = stored_after err k ss old"
  by (induction ss arbitrary: k old) auto

text \<open>
  C32. When \<open>Run\<close> returns, the last snapshot handed to the storage holds the final state of every node; \<open>FinishedAt\<close>
  is set in it after success and after a cancellation, and after a failure exactly when no node was left
  unreached. The storage then holds this snapshot if it took it; its error is dropped, and if it did not take
  it, it holds what it held before (\<open>stored_after_butlast\<close>).
\<close>

theorem last_snapshot:
  assumes init: "exec_init c s0" and run: "exec_run c s0 es = Some st"
    and ret: "st_phase st = Returned r" and "ex_storage c"
    and valid: "map_order (ex_graph c) order" "graph_validate (ex_graph c) order = None"
  shows "st_saves st \<noteq> [] \<and> last (st_saves st) = snapshot_of c st \<and>
    (snap_finished (last (st_saves st)) \<longleftrightarrow>
       (case r of RunNodeError _ _ \<Rightarrow>
            \<forall>n \<in> set (g_nodes (ex_graph c)). status_at st (node_id n) \<noteq> None
        | _ \<Rightarrow> True)) \<and>
    (err (length (st_saves st) - 1) = None \<longrightarrow> stored_after err 0 (st_saves st) old = Some (snapshot_of c st))"
proof -
  have full: "exec_full c st" using reach_full [OF init run] .
  then have wf: "exec_wf c st" and noworkers: "st_workers st = []" and s: "saved_ok c st"
    using ret by (auto simp: exec_full_def exec_inv_def phase_ok_def)
  have "st_saves st \<noteq> [] \<and> last (st_saves st) = snapshot_of c st"
    using s ret assms(4) by (simp add: saved_ok_def)
  moreover have "snap_finished (snapshot_of c st) \<longleftrightarrow>
       (case r of RunNodeError _ _ \<Rightarrow>
            \<forall>n \<in> set (g_nodes (ex_graph c)). status_at st (node_id n) \<noteq> None
        | _ \<Rightarrow> True)"
    using snap_finished_iff [OF wf noworkers] run_result_sound [OF init run ret valid]
    by (cases r) auto
  ultimately show ?thesis using stored_after_last [of "st_saves st" err 0 old] by auto
qed

text \<open>A failed run with an unreached node keeps \<open>FinishedAt\<close> zero for ever.\<close>

lemma last_snapshot_witness:
  "ns_status (snap_nodes (last (st_saves sample_final)) ! 2) = Pending \<and>
   \<not> snap_finished (last (st_saves sample_final))"
proof -
  have ph: "st_phase sample_final = Returned (RunNodeError ''db'' ''after 2 attempts: boom'')"
    by code_simp
  have st: "ex_storage sample_exec" by (simp add: sample_exec_def)
  have o: "map_order (ex_graph sample_exec) sample_order" by code_simp
  have v: "graph_validate (ex_graph sample_exec) sample_order = None" by code_simp
  have n: "sample_task ''load'' [''db''] False \<in> set (g_nodes (ex_graph sample_exec))"
    by (simp add: sample_exec_def)
  have "status_at sample_final ''load'' = None" by code_simp
  then have u: "\<not> (\<forall>n \<in> set (g_nodes (ex_graph sample_exec)). status_at sample_final (node_id n) \<noteq> None)"
    using n by (intro notI) (drule bspec [OF _ n], simp add: sample_task_def)
  have "snap_finished (last (st_saves sample_final)) \<longleftrightarrow>
      (\<forall>n \<in> set (g_nodes (ex_graph sample_exec)). status_at sample_final (node_id n) \<noteq> None)"
    using last_snapshot [OF sample_init sample_run ph st o v, of "\<lambda>_. None" None, unfolded run_result.case] by blast
  then have "\<not> snap_finished (last (st_saves sample_final))" using u by blast
  moreover have "ns_status (snap_nodes (last (st_saves sample_final)) ! 2) = Pending" by code_simp
  ultimately show ?thesis by blast
qed

section \<open>Backoff\<close>

text \<open>
  C34. In every state the executor can reach, a worker that waits before its next attempt \<open>k\<close> has
  \<open>1 <= k <= MaxRetries\<close> and waits \<open>BaseDelay * 2 ^ (k - 1)\<close>, capped at \<open>MaxDelay\<close>, for every policy whose base is
  not negative and at most its cap and whose cap stays below 2^62 ns (\<open>sane_policy\<close>).
\<close>

theorem backoff_doubles:
  assumes "exec_init c s0" and "exec_run c s0 es = Some st" and "w \<in> set (st_workers st)"
    and "w_pc w = Waiting" and "sane_policy (ex_retry c)"
  shows "1 \<le> w_attempt w \<and> w_attempt w \<le> max_retries (ex_retry c) \<and>
    w_delay w = min (base_delay (ex_retry c) * 2 ^ nat (w_attempt w - 1)) (max_delay (ex_retry c))"
  using reach_full [OF assms(1,2)] assms(3-5)
  by (auto simp: exec_full_def workers_ok_def worker_ok_def backoff_def)

definition default_exec :: "nat executor" where
  "default_exec = sample_exec\<lparr>ex_retry := default_retry_policy\<rparr>"

definition default_mid :: exec where
  "default_mid = the (exec_run default_exec new_executor [EvMain, EvHead ''net'',
     EvExecuted ''net'' (Some ''x''), EvHead ''net'', EvWaited ''net'', EvExecuted ''net'' (Some ''x''),
     EvHead ''net''])"

lemma backoff_doubles_witness:
  "map w_delay (st_workers default_mid) = [10 * second]"
proof -
  have "exec_run default_exec new_executor [EvMain, EvHead ''net'',
     EvExecuted ''net'' (Some ''x''), EvHead ''net'', EvWaited ''net'', EvExecuted ''net'' (Some ''x''),
     EvHead ''net''] \<noteq> None" by code_simp
  then have run: "exec_run default_exec new_executor [EvMain, EvHead ''net'',
     EvExecuted ''net'' (Some ''x''), EvHead ''net'', EvWaited ''net'', EvExecuted ''net'' (Some ''x''),
     EvHead ''net''] = Some default_mid"
    unfolding default_mid_def by (metis option.exhaust_sel)
  have init: "exec_init default_exec new_executor"
    using sample_init by (simp add: exec_init_def default_exec_def)
  obtain w where ws: "st_workers default_mid = [w]" and w: "w_pc w = Waiting" "w_attempt w = 2"
  proof -
    have "length (st_workers default_mid) = 1" "map w_pc (st_workers default_mid) = [Waiting]"
      "map w_attempt (st_workers default_mid) = [2]" by code_simp+
    then show ?thesis using that by (cases "st_workers default_mid") auto
  qed
  have "sane_policy (ex_retry default_exec)"
    by (simp add: default_exec_def default_retry_policy_def sane_policy_def second_def)
  then have "w_delay w = 10 * second"
    using backoff_doubles [OF init run, of w] ws w
    by (simp add: default_exec_def default_retry_policy_def second_def)
  then show ?thesis using ws by simp
qed

end
