(* ===== verification/RunExec.thy ===== *)
theory RunExec
  imports BuilderProps DagRun
begin

text \<open>
  A built graph in the executor: the load test starts only when every other node of the run is
  done, and what is done stays closed under dependencies as long as the main loop runs.
\<close>

definition done_closed :: "'t executor \<Rightarrow> exec \<Rightarrow> bool" where
  "done_closed c st \<longleftrightarrow> (st_phase st \<in> {MainTop, MainWave} \<longrightarrow>
     (\<forall>n \<in> set (g_nodes (ex_graph c)). status_at st (node_id n) = Some Done \<longrightarrow>
        (\<forall>d \<in> set (node_deps n). status_at st d = Some Done)))"

text \<open>In the main loop a step changes the status of no done node, and a node becomes done only
  when its dependencies are.\<close>

lemma main_done_stays:
  assumes inv: "exec_inv c st" and step: "exec_step c st e = Some st'"
    and main: "st_phase st' \<in> {MainTop, MainWave}" and d: "status_at st i = Some Done"
  shows "status_at st' i = Some Done"
proof -
  have run: "status_at st j = Some Running" if "worker_of st j = Some w" for j w
    using inv worker_of_Some [OF that] by (auto simp: exec_inv_def exec_wf_def)
  have nw: "worker_of st i = None" using run d by (cases "worker_of st i") auto
  have node: "w_node w = j" if "worker_of st j = Some w" for j w
    using worker_of_Some [OF that] by simp
  show ?thesis
  proof (cases e)
    case EvMain
    then show ?thesis
      using step d main
      by (auto simp: main_step_def main_top_def main_wave_end_def tear_top_def tear_wave_end_def Let_def
          status_at_start_wave status_at_cancel_pending get_ready_def graph_ready_def is_done_def
          graph_ready_always_run_def is_settled_def split: phase.splits if_splits)
  qed (use step d nw node in \<open>auto simp: with_worker_Some worker_head_def worker_waited_def
      worker_cancelled_def worker_executed_def Let_def split: if_splits option.splits\<close>)
qed

lemma main_new_done:
  assumes inv: "exec_inv c st" and step: "exec_step c st e = Some st'"
    and "status_at st' i = Some Done" and "status_at st i \<noteq> Some Done"
  shows "\<exists>w. worker_of st i = Some w \<and> st_phase st' = st_phase st"
proof -
  have node: "w_node w = j" if "worker_of st j = Some w" for j w
    using worker_of_Some [OF that] by simp
  show ?thesis
    using assms(2-4) node
    by (cases e) (auto simp: with_worker_Some main_step_def main_top_def main_wave_end_def tear_top_def
        tear_wave_end_def Let_def status_at_start_wave status_at_cancel_pending worker_head_def
        worker_waited_def worker_cancelled_def worker_executed_def
        split: phase.splits if_splits option.splits)
qed

lemma main_phase_before:
  assumes "exec_step c st e = Some st'" and "st_phase st' \<in> {MainTop, MainWave}"
  shows "st_phase st \<in> {MainTop, MainWave}"
proof -
  have "st_phase (exec_break c s) \<notin> {MainTop, MainWave}" for s
    by (simp add: exec_break_def)
  then show ?thesis
    using assms
    by (cases e) (auto simp: with_worker_Some main_step_def main_top_def main_wave_end_def tear_top_def
        tear_wave_end_def Let_def worker_head_def worker_waited_def worker_cancelled_def
        worker_executed_def split: phase.splits if_splits option.splits)
qed

lemma done_closed_step:
  assumes inv: "exec_inv c st" and closed: "done_closed c st" and step: "exec_step c st e = Some st'"
  shows "done_closed c st'"
  unfolding done_closed_def
proof (intro impI ballI)
  fix n d
  assume main: "st_phase st' \<in> {MainTop, MainWave}" and n: "n \<in> set (g_nodes (ex_graph c))"
    and "status_at st' (node_id n) = Some Done" and d: "d \<in> set (node_deps n)"
  have before: "st_phase st \<in> {MainTop, MainWave}" by (rule main_phase_before [OF step main])
  have "status_at st d = Some Done"
  proof (cases "status_at st (node_id n) = Some Done")
    case True
    then show ?thesis using closed before n d unfolding done_closed_def by blast
  next
    case False
    from main_new_done [OF inv step \<open>status_at st' (node_id n) = Some Done\<close> False]
    obtain w where w: "worker_of st (node_id n) = Some w" by blast
    then have "w \<in> set (st_workers st)" "w_node w = node_id n" using worker_of_Some by blast+
    then show ?thesis
      using inv before n d by (auto simp: exec_inv_def phase_ok_def deps_done_def)
  qed
  then show "status_at st' d = Some Done" by (rule main_done_stays [OF inv step main])
qed

interpretation closed_ts: transition_system "\<lambda>st. exec_init c st \<and> done_closed c st" "exec_step c"
    "\<lambda>st. exec_full c st \<and> done_closed c st" for c :: "'t executor"
proof (unfold_locales, goal_cases)
  case (1 s)
  then show ?case using exec_full_init by blast
next
  case (2 s e s')
  then have "exec_inv c s" by (simp add: exec_full_def)
  then show ?case using 2 exec_full_step done_closed_step by blast
qed

lemma done_closed_trancl:
  assumes "done_closed c st" and "st_phase st = MainWave" and "distinct (node_ids (ex_graph c))"
    and "(i, j) \<in> (dep_edges (graph_index (ex_graph c)))\<^sup>+"
    and "\<And>d. (i, d) \<in> dep_edges (graph_index (ex_graph c)) \<Longrightarrow> status_at st d = Some Done"
  shows "status_at st j = Some Done"
  using assms(4)
proof (induction rule: trancl_induct)
  case (base y)
  then show ?case by (rule assms(5))
next
  case (step y z)
  then show ?case
    using assms(1,2) by (auto simp: dep_edges_distinct [OF assms(3)] done_closed_def)
qed

text \<open>
  C9. Whatever the configuration and the interleaving, after a fresh start or a recovery that
  marked a dependency-closed set of nodes done: while the load test of a built graph is being
  executed, every other node but the teardown is done, the database, the proxies and the
  monitoring included.
\<close>

theorem load_runs_on_finished_setup:
  assumes graph: "ex_graph c = built_graph cfg dp"
    and init: "exec_init c s0" "done_closed c s0" and run: "exec_run c s0 es = Some st"
    and phase: "st_phase st = MainWave"
    and w: "w \<in> set (st_workers st)" "w_node w = PhaseRunStroppy"
    and n: "n \<in> set (g_nodes (built_graph cfg dp))" "node_id n \<notin> {PhaseRunStroppy, PhaseTeardown}"
  shows "status_at st (node_id n) = Some Done"
proof -
  have dist: "distinct (node_ids (ex_graph c))" by (simp add: graph built_ids)
  have full: "exec_full c st" and closed: "done_closed c st"
    using closed_ts.reachable_inv [OF _ run] init by auto
  have direct: "status_at st d = Some Done"
    if "(PhaseRunStroppy, d) \<in> dep_edges (graph_index (ex_graph c))" for d
    using that full phase w
    by (auto simp: dep_edges_distinct [OF dist] exec_full_def exec_inv_def phase_ok_def deps_done_def)
  show ?thesis
    using done_closed_trancl [OF closed phase dist _ direct] load_last [OF n] graph by simp
qed

text \<open>Marking every node but the load test and the teardown is such a recovery.\<close>

definition setup_ids :: "run_config \<Rightarrow> deps \<Rightarrow> string list" where
  "setup_ids cfg dp =
     filter (\<lambda>i. i \<noteq> PhaseRunStroppy \<and> i \<noteq> PhaseTeardown) (node_ids (built_graph cfg dp))"

lemma setup_marks:
  assumes "ex_graph c = built_graph cfg dp"
  shows "exec_init c (fold mark_node_done (setup_ids cfg dp) new_executor) \<and>
    done_closed c (fold mark_node_done (setup_ids cfg dp) new_executor)"
proof
  show "exec_init c (fold mark_node_done (setup_ids cfg dp) new_executor)"
    using assms built_ids [of cfg dp] unfolding exec_init_def
    by (intro conjI exI [of _ "setup_ids cfg dp"]) (auto simp: setup_ids_def)
  have st: "status_at (fold mark_node_done (setup_ids cfg dp) new_executor) i = Some Done \<longleftrightarrow>
      i \<in> set (setup_ids cfg dp)" for i
    by (simp add: status_at_marks new_executor_def)
  have "d \<in> set (setup_ids cfg dp)"
    if n: "n \<in> set (g_nodes (built_graph cfg dp))" "node_id n \<in> set (setup_ids cfg dp)"
      and d: "d \<in> set (node_deps n)" for n d
  proof -
    from built_node_cases [OF n(1)] obtain e p g x y where
      s: "shape_of n \<in> set (expected_shape e p g x y)" by metis
    have "build_rank (node_id n) < 9"
      using bspec [OF expected_rank_le [unfolded list_all_iff] s] n(2)
      by (simp add: shape_of_def setup_ids_def)
    then have "build_rank d < 9" using built.dep_rank [OF n(1) d] by simp
    moreover have "build_rank PhaseRunStroppy = 9" "build_rank PhaseTeardown = 10"
      by (simp_all add: build_rank_def)
    ultimately show ?thesis using built.dep_known [OF n(1) d] by (auto simp: setup_ids_def)
  qed
  then show "done_closed c (fold mark_node_done (setup_ids cfg dp) new_executor)"
    unfolding done_closed_def assms st by blast
qed

definition sample_built :: "task executor" where
  "sample_built = \<lparr>ex_graph = built_graph (sample_cfg None) sample_deps, ex_retry = default_retry_policy,
     ex_storage = False\<rparr>"

definition sample_recovered :: exec where
  "sample_recovered = fold mark_node_done (setup_ids (sample_cfg None) sample_deps) new_executor"

definition sample_loading :: exec where
  "sample_loading = the (exec_run sample_built sample_recovered [EvMain])"

lemma sample_loading_facts:
  "exec_run sample_built sample_recovered [EvMain] = Some sample_loading"
  "st_phase sample_loading = MainWave"
  "map w_node (st_workers sample_loading) = [PhaseRunStroppy]"
proof -
  have "exec_run sample_built sample_recovered [EvMain] \<noteq> None"
    by (simp add: main_step_def sample_recovered_def marks_fields new_executor_def)
  then show "exec_run sample_built sample_recovered [EvMain] = Some sample_loading"
    unfolding sample_loading_def by (metis option.exhaust_sel)
qed (code_simp+)

lemma load_runs_on_finished_setup_witness:
  "status_at sample_loading PhaseConfigureMonitor = Some Done"
proof -
  obtain w where w: "w \<in> set (st_workers sample_loading)" "w_node w = PhaseRunStroppy"
    using sample_loading_facts(3) by auto
  have "PhaseConfigureMonitor \<in>
      set (map fst (map shape_of (g_nodes (built_graph (sample_cfg None) sample_deps))))"
    unfolding sample_shape by (simp add: expected_shape_def only_if_def)
  then obtain n where n: "n \<in> set (g_nodes (built_graph (sample_cfg None) sample_deps))"
    "node_id n = PhaseConfigureMonitor"
    by (auto simp: shape_of_def)
  have g: "ex_graph sample_built = built_graph (sample_cfg None) sample_deps"
    by (simp add: sample_built_def)
  have "status_at sample_loading (node_id n) = Some Done"
    by (rule load_runs_on_finished_setup [OF g _ _ sample_loading_facts(1,2) w n(1)])
      (use setup_marks [OF g] n(2) in \<open>simp_all add: sample_recovered_def\<close>)
  then show ?thesis by (simp add: n(2))
qed

end
