(* ===== verification/DbConfig.thy ===== *)
theory DbConfig
  imports RunTypes
begin

text \<open>
  The configuration renderers of \<open>internal/domain/dbconfig\<close> for PostgreSQL, MySQL and Picodata
  (\<open>postgres.go\<close>, \<open>mysql.go\<close>, \<open>picodata.go\<close>). A settings map is an association list with
  distinct keys; \<open>overlay\<close> is the loop that lets the user's options win. The theorems: memory
  percentages resolve into the promised range, the user's options reach the file, and the text
  does not depend on the order in which Go iterates over any map.
\<close>

section \<open>Settings maps\<close>

definition overlay :: "options \<Rightarrow> options \<Rightarrow> options" where
  "overlay opts m = fold (\<lambda>(k, v). AList.update k v) opts m"

definition at_key :: "options \<Rightarrow> string \<Rightarrow> string" where
  "at_key m k = (case map_of m k of None \<Rightarrow> [] | Some v \<Rightarrow> v)"

definition sorted_keys :: "options \<Rightarrow> string list" where
  "sorted_keys m = sort (map fst m)"

section \<open>Memory percentages\<close>

definition clamp_mb :: "int \<Rightarrow> int" where
  "clamp_mb v = (let v = (if v < 32 then 32 else v) in if v > 2048 then 2048 else v)"

definition resolve_value :: "int \<Rightarrow> string \<Rightarrow> string" where
  "resolve_value mem_total v =
     (if \<not> has_suffix v ''%'' then v
      else (case sscanf_d (trim_suffix v ''%'') of
          None \<Rightarrow> v
        | Some pct \<Rightarrow>
            if pct \<le> 0 then v
            else itoa (clamp_mb (go_quot (int64 (mem_total * pct)) 100)) @ ''MB''))"

definition resolve_memory_percents :: "options \<Rightarrow> int \<Rightarrow> options" where
  "resolve_memory_percents m mem_total = map (\<lambda>(k, v). (k, resolve_value mem_total v)) m"

section \<open>PostgreSQL\<close>

record pg_conf_opts =
  po_version :: string
  po_role :: string
  po_options :: options
  po_patroni :: bool
  po_memory :: int

definition pg_settings :: "pg_conf_opts \<Rightarrow> options" where
  "pg_settings o1 =
     (let version = (if po_version o1 = [] then ''16'' else po_version o1);
          m = postgres_defaults version;
          m = (if \<not> po_patroni o1 then
                 (let m = AList.update ''max_replication_slots'' ''10''
                        (AList.update ''max_wal_senders'' ''10'' (AList.update ''wal_level'' ''replica'' m))
                  in if po_role o1 = ''replica'' then AList.update ''hot_standby'' ''on'' m else m)
               else m)
      in resolve_memory_percents (overlay (po_options o1) m) (po_memory o1))"

definition conf_lines :: "(string \<Rightarrow> string) \<Rightarrow> options \<Rightarrow> string" where
  "conf_lines f m = concat (map (\<lambda>k. k @ '' = '' @ f (at_key m k) @ nl) (sorted_keys m))"

definition banner :: string where
  "banner = ''# Generated by stroppy-agent'' @ nl"

definition render_postgres_conf :: "pg_conf_opts \<Rightarrow> string" where
  "render_postgres_conf o1 = banner @ conf_lines (\<lambda>v. v) (pg_settings o1)"

definition postgres_pg_hba_conf :: string where
  "postgres_pg_hba_conf = concat (map (\<lambda>l. l @ nl)
     [''# Generated by stroppy-agent'',
      ''local   all             all                 trust'',
      ''host    all             all   127.0.0.1/32  trust'',
      ''host    all             all   ::1/128       trust'',
      ''host    all             all   0.0.0.0/0     trust'',
      ''host    replication     all   0.0.0.0/0     trust'',
      ''local   replication     all                 trust''])"

section \<open>MySQL\<close>

definition mysql_server_id_placeholder :: string where
  "mysql_server_id_placeholder = ''__MYSQL_SERVER_ID__''"

definition mysql_local_host_placeholder :: string where
  "mysql_local_host_placeholder = ''__MYSQL_LOCAL_HOST__''"

record mysql_conf_opts =
  mo_version :: string
  mo_role :: string
  mo_semi_sync :: bool
  mo_group_repl :: bool
  mo_options :: options
  mo_memory :: int

definition mysql_settings :: "mysql_conf_opts \<Rightarrow> options" where
  "mysql_settings o1 =
     (let version = (if mo_version o1 = [] then ''8.0'' else mo_version o1);
          m = mysql_defaults version;
          m = AList.update ''server-id'' mysql_server_id_placeholder m;
          m = AList.update ''gtid_mode'' ''ON'' m;
          m = AList.update ''enforce_gtid_consistency'' ''ON'' m;
          m = AList.update ''log_bin'' ''mysql-bin'' m;
          m = (if mo_semi_sync o1 then
                 (if mo_role o1 = ''primary''
                  then AList.update ''rpl_semi_sync_source_enabled'' ''1''
                         (AList.update ''plugin-load-add'' ''semisync_source.so'' m)
                  else AList.update ''rpl_semi_sync_replica_enabled'' ''1''
                         (AList.update ''plugin-load-add'' ''semisync_replica.so'' m))
               else m);
          m = (if mo_group_repl o1
               then AList.update ''report_host'' mysql_local_host_placeholder
                      (AList.update ''plugin-load-add'' ''group_replication.so''
                         (AList.update ''binlog_checksum'' ''NONE'' m))
               else m)
      in resolve_memory_percents
           (overlay (filter (\<lambda>(k, v). k \<noteq> ''server-id'') (mo_options o1)) m) (mo_memory o1))"

definition mysql_suffixes :: "string \<Rightarrow> string" where
  "mysql_suffixes v = replace_all (replace_all v ''MB'' ''M'') ''GB'' ''G''"

definition render_mysql_conf :: "mysql_conf_opts \<Rightarrow> string" where
  "render_mysql_conf o1 = banner @ ''[mysqld]'' @ nl @ conf_lines mysql_suffixes (mysql_settings o1)"

definition substitute_mysql :: "string \<Rightarrow> int \<Rightarrow> string \<Rightarrow> string" where
  "substitute_mysql body node_index local_host =
     replace_all
       (replace_all body mysql_server_id_placeholder (itoa (int64 (node_index + 1))))
       mysql_local_host_placeholder local_host"

section \<open>Picodata\<close>

definition picodata_host_placeholder :: string where
  "picodata_host_placeholder = ''__PICODATA_ADVERTISE_HOST__''"

record pico_conf_opts =
  pc_replication :: int
  pc_options :: options
  pc_memory :: int

definition picodata_memtx_bytes :: "string \<Rightarrow> int" where
  "picodata_memtx_bytes s =
     (case sscanf_d (trim_suffix s ''MB'') of
        Some mb \<Rightarrow> if mb > 0 then int64 (mb * 1024 * 1024) else 2 * 1024 * 1024 * 1024
      | None \<Rightarrow> 2 * 1024 * 1024 * 1024)"

definition render_picodata_conf :: "pico_conf_opts \<Rightarrow> string" where
  "render_picodata_conf o1 =
     (let m = overlay (pc_options o1)
            (resolve_memory_percents (picodata_defaults ''25.3'') (pc_memory o1));
          replication = (if pc_replication o1 < 1 then 2 else pc_replication o1);
          memtx = picodata_memtx_bytes (at_key m ''memtx_memory'')
      in banner @ concat (map (\<lambda>l. l @ nl)
        [''cluster:'', ''  name: stroppy-cluster'', ''  tier:'', ''    default:'',
         ''      replication_factor: '' @ itoa replication,
         ''      can_vote: true'', [],
         ''instance:'', ''  tier: default'', ''  iproto:'', ''    listen: 0.0.0.0:3301'',
         ''    advertise: '' @ picodata_host_placeholder @ '':3301'',
         ''  pg:'', ''    listen: 0.0.0.0:5432'',
         ''    advertise: '' @ picodata_host_placeholder @ '':5432'',
         ''    ssl: false'', ''  http:'', ''    listen: 0.0.0.0:8081'', ''  memtx:'',
         ''    memory: '' @ itoa memtx]))"

definition substitute_picodata :: "string \<Rightarrow> string \<Rightarrow> string" where
  "substitute_picodata body host = replace_all body picodata_host_placeholder host"

section \<open>The settings maps behave like maps\<close>

lemma distinct_overlay: "distinct (map fst m) \<Longrightarrow> distinct (map fst (overlay opts m))"
  unfolding overlay_def by (induction opts arbitrary: m) (auto simp: distinct_update)

lemma map_of_overlay:
  "distinct (map fst opts) \<Longrightarrow> map_of (overlay opts m) = map_of m ++ map_of opts"
proof (induction opts arbitrary: m)
  case (Cons kv opts)
  obtain k v where kv: "kv = (k, v)" by (cases kv)
  have k: "k \<notin> set (map fst opts)" using Cons.prems kv by simp
  have "map_of (overlay (kv # opts) m) = map_of (overlay opts (AList.update k v m))"
    by (simp add: overlay_def kv)
  also have "\<dots> = (map_of m)(k \<mapsto> v) ++ map_of opts"
    using Cons by (simp add: update_conv' kv)
  also have "\<dots> = map_of m ++ map_of (kv # opts)"
    using k by (auto simp: kv map_add_upd_left dom_map_of_conv_image_fst)
  finally show ?case .
qed (simp add: overlay_def)

lemma resolve_keys [simp]: "map fst (resolve_memory_percents m t) = map fst m"
  by (auto simp: resolve_memory_percents_def)

lemma map_of_resolve:
  "map_of (resolve_memory_percents m t) = map_option (resolve_value t) \<circ> map_of m"
  unfolding resolve_memory_percents_def by (induction m) auto

text \<open>Equal maps have equal sorted keys and equal text.\<close>

lemma sorted_keys_cong:
  assumes "map_of m = map_of m'" and "distinct (map fst m)" and "distinct (map fst m')"
  shows "sorted_keys m = sorted_keys m'"
proof -
  have "set (map fst m) = set (map fst m')"
    using assms(1) by (metis dom_map_of_conv_image_fst list.set_map)
  then show ?thesis
    unfolding sorted_keys_def using assms(2,3) by (metis sorted_list_of_set_sort_remdups distinct_remdups_id)
qed

lemma conf_lines_cong:
  assumes "map_of m = map_of m'" and "distinct (map fst m)" and "distinct (map fst m')"
  shows "conf_lines f m = conf_lines f m'"
  using sorted_keys_cong [OF assms] assms(1) by (simp add: conf_lines_def at_key_def)

lemma distinct_defaults:
  "distinct (map fst (postgres_defaults v))" "distinct (map fst (mysql_defaults v))"
  "distinct (map fst (picodata_defaults v))"
  by (simp_all add: postgres_defaults_def mysql_defaults_def picodata_defaults_def)


section \<open>Memory percentages are resolved\<close>

lemma clamp_mb_range: "32 \<le> clamp_mb v \<and> clamp_mb v \<le> 2048"
  by (simp add: clamp_mb_def Let_def)

text \<open>The four outcomes of one value.\<close>

lemma resolve_value_cases:
  "resolve_value mem v = v \<or>
   (\<exists>n. 32 \<le> n \<and> n \<le> 2048 \<and> resolve_value mem v = itoa n @ ''MB'' \<and> has_suffix v ''%'')"
  unfolding resolve_value_def using clamp_mb_range by (auto split: option.split)

lemma mb_no_percent: "\<not> has_suffix (x @ ''MB'') ''%''"
  by (simp add: has_suffix_def)

lemma resolve_value_idem: "resolve_value mem (resolve_value mem v) = resolve_value mem v"
proof (cases "resolve_value mem v = v")
  case False
  then obtain n where "resolve_value mem v = itoa n @ ''MB''" using resolve_value_cases by blast
  then show ?thesis using mb_no_percent [of "itoa n"] by (simp add: resolve_value_def [of mem "itoa n @ ''MB''"])
qed simp

text \<open>
  \<open>ResolveMemoryPercents\<close> keeps the keys and resolves each value on its own: a value that is
  not a percentage is untouched, a positive percentage of a memory size becomes a number of
  megabytes between 32 and 2048, even where the product wraps around, and doing it twice changes
  nothing.
\<close>

theorem resolve_memory_percents_correct:
  "map fst (resolve_memory_percents m mem) = map fst m \<and>
   (\<forall>k v. map_of m k = Some v \<longrightarrow>
      (\<exists>v'. map_of (resolve_memory_percents m mem) k = Some v' \<and>
        (v' = v \<or> has_suffix v ''%'' \<and> (\<exists>n. 32 \<le> n \<and> n \<le> 2048 \<and> v' = itoa n @ ''MB'')) \<and>
        (\<not> has_suffix v ''%'' \<longrightarrow> v' = v))) \<and>
   resolve_memory_percents (resolve_memory_percents m mem) mem = resolve_memory_percents m mem"
proof (intro conjI allI impI)
  fix k v assume "map_of m k = Some v"
  then have "map_of (resolve_memory_percents m mem) k = Some (resolve_value mem v)"
    by (simp add: map_of_resolve)
  moreover have "\<not> has_suffix v ''%'' \<longrightarrow> resolve_value mem v = v" by (simp add: resolve_value_def)
  ultimately show "\<exists>v'. map_of (resolve_memory_percents m mem) k = Some v' \<and>
      (v' = v \<or> has_suffix v ''%'' \<and> (\<exists>n. 32 \<le> n \<and> n \<le> 2048 \<and> v' = itoa n @ ''MB'')) \<and>
      (\<not> has_suffix v ''%'' \<longrightarrow> v' = v)"
    using resolve_value_cases [of mem v] by auto
next
  show "resolve_memory_percents (resolve_memory_percents m mem) mem = resolve_memory_percents m mem"
    by (auto simp: resolve_memory_percents_def resolve_value_idem)
qed simp

lemma resolve_memory_percents_correct_witness:
  "\<exists>v'. map_of (resolve_memory_percents (postgres_defaults ''16'') 4096) ''shared_buffers'' = Some v' \<and>
     (v' = ''25%'' \<or> has_suffix ''25%'' ''%'' \<and> (\<exists>n. 32 \<le> n \<and> n \<le> 2048 \<and> v' = itoa n @ ''MB''))"
proof -
  have "map_of (postgres_defaults ''16'') ''shared_buffers'' = Some ''25%''"
    by (simp add: postgres_defaults_def)
  then show ?thesis
    using resolve_memory_percents_correct [of "postgres_defaults ''16''" 4096] by blast
qed

text \<open>The values the default percentages take on a 4096 MB host.\<close>

lemma default_memory_4096:
  "resolve_value 4096 ''25%'' = ''1024MB''" "resolve_value 4096 ''75%'' = ''2048MB''"
  "resolve_value 64 ''25%'' = ''32MB''"
  by code_simp+

section \<open>The user's options reach the file\<close>

lemma distinct_update_iff [simp]: "distinct (map fst m) \<Longrightarrow> distinct (map fst (AList.update k v m))"
  by (rule distinct_update)

lemma pg_settings_distinct: "distinct (map fst (pg_settings o1))"
  by (simp add: pg_settings_def Let_def distinct_overlay distinct_defaults)

lemma mysql_settings_distinct: "distinct (map fst (mysql_settings o1))"
  by (simp add: mysql_settings_def Let_def distinct_overlay distinct_defaults)

lemma pg_settings_user:
  assumes "distinct (map fst (po_options o1))" and "map_of (po_options o1) k = Some v"
  shows "map_of (pg_settings o1) k = Some (resolve_value (po_memory o1) v)"
  using assms by (simp add: pg_settings_def Let_def map_of_resolve map_of_overlay)

lemma concat_lines_end: "xs \<noteq> [] \<Longrightarrow> \<exists>p. concat (map (\<lambda>x. g x @ nl) xs) = p @ nl"
  by (cases xs rule: rev_exhaust) auto

text \<open>The text of a map starts a line with each of its keys.\<close>

lemma conf_line_present:
  assumes "map_of m k = Some v"
  shows "\<exists>pre post. b @ nl @ conf_lines f m = pre @ nl @ k @ '' = '' @ f v @ nl @ post"
proof -
  have "k \<in> set (sorted_keys m)"
    using assms by (auto simp: sorted_keys_def dest!: map_of_SomeD intro!: image_eqI)
  then obtain ks1 ks2 where ks: "sorted_keys m = ks1 @ k # ks2" by (meson split_list)
  define g where "g = (\<lambda>k. k @ '' = '' @ f (at_key m k))"
  have lines: "conf_lines f m = concat (map (\<lambda>x. g x @ nl) ks1) @ g k @ nl @ concat (map (\<lambda>x. g x @ nl) ks2)"
    by (simp add: conf_lines_def ks g_def)
  have "\<exists>p. nl @ concat (map (\<lambda>x. g x @ nl) ks1) = p @ nl"
    using concat_lines_end [of ks1 g] by (cases "ks1 = []") (auto simp: exI [of _ "[]"])
  then obtain p where "nl @ concat (map (\<lambda>x. g x @ nl) ks1) = p @ nl" by blast
  then have "b @ nl @ conf_lines f m = (b @ p) @ nl @ g k @ nl @ concat (map (\<lambda>x. g x @ nl) ks2)"
    unfolding lines by (metis append.assoc)
  moreover have "g k = k @ '' = '' @ f v" using assms by (simp add: g_def at_key_def)
  ultimately show ?thesis by (metis append.assoc)
qed

lemma mysql_settings_user:
  assumes "distinct (map fst (mo_options o1))" and "map_of (mo_options o1) k = Some v" and "k \<noteq> ''server-id''"
  shows "map_of (mysql_settings o1) k = Some (resolve_value (mo_memory o1) v)"
proof -
  let ?f = "filter (\<lambda>(k, v). k \<noteq> ''server-id'') (mo_options o1)"
  have "distinct (map fst ?f)" using assms(1) by (rule distinct_map_filter)
  moreover have "map_of ?f k = Some v"
    using assms by (simp add: map_of_eq_Some_iff distinct_map_filter)
  ultimately show ?thesis
    by (simp add: mysql_settings_def Let_def map_of_resolve map_of_overlay del: map_of_eq_Some_iff)
qed

lemma mysql_server_id:
  assumes "distinct (map fst (mo_options o1))"
  shows "map_of (mysql_settings o1) ''server-id'' = Some mysql_server_id_placeholder"
proof -
  let ?f = "filter (\<lambda>(k, v). k \<noteq> ''server-id'') (mo_options o1)"
  have d: "distinct (map fst ?f)" using assms by (rule distinct_map_filter)
  have n: "map_of ?f ''server-id'' = None" by (auto simp: map_of_eq_None_iff)
  have r: "resolve_value mem mysql_server_id_placeholder = mysql_server_id_placeholder" for mem
    by (simp add: resolve_value_def mysql_server_id_placeholder_def has_suffix_def)
  show ?thesis
    by (simp add: mysql_settings_def Let_def map_of_resolve map_of_overlay [OF d] n r update_conv' map_add_def
        split: option.split)
qed

text \<open>
  User options win: for every option the user sets, whatever the role and whoever manages
  replication, postgresql.conf has a line with the user's value (a memory percentage resolved),
  and so has my.cnf, except for \<open>server-id\<close>, whose line always holds the placeholder that each
  node replaces by its own number.
\<close>

theorem user_options_win:
  assumes "distinct (map fst opts)" and "map_of opts k = Some v"
  shows "(\<exists>pre post. render_postgres_conf (o1\<lparr>po_options := opts\<rparr>) =
        pre @ nl @ k @ '' = '' @ resolve_value (po_memory o1) v @ nl @ post) \<and>
     (\<exists>pre post. render_mysql_conf (o2\<lparr>mo_options := opts\<rparr>) =
        pre @ nl @ k @ '' = '' @
          mysql_suffixes (if k = ''server-id'' then mysql_server_id_placeholder
            else resolve_value (mo_memory o2) v) @ nl @ post)"
proof
  have "map_of (pg_settings (o1\<lparr>po_options := opts\<rparr>)) k = Some (resolve_value (po_memory o1) v)"
    using pg_settings_user [of "o1\<lparr>po_options := opts\<rparr>"] assms by simp
  from conf_line_present [OF this, of "''# Generated by stroppy-agent''" "\<lambda>v. v"]
  show "\<exists>pre post. render_postgres_conf (o1\<lparr>po_options := opts\<rparr>) =
      pre @ nl @ k @ '' = '' @ resolve_value (po_memory o1) v @ nl @ post"
    by (simp add: render_postgres_conf_def banner_def)
next
  have "map_of (mysql_settings (o2\<lparr>mo_options := opts\<rparr>)) k =
      Some (if k = ''server-id'' then mysql_server_id_placeholder else resolve_value (mo_memory o2) v)"
    using mysql_settings_user [of "o2\<lparr>mo_options := opts\<rparr>"] mysql_server_id [of "o2\<lparr>mo_options := opts\<rparr>"]
      assms by simp
  from conf_line_present [OF this, of "''# Generated by stroppy-agent'' @ nl @ ''[mysqld]''" mysql_suffixes]
  show "\<exists>pre post. render_mysql_conf (o2\<lparr>mo_options := opts\<rparr>) =
      pre @ nl @ k @ '' = '' @
        mysql_suffixes (if k = ''server-id'' then mysql_server_id_placeholder
          else resolve_value (mo_memory o2) v) @ nl @ post"
    by (simp add: render_mysql_conf_def banner_def)
qed

definition sample_pg_opts :: pg_conf_opts where
  "sample_pg_opts = \<lparr>po_version = ''17'', po_role = ''master'', po_options = [], po_patroni = False,
     po_memory = 4096\<rparr>"

definition sample_mysql_opts :: mysql_conf_opts where
  "sample_mysql_opts = \<lparr>mo_version = [], mo_role = ''primary'', mo_semi_sync = True,
     mo_group_repl = False, mo_options = [], mo_memory = 4096\<rparr>"

lemma user_options_win_witness:
  "\<exists>pre post. render_postgres_conf (sample_pg_opts\<lparr>po_options := [(''work_mem'', ''50%'')]\<rparr>) =
     pre @ nl @ ''work_mem = 2048MB'' @ nl @ post"
proof -
  have "resolve_value 4096 ''50%'' = ''2048MB''" by code_simp
  then show ?thesis
    using user_options_win [of "[(''work_mem'', ''50%'')]" "''work_mem''" "''50%''" sample_pg_opts
        sample_mysql_opts] by (simp add: sample_pg_opts_def)
qed

section \<open>The order of the maps does not matter\<close>

lemma overlay_cong:
  assumes "map_of a = map_of b" "distinct (map fst a)" "distinct (map fst b)"
  shows "map_of (overlay a m) = map_of (overlay b m)"
  by (simp add: map_of_overlay assms)

lemma map_of_filter_key:
  "distinct (map fst m) \<Longrightarrow> map_of (filter (\<lambda>(k, v). k \<noteq> x) m) = (map_of m)(x := None)"
  by (induction m) (auto simp: fun_eq_iff)

text \<open>
  The rendered files are functions of the option maps: two iteration orders of the same map
  give the same text, in PostgreSQL's file, in MySQL's and in Picodata's.
\<close>

theorem rendering_deterministic:
  assumes "map_of a = map_of b" and "distinct (map fst a)" and "distinct (map fst b)"
  shows "render_postgres_conf (o1\<lparr>po_options := a\<rparr>) = render_postgres_conf (o1\<lparr>po_options := b\<rparr>) \<and>
    render_mysql_conf (o2\<lparr>mo_options := a\<rparr>) = render_mysql_conf (o2\<lparr>mo_options := b\<rparr>) \<and>
    render_picodata_conf (o3\<lparr>pc_options := a\<rparr>) = render_picodata_conf (o3\<lparr>pc_options := b\<rparr>)"
proof (intro conjI)
  have "map_of (pg_settings (o1\<lparr>po_options := a\<rparr>)) = map_of (pg_settings (o1\<lparr>po_options := b\<rparr>))"
    by (simp add: pg_settings_def Let_def map_of_resolve overlay_cong [OF assms])
  from conf_lines_cong [OF this pg_settings_distinct pg_settings_distinct]
  show "render_postgres_conf (o1\<lparr>po_options := a\<rparr>) = render_postgres_conf (o1\<lparr>po_options := b\<rparr>)"
    by (simp add: render_postgres_conf_def)
next
  let ?f = "filter (\<lambda>(k, v). k \<noteq> ''server-id'')"
  have "map_of (?f a) = map_of (?f b)" "distinct (map fst (?f a))" "distinct (map fst (?f b))"
    using assms by (simp_all add: map_of_filter_key distinct_map_filter)
  note o = overlay_cong [OF this]
  have "map_of (mysql_settings (o2\<lparr>mo_options := a\<rparr>)) = map_of (mysql_settings (o2\<lparr>mo_options := b\<rparr>))"
    by (simp add: mysql_settings_def Let_def map_of_resolve o)
  from conf_lines_cong [OF this mysql_settings_distinct mysql_settings_distinct]
  show "render_mysql_conf (o2\<lparr>mo_options := a\<rparr>) = render_mysql_conf (o2\<lparr>mo_options := b\<rparr>)"
    by (simp add: render_mysql_conf_def)
next
  show "render_picodata_conf (o3\<lparr>pc_options := a\<rparr>) = render_picodata_conf (o3\<lparr>pc_options := b\<rparr>)"
    by (simp add: render_picodata_conf_def at_key_def overlay_cong [OF assms])
qed

lemma rendering_deterministic_witness:
  "render_postgres_conf (sample_pg_opts\<lparr>po_options := [(''a'', ''1''), (''b'', ''2'')]\<rparr>) =
   render_postgres_conf (sample_pg_opts\<lparr>po_options := [(''b'', ''2''), (''a'', ''1'')]\<rparr>)"
proof -
  have "map_of [(''a'', ''1''), (''b'', ''2'')] = map_of [(''b'', ''2''), (''a'', ''1'')]"
    by (auto simp: fun_eq_iff)
  then show ?thesis using rendering_deterministic [of "[(''a'', ''1''), (''b'', ''2'')]" "[(''b'', ''2''), (''a'', ''1'')]"] by simp
qed

text \<open>
  A percentage in the user's own Picodata options is not resolved, and a size in another unit
  than MB is read as megabytes.
\<close>

lemma picodata_memtx_units:
  "picodata_memtx_bytes ''4GB'' = 4 * 1024 * 1024" "picodata_memtx_bytes ''50%'' = 50 * 1024 * 1024"
  by code_simp+

end
