(* ===== verification/Text.thy ===== *)
theory Text
  imports Prelude
begin

text \<open>
  Facts about generated text that several components share: decimal numerals and their reading,
  occurrences of a substring, and replacement inside a text made of lines.
\<close>

section \<open>Numerals\<close>

lemma digit_char: "k < 10 \<Longrightarrow> (of_char (char_of (k + 48 :: nat)) :: nat) = k + 48"
  by (simp add: of_char_of)

lemma digit_char_is_digit: "k < 10 \<Longrightarrow> is_digit (char_of (k + 48 :: nat))"
  by (simp add: is_digit_def digit_char)

lemma digits_of_digits: "c \<in> set (digits_of n) \<Longrightarrow> is_digit c"
proof (induction n rule: digits_of.induct)
  case (1 n)
  then show ?case
    by (subst (asm) (2) digits_of.simps) (auto split: if_splits intro: digit_char_is_digit)
qed

lemma digits_of_nonempty [simp]: "digits_of n \<noteq> []"
  by (subst digits_of.simps) simp

lemma digits_val_snoc: "digits_val (ds @ [c]) = digits_val ds * 10 + (int (of_char c) - 48)"
  by (simp add: digits_val_def)

lemma digits_val_digits_of [simp]: "digits_val (digits_of n) = int n"
proof (induction n rule: digits_of.induct)
  case (1 n)
  show ?case
  proof (cases "n < 10")
    case True
    then show ?thesis
      by (subst digits_of.simps) (simp add: digits_val_def digit_char)
  next
    case False
    then have "digits_val (digits_of n) = int (n div 10) * 10 + int (n mod 10)"
      using 1 by (subst digits_of.simps) (simp add: digits_val_snoc digit_char)
    also have "\<dots> = int n" by (metis div_mult_mod_eq of_nat_add of_nat_mult of_nat_numeral)
    finally show ?thesis .
  qed
qed

lemma digits_of_inj: "digits_of m = digits_of n \<longleftrightarrow> m = n"
  by (metis digits_val_digits_of of_nat_eq_iff)

lemma itoa_nat: "itoa (int n) = digits_of n"
  by (simp add: itoa_def)

text \<open>Reading back what \<open>%d\<close> printed, with anything but a digit after it.\<close>

lemma takeWhile_digits:
  "(case r of [] \<Rightarrow> True | c # _ \<Rightarrow> \<not> is_digit c) \<Longrightarrow> takeWhile is_digit (digits_of n @ r) = digits_of n"
proof -
  assume "case r of [] \<Rightarrow> True | c # _ \<Rightarrow> \<not> is_digit c"
  then have "takeWhile is_digit r = []" by (cases r) auto
  then show ?thesis by (metis append_Nil2 digits_of_digits takeWhile_append2)
qed

lemma digit_not_sign: "is_digit c \<Longrightarrow> c \<noteq> CHR ''-'' \<and> c \<noteq> CHR ''+'' \<and> \<not> is_blank c"
  by (auto simp: is_digit_def is_blank_def)

lemma sscanf_itoa:
  assumes "int n < 2 ^ 63" and "case r of [] \<Rightarrow> True | c # _ \<Rightarrow> \<not> is_digit c"
  shows "sscanf_d (itoa (int n) @ r) = Some (int n)"
proof -
  obtain c ds where ds: "digits_of n = c # ds" by (cases "digits_of n") auto
  then have "is_digit c" using digits_of_digits [of c n] by simp
  then have c: "c \<noteq> CHR ''-''" "c \<noteq> CHR ''+''" "\<not> is_blank c" using digit_not_sign by auto
  have tw: "takeWhile is_digit (c # ds @ r) = c # ds"
    using takeWhile_digits [OF assms(2), of n] ds by simp
  have v: "digits_val (c # ds) = int n" using digits_val_digits_of [of n] ds by simp
  show ?thesis
    unfolding itoa_nat ds sscanf_d_def using c assms(1) tw v by (simp add: Let_def)
qed

section \<open>Occurrences\<close>

lemma str_contains_iff: "str_contains s p \<longleftrightarrow> (\<exists>u v. s = u @ p @ v)"
proof (induction s)
  case Nil
  then show ?case by auto
next
  case (Cons c s)
  have "str_contains (c # s) p \<longleftrightarrow> (\<exists>v. c # s = p @ v) \<or> (\<exists>u v. s = u @ p @ v)"
    using Cons by (simp add: has_prefix_iff)
  also have "\<dots> \<longleftrightarrow> (\<exists>u v. c # s = u @ p @ v)"
    by (metis append_Cons append_Nil list.sel(3) neq_Nil_conv)
  finally show ?case .
qed

lemma str_contains_prefix: "str_contains s (p @ q) \<Longrightarrow> str_contains s p"
  by (auto simp: str_contains_iff)

lemma str_contains_char: "str_contains s p \<Longrightarrow> c \<in> set p \<Longrightarrow> c \<in> set s"
  by (auto simp: str_contains_iff)

lemma replace_all_skip:
  "old \<noteq> [] \<Longrightarrow> c \<noteq> hd old \<Longrightarrow> replace_all (c # s) old new = c # replace_all s old new"
  by (cases old) (simp_all add: replace_all.simps)

lemma replace_all_whole: "old \<noteq> [] \<Longrightarrow> replace_all old old new = new"
  using has_prefix_append [of old "[]"] by (cases old) (simp_all add: replace_all.simps)

section \<open>Lines\<close>

definition unlines :: "string list \<Rightarrow> string" where
  "unlines ls = concat (map (\<lambda>l. l @ nl) ls)"

lemma unlines_simps [simp]:
  "unlines [] = []" "unlines (l # ls) = l @ nl @ unlines ls" "unlines (ls @ ms) = unlines ls @ unlines ms"
  by (simp_all add: unlines_def)

lemma has_prefix_line:
  "CHR 0x0A \<notin> set old \<Longrightarrow> has_prefix (l @ CHR 0x0A # r) old = has_prefix l old"
proof (induction l old rule: has_prefix.induct)
  case (2 p ps)
  then show ?case by simp
qed simp_all

lemma replace_all_line:
  assumes old: "old \<noteq> []" and nl: "CHR 0x0A \<notin> set old"
  shows "replace_all (l @ nl @ r) old new = replace_all l old new @ nl @ replace_all r old new"
  using old nl
proof (induction l old new rule: replace_all.induct)
  case (1 old new)
  then have "CHR 0x0A \<noteq> hd old" by (cases old) auto
  then show ?case using 1 by (simp add: nl_def replace_all_skip replace_all.simps(1))
next
  case (2 c s old new)
  have p: "has_prefix (c # s @ nl @ r) old = has_prefix (c # s) old"
    using has_prefix_line [OF "2.prems"(2), of "c # s" r] by (simp add: nl_def)
  show ?case
  proof (cases "has_prefix (c # s) old")
    case True
    then obtain q where q: "c # s = old @ q" by (auto simp: has_prefix_iff)
    then have "c # s @ nl @ r = old @ (q @ nl @ r)" by (metis append_Cons append_assoc)
    then have "drop (length old) (c # s @ nl @ r) = q @ nl @ r" by (metis append_eq_conv_conj)
    moreover have "drop (length old) (c # s) = q" using q by (metis append_eq_conv_conj)
    ultimately have d: "drop (length old) (c # s @ nl @ r) = drop (length old) (c # s) @ nl @ r"
      by simp
    have "replace_all (c # s @ nl @ r) old new = new @ replace_all (drop (length old) (c # s) @ nl @ r) old new"
      using True p "2.prems"(1) d by (simp add: replace_all.simps(2))
    then show ?thesis
      using "2.IH"(1) True "2.prems" by (simp add: replace_all.simps(2))
  next
    case False
    then have "replace_all (c # s @ nl @ r) old new = c # replace_all (s @ nl @ r) old new"
      using p by (simp add: replace_all.simps(2))
    then show ?thesis using "2.IH"(2) False "2.prems" by (simp add: replace_all.simps(2))
  qed
qed

lemma replace_all_unlines:
  "old \<noteq> [] \<Longrightarrow> CHR 0x0A \<notin> set old \<Longrightarrow>
     replace_all (unlines ls) old new = unlines (map (\<lambda>l. replace_all l old new) ls)"
  by (induction ls) (simp_all add: replace_all_line replace_all.simps(1))

end
