(* ===== verification/YdbConfig.thy ===== *)
theory YdbConfig
  imports DbConfig Text
begin

text \<open>
  The YDB renderer of \<open>internal/domain/dbconfig/ydb.go\<close> and its host placeholders. The body is the
  list of the lines the code writes; \<open>ydb_yaml\<close> takes the text of a host line as a parameter, which
  is the placeholder in the renderer and the host name in the specification of the substitution.
\<close>

section \<open>Rendering\<close>

definition ydb_host_prefix :: string where
  "ydb_host_prefix = ''__YDB_HOST_''"

definition ydb_host_placeholder :: "nat \<Rightarrow> string" where
  "ydb_host_placeholder i = ydb_host_prefix @ itoa (int i) @ ''__''"

record ydb_conf_opts =
  yo_host_count :: int
  yo_disk_path :: string
  yo_block_device :: string
  yo_cpus :: int
  yo_memory :: int
  yo_fault_tolerance :: string

definition ydb_zone :: "nat \<Rightarrow> string" where
  "ydb_zone i = [''zone-a'', ''zone-b'', ''zone-c''] ! (i mod 3)"

definition ydb_pdisk_path :: "ydb_conf_opts \<Rightarrow> string" where
  "ydb_pdisk_path o1 =
     (if yo_block_device o1 = []
      then (if yo_disk_path o1 = [] then ''/ydb_data'' else yo_disk_path o1) @ ''/pdisk.data''
      else yo_block_device o1)"

definition ydb_hosts :: "ydb_conf_opts \<Rightarrow> nat" where
  "ydb_hosts o1 = nat (if yo_host_count o1 < 1 then 1 else yo_host_count o1)"

definition ydb_erasure :: "ydb_conf_opts \<Rightarrow> string" where
  "ydb_erasure o1 = (if yo_fault_tolerance o1 = [] then ''none'' else yo_fault_tolerance o1)"

definition ydb_hard_mb :: "ydb_conf_opts \<Rightarrow> int" where
  "ydb_hard_mb o1 = (if yo_memory o1 > 0 then go_quot (int64 (yo_memory o1 * 85)) 100 else 0)"

definition ydb_host_lines :: "(nat \<Rightarrow> string) \<Rightarrow> nat \<Rightarrow> string list" where
  "ydb_host_lines host i =
     [''- host: '' @ host i, ''  host_config_id: 1'', ''  walle_location:'',
      ''    body: '' @ itoa (int i + 1),
      ''    data_center: '' @ [CHR 0x27] @ ydb_zone i @ [CHR 0x27],
      ''    rack: '' @ [CHR 0x27] @ itoa (int i + 1) @ [CHR 0x27]]"

definition ydb_vdisk_lines :: "string \<Rightarrow> nat \<Rightarrow> string list" where
  "ydb_vdisk_lines pdisk i =
     [''        - vdisk_locations:'', ''          - node_id: '' @ itoa (int i + 1),
      ''            pdisk_category: SSD'', ''            path: '' @ pdisk]"

definition ydb_ring_lines :: "ydb_conf_opts \<Rightarrow> string list" where
  "ydb_ring_lines o1 =
     (if ydb_erasure o1 = ''mirror-3-dc''
      then concat (map (\<lambda>i. ''      - fail_domains:'' # ydb_vdisk_lines (ydb_pdisk_path o1) i) [0..<ydb_hosts o1])
      else ''      - fail_domains:'' #
        concat (map (ydb_vdisk_lines (ydb_pdisk_path o1)) [0..<ydb_hosts o1]))"

definition ydb_lines :: "(nat \<Rightarrow> string) \<Rightarrow> string \<Rightarrow> ydb_conf_opts \<Rightarrow> string list" where
  "ydb_lines host node_type o1 =
     (let n = ydb_hosts o1; erasure = ydb_erasure o1; pdisk = ydb_pdisk_path o1 in
      [''# Generated by stroppy-agent'', ''static_erasure: '' @ erasure,
       ''host_configs:'', ''- drive:'', ''  - path: '' @ pdisk, ''    type: SSD'', ''  host_config_id: 1'',
       ''hosts:''] @
      concat (map (ydb_host_lines host) [0..<n]) @
      [''domains_config:'', ''  domain:'', ''  - name: Root'', ''    storage_pool_types:'',
       ''    - kind: ssd'', ''      pool_config:'', ''        box_id: 1'',
       ''        erasure_species: '' @ erasure, ''        kind: ssd''] @
      (if erasure = ''mirror-3-dc'' then
         [''        geometry:'', ''          realm_level_begin: 10'', ''          realm_level_end: 20'',
          ''          domain_level_begin: 10'', ''          domain_level_end: 256''] else []) @
      [''        pdisk_filter:'', ''        - property:'', ''          - type: SSD'',
       ''        vdisk_kind: Default'', ''  state_storage:'', ''  - ring:'',
       ''      node: ['' @ join '', '' (map (\<lambda>i. itoa (int i + 1)) [0..<n]) @ '']'',
       ''      nto_select: '' @ itoa (int n), ''    ssid: 1'',
       ''table_service_config:'', ''  sql_version: 1'',
       ''actor_system_config:'', ''  use_auto_config: true'',
       ''  node_type: '' @ (if node_type = [] then ''STORAGE'' else node_type)] @
      (if yo_cpus o1 > 0 then [''  cpu_count: '' @ itoa (yo_cpus o1)] else []) @
      (if ydb_hard_mb o1 > 0 then
         [''memory_controller_config:'',
          ''  hard_limit_bytes: '' @ itoa (int64 (ydb_hard_mb o1 * 1024 * 1024))] else []) @
      [''blob_storage_config:'', ''  service_set:'', ''    groups:'',
       ''    - erasure_species: '' @ erasure, ''      rings:''] @
      ydb_ring_lines o1 @
      [''channel_profile_config:'', ''  profile:'', ''  - channel:''] @
      concat (replicate 3 [''    - erasure_species: '' @ erasure, ''      pdisk_category: 0'',
        ''      storage_pool_kind: ssd'']) @
      [''grpc_config:'', ''  port: 2136''])"

definition render_ydb_yaml :: "string \<Rightarrow> ydb_conf_opts \<Rightarrow> string" where
  "render_ydb_yaml node_type o1 = unlines (ydb_lines ydb_host_placeholder node_type o1)"

definition render_ydb_storage_conf :: "ydb_conf_opts \<Rightarrow> string" where
  "render_ydb_storage_conf o1 = render_ydb_yaml ''STORAGE'' o1"

definition render_ydb_database_conf :: "ydb_conf_opts \<Rightarrow> string" where
  "render_ydb_database_conf o1 = render_ydb_yaml ''COMPUTE'' o1"

section \<open>Substituting the hosts\<close>

fun substitute_from :: "nat \<Rightarrow> string list \<Rightarrow> string \<Rightarrow> string" where
  "substitute_from i [] body = body"
| "substitute_from i (h # hs) body =
     substitute_from (Suc i) hs (replace_all body (ydb_host_placeholder i) h)"

definition substitute_ydb_hosts :: "string \<Rightarrow> string list \<Rightarrow> string" where
  "substitute_ydb_hosts body hosts = substitute_from 0 hosts body"


text \<open>Text that holds no placeholder: no double underscore and no line break.\<close>

definition plain :: "string \<Rightarrow> bool" where
  "plain s \<longleftrightarrow> \<not> str_contains s ''__'' \<and> CHR 0x0A \<notin> set s"

lemma itoa_chars: "0 \<le> i \<Longrightarrow> c \<in> set (itoa i) \<Longrightarrow> is_digit c"
  using digits_of_digits by (simp add: itoa_def)

lemma itoa_no_underscore: "CHR ''_'' \<notin> set (itoa i)"
proof
  assume "CHR ''_'' \<in> set (itoa i)"
  then have "is_digit (CHR ''_'')" using digits_of_digits by (auto simp: itoa_def split: if_splits)
  then show False by (simp add: is_digit_def)
qed

lemma no_underscore_contains: "CHR ''_'' \<notin> set s \<Longrightarrow> \<not> str_contains s ''__''"
  using str_contains_char [of s "''__''" "CHR ''_''"] by auto

lemma placeholder_starts: "ydb_host_placeholder i = ''__'' @ ''YDB_HOST_'' @ itoa (int i) @ ''__''"
  by (simp add: ydb_host_placeholder_def ydb_host_prefix_def)

lemma placeholder_nonempty [simp]: "ydb_host_placeholder i \<noteq> []"
  by (simp add: placeholder_starts)

lemma placeholder_no_nl [simp]: "CHR 0x0A \<notin> set (ydb_host_placeholder i)"
proof -
  have "CHR 0x0A \<notin> set (itoa (int i))" using itoa_chars [of "int i" "CHR 0x0A"] by (auto simp: is_digit_def)
  then show ?thesis by (simp add: placeholder_starts)
qed

lemma plain_replace: "\<not> str_contains l ''__'' \<Longrightarrow> replace_all l (ydb_host_placeholder i) h = l"
  using str_contains_prefix [of l "''__''"] by (auto simp: placeholder_starts intro: replace_all_absent)

text \<open>A placeholder occurs in another one only if they are the same.\<close>

lemma digits_underscores_contains:
  "CHR ''_'' \<notin> set ds \<Longrightarrow> \<not> str_contains (ds @ ''__'') ''__Y''"
  by (induction ds) auto

lemma append_underscores_eq:
  "CHR ''_'' \<notin> set a \<Longrightarrow> CHR ''_'' \<notin> set b \<Longrightarrow> has_prefix (a @ ''__'') (b @ ''__'') \<Longrightarrow> a = b"
proof (induction a arbitrary: b)
  case Nil
  then show ?case by (cases b) auto
next
  case (Cons x a)
  then show ?case by (cases b) auto
qed

lemma not_prefix_underscore:
  "a \<noteq> [] \<Longrightarrow> CHR ''_'' \<notin> set a \<Longrightarrow> \<not> has_prefix (a @ s) (CHR ''_'' # t)"
  by (cases a) auto

lemma placeholder_contains:
  assumes "str_contains (ydb_host_placeholder j) (ydb_host_placeholder i)"
  shows "i = j"
proof -
  let ?dj = "itoa (int j) @ ''__''" and ?di = "itoa (int i) @ ''__''"
  have "\<not> str_contains ?dj ''__Y''"
    using digits_underscores_contains itoa_no_underscore by blast
  moreover have "ydb_host_placeholder i = ''__Y'' @ ''DB_HOST_'' @ itoa (int i) @ ''__''"
    by (simp add: placeholder_starts)
  ultimately have "\<not> str_contains ?dj (ydb_host_placeholder i)"
    using str_contains_prefix by metis
  then have "has_prefix ?dj ?di"
    using assms not_prefix_underscore [OF _ itoa_no_underscore [of "int j"]]
    by (simp add: placeholder_starts itoa_nat)
  then have "itoa (int i) = itoa (int j)"
    using append_underscores_eq itoa_no_underscore by metis
  then show ?thesis by (simp add: itoa_nat digits_of_inj)
qed

lemma host_line_replace:
  "replace_all (''- host: '' @ s) (ydb_host_placeholder i) h =
     ''- host: '' @ replace_all s (ydb_host_placeholder i) h"
  by (simp add: replace_all_skip placeholder_starts)

lemma placeholder_replace:
  "replace_all (ydb_host_placeholder j) (ydb_host_placeholder i) h =
     (if i = j then h else ydb_host_placeholder j)"
proof (cases "i = j")
  case False
  then show ?thesis using placeholder_contains [of j i] replace_all_absent by auto
qed (simp add: replace_all_whole)

section \<open>One substitution changes one host\<close>

lemma plain_parts:
  assumes "plain (yo_fault_tolerance o1)" "plain (ydb_pdisk_path o1)" "plain node_type"
  shows "\<not> str_contains (ydb_erasure o1) ''__''" "\<not> str_contains (ydb_pdisk_path o1) ''__''"
    "\<not> str_contains node_type ''__''"
  using assms by (auto simp: plain_def ydb_erasure_def)

lemma itoa_plain [simp]: "\<not> str_contains (itoa i) ''__''"
  using no_underscore_contains itoa_no_underscore by blast

lemma itoa_quote_plain [simp]: "\<not> str_contains (itoa i @ [CHR 0x27]) ''__''"
  by (rule no_underscore_contains) (simp add: itoa_no_underscore)

lemma join_no_underscore:
  "\<forall>x \<in> set xs. CHR ''_'' \<notin> set x \<Longrightarrow> CHR ''_'' \<notin> set (join '', '' xs)"
  by (induction "'', ''" xs rule: join.induct) auto

lemma zone_plain [simp]: "\<not> str_contains (ydb_zone i @ [CHR 0x27]) ''__''"
proof -
  have "i mod 3 = 0 \<or> i mod 3 = 1 \<or> i mod 3 = 2" by linarith
  then show ?thesis by (elim disjE) (simp_all add: ydb_zone_def)
qed

lemma node_list_plain [simp]:
  "\<not> str_contains (join '', '' (map (\<lambda>i. itoa (int i + 1)) ns) @ '']'') ''__''"
  by (rule no_underscore_contains) (simp add: join_no_underscore itoa_no_underscore)

lemma host_lines_replace:
  "map (\<lambda>l. replace_all l (ydb_host_placeholder k) h) (ydb_host_lines f i) =
     ydb_host_lines (\<lambda>i. replace_all (f i) (ydb_host_placeholder k) h) i"
  using host_line_replace [of _ k h] by (simp add: ydb_host_lines_def plain_replace)

lemma vdisk_lines_replace:
  "\<not> str_contains pdisk ''__'' \<Longrightarrow>
     map (\<lambda>l. replace_all l (ydb_host_placeholder k) h) (ydb_vdisk_lines pdisk i) = ydb_vdisk_lines pdisk i"
  by (simp add: ydb_vdisk_lines_def plain_replace)

lemma ring_lines_replace:
  "\<not> str_contains (ydb_pdisk_path o1) ''__'' \<Longrightarrow>
     map (\<lambda>l. replace_all l (ydb_host_placeholder k) h) (ydb_ring_lines o1) = ydb_ring_lines o1"
  by (simp add: ydb_ring_lines_def map_concat o_def vdisk_lines_replace plain_replace)

lemma lines_replace:
  assumes "plain (yo_fault_tolerance o1)" "plain (ydb_pdisk_path o1)" "plain node_type"
  shows "map (\<lambda>l. replace_all l (ydb_host_placeholder k) h) (ydb_lines f node_type o1) =
    ydb_lines (\<lambda>i. replace_all (f i) (ydb_host_placeholder k) h) node_type o1"
  using plain_parts [OF assms]
  by (simp add: ydb_lines_def Let_def map_concat o_def host_lines_replace ring_lines_replace
      plain_replace numeral_3_eq_3)

lemma lines_cong:
  assumes "\<And>i. i < ydb_hosts o1 \<Longrightarrow> f i = g i"
  shows "ydb_lines f node_type o1 = ydb_lines g node_type o1"
proof -
  have "concat (map (ydb_host_lines f) [0..<ydb_hosts o1]) = concat (map (ydb_host_lines g) [0..<ydb_hosts o1])"
    using assms by (intro arg_cong [where f = concat] map_cong) (auto simp: ydb_host_lines_def)
  then show ?thesis by (simp add: ydb_lines_def Let_def)
qed

lemma substitute_from_plain: "\<not> str_contains s ''__'' \<Longrightarrow> substitute_from k hs s = s"
  by (induction hs arbitrary: k) (simp_all add: plain_replace)

lemma substitute_from_placeholder:
  "\<forall>h \<in> set hs. plain h \<Longrightarrow> substitute_from k hs (ydb_host_placeholder j) =
     (if k \<le> j \<and> j < k + length hs then hs ! (j - k) else ydb_host_placeholder j)"
proof (induction hs arbitrary: k)
  case (Cons h hs)
  then have h: "\<not> str_contains h ''__''" by (simp add: plain_def)
  show ?case
  proof (cases "j = k")
    case True
    then show ?thesis using h by (simp add: placeholder_replace substitute_from_plain)
  next
    case False
    then show ?thesis using Cons by (auto simp: placeholder_replace nth_Cons')
  qed
qed auto

lemma substitute_from_lines:
  assumes "plain (yo_fault_tolerance o1)" "plain (ydb_pdisk_path o1)" "plain node_type"
  shows "substitute_from k hs (unlines (ydb_lines f node_type o1)) =
    unlines (ydb_lines (\<lambda>i. substitute_from k hs (f i)) node_type o1)"
proof (induction hs arbitrary: k f)
  case (Cons h hs)
  have "replace_all (unlines (ydb_lines f node_type o1)) (ydb_host_placeholder k) h =
      unlines (ydb_lines (\<lambda>i. replace_all (f i) (ydb_host_placeholder k) h) node_type o1)"
    by (simp add: replace_all_unlines lines_replace [OF assms])
  then show ?case using Cons.IH by simp
qed simp

text \<open>
  C28. A body rendered once with placeholders fits every node: substituting the cluster's hosts
  gives exactly the file with the real host in each host entry and every other line untouched, for
  any number of hosts up to those given (placeholder 1 does not disturb placeholder 10).
\<close>

theorem substitute_ydb_hosts_correct:
  assumes "ydb_hosts o1 \<le> length hosts" and "\<forall>h \<in> set hosts. plain h"
    and "plain (yo_fault_tolerance o1)" and "plain (ydb_pdisk_path o1)"
  shows "substitute_ydb_hosts (render_ydb_storage_conf o1) hosts =
      unlines (ydb_lines (\<lambda>i. hosts ! i) ''STORAGE'' o1) \<and>
    substitute_ydb_hosts (render_ydb_database_conf o1) hosts =
      unlines (ydb_lines (\<lambda>i. hosts ! i) ''COMPUTE'' o1)"
proof -
  have "substitute_ydb_hosts (render_ydb_yaml nt o1) hosts = unlines (ydb_lines (\<lambda>i. hosts ! i) nt o1)"
    if "plain nt" for nt
  proof -
    have "ydb_lines (\<lambda>i. substitute_from 0 hosts (ydb_host_placeholder i)) nt o1 =
        ydb_lines (\<lambda>i. hosts ! i) nt o1"
      using assms(1,2) by (intro lines_cong) (simp add: substitute_from_placeholder)
    then show ?thesis
      using substitute_from_lines [OF assms(3,4) that]
      by (simp add: substitute_ydb_hosts_def render_ydb_yaml_def)
  qed
  moreover have "plain ''STORAGE''" "plain ''COMPUTE''" by (simp_all add: plain_def)
  ultimately show ?thesis
    by (simp add: render_ydb_storage_conf_def render_ydb_database_conf_def)
qed

definition sample_ydb_opts :: ydb_conf_opts where
  "sample_ydb_opts = \<lparr>yo_host_count = 2, yo_disk_path = [], yo_block_device = [], yo_cpus = 4,
     yo_memory = 8192, yo_fault_tolerance = []\<rparr>"

lemma substitute_ydb_hosts_correct_witness:
  "substitute_ydb_hosts (render_ydb_storage_conf sample_ydb_opts) [''10.1.0.4'', ''10.1.0.5''] =
     unlines (ydb_lines (\<lambda>i. [''10.1.0.4'', ''10.1.0.5''] ! i) ''STORAGE'' sample_ydb_opts)"
  using substitute_ydb_hosts_correct [of sample_ydb_opts "[''10.1.0.4'', ''10.1.0.5'']"]
  by (simp add: sample_ydb_opts_def ydb_hosts_def plain_def ydb_pdisk_path_def)

text \<open>The memory limit stays below the machine's memory.\<close>

lemma ydb_hard_mb_bound:
  "0 < yo_memory o1 \<Longrightarrow> yo_memory o1 \<le> 2 ^ 56 \<Longrightarrow> 0 \<le> ydb_hard_mb o1 \<and> ydb_hard_mb o1 < yo_memory o1"
proof -
  assume a: "0 < yo_memory o1" "yo_memory o1 \<le> 2 ^ 56"
  then have "ydb_hard_mb o1 = yo_memory o1 * 85 div 100"
    by (simp add: ydb_hard_mb_def int64_id go_quot_nonneg)
  moreover have "0 \<le> x * 85 div 100 \<and> x * 85 div 100 < x" if "0 < x" for x :: int
  proof -
    have "100 * (x * 85 div 100) + x * 85 mod 100 = x * 85" by (rule mult_div_mod_eq)
    moreover have "0 \<le> x * 85 mod 100" by (rule pos_mod_sign) simp
    moreover have "0 \<le> x * 85 div 100" using that by (intro div_int_pos_iff [THEN iffD2]) simp
    ultimately show ?thesis using that by linarith
  qed
  ultimately show ?thesis using a(1) by metis
qed

end
