(* ===== verification/AuxConfig.thy ===== *)
theory AuxConfig
  imports YdbConfig
begin

text \<open>
  The renderers of \<open>internal/domain/dbconfig/aux.go\<close>: patroni.yml, pgbouncer.ini and haproxy.cfg,
  as lists of lines, with the substitution of the per-node values. The lines of patroni.yml take
  the four per-node values as parameters: the renderer passes the placeholders.
\<close>

section \<open>Patroni\<close>

definition patroni_name_placeholder :: string where
  "patroni_name_placeholder = ''__PATRONI_NAME__''"

definition patroni_node_name_placeholder :: string where
  "patroni_node_name_placeholder = ''__PATRONI_NODE_NAME__''"

definition patroni_connect_addr_placeholder :: string where
  "patroni_connect_addr_placeholder = ''__PATRONI_CONNECT_ADDR__''"

definition patroni_etcd_hosts_placeholder :: string where
  "patroni_etcd_hosts_placeholder = ''__PATRONI_ETCD_HOSTS__''"

definition pgbouncer_host_placeholder :: string where
  "pgbouncer_host_placeholder = ''__PGBOUNCER_PG_HOST__''"

record patroni_conf_opts =
  pa_version :: string
  pa_sync_mode :: bool
  pa_sync_count :: int
  pa_options :: options

definition quoted :: "string \<Rightarrow> string" where
  "quoted s = CHR 0x27 # s @ [CHR 0x27]"

definition patroni_version :: "patroni_conf_opts \<Rightarrow> string" where
  "patroni_version o1 = (if pa_version o1 = [] then ''16'' else pa_version o1)"

definition patroni_parameters :: "patroni_conf_opts \<Rightarrow> string list" where
  "patroni_parameters o1 =
     map (\<lambda>k. ''        '' @ k @ '': '' @ quoted (at_key (pa_options o1) k)) (sorted_keys (pa_options o1))"

definition patroni_lines :: "string \<Rightarrow> string \<Rightarrow> string \<Rightarrow> string \<Rightarrow> patroni_conf_opts \<Rightarrow> string list" where
  "patroni_lines scope node addr etcd o1 =
     [''# Generated by stroppy-agent'', ''scope: '' @ scope, ''name: '' @ node, [],
      ''restapi:'', ''  listen: 0.0.0.0:8008'', ''  connect_address: '' @ addr @ '':8008'', [],
      ''etcd3:'', ''  hosts: '' @ etcd, [],
      ''bootstrap:'', ''  dcs:'', ''    ttl: 30'', ''    loop_wait: 10'', ''    retry_timeout: 10'',
      ''    maximum_lag_on_failover: 1048576'',
      ''    synchronous_mode: '' @ (if pa_sync_mode o1 then ''true'' else ''false'')] @
     (if pa_sync_mode o1 \<and> pa_sync_count o1 > 0
      then [''    synchronous_node_count: '' @ itoa (pa_sync_count o1)] else []) @
     [''    postgresql:'', ''      use_pg_rewind: true'', ''      parameters:'',
      ''        wal_level: replica'', ''        hot_standby: '' @ quoted ''on'',
      ''        max_wal_senders: 10'', ''        max_replication_slots: 10''] @
     patroni_parameters o1 @
     [''      pg_hba:'', ''        - local all all trust'', ''        - host all all 0.0.0.0/0 trust'',
      ''        - host replication all 0.0.0.0/0 trust'',
      ''  initdb:'', ''    - encoding: UTF8'', ''    - data-checksums'', [],
      ''postgresql:'', ''  listen: 0.0.0.0:5432'', ''  connect_address: '' @ addr @ '':5432'',
      ''  data_dir: /var/lib/postgresql/'' @ patroni_version o1 @ ''/main'',
      ''  bin_dir: /usr/lib/postgresql/'' @ patroni_version o1 @ ''/bin'',
      ''  pgpass: /tmp/pgpass'', ''  authentication:'', ''    replication:'',
      ''      username: postgres'', ''    superuser:'', ''      username: postgres'']"

definition render_patroni_conf :: "patroni_conf_opts \<Rightarrow> string" where
  "render_patroni_conf o1 = unlines (patroni_lines patroni_name_placeholder
     patroni_node_name_placeholder patroni_connect_addr_placeholder patroni_etcd_hosts_placeholder o1)"

definition substitute_patroni :: "string \<Rightarrow> string \<Rightarrow> string \<Rightarrow> string \<Rightarrow> string \<Rightarrow> string" where
  "substitute_patroni body scope node addr etcd =
     (let body = replace_all body patroni_name_placeholder scope;
          body = replace_all body patroni_node_name_placeholder node;
          body = replace_all body patroni_connect_addr_placeholder addr
      in replace_all body patroni_etcd_hosts_placeholder etcd)"

section \<open>PgBouncer\<close>

record pgbouncer_conf_opts =
  bo_listen_port :: int
  bo_pool_mode :: string
  bo_max_client_conn :: int
  bo_default_pool_size :: int
  bo_pg_port :: int
  bo_auth_type :: string

definition int_or :: "int \<Rightarrow> int \<Rightarrow> int" where
  "int_or v d = (if v = 0 then d else v)"

definition str_or :: "string \<Rightarrow> string \<Rightarrow> string" where
  "str_or v d = (if v = [] then d else v)"

definition pgbouncer_lines :: "string \<Rightarrow> pgbouncer_conf_opts \<Rightarrow> string list" where
  "pgbouncer_lines host o1 =
     [''; Generated by stroppy-agent'', ''[databases]'',
      ''* = host='' @ host @ '' port='' @ itoa (int_or (bo_pg_port o1) 5432), [],
      ''[pgbouncer]'', ''listen_addr = 0.0.0.0'',
      ''listen_port = '' @ itoa (int_or (bo_listen_port o1) 6432),
      ''auth_type = '' @ str_or (bo_auth_type o1) ''trust'',
      ''auth_file = /etc/pgbouncer/userlist.txt'',
      ''pool_mode = '' @ str_or (bo_pool_mode o1) ''transaction'',
      ''max_client_conn = '' @ itoa (int_or (bo_max_client_conn o1) 1000),
      ''default_pool_size = '' @ itoa (int_or (bo_default_pool_size o1) 25),
      ''admin_users = postgres'', ''pidfile = /var/run/pgbouncer/pgbouncer.pid'',
      ''logfile = /var/log/pgbouncer/pgbouncer.log'']"

definition render_pgbouncer_conf :: "pgbouncer_conf_opts \<Rightarrow> string" where
  "render_pgbouncer_conf o1 = unlines (pgbouncer_lines pgbouncer_host_placeholder o1)"

definition substitute_pgbouncer :: "string \<Rightarrow> string \<Rightarrow> string" where
  "substitute_pgbouncer body pg_host =
     replace_all body pgbouncer_host_placeholder (str_or pg_host ''localhost'')"

section \<open>HAProxy\<close>

record haproxy_conf_opts =
  ho_write_port :: int
  ho_read_port :: int
  ho_backends :: "string list"
  ho_health_check :: string
  ho_patroni_port :: int

definition server_lines :: "(nat \<Rightarrow> string \<Rightarrow> string) \<Rightarrow> string list \<Rightarrow> string list" where
  "server_lines line bs = map (\<lambda>(i, b). line i b) (zip [0..<length bs] bs)"

definition haproxy_patroni_backends :: "haproxy_conf_opts \<Rightarrow> string list" where
  "haproxy_patroni_backends o1 =
     (let servers = server_lines (\<lambda>i b. ''    server pg'' @ itoa (int i) @ '' '' @ b @ '' check port '' @
            itoa (int_or (ho_patroni_port o1) 8008)) (ho_backends o1);
          defaults = ''    default-server inter 3s fall 3 rise 2 on-marked-down shutdown-sessions''
      in [''backend bk_write'', ''    option httpchk GET /primary'', ''    http-check expect status 200'',
          defaults] @ servers @
         [[], ''backend bk_read'', ''    option httpchk GET /replica'', ''    http-check expect status 200'',
          ''    balance roundrobin'', defaults] @ servers)"

definition haproxy_mysql_backends :: "haproxy_conf_opts \<Rightarrow> string list" where
  "haproxy_mysql_backends o1 =
     (let servers = server_lines (\<lambda>i b. ''    server mysql'' @ itoa (int i) @ '' '' @ b @ '' check'') (ho_backends o1)
      in [''backend bk_write'', ''    option mysql-check user haproxy'',
          ''    default-server inter 3s fall 3 rise 2''] @ servers @
         [[], ''backend bk_read'', ''    option mysql-check user haproxy'', ''    balance roundrobin'',
          ''    default-server inter 3s fall 3 rise 2''] @ servers)"

definition haproxy_tcp_backends :: "haproxy_conf_opts \<Rightarrow> string list" where
  "haproxy_tcp_backends o1 =
     [''backend bk_write'', ''    option tcp-check'', ''    default-server inter 3s fall 3 rise 2''] @
     (case ho_backends o1 of [] \<Rightarrow> [] | b # _ \<Rightarrow> [''    server srv0 '' @ b @ '' check'']) @
     [[], ''backend bk_read'', ''    option tcp-check'', ''    balance roundrobin'',
      ''    default-server inter 3s fall 3 rise 2''] @
     (case ho_backends o1 of
        [] \<Rightarrow> []
      | [b] \<Rightarrow> [''    server srv0 '' @ b @ '' check'']
      | b # bs \<Rightarrow> server_lines (\<lambda>i b. ''    server srv'' @ itoa (int i + 1) @ '' '' @ b @ '' check'') bs)"

definition haproxy_lines :: "haproxy_conf_opts \<Rightarrow> string list" where
  "haproxy_lines o1 =
     [''# Generated by stroppy-agent'', ''global'', ''    maxconn 4096'',
      ''    log stdout format raw local0'', [],
      ''defaults'', ''    mode tcp'', ''    timeout connect 5s'', ''    timeout client 30s'',
      ''    timeout server 30s'', ''    retries 3'', [],
      ''frontend ft_write'', ''    bind *:'' @ itoa (ho_write_port o1), ''    default_backend bk_write'', [],
      ''frontend ft_read'', ''    bind *:'' @ itoa (ho_read_port o1), ''    default_backend bk_read'', []] @
     (if ho_health_check o1 = ''patroni'' then haproxy_patroni_backends o1
      else if ho_health_check o1 = ''mysql'' then haproxy_mysql_backends o1
      else haproxy_tcp_backends o1)"

definition render_haproxy_conf :: "haproxy_conf_opts \<Rightarrow> string" where
  "render_haproxy_conf o1 = unlines (haproxy_lines o1)"


section \<open>Substituting the per-node values of Patroni\<close>

lemma no_double_underscore:
  "\<not> str_contains l ''__'' \<Longrightarrow> replace_all l (CHR ''_'' # CHR ''_'' # ph) h = l"
  using str_contains_prefix [of l "''__''" ph] by (auto intro: replace_all_absent)

lemma str_contains_double_append:
  assumes "\<not> str_contains a ''__''" "\<not> str_contains b ''__''" "b = [] \<or> hd b \<noteq> CHR ''_''"
  shows "\<not> str_contains (a @ b) ''__''"
  using assms(1)
proof (induction a)
  case Nil
  then show ?case using assms(2) by simp
next
  case (Cons c a)
  have "\<not> has_prefix (c # a @ b) ''__''"
    using Cons.prems assms(3) by (cases a; cases b) auto
  then show ?case using Cons by simp
qed

lemma quoted_plain:
  assumes "\<not> str_contains s ''__''"
  shows "\<not> str_contains (quoted s) ''__''"
  using str_contains_double_append [of s "[CHR 0x27]"] assms by (simp add: quoted_def)

lemma patroni_parameters_plain:
  assumes "\<forall>(k, v) \<in> set (pa_options o1). \<not> str_contains k ''__'' \<and> \<not> str_contains v ''__''"
    and "l \<in> set (patroni_parameters o1)"
  shows "\<not> str_contains l ''__''"
proof -
  obtain k where k: "k \<in> set (sorted_keys (pa_options o1))"
    and l: "l = ''        '' @ k @ '': '' @ quoted (at_key (pa_options o1) k)"
    using assms(2) by (auto simp: patroni_parameters_def)
  obtain v where v: "map_of (pa_options o1) k = Some v"
    using k by (auto simp: sorted_keys_def dest!: weak_map_of_SomeI)
  then have kv: "\<not> str_contains k ''__''" "\<not> str_contains v ''__''"
    using assms(1) by (auto dest!: map_of_SomeD)
  have "\<not> str_contains ('': '' @ quoted v) ''__''"
    using quoted_plain [OF kv(2)] by simp
  then have "\<not> str_contains (k @ '': '' @ quoted v) ''__''"
    using str_contains_double_append [OF kv(1)] by simp
  then show ?thesis using v by (simp add: l at_key_def)
qed

lemma plain_suffix:
  "\<not> str_contains s ''__'' \<Longrightarrow> c \<noteq> CHR ''_'' \<Longrightarrow> \<not> str_contains (c # r) ''__'' \<Longrightarrow>
     \<not> str_contains (s @ c # r) ''__''"
  by (rule str_contains_double_append) auto

lemma replace_past:
  "\<not> has_prefix (c # s) ''__'' \<Longrightarrow>
     replace_all (c # s) (CHR ''_'' # CHR ''_'' # ph) h = c # replace_all s (CHR ''_'' # CHR ''_'' # ph) h"
  by (cases s) (auto simp: replace_all.simps)

lemma patroni_lines_replace:
  fixes ph h :: string
  defines "R \<equiv> \<lambda>l. replace_all l (CHR ''_'' # CHR ''_'' # ph) h"
  assumes "\<forall>(k, v) \<in> set (pa_options o1). \<not> str_contains k ''__'' \<and> \<not> str_contains v ''__''"
    and "\<not> str_contains (pa_version o1) ''__''"
    and "R (addr @ '':8008'') = R addr @ '':8008''" "R (addr @ '':5432'') = R addr @ '':5432''"
  shows "map R (patroni_lines scope node addr etcd o1) =
    patroni_lines (R scope) (R node) (R addr) (R etcd) o1"
proof -
  have params: "map R (patroni_parameters o1) = patroni_parameters o1"
    using patroni_parameters_plain [OF assms(2)]
    by (intro map_idI) (auto simp: R_def intro: no_double_underscore)
  have v: "\<not> str_contains (patroni_version o1) ''__''"
    using assms(3) by (simp add: patroni_version_def)
  have vm: "\<not> str_contains (patroni_version o1 @ ''/main'') ''__''"
    "\<not> str_contains (patroni_version o1 @ ''/bin'') ''__''"
    using plain_suffix [OF v] by simp_all
  show ?thesis
    unfolding patroni_lines_def map_append params list.map
    using assms(4,5) vm by (simp add: R_def replace_past no_double_underscore quoted_def)
qed

lemma connect_addr_port:
  "replace_all (patroni_connect_addr_placeholder @ '':8008'') patroni_name_placeholder h =
     patroni_connect_addr_placeholder @ '':8008''"
  "replace_all (patroni_connect_addr_placeholder @ '':8008'') patroni_node_name_placeholder h =
     patroni_connect_addr_placeholder @ '':8008''"
  "replace_all (patroni_connect_addr_placeholder @ '':8008'') patroni_connect_addr_placeholder h =
     h @ '':8008''"
  "replace_all (patroni_connect_addr_placeholder @ '':8008'') patroni_etcd_hosts_placeholder h =
     patroni_connect_addr_placeholder @ '':8008''"
  "replace_all (patroni_connect_addr_placeholder @ '':5432'') patroni_name_placeholder h =
     patroni_connect_addr_placeholder @ '':5432''"
  "replace_all (patroni_connect_addr_placeholder @ '':5432'') patroni_node_name_placeholder h =
     patroni_connect_addr_placeholder @ '':5432''"
  "replace_all (patroni_connect_addr_placeholder @ '':5432'') patroni_connect_addr_placeholder h =
     h @ '':5432''"
  "replace_all (patroni_connect_addr_placeholder @ '':5432'') patroni_etcd_hosts_placeholder h =
     patroni_connect_addr_placeholder @ '':5432''"
  unfolding patroni_name_placeholder_def patroni_node_name_placeholder_def
  patroni_connect_addr_placeholder_def patroni_etcd_hosts_placeholder_def
  by (simp_all add: replace_all.simps)

lemma placeholders_disjoint:
  "replace_all patroni_connect_addr_placeholder patroni_etcd_hosts_placeholder h = patroni_connect_addr_placeholder"
  "replace_all patroni_node_name_placeholder patroni_name_placeholder h = patroni_node_name_placeholder"
  "replace_all patroni_connect_addr_placeholder patroni_name_placeholder h = patroni_connect_addr_placeholder"
  "replace_all patroni_etcd_hosts_placeholder patroni_name_placeholder h = patroni_etcd_hosts_placeholder"
  "replace_all patroni_connect_addr_placeholder patroni_node_name_placeholder h = patroni_connect_addr_placeholder"
  "replace_all patroni_etcd_hosts_placeholder patroni_node_name_placeholder h = patroni_etcd_hosts_placeholder"
  "replace_all patroni_etcd_hosts_placeholder patroni_connect_addr_placeholder h = patroni_etcd_hosts_placeholder"
  unfolding patroni_name_placeholder_def patroni_node_name_placeholder_def
  patroni_connect_addr_placeholder_def patroni_etcd_hosts_placeholder_def
  by (simp_all add: replace_all.simps)

lemma placeholder_filled:
  "replace_all patroni_name_placeholder patroni_name_placeholder h = h"
  "replace_all patroni_node_name_placeholder patroni_node_name_placeholder h = h"
  "replace_all patroni_connect_addr_placeholder patroni_connect_addr_placeholder h = h"
  "replace_all patroni_etcd_hosts_placeholder patroni_etcd_hosts_placeholder h = h"
  by (rule replace_all_whole, simp add: patroni_name_placeholder_def patroni_node_name_placeholder_def
      patroni_connect_addr_placeholder_def patroni_etcd_hosts_placeholder_def)+

lemma addr_port:
  assumes "addr = patroni_connect_addr_placeholder \<or> \<not> str_contains addr ''__''"
    and "ph \<in> {patroni_name_placeholder, patroni_node_name_placeholder,
      patroni_connect_addr_placeholder, patroni_etcd_hosts_placeholder}"
  shows "replace_all (addr @ '':8008'') ph h = replace_all addr ph h @ '':8008'' \<and>
    replace_all (addr @ '':5432'') ph h = replace_all addr ph h @ '':5432''"
  using assms(1)
proof
  assume "addr = patroni_connect_addr_placeholder"
  then show ?thesis
    using assms(2) by (elim insertE emptyE)
      (simp_all only: connect_addr_port placeholders_disjoint placeholder_filled)
next
  assume a: "\<not> str_contains addr ''__''"
  obtain r where r: "ph = CHR ''_'' # CHR ''_'' # r"
    using assms(2) by (auto simp: patroni_name_placeholder_def patroni_node_name_placeholder_def
        patroni_connect_addr_placeholder_def patroni_etcd_hosts_placeholder_def)
  show ?thesis using a plain_suffix [OF a] by (simp add: r no_double_underscore)
qed

definition patroni_placeholders :: "string set" where
  "patroni_placeholders = {patroni_name_placeholder, patroni_node_name_placeholder,
     patroni_connect_addr_placeholder, patroni_etcd_hosts_placeholder}"

lemma patroni_placeholder_shape:
  assumes "ph \<in> patroni_placeholders"
  shows "ph \<noteq> [] \<and> CHR 0x0A \<notin> set ph \<and> (\<exists>r. ph = CHR ''_'' # CHR ''_'' # r)"
  using assms by (auto simp: patroni_placeholders_def patroni_name_placeholder_def
      patroni_node_name_placeholder_def patroni_connect_addr_placeholder_def patroni_etcd_hosts_placeholder_def)

text \<open>One substitution fills one parameter of the lines.\<close>

lemma patroni_text_replace:
  assumes "ph \<in> patroni_placeholders"
    and "\<forall>(k, v) \<in> set (pa_options o1). \<not> str_contains k ''__'' \<and> \<not> str_contains v ''__''"
    and "\<not> str_contains (pa_version o1) ''__''"
    and "addr = patroni_connect_addr_placeholder \<or> \<not> str_contains addr ''__''"
  shows "replace_all (unlines (patroni_lines scope node addr etcd o1)) ph h =
    unlines (patroni_lines (replace_all scope ph h) (replace_all node ph h) (replace_all addr ph h)
      (replace_all etcd ph h) o1)"
proof -
  obtain r where r: "ph = CHR ''_'' # CHR ''_'' # r" using patroni_placeholder_shape assms(1) by blast
  have a: "replace_all (addr @ '':8008'') ph h = replace_all addr ph h @ '':8008''"
    "replace_all (addr @ '':5432'') ph h = replace_all addr ph h @ '':5432''"
    using addr_port [OF assms(4)] assms(1) by (simp_all add: patroni_placeholders_def)
  show ?thesis
    using replace_all_unlines [of ph "patroni_lines scope node addr etcd o1" h]
      patroni_placeholder_shape [OF assms(1)] patroni_lines_replace [OF assms(2,3) a [unfolded r]]
    by (simp add: r)
qed

lemma substitute_patroni_lines:
  assumes "\<forall>(k, v) \<in> set (pa_options o1). \<not> str_contains k ''__'' \<and> \<not> str_contains v ''__''"
    and "\<not> str_contains (pa_version o1) ''__''"
    and "\<not> str_contains scope ''__''" "\<not> str_contains node ''__''" "\<not> str_contains addr ''__''"
  shows "substitute_patroni (render_patroni_conf o1) scope node addr etcd =
    unlines (patroni_lines scope node addr etcd o1)"
proof -
  have p: "replace_all s ph h = s" if "\<not> str_contains s ''__''" "ph \<in> patroni_placeholders" for s ph h
    using that patroni_placeholder_shape [OF that(2)] no_double_underscore by blast
  note t = patroni_text_replace [OF _ assms(1,2)]
  show ?thesis
    unfolding substitute_patroni_def render_patroni_conf_def Let_def
    using assms(3-5)
    by (simp add: t p patroni_placeholders_def placeholders_disjoint placeholder_filled)
qed

end
