(* ===== verification/AgentHost.thy ===== *)
theory AgentHost
  imports AuxConfig
begin

text \<open>
  The execution core of the agent (\<open>agent/executor.go\<close>): shell scripts, daemons, log lines and
  the packages of the host. A handler is the list of the operations it performs, in the code's
  order; \<open>run_ops\<close> performs them until one that must succeed fails. The machine itself (bash, the
  file system, the processes it starts) is the parameter \<open>host\<close>, over a state \<open>'w\<close> of its own.
  Output lines are below the scanner's limit of one megabyte; the lines of a daemon, which appear
  at any later time, and the locks that only order concurrent commands are left out.
\<close>

section \<open>The host\<close>

text \<open>
  \<open>h_shell\<close> runs a script with bash: \<open>Inl\<close> the error of a process that did not start, \<open>Inr\<close> its
  output lines and the error of its exit, if any.
\<close>

record 'w host =
  h_shell :: "'w \<Rightarrow> string \<Rightarrow> 'w \<times> (string + string list \<times> string option)"
  h_start :: "'w \<Rightarrow> string \<Rightarrow> string list \<Rightarrow> 'w \<times> string option"
  h_write_file :: "'w \<Rightarrow> string \<Rightarrow> string \<Rightarrow> 'w \<times> string option"
  h_look_path :: "'w \<Rightarrow> string \<Rightarrow> bool"
  h_setenv :: "'w \<Rightarrow> string \<Rightarrow> string \<Rightarrow> 'w"
  h_getenv :: "string \<Rightarrow> string"
  h_hostname :: string
  h_meminfo :: "string option"

text \<open>A log line: command id, action, text and stream, as the callback receives them.\<close>

type_synonym log_call = "string \<times> string \<times> string \<times> string"

text \<open>The executor: what it remembers of its bootstrap, the daemons it tracks, the lines sent.\<close>

record 'w agent =
  ex_world :: 'w
  ex_boot :: "string option option"
  ex_procs :: "string list"
  ex_cmd :: string
  ex_action :: string
  ex_log :: "log_call list"

definition new_agent :: "'w \<Rightarrow> 'w agent" where
  "new_agent w = \<lparr>ex_world = w, ex_boot = None, ex_procs = [], ex_cmd = [], ex_action = [], ex_log = []\<rparr>"

definition set_current_command :: "string \<Rightarrow> string \<Rightarrow> 'w agent \<Rightarrow> 'w agent" where
  "set_current_command cid act ex = ex\<lparr>ex_cmd := cid, ex_action := act\<rparr>"

definition emit_line :: "string \<Rightarrow> 'w agent \<Rightarrow> 'w agent" where
  "emit_line line ex = ex\<lparr>ex_log := ex_log ex @ [(ex_cmd ex, ex_action ex, line, ''stdout'')]\<rparr>"

definition shell :: "'w host \<Rightarrow> string \<Rightarrow> 'w agent \<Rightarrow> 'w agent \<times> string option" where
  "shell h script ex =
     (case h_shell h (ex_world ex) script of
        (w, Inl e) \<Rightarrow> (ex\<lparr>ex_world := w\<rparr>, Some e)
      | (w, Inr (ls, err)) \<Rightarrow>
          (fold emit_line ls (ex\<lparr>ex_world := w\<rparr>),
           case err of None \<Rightarrow> None | Some e \<Rightarrow> Some (e @ '': '' @ unlines ls)))"

definition start_daemon :: "'w host \<Rightarrow> string \<Rightarrow> string \<Rightarrow> string list \<Rightarrow> 'w agent \<Rightarrow> 'w agent \<times> string option" where
  "start_daemon h name bin args ex =
     (case h_start h (ex_world ex) bin args of
        (w, Some e) \<Rightarrow> (ex\<lparr>ex_world := w\<rparr>, Some ((''start '' @ name @
                     '': '' @ e)))
      | (w, None) \<Rightarrow> (ex\<lparr>ex_world := w, ex_procs := ex_procs ex @ [name]\<rparr>, None))"

definition shutdown :: "'w agent \<Rightarrow> string list \<times> 'w agent" where
  "shutdown ex = (ex_procs ex, ex\<lparr>ex_procs := []\<rparr>)"

section \<open>Operations\<close>

text \<open>
  \<open>Run\<close> returns the error of its script, \<open>Try\<close> ignores it, \<open>Wrap\<close> adds a label to the error of its
  operations, \<open>Unless\<close> runs its operations when the script fails (\<open>which x || install x\<close>),
  \<open>Rescue\<close> forgives a failure when a check succeeds, \<open>Run_else\<close> runs more before it returns its
  error, and \<open>Refuse\<close> is an early error return.
\<close>

datatype op =
    Run string
  | Try string
  | Emit string
  | Setenv string string
  | Write string string
  | Start string string "string list"
  | Warn_start string string "string list"
  | Unless string "op list"
  | Look string "op list" "op list"
  | Wrap string "op list"
  | Rescue string "op list" string
  | Run_else string string "op list"
  | Refuse string

definition wrapped :: "string \<Rightarrow> 'a \<times> string option \<Rightarrow> 'a \<times> string option" where
  "wrapped label r = (fst r, map_option (\<lambda>e. label @ '': '' @ e) (snd r))"

fun run_op :: "'w host \<Rightarrow> op \<Rightarrow> 'w agent \<Rightarrow> 'w agent \<times> string option"
  and run_ops :: "'w host \<Rightarrow> op list \<Rightarrow> 'w agent \<Rightarrow> 'w agent \<times> string option" where
  "run_op h (Run script) ex = shell h script ex"
| "run_op h (Try script) ex = (fst (shell h script ex), None)"
| "run_op h (Emit line) ex = (emit_line line ex, None)"
| "run_op h (Setenv n v) ex = (ex\<lparr>ex_world := h_setenv h (ex_world ex) n v\<rparr>, None)"
| "run_op h (Write path body) ex =
     (case h_write_file h (ex_world ex) path body of (w, e) \<Rightarrow> (ex\<lparr>ex_world := w\<rparr>, e))"
| "run_op h (Start name bin args) ex = start_daemon h name bin args ex"
| "run_op h (Warn_start name bin args) ex = (fst (start_daemon h name bin args ex), None)"
| "run_op h (Unless script ops) ex =
     (case shell h script ex of (ex, None) \<Rightarrow> (ex, None) | (ex, Some _) \<Rightarrow> run_ops h ops ex)"
| "run_op h (Look path found missing) ex =
     (if h_look_path h (ex_world ex) path then run_ops h found ex else run_ops h missing ex)"
| "run_op h (Wrap label ops) ex = wrapped label (run_ops h ops ex)"
| "run_op h (Rescue label ops check) ex =
     (case run_ops h ops ex of
        (ex, None) \<Rightarrow> (ex, None)
      | (ex, Some e) \<Rightarrow> (case shell h check ex of
            (ex, None) \<Rightarrow> (ex, None)
          | (ex, Some _) \<Rightarrow> (ex, Some (label @ '': '' @ e))))"
| "run_op h (Run_else label script ops) ex =
     (case shell h script ex of
        (ex, None) \<Rightarrow> (ex, None)
      | (ex, Some e) \<Rightarrow> (fst (run_ops h ops ex), Some (label @ '': '' @ e)))"
| "run_op h (Refuse e) ex = (ex, Some e)"
| "run_ops h [] ex = (ex, None)"
| "run_ops h (p # ps) ex =
     (case run_op h p ex of (ex, None) \<Rightarrow> run_ops h ps ex | (ex, Some e) \<Rightarrow> (ex, Some e))"

text \<open>A script whose error is wrapped.\<close>

abbreviation must :: "string \<Rightarrow> string \<Rightarrow> op" where
  "must label script \<equiv> Wrap label [Run script]"

text \<open>A file written by a here-document, \<open>redirect\<close> being the redirection.\<close>

definition heredoc :: "string \<Rightarrow> string \<Rightarrow> string \<Rightarrow> string \<Rightarrow> string" where
  "heredoc redirect path tag text = (''cat '' @ redirect @ '' '' @ path @ '' << '' @ [CHR 0x27] @
                     tag @ [CHR 0x27] @ nl @ text @ tag)"

section \<open>Bootstrap and packages\<close>

definition apt_install :: "string \<Rightarrow> string" where
  "apt_install packages =
     (''DEBIAN_FRONTEND=noninteractive apt-get install -y --no-install-recommends '' @ packages)"

text \<open>\<open>bootstrap\<close> runs once; the error it ends with is kept for every later command.\<close>

definition bootstrap_policy :: string where
  "bootstrap_policy =
     (''printf '#!/bin/sh'' @ [CHR 0x5C] @ ''nexit 101'' @ [CHR 0x5C] @
      ''n' > /usr/sbin/policy-rc.d && chmod +x /usr/sbin/policy-rc.d'')"

definition bootstrap_unlock :: string where
  "bootstrap_unlock =
     ''systemctl stop unattended-upgrades 2>/dev/null; systemctl disable unattended-upgrades 2>/dev/null; killall -9 unattended-upgr 2>/dev/null; for i in $(seq 1 60); do fuser /var/lib/dpkg/lock-frontend >/dev/null 2>&1 || break; sleep 2; done''"

definition bootstrap_install :: string where
  "bootstrap_install =
     ''apt-get update && DEBIAN_FRONTEND=noninteractive apt-get install -y --no-install-recommends curl wget ca-certificates gnupg lsb-release sudo tar gzip python3-pip''"

definition bootstrap_ops :: "op list" where
  "bootstrap_ops = [Try bootstrap_policy, Try bootstrap_unlock, must ''bootstrap'' bootstrap_install]"

definition bootstrap :: "'w host \<Rightarrow> 'w agent \<Rightarrow> 'w agent \<times> string option" where
  "bootstrap h ex =
     (case ex_boot ex of
        Some e \<Rightarrow> (ex, e)
      | None \<Rightarrow> (case run_ops h bootstrap_ops ex of (ex, e) \<Rightarrow> (ex\<lparr>ex_boot := Some e\<rparr>, e)))"

text \<open>\<open>installPackage\<close>: repository, pre-install commands, the .deb file, the apt packages.\<close>

definition install_package :: "package \<Rightarrow> op list" where
  "install_package p =
     (if pkg_custom_repo p = [] then [] else
        (if pkg_custom_repo_key p = [] then [] else
           [must ''add custom repo key''
              (''curl -fsSL \"'' @ pkg_custom_repo_key p @
               ''\" | gpg --no-default-keyring --keyring gnupg-ring:/etc/apt/trusted.gpg.d/custom.gpg --import && chmod 644 /etc/apt/trusted.gpg.d/custom.gpg'')]) @
        [must ''add custom repo''
           (''echo \"'' @ pkg_custom_repo p @
            ''\" > /etc/apt/sources.list.d/custom.list && apt-get update'')]) @
     (if pkg_pre_install p = [] then [] else [Wrap ''pre-install'' (map Run (pkg_pre_install p))]) @
     (if pkg_deb_filename p = [] then [] else
        (let auth = (if pkg_deb_token p = [] then []
               else ('' -H \"Authorization: Bearer '' @ pkg_deb_token p @ ''\"''))
         in [must (''install deb '' @ pkg_deb_filename p)
              (''curl -fsSL'' @ auth @ '' \"'' @ pkg_deb_filename p @
               ''\" -o /tmp/custom_package.deb && DEBIAN_FRONTEND=noninteractive apt-get install -y /tmp/custom_package.deb'')])) @
     (if pkg_apt_packages p = [] then [] else
        [must ''apt install'' (apt_install (join '' '' (pkg_apt_packages p)))])"

section \<open>Runs of operations\<close>

lemma run_ops_append:
  "run_ops h (ps @ qs) ex =
     (case run_ops h ps ex of (ex, None) \<Rightarrow> run_ops h qs ex | (ex, Some e) \<Rightarrow> (ex, Some e))"
  by (induction ps arbitrary: ex) (auto split: prod.splits option.splits)

text \<open>No operation changes what the executor knows of the current command or of its bootstrap.\<close>

definition same_frame :: "'w agent \<Rightarrow> 'w agent \<Rightarrow> bool" where
  "same_frame ex ex' \<longleftrightarrow> ex_cmd ex' = ex_cmd ex \<and> ex_action ex' = ex_action ex \<and> ex_boot ex' = ex_boot ex \<and>
     (\<exists>ls. ex_log ex' = ex_log ex @ map (\<lambda>l. (ex_cmd ex, ex_action ex, l, ''stdout'')) ls) \<and>
     (\<exists>ps. ex_procs ex' = ex_procs ex @ ps)"

lemma same_frame_refl [intro]: "same_frame ex ex"
  by (auto simp: same_frame_def)

lemma same_frame_trans: "same_frame a b \<Longrightarrow> same_frame b c \<Longrightarrow> same_frame a c"
  unfolding same_frame_def by (auto simp flip: map_append)

lemma same_frame_world [simp]: "same_frame ex (ex\<lparr>ex_world := w\<rparr>)"
  by (auto simp: same_frame_def)

lemma same_frame_emit: "same_frame ex (emit_line l ex)"
  by (auto simp: same_frame_def emit_line_def intro: exI [of _ "[l]"])

lemma same_frame_emits: "same_frame ex (fold emit_line ls ex)"
  by (induction ls arbitrary: ex) (auto intro: same_frame_trans same_frame_emit)

lemma same_frame_shell: "same_frame ex (fst (shell h script ex))"
  unfolding shell_def
  by (auto split: prod.splits sum.splits intro: same_frame_trans [OF _ same_frame_emits])

lemma same_frame_daemon: "same_frame ex (fst (start_daemon h name bin args ex))"
  unfolding start_daemon_def by (auto simp: same_frame_def split: prod.splits option.splits)

lemma same_frame_shellD: "shell h script ex = (ex', e) \<Longrightarrow> same_frame ex ex'"
  using same_frame_shell by (metis fst_conv)

lemma run_frame:
  "same_frame ex (fst (run_op h p ex))"
  "same_frame ex (fst (run_ops h ps ex))"
  by (induction h p ex and h ps ex rule: run_op_run_ops.induct)
    (auto simp: wrapped_def same_frame_shell same_frame_daemon same_frame_emit split: prod.splits option.splits
      dest: same_frame_shellD intro: same_frame_trans)

end
