(* ===== verification/AgentDb.thy ===== *)
theory AgentDb
  imports AgentHost
begin

text \<open>
  The agent's database handlers (\<open>agent/executor.go\<close>) with their payloads (\<open>setup_*.go\<close>): install
  and configure PostgreSQL, MySQL, Picodata and YDB. Each definition is the list of operations of
  one handler; the body it writes is a definition of its own.
\<close>

section \<open>The memory of the machine\<close>

fun meminfo_lines :: "string list \<Rightarrow> int" where
  "meminfo_lines [] = 1024"
| "meminfo_lines (l # ls) =
     (if has_prefix l ''MemTotal:'' then
        (case sscanf_d (drop (length ''MemTotal:'') l) of
           Some kb \<Rightarrow> if kb > 0 then go_quot kb 1024 else meminfo_lines ls
         | None \<Rightarrow> meminfo_lines ls)
      else meminfo_lines ls)"

definition total_memory :: "'w host \<Rightarrow> int" where
  "total_memory h = (case h_meminfo h of None \<Rightarrow> 1024 | Some data \<Rightarrow> meminfo_lines (split_on (CHR 0x0A) data))"

text \<open>The budget of a payload, or the machine's memory.\<close>

definition memory_budget :: "'w host \<Rightarrow> int \<Rightarrow> int" where
  "memory_budget h mem = (if mem \<le> 0 then total_memory h else mem)"

section \<open>PostgreSQL\<close>

record db_install =
  di_version :: string
  di_data_dir :: string
  di_package :: "package option"

record postgres_cluster =
  pc_version :: string
  pc_role :: string
  pc_master_host :: string
  pc_patroni :: bool
  pc_sync_replicas :: int
  pc_memory_mb :: int
  pc_pg_options :: options
  pc_conf_override :: string
  pc_hba_override :: string

definition install_postgres :: "db_install \<Rightarrow> op list" where
  "install_postgres cfg =
     (case di_package cfg of
        None \<Rightarrow> [Refuse ''no package provided for postgres installation'']
      | Some p \<Rightarrow> [Wrap ''install postgres'' (install_package p)])"

definition postgres_version :: "postgres_cluster \<Rightarrow> string" where
  "postgres_version cfg = str_or (pc_version cfg) ''16''"

definition postgres_conf_body :: "'w host \<Rightarrow> postgres_cluster \<Rightarrow> string" where
  "postgres_conf_body h cfg =
     (if pc_conf_override cfg = []
      then render_postgres_conf \<lparr>po_version = postgres_version cfg, po_role = pc_role cfg,
             po_options = pc_pg_options cfg, po_patroni = pc_patroni cfg,
             po_memory = memory_budget h (pc_memory_mb cfg)\<rparr>
      else pc_conf_override cfg)"

definition postgres_hba_body :: "postgres_cluster \<Rightarrow> string" where
  "postgres_hba_body cfg = str_or (pc_hba_override cfg) postgres_pg_hba_conf"

definition postgres_start_script :: "string \<Rightarrow> string" where
  "postgres_start_script version = (''systemctl restart postgresql 2>/dev/null || pg_ctlcluster '' @
                     version @ '' main start || true'' @ nl @
                     ''for i in $(seq 1 10); do'' @ nl @
                     ''  pg_isready -U postgres && break'' @ nl @ ''  sleep 1'' @
                     nl @ ''done'')"

definition postgres_replica_script :: "string \<Rightarrow> string \<Rightarrow> string" where
  "postgres_replica_script version master =
     (let dir = (''/var/lib/postgresql/'' @ version @ ''/main'') in
      (''pg_ctlcluster '' @ version @ '' main stop || true'' @ nl @ ''rm -rf '' @ dir @ ''/*'' @
       nl @ ''sudo -u postgres pg_basebackup -h '' @ master @ '' -D '' @ dir @
       '' -U postgres -Fp -Xs -P -R'' @ nl @ ''chown -R postgres:postgres '' @ dir @ nl @
       ''pg_ctlcluster '' @ version @ '' main start''))"

definition config_postgres :: "'w host \<Rightarrow> postgres_cluster \<Rightarrow> op list" where
  "config_postgres h cfg =
     (let version = postgres_version cfg; dir = (''/etc/postgresql/'' @ version @ ''/main'') in
      [must ''write postgresql.conf'' (heredoc ''>>'' ((dir @ ''/postgresql.conf'')) ''PGCONF''
         ((nl @ ''# stroppy-agent overrides'' @ nl @ postgres_conf_body h cfg))),
       must ''write pg_hba.conf'' (heredoc ''>'' ((dir @ ''/pg_hba.conf'')) ''PGHBA'' (postgres_hba_body cfg))] @
      (if pc_role cfg = ''master'' then [must ''start postgres'' (postgres_start_script version)]
       else if pc_master_host cfg = [] then [Refuse ''replica requires master_host'']
       else [must ''setup replica'' (postgres_replica_script version (pc_master_host cfg))]))"

section \<open>MySQL\<close>

record mysql_cluster =
  mc_role :: string
  mc_primary_host :: string
  mc_local_host :: string
  mc_node_index :: int
  mc_semi_sync :: bool
  mc_group_repl :: bool
  mc_group_seeds :: "string list"
  mc_group_name :: string
  mc_memory_mb :: int
  mc_my_options :: options
  mc_conf_override :: string

definition install_mysql :: "db_install \<Rightarrow> op list" where
  "install_mysql cfg =
     (case di_package cfg of
        None \<Rightarrow> [Refuse ''no package provided for mysql installation'']
      | Some p \<Rightarrow> [Rescue ''install mysql'' (install_package p) ''which mysqld''])"

definition mysql_local_host :: "mysql_cluster \<Rightarrow> string" where
  "mysql_local_host cfg = str_or (mc_local_host cfg) (mc_primary_host cfg)"

definition mysql_conf_body :: "'w host \<Rightarrow> mysql_cluster \<Rightarrow> string" where
  "mysql_conf_body h cfg =
     substitute_mysql
       (if mc_conf_override cfg = []
        then render_mysql_conf \<lparr>mo_version = ''8.0'', mo_role = mc_role cfg, mo_semi_sync = mc_semi_sync cfg,
               mo_group_repl = mc_group_repl cfg, mo_options = mc_my_options cfg,
               mo_memory = memory_budget h (mc_memory_mb cfg)\<rparr>
        else mc_conf_override cfg)
       (mc_node_index cfg) (mysql_local_host cfg)"

definition mysql_wait_script :: string where
  "mysql_wait_script = ''for i in $(seq 1 30); do mysqladmin ping -h 127.0.0.1 -u root --silent 2>/dev/null && exit 0; sleep 1; done; echo \"mysql not ready after 30s\" >&2; journalctl -u mysql --no-pager -n 20 >&2; exit 1''"

definition mysql_root_script :: string where
  "mysql_root_script = (''mysql -u root -e \"SET sql_log_bin=0; ALTER USER 'root'@'localhost' IDENTIFIED WITH mysql_native_password BY '' @
                     [CHR 0x27] @ [CHR 0x27] @
                     ''; CREATE USER IF NOT EXISTS 'root'@'%' IDENTIFIED WITH mysql_native_password BY '' @
                     [CHR 0x27] @ [CHR 0x27] @
                     ''; GRANT ALL PRIVILEGES ON *.* TO 'root'@'%' WITH GRANT OPTION; FLUSH PRIVILEGES; SET sql_log_bin=1;\"'')"

definition mysql_repl_user_script :: string where
  "mysql_repl_user_script = ''mysql -h 127.0.0.1 -u root -e \"SET sql_log_bin=0; CREATE USER IF NOT EXISTS 'repl'@'%' IDENTIFIED BY 'repl_password'; GRANT REPLICATION SLAVE, BACKUP_ADMIN, GROUP_REPLICATION_STREAM ON *.* TO 'repl'@'%'; FLUSH PRIVILEGES; SET sql_log_bin=1;\"''"

definition mysql_monitor_user_script :: string where
  "mysql_monitor_user_script = ''mysql -h 127.0.0.1 -u root -e \"SET sql_log_bin=0; CREATE USER IF NOT EXISTS 'monitor'@'%' IDENTIFIED BY 'monitor'; GRANT USAGE ON *.* TO 'monitor'@'%'; FLUSH PRIVILEGES; SET sql_log_bin=1;\"''"

definition mysql_group_script :: "mysql_cluster \<Rightarrow> string" where
  "mysql_group_script cfg = (''mysql -h 127.0.0.1 -u root -e \"'' @ nl @ [CHR 0x09] @ [CHR 0x09] @
                     [CHR 0x09] @ ''SET GLOBAL group_replication_group_name='' @
                     [CHR 0x27] @ mc_group_name cfg @ [CHR 0x27] @ '';'' @ nl @
                     [CHR 0x09] @ [CHR 0x09] @ [CHR 0x09] @
                     ''SET GLOBAL group_replication_local_address='' @ [CHR 0x27] @
                     mysql_local_host cfg @ '':33061';'' @ nl @ [CHR 0x09] @ [CHR 0x09] @
                     [CHR 0x09] @ ''SET GLOBAL group_replication_group_seeds='' @
                     [CHR 0x27] @ join '','' (mc_group_seeds cfg) @ [CHR 0x27] @ '';'' @
                     nl @ [CHR 0x09] @ [CHR 0x09] @ [CHR 0x09] @
                     ''SET GLOBAL group_replication_single_primary_mode=ON;'' @ nl @
                     [CHR 0x09] @ [CHR 0x09] @ [CHR 0x09] @
                     ''SET GLOBAL group_replication_start_on_boot=OFF;'' @ nl @
                     [CHR 0x09] @ [CHR 0x09] @ [CHR 0x09] @
                     ''CHANGE REPLICATION SOURCE TO SOURCE_USER='repl', SOURCE_PASSWORD='repl_password' FOR CHANNEL 'group_replication_recovery';'' @
                     nl @ [CHR 0x09] @ [CHR 0x09] @ ''\"'')"

definition mysql_group_bootstrap :: string where
  "mysql_group_bootstrap = ''mysql -h 127.0.0.1 -u root -e \"SET GLOBAL group_replication_bootstrap_group=ON; START GROUP_REPLICATION; SET GLOBAL group_replication_bootstrap_group=OFF;\"''"

definition mysql_group_wait :: "string \<Rightarrow> string" where
  "mysql_group_wait primary = (''for i in $(seq 1 30); do'' @ nl @ ''  mysql -h '' @ primary @
                     '' -u root -e \"SELECT 1\" 2>/dev/null && break'' @ nl @
                     ''  sleep 1'' @ nl @ ''done'')"

definition mysql_group_join :: string where
  "mysql_group_join = ''mysql -h 127.0.0.1 -u root -e \"START GROUP_REPLICATION;\" 2>&1 || { echo \"GR JOIN FAILED, MySQL error log:\" >&2; tail -30 /var/log/mysql/error.log >&2 2>/dev/null; journalctl -u mysql --no-pager -n 15 >&2 2>/dev/null; exit 1; }''"

definition mysql_wait_primary :: "string \<Rightarrow> string" where
  "mysql_wait_primary primary = (''for i in $(seq 1 10); do mysql -h '' @ primary @
                     '' -u repl -prepl_password -e \"SELECT 1\" 2>/dev/null && break; sleep 1; done'')"

definition mysql_replica_script :: "string \<Rightarrow> string" where
  "mysql_replica_script primary = (''mysql -h 127.0.0.1 -u root -e \"CHANGE REPLICATION SOURCE TO SOURCE_HOST='' @
                     [CHR 0x27] @ primary @ [CHR 0x27] @
                     '', SOURCE_USER='repl', SOURCE_PASSWORD='repl_password', SOURCE_AUTO_POSITION=1; START REPLICA;\"'')"

definition config_mysql :: "'w host \<Rightarrow> mysql_cluster \<Rightarrow> op list" where
  "config_mysql h cfg =
     [must ''write my.cnf'' (''mkdir -p /etc/mysql && '' @
        heredoc ''>'' ''/etc/mysql/my.cnf'' ''MYCNF'' (mysql_conf_body h cfg)),
      must ''restart mysql'' ''systemctl restart mysql'',
      must ''mysql readiness'' mysql_wait_script,
      must ''configure root access'' mysql_root_script] @
     (if mc_role cfg = ''primary''
      then [must ''create replication user'' mysql_repl_user_script,
            must ''create monitor user'' mysql_monitor_user_script] else []) @
     (if mc_group_repl cfg then
        [must ''configure group replication'' (mysql_group_script cfg)] @
        (if mc_role cfg = ''primary'' then [must ''bootstrap group replication'' mysql_group_bootstrap]
         else [must ''wait for GR primary'' (mysql_group_wait (mc_primary_host cfg)),
               must ''join group replication'' mysql_group_join])
      else if mc_role cfg = ''replica'' \<and> mc_primary_host cfg \<noteq> [] then
        [must ''wait for mysql primary'' (mysql_wait_primary (mc_primary_host cfg)),
         must ''setup mysql replica'' (mysql_replica_script (mc_primary_host cfg))]
      else [])"

section \<open>Picodata\<close>

record picodata_cluster =
  pi_instance_id :: int
  pi_peers :: "string list"
  pi_advertise_host :: string
  pi_replication :: int
  pi_shards :: int
  pi_memory_mb :: int
  pi_pico_options :: options
  pi_conf_override :: string

definition install_picodata :: "db_install \<Rightarrow> op list" where
  "install_picodata cfg =
     (case di_package cfg of
        None \<Rightarrow> [Refuse ''no package provided for picodata installation'']
      | Some p \<Rightarrow> [Wrap ''install picodata'' (install_package p)])"

definition picodata_hostname :: "'w host \<Rightarrow> picodata_cluster \<Rightarrow> string" where
  "picodata_hostname h cfg = str_or (str_or (pi_advertise_host cfg) (h_getenv h ''HOSTNAME'')) (h_hostname h)"

definition picodata_body :: "'w host \<Rightarrow> picodata_cluster \<Rightarrow> string" where
  "picodata_body h cfg =
     substitute_picodata
       (if pi_conf_override cfg = []
        then render_picodata_conf \<lparr>pc_replication = pi_replication cfg, pc_options = pi_pico_options cfg,
               pc_memory = memory_budget h (pi_memory_mb cfg)\<rparr>
        else pi_conf_override cfg)
       (picodata_hostname h cfg)"

definition memtx_bytes_from_default :: "string \<Rightarrow> int" where
  "memtx_bytes_from_default s =
     (case sscanf_d (trim_suffix s ''MB'') of
        Some mb \<Rightarrow> if mb > 0 then int64 (mb * 1024 * 1024) else 2 * 1024 * 1024 * 1024
      | None \<Rightarrow> 2 * 1024 * 1024 * 1024)"

definition picodata_memtx :: "'w host \<Rightarrow> picodata_cluster \<Rightarrow> int" where
  "picodata_memtx h cfg = memtx_bytes_from_default (at_key (overlay (pi_pico_options cfg)
     (resolve_memory_percents (picodata_defaults ''25.3'') (memory_budget h (pi_memory_mb cfg)))) ''memtx_memory'')"

definition picodata_start_script :: "int \<Rightarrow> string \<Rightarrow> int \<Rightarrow> string" where
  "picodata_start_script memtx peer instance_id = (''systemd-run --unit=picodata '' @ [CHR 0x5C] @
                     nl @
                     ''  --setenv=PICODATA_ADMIN_PASSWORD=T0psecret '' @
                     [CHR 0x5C] @ nl @
                     ''  --setenv=PICODATA_MEMTX_MEMORY='' @
                     itoa memtx @ '' '' @ [CHR 0x5C] @ nl @
                     ''  picodata run --config /etc/picodata/picodata.yaml --peer '' @
                     peer @ '' --instance-name instance-'' @
                     itoa instance_id @
                     '' --instance-dir /var/lib/picodata'')"

definition picodata_wait_script :: string where
  "picodata_wait_script = ''for i in $(seq 1 10); do curl -sf http://localhost:8081/api/v1/health/ready 2>/dev/null && exit 0; sleep 1; done; echo \"picodata not ready after 10s:\" >&2; cat /var/lib/picodata/picodata.log >&2; exit 1''"

text \<open>\<open>None\<close> is the panic of \<open>cfg.Peers[0]\<close>.\<close>

definition config_picodata :: "'w host \<Rightarrow> picodata_cluster \<Rightarrow> op list option" where
  "config_picodata h cfg =
     (case pi_peers cfg of
        [] \<Rightarrow> None
      | p # _ \<Rightarrow>
          (let peer = (if str_contains p '':'' then p else p @ '':3301'') in Some
           [must ''write picodata config'' (''mkdir -p /etc/picodata && '' @
              heredoc ''>'' ''/etc/picodata/picodata.yaml'' ''PICOCONF'' (picodata_body h cfg)),
            Try ''mkdir -p /var/lib/picodata'',
            Try ''systemctl stop picodata 2>/dev/null; systemctl reset-failed picodata 2>/dev/null'',
            must ''start picodata'' (picodata_start_script (picodata_memtx h cfg) peer (pi_instance_id cfg)),
            must ''picodata readiness'' picodata_wait_script]))"

section \<open>YDB\<close>

record ydb_static =
  ys_hosts :: "string list"
  ys_instance_id :: int
  ys_advertise_host :: string
  ys_disk_path :: string
  ys_block_device :: string
  ys_disk_gb :: int
  ys_memory_mb :: int
  ys_cpus :: int
  ys_fault_tolerance :: string
  ys_options :: options
  ys_conf_override :: string

record ydb_init_config =
  yi_endpoint :: string
  yi_database_path :: string
  yi_config_path :: string

record ydb_dynamic =
  yd_endpoints :: "string list"
  yd_advertise_host :: string
  yd_database_path :: string
  yd_memory_mb :: int
  yd_cpus :: int
  yd_fault_tolerance :: string
  yd_storage_hosts :: "string list"
  yd_block_device :: string
  yd_options :: options
  yd_conf_override :: string

definition ydb_version_map :: "(string \<times> string) list" where
  "ydb_version_map = [(''25.2'', ''25.2.1.24''), (''25.1'', ''25.1.4.7''), (''24.4'', ''24.4.4.12''),
     (''24.3'', ''24.3.15.5''), (''24.2'', ''24.2.7''), (''24.1'', ''24.1.18'')]"

definition resolve_ydb_version :: "string \<Rightarrow> string" where
  "resolve_ydb_version v =
     (if v = [] then ''25.2.1.24''
      else case map_of ydb_version_map v of Some full \<Rightarrow> full | None \<Rightarrow> v)"

definition ydb_download_url :: "string \<Rightarrow> string" where
  "ydb_download_url v = (''https://binaries.ydb.tech/release/'' @ v @ ''/ydbd-'' @ v @
                     ''-linux-amd64.tar.gz'')"

definition install_ydb :: "string \<Rightarrow> op list" where
  "install_ydb version =
     (let v = resolve_ydb_version version; url = ydb_download_url v in
      [Look ''/opt/ydb/bin/ydbd'' [Emit ''ydbd already installed, skipping download'']
        [Emit ((''downloading ydbd '' @ v @ '' from '' @ url @ ''...'')),
         must ''download ydbd'' ((''mkdir -p /opt/ydb && curl -fSL '' @ url @
                     '' | tar -xz --strip-component=1 -C /opt/ydb'')),
         Try ''groupadd -f ydb && (id -u ydb &>/dev/null || useradd ydb -g ydb)'',
         Try ''mkdir -p /opt/ydb/cfg /ydb_data && chown -R ydb:ydb /ydb_data'']])"

definition ydb_static_body :: "'w host \<Rightarrow> ydb_static \<Rightarrow> string" where
  "ydb_static_body h cfg =
     substitute_ydb_hosts
       (if ys_conf_override cfg = []
        then render_ydb_storage_conf \<lparr>yo_host_count = int (length (ys_hosts cfg)),
               yo_disk_path = str_or (ys_disk_path cfg) ''/ydb_data'',
               yo_block_device = ys_block_device cfg, yo_cpus = ys_cpus cfg,
               yo_memory = memory_budget h (ys_memory_mb cfg), yo_fault_tolerance = ys_fault_tolerance cfg\<rparr>
        else ys_conf_override cfg)
       (ys_hosts cfg)"

definition ydb_pdisk_gb :: "int \<Rightarrow> int" where
  "ydb_pdisk_gb disk =
     (let gb = int64 ((if disk \<le> 0 then 80 else disk) - 2) in if gb < 10 then 10 else gb)"

definition ydb_storage_start :: string where
  "ydb_storage_start = ''systemd-run --unit=ydbd-storage --uid=ydb --gid=ydb --setenv=LD_LIBRARY_PATH=/opt/ydb/lib /opt/ydb/bin/ydbd server --yaml-config /opt/ydb/cfg/config.yaml --grpc-port 2136 --ic-port 19001 --mon-port 8765 --node static''"

definition ydb_wait_port :: string where
  "ydb_wait_port = ''for i in $(seq 1 60); do (echo > /dev/tcp/localhost/2136) 2>/dev/null && exit 0; sleep 1; done; exit 1''"

definition config_ydb :: "'w host \<Rightarrow> ydb_static \<Rightarrow> op list" where
  "config_ydb h cfg =
     (let dir = str_or (ys_disk_path cfg) ''/ydb_data'';
          target = str_or (ys_block_device cfg) ((dir @ ''/pdisk.data''));
          adv = ys_advertise_host cfg in
      [must ''write ydb config'' (''mkdir -p /opt/ydb/cfg && '' @
         heredoc ''>'' ''/opt/ydb/cfg/config.yaml'' ''YDBCONF'' (ydb_static_body h cfg))] @
      (if ys_block_device cfg = [] then
         [Try ((''mkdir -p '' @ dir @ '' && chown -R ydb:ydb '' @ dir)),
          Try ((''test -f '' @ dir @ ''/pdisk.data || truncate -s '' @
                itoa (ydb_pdisk_gb (ys_disk_gb cfg)) @ ''G '' @ dir @ ''/pdisk.data'')),
          Try ((''chown ydb:ydb '' @ dir @ ''/pdisk.data''))] else []) @
      [Emit ''preparing YDB disk...'',
       must ''obliterate disk'' ((''LD_LIBRARY_PATH=/opt/ydb/lib /opt/ydb/bin/ydbd admin bs disk obliterate '' @
                     target))] @
      (if adv = [] then [] else
         [Try ((''hostnamectl set-hostname '' @ adv @ '' 2>/dev/null || hostname '' @ adv))]) @
      [Try ''systemctl stop ydbd-storage 2>/dev/null; systemctl reset-failed ydbd-storage 2>/dev/null'',
       Emit ''starting YDB static (storage) node...'',
       must ''start ydbd-storage'' ydb_storage_start,
       Run_else ''ydbd-storage did not start'' ydb_wait_port
         [Try ''journalctl -u ydbd-storage --no-pager -n 50 2>/dev/null || true''],
       Emit ''YDB static node started''])"

definition init_ydb :: "ydb_init_config \<Rightarrow> op list" where
  "init_ydb cfg =
     (let endpoint = str_or (yi_endpoint cfg) ''grpc://localhost:2136'';
          conf = str_or (yi_config_path cfg) ''/opt/ydb/cfg/config.yaml'';
          db = str_or (yi_database_path cfg) ''/Root/testdb'' in
      [Emit ''initializing YDB blobstorage...'',
       must ''blobstorage init'' ((''for i in $(seq 1 30); do LD_LIBRARY_PATH=/opt/ydb/lib /opt/ydb/bin/ydbd -s '' @
                     endpoint @ '' admin blobstorage config init --yaml-file '' @
                     conf @ '' 2>&1 && exit 0; sleep 2; done; exit 1'')),
       Emit ((''creating YDB database '' @ db @ ''...'')),
       must ''create database'' ((''for i in $(seq 1 15); do LD_LIBRARY_PATH=/opt/ydb/lib /opt/ydb/bin/ydbd -s '' @
                     endpoint @ '' admin database '' @ db @
                     '' create ssd:1 2>&1 && exit 0; sleep 2; done; exit 1'')),
       Emit ''YDB cluster initialized''])"

definition ydb_dynamic_body :: "'w host \<Rightarrow> ydb_dynamic \<Rightarrow> string" where
  "ydb_dynamic_body h cfg =
     substitute_ydb_hosts
       (if yd_conf_override cfg = []
        then render_ydb_database_conf \<lparr>yo_host_count = int (length (yd_storage_hosts cfg)),
               yo_disk_path = ''/ydb_data'', yo_block_device = yd_block_device cfg, yo_cpus = yd_cpus cfg,
               yo_memory = memory_budget h (yd_memory_mb cfg), yo_fault_tolerance = yd_fault_tolerance cfg\<rparr>
        else yd_conf_override cfg)
       (yd_storage_hosts cfg)"

definition ydb_broker_flags :: "string list \<Rightarrow> string" where
  "ydb_broker_flags eps = concat (map (\<lambda>ep. ('' --node-broker grpc://'' @ ep @ '':2136'')) eps)"

definition start_ydb_db :: "'w host \<Rightarrow> ydb_dynamic \<Rightarrow> op list" where
  "start_ydb_db h cfg =
     (let db = str_or (yd_database_path cfg) ''/Root/testdb'' in
      [must ''write ydb database config'' (''mkdir -p /opt/ydb/cfg && '' @
         heredoc ''>'' ''/opt/ydb/cfg/database.yaml'' ''YDBDBCONF'' (ydb_dynamic_body h cfg)),
       Try ''systemctl stop ydbd-database 2>/dev/null; systemctl reset-failed ydbd-database 2>/dev/null'',
       Emit ''starting YDB dynamic (database) node...'',
       must ''start ydbd-database'' ((''systemd-run --unit=ydbd-database --uid=ydb --gid=ydb --setenv=LD_LIBRARY_PATH=/opt/ydb/lib /opt/ydb/bin/ydbd server --yaml-config /opt/ydb/cfg/database.yaml --grpc-port 2136 --ic-port 19002 --mon-port 8766 --tenant '' @
                     db @ ydb_broker_flags (yd_endpoints cfg))),
       must ''ydbd-database did not start'' ydb_wait_port,
       Emit ''YDB database node started''])"

end
