(* ===== verification/AgentTools.thy ===== *)
theory AgentTools
  imports AgentHost Settings
begin

text \<open>
  The agent's handlers (\<open>agent/executor.go\<close>) for what surrounds the database: monitoring, the load
  generator, etcd, Patroni, PgBouncer, HAProxy and ProxySQL, with their payloads (\<open>setup_*.go\<close>).
\<close>

section \<open>Monitoring\<close>

record monitor_setup =
  mn_metrics_endpoint :: string
  mn_logs_endpoint :: string
  mn_scrape_targets :: "string list"
  mn_run_id :: string
  mn_database_kind :: string
  mn_bearer_token :: string

definition on_database_machine :: "'w host \<Rightarrow> bool" where
  "on_database_machine h = str_contains (h_getenv h ''STROPPY_MACHINE_ID'') ''-database-''"

text \<open>Download a release, unpack it, copy its binary, clean up.\<close>

definition exporter_script :: "string \<Rightarrow> string \<Rightarrow> string \<Rightarrow> string" where
  "exporter_script repo name ver = (''curl -fsSL \"https://github.com/'' @ repo @ ''/'' @ name @
                     ''/releases/download/v'' @ ver @ ''/'' @ name @ ''-'' @ ver @
                     ''.linux-amd64.tar.gz\" -o /tmp/'' @ name @
                     ''.tar.gz && tar xzf /tmp/'' @ name @
                     ''.tar.gz -C /tmp && cp /tmp/'' @ name @ ''-'' @ ver @
                     ''.linux-amd64/'' @ name @ '' /usr/local/bin/'' @ name @
                     '' && chmod +x /usr/local/bin/'' @ name @
                     '' && rm -rf /tmp/'' @ name @ ''*'')"

definition vmagent_script :: "string \<Rightarrow> string" where
  "vmagent_script ver = (''curl -fsSL \"https://github.com/VictoriaMetrics/VictoriaMetrics/releases/download/v'' @
                     ver @ ''/vmutils-linux-amd64-v'' @ ver @
                     ''.tar.gz\" -o /tmp/vmutils.tar.gz && tar xzf /tmp/vmutils.tar.gz -C /tmp && cp /tmp/vmagent-prod /usr/local/bin/vmagent && chmod +x /usr/local/bin/vmagent && rm -rf /tmp/vmutils* /tmp/vmagent* /tmp/vmalert* /tmp/vmauth* /tmp/vmbackup* /tmp/vmrestore*'')"

definition install_monitor :: "'w host \<Rightarrow> string \<Rightarrow> op list" where
  "install_monitor h kind =
     [Unless ''which node_exporter'' [must ''install node_exporter''
        (exporter_script ''prometheus'' ''node_exporter'' (mst_node_exporter default_monitoring))]] @
     (if on_database_machine h \<and> kind = ''mysql'' then
        [Unless ''which mysqld_exporter'' [must ''install mysqld_exporter''
           (exporter_script ''prometheus'' ''mysqld_exporter'' ''0.19.0'')]] else []) @
     (if on_database_machine h \<and> kind = ''postgres'' then
        [must ''install postgres_exporter'' (exporter_script ''prometheus-community'' ''postgres_exporter''
           (mst_postgres_exporter default_monitoring))] else []) @
     [Unless ''which vmagent'' [must ''install vmagent''
        (vmagent_script (str_or (mst_vmagent default_monitoring) ''1.139.0''))]]"

definition scrape_job :: "string \<Rightarrow> string \<Rightarrow> string" where
  "scrape_job name port = (''  - job_name: '' @ name @ nl @ ''    static_configs:'' @ nl @
                     ''      - targets: ['localhost:'' @ port @ [CHR 0x27] @ '']'' @ nl)"

text \<open>The four groups of YDB's counters, with the path that the name selects.\<close>

definition ydb_groups :: "(string \<times> string) list" where
  "ydb_groups = [(''ydb_grpc_static'', ''8765''), (''ydb_grpc_dynamic'', ''8766''),
     (''ydb_tablets_static'', ''8765''), (''ydb_kqp_dynamic'', ''8766'')]"

definition ydb_metrics_path :: "string \<Rightarrow> string" where
  "ydb_metrics_path name =
     (if str_contains name ''tablets'' then ''/counters/counters=tablets/prometheus''
      else if str_contains name ''kqp'' then ''/counters/counters=kqp/prometheus''
      else ''/counters/counters=grpc/prometheus'')"

definition ydb_scrape_job :: "string \<times> string \<Rightarrow> string" where
  "ydb_scrape_job g = (''  - job_name: '' @ fst g @ nl @ ''    metrics_path: '' @
                     ydb_metrics_path (fst g) @ nl @ ''    static_configs:'' @ nl @
                     ''    - targets: ['localhost:'' @ snd g @ [CHR 0x27] @ '']'' @ nl)"

definition database_scrape_jobs :: "string \<Rightarrow> string" where
  "database_scrape_jobs kind =
     (if kind = ''postgres'' then scrape_job ''postgres'' ''9187''
      else if kind = ''mysql'' then scrape_job ''mysql'' ''9104''
      else if kind = ''picodata'' then scrape_job ''picodata'' ''8081'' @ (''    metrics_path: /metrics'' @
                     nl)
      else if kind = ''ydb'' then concat (map ydb_scrape_job ydb_groups)
      else [])"

definition scrape_config :: "'w host \<Rightarrow> monitor_setup \<Rightarrow> string" where
  "scrape_config h cfg =
     (''# Generated by stroppy-agent'' @ nl @ ''global:'' @ nl @ ''  scrape_interval: 5s'' @ nl @
      ''  external_labels:'' @ nl @ ''    stroppy_machine_id: '' @ [CHR 0x27] @
      h_getenv h ''STROPPY_MACHINE_ID'' @ [CHR 0x27] @ nl) @
     (if mn_run_id cfg = [] then [] else (''    stroppy_run_id: '' @ [CHR 0x27] @ mn_run_id cfg @
                     [CHR 0x27] @ nl)) @
     (nl @ ''scrape_configs:'' @ nl) @ scrape_job ''node'' ''9100'' @
     (if on_database_machine h then database_scrape_jobs (mn_database_kind cfg) else [])"

definition vmagent_args :: "monitor_setup \<Rightarrow> string list" where
  "vmagent_args cfg =
     [''-promscrape.config=/etc/vmagent/scrape.yml'', ''-remoteWrite.url='' @ mn_metrics_endpoint cfg,
      ''-remoteWrite.tmpDataPath=/var/lib/vmagent''] @
     (if mn_bearer_token cfg = [] then [] else [''-remoteWrite.bearerToken='' @ mn_bearer_token cfg])"

definition mysql_exporter_user :: string where
  "mysql_exporter_user = ''mysql -h 127.0.0.1 -u root -e \"SET sql_log_bin=0; CREATE USER IF NOT EXISTS 'exporter'@'localhost' IDENTIFIED BY 'exporter' WITH MAX_USER_CONNECTIONS 3; GRANT PROCESS, REPLICATION CLIENT, SELECT ON *.* TO 'exporter'@'localhost'; FLUSH PRIVILEGES; SET sql_log_bin=1;\" 2>/dev/null''"

definition config_monitor :: "'w host \<Rightarrow> monitor_setup \<Rightarrow> op list" where
  "config_monitor h cfg =
     [Wrap ''start node_exporter'' [Start ''node_exporter'' ''/usr/local/bin/node_exporter'' []]] @
     (if on_database_machine h \<and> mn_database_kind cfg = ''postgres'' then
        [Setenv ''DATA_SOURCE_NAME'' ''postgresql://postgres@localhost:5432/postgres?sslmode=disable'',
         Warn_start ''postgres_exporter'' ''/usr/local/bin/postgres_exporter'' []] else []) @
     (if on_database_machine h \<and> mn_database_kind cfg = ''mysql'' then
        [Try mysql_exporter_user, Setenv ''MYSQLD_EXPORTER_PASSWORD'' ''exporter'',
         Warn_start ''mysqld_exporter'' ''/usr/local/bin/mysqld_exporter''
           [''--mysqld.address=localhost:3306'', ''--mysqld.username=exporter'']] else []) @
     [must ''write vmagent scrape config'' (''mkdir -p /etc/vmagent && '' @
        heredoc ''>'' ''/etc/vmagent/scrape.yml'' ''PROMCFG'' (scrape_config h cfg)),
      Try ''mkdir -p /var/lib/vmagent'',
      Wrap ''start vmagent'' [Start ''vmagent'' ''/usr/local/bin/vmagent'' (vmagent_args cfg)]]"

section \<open>The load generator\<close>

definition stroppy_nightly_script :: "string \<Rightarrow> string" where
  "stroppy_nightly_script sha = (''curl -fsSL \"https://github.com/stroppy-io/stroppy/releases/download/nightly-'' @
                     sha @
                     ''/stroppy\" -o /usr/local/bin/stroppy && chmod +x /usr/local/bin/stroppy'')"

definition stroppy_release_script :: "string \<Rightarrow> string" where
  "stroppy_release_script ver = (''curl -fsSL \"https://github.com/stroppy-io/stroppy/releases/download/v'' @
                     ver @
                     ''/stroppy_linux_amd64.tar.gz\" -o /tmp/stroppy.tar.gz && tar xzf /tmp/stroppy.tar.gz -C /tmp && cp /tmp/stroppy /usr/local/bin/stroppy && chmod +x /usr/local/bin/stroppy && rm -rf /tmp/stroppy*'')"

definition install_stroppy :: "string \<Rightarrow> op list" where
  "install_stroppy requested =
     (let version = str_or requested (so_version default_stroppy_settings) in
      if has_prefix version ''commit:'' then
        (let short = take 7 (drop (length ''commit:'') version) in
         [must ((''install stroppy commit '' @ short)) (stroppy_nightly_script short)])
      else [Unless ''which stroppy'' [must ''install stroppy'' (stroppy_release_script version)]])"

definition run_stroppy :: "string \<Rightarrow> op list" where
  "run_stroppy config_json =
     [Wrap ''write stroppy config'' [Write ''/tmp/stroppy-config.json'' config_json],
      must ''run stroppy'' ''stroppy run -f /tmp/stroppy-config.json'']"

section \<open>etcd\<close>

record etcd_cluster =
  et_name :: string
  et_initial_cluster :: string
  et_client_url :: string
  et_peer_url :: string
  et_advertise_client :: string
  et_advertise_peer :: string
  et_state :: string

definition install_etcd :: "string \<Rightarrow> op list" where
  "install_etcd requested =
     (let v = str_or requested (mst_etcd default_monitoring) in
      [must ''install etcd'' ((''curl -fsSL \"https://github.com/etcd-io/etcd/releases/download/v'' @
                     v @ ''/etcd-v'' @ v @
                     ''-linux-amd64.tar.gz\" -o /tmp/etcd.tar.gz && tar xzf /tmp/etcd.tar.gz -C /tmp && cp /tmp/etcd-v'' @
                     v @ ''-linux-amd64/etcd /usr/local/bin/etcd && cp /tmp/etcd-v'' @
                     v @
                     ''-linux-amd64/etcdctl /usr/local/bin/etcdctl && chmod +x /usr/local/bin/etcd /usr/local/bin/etcdctl && rm -rf /tmp/etcd*''))])"

definition etcd_defaults :: "etcd_cluster \<Rightarrow> etcd_cluster" where
  "etcd_defaults c = c\<lparr>et_state := str_or (et_state c) ''new'',
     et_client_url := str_or (et_client_url c) ''http://0.0.0.0:2379'',
     et_peer_url := str_or (et_peer_url c) ''http://0.0.0.0:2380''\<rparr>"

definition etcd_env :: "etcd_cluster \<Rightarrow> string" where
  "etcd_env c = (''ETCD_NAME='' @ et_name c @ nl @ ''ETCD_INITIAL_CLUSTER='' @
                 et_initial_cluster c @ nl @ ''ETCD_INITIAL_CLUSTER_STATE='' @ et_state c @ nl @
                 ''ETCD_LISTEN_CLIENT_URLS='' @ et_client_url c @ nl @ ''ETCD_LISTEN_PEER_URLS='' @
                 et_peer_url c @ nl @ ''ETCD_ADVERTISE_CLIENT_URLS='' @ et_advertise_client c @
                 nl @ ''ETCD_INITIAL_ADVERTISE_PEER_URLS='' @ et_advertise_peer c @ nl)"

definition etcd_command :: "etcd_cluster \<Rightarrow> string" where
  "etcd_command c = (''systemd-run --unit=etcd --remain-after-exit -- /usr/local/bin/etcd --name='' @
                     et_name c @ '' --initial-cluster='' @ [CHR 0x27] @ et_initial_cluster c @
                     [CHR 0x27] @ '' --initial-cluster-state='' @ et_state c @
                     '' --listen-client-urls='' @ et_client_url c @ '' --listen-peer-urls='' @
                     et_peer_url c @ '' --advertise-client-urls='' @ et_advertise_client c @
                     '' --initial-advertise-peer-urls='' @ et_advertise_peer c @
                     '' --data-dir=/var/lib/etcd'')"

definition etcd_wait_script :: string where
  "etcd_wait_script = ''for i in $(seq 1 10); do etcdctl endpoint health --endpoints=http://localhost:2379 2>/dev/null && exit 0; sleep 1; done; echo \"etcd not ready\" >&2; exit 1''"

definition config_etcd :: "etcd_cluster \<Rightarrow> op list" where
  "config_etcd c =
     (let cfg = etcd_defaults c in
      [must ''write etcd env'' (heredoc ''>'' ''/etc/default/etcd'' ''ETCDENV'' (etcd_env cfg)),
       Try ''mkdir -p /var/lib/etcd'',
       Try ''systemctl stop etcd 2>/dev/null; systemctl reset-failed etcd 2>/dev/null'',
       must ''start etcd'' (etcd_command cfg),
       must ''etcd health check'' etcd_wait_script])"

section \<open>Patroni\<close>

record patroni_cluster =
  pt_name :: string
  pt_node_name :: string
  pt_version :: string
  pt_connect_addr :: string
  pt_etcd_hosts :: string
  pt_sync_mode :: bool
  pt_sync_count :: int
  pt_options :: options
  pt_conf_override :: string

definition install_patroni :: "op list" where
  "install_patroni =
     [must ''install patroni deps'' (apt_install ''python3-pip python3-dev libpq-dev''),
      must ''install patroni'' ''pip3 install patroni[etcd3] psycopg2-binary'']"

definition patroni_body :: "patroni_cluster \<Rightarrow> string" where
  "patroni_body cfg =
     substitute_patroni
       (if pt_conf_override cfg = []
        then render_patroni_conf \<lparr>pa_version = str_or (pt_version cfg) ''16'', pa_sync_mode = pt_sync_mode cfg,
               pa_sync_count = pt_sync_count cfg, pa_options = pt_options cfg\<rparr>
        else pt_conf_override cfg)
       (pt_name cfg) (pt_node_name cfg) (pt_connect_addr cfg) (pt_etcd_hosts cfg)"

definition patroni_wait_script :: string where
  "patroni_wait_script = ''for i in $(seq 1 30); do curl -sf http://localhost:8008/health 2>/dev/null && exit 0; sleep 2; done; echo \"patroni not ready after 60s\" >&2; journalctl -u patroni --no-pager -n 50 >&2; exit 1''"

definition config_patroni :: "patroni_cluster \<Rightarrow> op list" where
  "config_patroni cfg =
     (let v = str_or (pt_version cfg) ''16''; dir = (''/var/lib/postgresql/'' @ v @ ''/main'') in
      [must ''write patroni config'' (''mkdir -p /etc/patroni && '' @
         heredoc ''>'' ''/etc/patroni/patroni.yml'' ''PATRONICFG'' (patroni_body cfg)),
       Try ((''systemctl stop postgresql 2>/dev/null; pg_ctlcluster '' @ v @
             '' main stop 2>/dev/null || true'')),
       Try ((''rm -rf '' @ dir @ ''/*'')),
       Try ((''mkdir -p '' @ dir @ '' && chown postgres:postgres '' @ dir)),
       Try ''systemctl stop patroni 2>/dev/null; systemctl reset-failed patroni 2>/dev/null'',
       must ''start patroni'' ''systemd-run --unit=patroni --uid=postgres --gid=postgres -- patroni /etc/patroni/patroni.yml'',
       must ''patroni health check'' patroni_wait_script])"

section \<open>PgBouncer\<close>

record pgbouncer_setup =
  pb_listen_port :: int
  pb_pool_mode :: string
  pb_max_client_conn :: int
  pb_default_pool_size :: int
  pb_pg_host :: string
  pb_pg_port :: int
  pb_auth_type :: string
  pb_conf_override :: string

definition install_pgbouncer :: "op list" where
  "install_pgbouncer = [must ''install pgbouncer'' (apt_install ''pgbouncer'')]"

definition pgbouncer_body :: "pgbouncer_setup \<Rightarrow> string" where
  "pgbouncer_body cfg =
     substitute_pgbouncer
       (if pb_conf_override cfg = []
        then render_pgbouncer_conf \<lparr>bo_listen_port = pb_listen_port cfg, bo_pool_mode = pb_pool_mode cfg,
               bo_max_client_conn = pb_max_client_conn cfg, bo_default_pool_size = pb_default_pool_size cfg,
               bo_pg_port = pb_pg_port cfg, bo_auth_type = pb_auth_type cfg\<rparr>
        else pb_conf_override cfg)
       (pb_pg_host cfg)"

definition pgbouncer_start_script :: string where
  "pgbouncer_start_script = ''id -u pgbouncer >/dev/null 2>&1 || useradd -r -m -s /bin/false pgbouncer && mkdir -p /var/run/pgbouncer /var/log/pgbouncer && chown -R pgbouncer:pgbouncer /etc/pgbouncer /var/run/pgbouncer /var/log/pgbouncer 2>/dev/null; su -s /bin/bash pgbouncer -c \"pgbouncer -d /etc/pgbouncer/pgbouncer.ini\"''"

definition config_pgbouncer :: "pgbouncer_setup \<Rightarrow> op list" where
  "config_pgbouncer cfg =
     [must ''write pgbouncer.ini'' (''mkdir -p /etc/pgbouncer && '' @
        heredoc ''>'' ''/etc/pgbouncer/pgbouncer.ini'' ''PGBCFG'' (pgbouncer_body cfg)),
      must ''write pgbouncer userlist'' (heredoc ''>'' ''/etc/pgbouncer/userlist.txt'' ''PGBUSR''
        ((''\"postgres\" \"\"'' @ nl))),
      must ''start pgbouncer'' pgbouncer_start_script]"

section \<open>HAProxy\<close>

record haproxy_setup =
  hp_db_kind :: string
  hp_write_port :: int
  hp_read_port :: int
  hp_backends :: "string list"
  hp_health_check :: string
  hp_patroni_port :: int
  hp_conf_override :: string

definition install_haproxy :: "op list" where
  "install_haproxy = [must ''install haproxy'' (apt_install ''haproxy'')]"

definition haproxy_body :: "haproxy_setup \<Rightarrow> string" where
  "haproxy_body cfg =
     (if hp_conf_override cfg = []
      then render_haproxy_conf \<lparr>ho_write_port = hp_write_port cfg, ho_read_port = hp_read_port cfg,
             ho_backends = hp_backends cfg, ho_health_check = hp_health_check cfg,
             ho_patroni_port = hp_patroni_port cfg\<rparr>
      else hp_conf_override cfg)"

definition config_haproxy :: "haproxy_setup \<Rightarrow> op list" where
  "config_haproxy cfg =
     [must ''write haproxy config'' (''mkdir -p /etc/haproxy && '' @
        heredoc ''>'' ''/etc/haproxy/haproxy.cfg'' ''HAPCFG'' (haproxy_body cfg)),
      must ''start haproxy'' ''haproxy -f /etc/haproxy/haproxy.cfg -D'']"

section \<open>ProxySQL\<close>

record proxysql_setup =
  px_listen_port :: int
  px_admin_port :: int
  px_backends :: "string list"
  px_group_replication :: bool
  px_writer_hostgroup :: int
  px_reader_hostgroup :: int

definition proxysql_github_script :: string where
  "proxysql_github_script = ''curl -fsSL \"https://github.com/sysown/proxysql/releases/download/v2.7.3/proxysql_2.7.3-ubuntu22_amd64.deb\" -o /tmp/proxysql.deb && dpkg -i /tmp/proxysql.deb && rm -f /tmp/proxysql.deb''"

definition proxysql_repo_scripts :: "string list" where
  "proxysql_repo_scripts =
     [''wget -qO - https://repo.proxysql.com/ProxySQL/repo_pub_key | apt-key add -'',
      ''echo \"deb https://repo.proxysql.com/ProxySQL/proxysql-2.7.x/$(lsb_release -sc)/ ./\" > /etc/apt/sources.list.d/proxysql.list'',
      ''apt-get update'']"

definition install_proxysql :: "op list" where
  "install_proxysql =
     [Unless proxysql_github_script
        [Wrap ''proxysql repo setup (fallback)'' (map Run proxysql_repo_scripts),
         must ''install proxysql (fallback)'' (apt_install ''proxysql'')]]"

definition proxysql_defaults :: "proxysql_setup \<Rightarrow> proxysql_setup" where
  "proxysql_defaults c = c\<lparr>px_listen_port := int_or (px_listen_port c) 6033,
     px_admin_port := int_or (px_admin_port c) 6032,
     px_writer_hostgroup := int_or (px_writer_hostgroup c) 10,
     px_reader_hostgroup := int_or (px_reader_hostgroup c) 20\<rparr>"

text \<open>Splitting at the last colon, unless it comes first; the default port is MySQL's.\<close>

definition host_port :: "string \<Rightarrow> string \<times> string" where
  "host_port b =
     (let port = rev (takeWhile (\<lambda>c. c \<noteq> CHR '':'') (rev b)); host = take (length b - length port - 1) b
      in if CHR '':'' \<in> set b \<and> host \<noteq> [] then (host, port) else (b, ''3306''))"

definition proxysql_server :: "int \<Rightarrow> string \<Rightarrow> string" where
  "proxysql_server hostgroup b =
     ((''    { address=\"'' @ fst (host_port b) @ ''\", port='' @ snd (host_port b) @
       '', hostgroup='' @ itoa hostgroup @ '', max_connections=100 },'' @ nl))"

fun proxysql_servers :: "proxysql_setup \<Rightarrow> string list \<Rightarrow> string" where
  "proxysql_servers c [] = []"
| "proxysql_servers c (b # bs) =
     proxysql_server (px_writer_hostgroup c) b @
     concat (map (proxysql_server (px_reader_hostgroup c)) bs)"

definition proxysql_conf :: "proxysql_setup \<Rightarrow> string" where
  "proxysql_conf c =
     (''# Generated by stroppy-agent'' @ nl @ ''datadir=\"/var/lib/proxysql\"'' @ nl @ nl @
      ''admin_variables='' @ nl @ ''{'' @ nl @
      ''    admin_credentials=\"admin:admin;radmin:radmin\"'' @ nl @
      ''    mysql_ifaces=\"0.0.0.0:'' @ itoa (px_admin_port c) @ ''\"'' @ nl @ ''}'' @ nl @ nl) @
     (''mysql_variables='' @ nl @ ''{'' @ nl @ ''    threads=4'' @ nl @
      ''    max_connections=2048'' @ nl @ ''    default_query_delay=0'' @ nl @
      ''    default_query_timeout=36000000'' @ nl @ ''    interfaces=\"0.0.0.0:'' @
      itoa (px_listen_port c) @ ''\"'' @ nl @ ''    monitor_username=\"monitor\"'' @ nl @
      ''    monitor_password=\"monitor\"'' @ nl @ ''}'' @ nl @ nl) @
     (''mysql_servers='' @ nl @ ''('' @ nl) @ proxysql_servers c (px_backends c) @ ('')'' @ nl @ nl) @
     (''mysql_users='' @ nl @ ''('' @ nl @
      ''    { username=\"root\", password=\"\", default_hostgroup='' @
      itoa (px_writer_hostgroup c) @
      '', default_schema=\"mysql\", max_connections=1000, active=1 },'' @ nl @ '')'' @ nl @ nl) @
     (''mysql_query_rules='' @ nl @ ''('' @ nl @
      ''    { rule_id=1, active=1, match_digest=\"^SELECT .* FOR UPDATE$\", destination_hostgroup='' @
      itoa (px_writer_hostgroup c) @ '', apply=1 },'' @ nl @
      ''    { rule_id=2, active=1, match_digest=\"^SELECT\", destination_hostgroup='' @
      itoa (px_reader_hostgroup c) @ '', apply=1 },'' @ nl @ '')'' @ nl)"

definition config_proxysql :: "proxysql_setup \<Rightarrow> op list" where
  "config_proxysql c =
     [must ''write proxysql config'' (heredoc ''>'' ''/etc/proxysql.cnf'' ''PSQLCFG''
        (proxysql_conf (proxysql_defaults c))),
      Try ''mkdir -p /var/lib/proxysql'',
      Wrap ''start proxysql'' [Start ''proxysql'' ''proxysql''
        [''--initial'', ''-f'', ''-D'', ''/var/lib/proxysql'', ''-c'', ''/etc/proxysql.cnf'']]]"

end
