(* ===== verification/AgentRun.thy ===== *)
theory AgentRun
  imports AgentDb AgentTools
begin

text \<open>
  One command from the server to the agent (\<open>agent/protocol.go\<close>, \<open>Executor.Run\<close>): the payloads by
  action, the dispatch to the handlers, and the report. The payload travels as JSON between two
  programs built from the same types, so it is the typed value here; \<open>Unknown_action\<close> is an action
  string that \<open>Run\<close> does not know.
\<close>

datatype payload =
    Install_postgres db_install
  | Config_postgres postgres_cluster
  | Install_mysql db_install
  | Config_mysql mysql_cluster
  | Install_picodata db_install
  | Config_picodata picodata_cluster
  | Install_monitor string
  | Config_monitor monitor_setup
  | Install_stroppy string
  | Run_stroppy string
  | Install_etcd string
  | Config_etcd etcd_cluster
  | Install_patroni
  | Config_patroni patroni_cluster
  | Install_pgbouncer
  | Config_pgbouncer pgbouncer_setup
  | Install_haproxy
  | Config_haproxy haproxy_setup
  | Install_proxysql
  | Config_proxysql proxysql_setup
  | Install_ydb string
  | Config_ydb ydb_static
  | Init_ydb ydb_init_config
  | Start_ydb_db ydb_dynamic
  | Unknown_action string

fun action_name :: "payload \<Rightarrow> string" where
  "action_name (Install_postgres _) = ''install_postgres''"
| "action_name (Config_postgres _) = ''config_postgres''"
| "action_name (Install_mysql _) = ''install_mysql''"
| "action_name (Config_mysql _) = ''config_mysql''"
| "action_name (Install_picodata _) = ''install_picodata''"
| "action_name (Config_picodata _) = ''config_picodata''"
| "action_name (Install_monitor _) = ''install_monitor''"
| "action_name (Config_monitor _) = ''config_monitor''"
| "action_name (Install_stroppy _) = ''install_stroppy''"
| "action_name (Run_stroppy _) = ''run_stroppy''"
| "action_name (Install_etcd _) = ''install_etcd''"
| "action_name (Config_etcd _) = ''config_etcd''"
| "action_name Install_patroni = ''install_patroni''"
| "action_name (Config_patroni _) = ''config_patroni''"
| "action_name Install_pgbouncer = ''install_pgbouncer''"
| "action_name (Config_pgbouncer _) = ''config_pgbouncer''"
| "action_name Install_haproxy = ''install_haproxy''"
| "action_name (Config_haproxy _) = ''config_haproxy''"
| "action_name Install_proxysql = ''install_proxysql''"
| "action_name (Config_proxysql _) = ''config_proxysql''"
| "action_name (Install_ydb _) = ''install_ydb''"
| "action_name (Config_ydb _) = ''config_ydb''"
| "action_name (Init_ydb _) = ''init_ydb''"
| "action_name (Start_ydb_db _) = ''start_ydb_db''"
| "action_name (Unknown_action a) = a"

record agent_command =
  ac_id :: string
  ac_payload :: payload

datatype report_status = Report_running | Report_completed | Report_failed

record report =
  rp_command_id :: string
  rp_status :: report_status
  rp_error :: string

text \<open>The switch of \<open>Run\<close>; \<open>None\<close> is a panic.\<close>

fun handler :: "'w host \<Rightarrow> payload \<Rightarrow> op list option" where
  "handler h (Install_postgres c) = Some (install_postgres c)"
| "handler h (Config_postgres c) = Some (config_postgres h c)"
| "handler h (Install_mysql c) = Some (install_mysql c)"
| "handler h (Config_mysql c) = Some (config_mysql h c)"
| "handler h (Install_picodata c) = Some (install_picodata c)"
| "handler h (Config_picodata c) = config_picodata h c"
| "handler h (Install_monitor k) = Some (install_monitor h k)"
| "handler h (Config_monitor c) = Some (config_monitor h c)"
| "handler h (Install_stroppy v) = Some (install_stroppy v)"
| "handler h (Run_stroppy j) = Some (run_stroppy j)"
| "handler h (Install_etcd v) = Some (install_etcd v)"
| "handler h (Config_etcd c) = Some (config_etcd c)"
| "handler h Install_patroni = Some install_patroni"
| "handler h (Config_patroni c) = Some (config_patroni c)"
| "handler h Install_pgbouncer = Some install_pgbouncer"
| "handler h (Config_pgbouncer c) = Some (config_pgbouncer c)"
| "handler h Install_haproxy = Some install_haproxy"
| "handler h (Config_haproxy c) = Some (config_haproxy c)"
| "handler h Install_proxysql = Some install_proxysql"
| "handler h (Config_proxysql c) = Some (config_proxysql c)"
| "handler h (Install_ydb v) = Some (install_ydb v)"
| "handler h (Config_ydb c) = Some (config_ydb h c)"
| "handler h (Init_ydb c) = Some (init_ydb c)"
| "handler h (Start_ydb_db c) = Some (start_ydb_db h c)"
| "handler h (Unknown_action a) = Some [Refuse ((''unknown action: '' @ a))]"

definition report_of :: "string \<Rightarrow> string option \<Rightarrow> report" where
  "report_of cid err =
     (case err of
        None \<Rightarrow> \<lparr>rp_command_id = cid, rp_status = Report_completed, rp_error = []\<rparr>
      | Some e \<Rightarrow> \<lparr>rp_command_id = cid, rp_status = Report_failed, rp_error = e\<rparr>)"

definition agent_run :: "'w host \<Rightarrow> agent_command \<Rightarrow> 'w agent \<Rightarrow> (report \<times> 'w agent) option" where
  "agent_run h c ex =
     (case bootstrap h (set_current_command (ac_id c) (action_name (ac_payload c)) ex) of
        (ex, Some e) \<Rightarrow> Some (report_of (ac_id c) (Some e), set_current_command [] [] ex)
      | (ex, None) \<Rightarrow> (case handler h (ac_payload c) of
            None \<Rightarrow> None
          | Some ops \<Rightarrow> (case run_ops h ops ex of
                (ex, err) \<Rightarrow> Some (report_of (ac_id c) err, set_current_command [] [] ex))))"

fun agent_runs :: "'w host \<Rightarrow> agent_command list \<Rightarrow> 'w agent \<Rightarrow> (report list \<times> 'w agent) option" where
  "agent_runs h [] ex = Some ([], ex)"
| "agent_runs h (c # cs) ex =
     (case agent_run h c ex of
        None \<Rightarrow> None
      | Some (r, ex) \<Rightarrow> (case agent_runs h cs ex of
            None \<Rightarrow> None
          | Some (rs, ex) \<Rightarrow> Some (r # rs, ex)))"

section \<open>What a report says\<close>

text \<open>Operations that were performed one after the other, each without an error.\<close>

inductive all_done :: "'w host \<Rightarrow> op list \<Rightarrow> 'w agent \<Rightarrow> 'w agent \<Rightarrow> bool" for h where
  none_left: "all_done h [] ex ex"
| one_done: "run_op h p ex = (ex1, None) \<Longrightarrow> all_done h ps ex1 ex2 \<Longrightarrow> all_done h (p # ps) ex ex2"

lemma run_ops_done: "run_ops h ps ex = (ex', None) \<Longrightarrow> all_done h ps ex ex'"
  by (induction ps arbitrary: ex) (auto intro: all_done.intros split: prod.splits option.splits)

text \<open>A failing list of operations splits at the one that failed.\<close>

lemma run_ops_failed:
  "run_ops h ps ex = (ex', Some e) \<Longrightarrow>
     \<exists>qs p rs ex1. ps = qs @ p # rs \<and> all_done h qs ex ex1 \<and> run_op h p ex1 = (ex', Some e)"
proof (induction ps arbitrary: ex)
  case (Cons p ps)
  obtain ex1 r where p: "run_op h p ex = (ex1, r)" by fastforce
  show ?case
  proof (cases r)
    case None
    with Cons p obtain qs q rs ex2 where "ps = qs @ q # rs" "all_done h qs ex1 ex2"
      "run_op h q ex2 = (ex', Some e)" by fastforce
    with p None have "p # ps = (p # qs) @ q # rs \<and> all_done h (p # qs) ex ex2 \<and>
        run_op h q ex2 = (ex', Some e)" by (auto intro: one_done)
    then show ?thesis by blast
  next
    case (Some e')
    with Cons.prems p have "p # ps = [] @ p # ps \<and> all_done h [] ex ex \<and>
        run_op h p ex = (ex', Some e)" by (auto intro: none_left)
    then show ?thesis by blast
  qed
qed simp

lemma same_frame_set:
  "same_frame (set_current_command cid act ex) ex' \<Longrightarrow>
     \<exists>ls. ex_log ex' = ex_log ex @ map (\<lambda>l. (cid, act, l, ''stdout'')) ls"
  by (auto simp: same_frame_def set_current_command_def)

lemma run_ops_frameD: "run_ops h ps ex = (ex', e) \<Longrightarrow> same_frame ex ex'"
  using run_frame(2) [of ex h ps] by simp

lemma bootstrap_log:
  "bootstrap h (set_current_command cid act ex) = (ex', e) \<Longrightarrow>
     ex_cmd ex' = cid \<and> ex_action ex' = act \<and> ex_boot ex' = Some e \<and>
     (\<exists>ls. ex_log ex' = ex_log ex @ map (\<lambda>l. (cid, act, l, ''stdout'')) ls)"
  unfolding bootstrap_def
  by (auto simp: same_frame_def set_current_command_def dest: run_ops_frameD split: option.splits prod.splits
      intro: exI [of _ "[]"])

text \<open>How a command ends: in the bootstrap, after all operations of its handler, or at the first that fails.\<close>

definition command_outcome :: "'w host \<Rightarrow> agent_command \<Rightarrow> 'w agent \<Rightarrow> report \<Rightarrow> 'w agent \<Rightarrow> bool" where
  "command_outcome h c ex r ex' \<longleftrightarrow>
     (\<exists>ex1 b. bootstrap h (set_current_command (ac_id c) (action_name (ac_payload c)) ex) = (ex1, b) \<and> ex_boot ex1 = Some b \<and>
        (case b of
           Some e \<Rightarrow> rp_status r = Report_failed \<and> rp_error r = e \<and> ex' = set_current_command [] [] ex1
         | None \<Rightarrow> \<exists>ops ex2. handler h (ac_payload c) = Some ops \<and> ex' = set_current_command [] [] ex2 \<and>
             (rp_status r = Report_completed \<and> rp_error r = [] \<and> all_done h ops ex1 ex2 \<or>
              rp_status r = Report_failed \<and>
                (\<exists>qs p rs ex0. ops = qs @ p # rs \<and> all_done h qs ex1 ex0 \<and> run_op h p ex0 = (ex2, Some (rp_error r))))))"

lemma agent_run_outcome:
  assumes "agent_run h c ex = Some (r, ex')"
  shows "command_outcome h c ex r ex'"
proof -
  let ?c = "set_current_command (ac_id c) (action_name (ac_payload c)) ex"
  obtain ex1 b where b: "bootstrap h ?c = (ex1, b)" by fastforce
  have boot: "ex_boot ex1 = Some b" using bootstrap_log [OF b] by blast
  show ?thesis
  proof (cases b)
    case (Some e)
    with assms b have "r = report_of (ac_id c) (Some e)" "ex' = set_current_command [] [] ex1"
      by (simp_all add: agent_run_def)
    then show ?thesis using b boot Some by (simp add: command_outcome_def report_of_def)
  next
    case None
    with assms b obtain ops where ops: "handler h (ac_payload c) = Some ops"
      by (auto simp: agent_run_def split: option.splits)
    obtain ex2 err where run: "run_ops h ops ex1 = (ex2, err)" by fastforce
    then have r: "r = report_of (ac_id c) err" "ex' = set_current_command [] [] ex2"
      using assms b None ops by (simp_all add: agent_run_def)
    show ?thesis
    proof (cases err)
      case no: None
      then show ?thesis using r b boot None ops run_ops_done [OF run [unfolded no]]
        by (auto simp: command_outcome_def report_of_def)
    next
      case (Some e)
      from run_ops_failed [OF run [unfolded Some]] show ?thesis
        using r b boot None ops Some by (auto simp: command_outcome_def report_of_def)
    qed
  qed
qed

lemma agent_run_tags:
  assumes "agent_run h c ex = Some (r, ex')"
  shows "rp_command_id r = ac_id c \<and> ex_cmd ex' = [] \<and> ex_action ex' = [] \<and>
    (\<exists>ls. ex_log ex' = ex_log ex @ map (\<lambda>l. (ac_id c, action_name (ac_payload c), l, ''stdout'')) ls)"
proof -
  let ?c = "set_current_command (ac_id c) (action_name (ac_payload c)) ex"
  obtain ex1 b where b: "bootstrap h ?c = (ex1, b)" by fastforce
  note bl = bootstrap_log [OF b]
  show ?thesis
  proof (cases b)
    case (Some e)
    with assms b have "r = report_of (ac_id c) (Some e)" "ex' = set_current_command [] [] ex1"
      by (simp_all add: agent_run_def)
    with bl show ?thesis by (auto simp: report_of_def set_current_command_def)
  next
    case None
    with assms b obtain ops where ops: "handler h (ac_payload c) = Some ops"
      by (auto simp: agent_run_def split: option.splits)
    obtain ex2 err where run: "run_ops h ops ex1 = (ex2, err)" by fastforce
    then have r: "r = report_of (ac_id c) err" "ex' = set_current_command [] [] ex2"
      using assms b None ops by (simp_all add: agent_run_def)
    from run_ops_frameD [OF run] bl have
      "\<exists>ls. ex_log ex2 = ex_log ex @ map (\<lambda>l. (ac_id c, action_name (ac_payload c), l, ''stdout'')) ls"
      by (auto simp: same_frame_def simp flip: map_append)
    then show ?thesis using r by (cases err) (simp_all add: report_of_def set_current_command_def)
  qed
qed

text \<open>
  C36. The report of a command, when the handler does not panic: it carries the command's id, every line logged while
  the command ran is tagged with that id and its action, and the tags are cleared afterwards. It says \<open>completed\<close>
  exactly when the bootstrap had succeeded and then all operations of the handler were performed, one after the
  other, without an error; otherwise it says \<open>failed\<close>, with the error of the bootstrap or that of the first operation
  that failed, all those before it having been performed without one and none after it.
\<close>

theorem agent_report:
  assumes "agent_run h c ex = Some (r, ex')"
  shows "rp_command_id r = ac_id c \<and> ex_cmd ex' = [] \<and> ex_action ex' = [] \<and>
    (\<exists>ls. ex_log ex' = ex_log ex @ map (\<lambda>l. (ac_id c, action_name (ac_payload c), l, ''stdout'')) ls) \<and>
    (\<exists>ex1 b. bootstrap h (set_current_command (ac_id c) (action_name (ac_payload c)) ex) = (ex1, b) \<and> ex_boot ex1 = Some b \<and>
       (case b of
          Some e \<Rightarrow> rp_status r = Report_failed \<and> rp_error r = e \<and> ex' = set_current_command [] [] ex1
        | None \<Rightarrow> \<exists>ops ex2. handler h (ac_payload c) = Some ops \<and> ex' = set_current_command [] [] ex2 \<and>
            (rp_status r = Report_completed \<and> rp_error r = [] \<and> all_done h ops ex1 ex2 \<or>
             rp_status r = Report_failed \<and>
               (\<exists>qs p rs ex0. ops = qs @ p # rs \<and> all_done h qs ex1 ex0 \<and> run_op h p ex0 = (ex2, Some (rp_error r))))))"
  using agent_run_tags [OF assms] agent_run_outcome [OF assms] unfolding command_outcome_def by blast

text \<open>A host that counts the scripts it ran and fails those it is told to.\<close>

definition counting_host :: "(string \<Rightarrow> bool) \<Rightarrow> string list host" where
  "counting_host fails = \<lparr>h_shell = (\<lambda>w s. (w @ [s], Inr ([], if fails s then Some ''exit status 1'' else None))),
     h_start = (\<lambda>w b _. (w @ [b], None)), h_write_file = (\<lambda>w p _. (w @ [p], None)),
     h_look_path = (\<lambda>_ _. False), h_setenv = (\<lambda>w _ _. w), h_getenv = (\<lambda>_. []), h_hostname = ''host-1'',
     h_meminfo = None\<rparr>"

definition booted :: "string list agent" where
  "booted = (new_agent [])\<lparr>ex_boot := Some None\<rparr>"

lemma booted_bootstrap: "bootstrap h (set_current_command cid act booted) = (set_current_command cid act booted, None)"
  by (simp add: bootstrap_def set_current_command_def booted_def)

lemma agent_run_unknown:
  "agent_run (counting_host f) \<lparr>ac_id = ''c1'', ac_payload = Unknown_action ''x''\<rparr> booted =
     Some (\<lparr>rp_command_id = ''c1'', rp_status = Report_failed, rp_error = ''unknown action: x''\<rparr>, booted)"
  by (simp add: agent_run_def booted_bootstrap report_of_def) (simp add: set_current_command_def booted_def new_agent_def)

lemma agent_report_witness:
  "\<exists>qs p rs ex1 ex0 ex2. handler (counting_host (\<lambda>_. False)) (Unknown_action ''x'') = Some (qs @ p # rs) \<and>
     all_done (counting_host (\<lambda>_. False)) qs ex1 ex0 \<and> run_op (counting_host (\<lambda>_. False)) p ex0 = (ex2, Some ''unknown action: x'')"
  using agent_report [OF agent_run_unknown [of "\<lambda>_. False"]] by (simp only: booted_bootstrap) fastforce

text \<open>
  C39. The bootstrap is attempted once in the life of an agent: once it has been tried, it is not run again; and once it
  has failed, whatever commands follow, each is reported as failed with that same error and nothing is run on the
  machine for it, so no retry of a node can succeed there.
\<close>

theorem bootstrap_once:
  assumes "ex_boot ex = Some b"
  shows "bootstrap h ex = (ex, b) \<and>
    (b = Some e \<longrightarrow> (\<exists>ex'. agent_runs h cs ex =
       Some (map (\<lambda>c. report_of (ac_id c) (Some e)) cs, ex') \<and> ex_world ex' = ex_world ex \<and>
       ex_log ex' = ex_log ex))"
proof
  show "bootstrap h ex = (ex, b)" using assms by (simp add: bootstrap_def)
  show "b = Some e \<longrightarrow> (\<exists>ex'. agent_runs h cs ex =
       Some (map (\<lambda>c. report_of (ac_id c) (Some e)) cs, ex') \<and> ex_world ex' = ex_world ex \<and>
       ex_log ex' = ex_log ex)"
    using assms
  proof (induction cs arbitrary: ex)
    case (Cons c cs)
    show ?case
    proof
      assume b: "b = Some e"
      let ?ex = "set_current_command [] [] (set_current_command (ac_id c) (action_name (ac_payload c)) ex)"
      have r: "agent_run h c ex = Some (report_of (ac_id c) (Some e), ?ex)"
        using Cons.prems b by (simp add: agent_run_def bootstrap_def set_current_command_def)
      have "ex_boot ?ex = Some b" using Cons.prems by (simp add: set_current_command_def)
      from Cons.IH [OF this] b obtain ex' where "agent_runs h cs ?ex =
          Some (map (\<lambda>c. report_of (ac_id c) (Some e)) cs, ex')"
        "ex_world ex' = ex_world ?ex" "ex_log ex' = ex_log ?ex" by blast
      with r show "\<exists>ex'. agent_runs h (c # cs) ex =
          Some (map (\<lambda>c. report_of (ac_id c) (Some e)) (c # cs), ex') \<and> ex_world ex' = ex_world ex \<and>
          ex_log ex' = ex_log ex"
        by (simp add: set_current_command_def)
    qed
  qed simp
qed

lemma bootstrap_once_witness:
  "\<exists>ex'. agent_runs (counting_host (\<lambda>_. False)) [\<lparr>ac_id = ''c1'', ac_payload = Install_haproxy\<rparr>]
     ((new_agent [])\<lparr>ex_boot := Some (Some ''bootstrap: apt'')\<rparr>) =
     Some ([report_of ''c1'' (Some ''bootstrap: apt'')], ex') \<and> ex_world ex' = []"
  using bootstrap_once [of "(new_agent [])\<lparr>ex_boot := Some (Some ''bootstrap: apt'')\<rparr>"
      "Some ''bootstrap: apt''" "counting_host (\<lambda>_. False)" "''bootstrap: apt''"
      "[\<lparr>ac_id = ''c1'', ac_payload = Install_haproxy\<rparr>]"]
  by (auto simp: new_agent_def)

end
