(* ===== verification/RunState.thy ===== *)
theory RunState
  imports AuxConfig
begin

text \<open>
  The shared state of one run (\<open>run/state.go\<close>): the targets that the machines phase found, the
  database endpoint, what teardown needs, and the settings shown to the user, with its export to a
  snapshot (\<open>dag/storage.go\<close>) and its import on recovery. Every method holds the state's lock, so
  it is one step; the terraform actor is only present or absent here.
\<close>

section \<open>The state\<close>

record target =
  tg_id :: string
  tg_host :: string
  tg_internal :: string
  tg_agent_port :: int

record run_state =
  st_db_targets :: "target list"
  st_monitor_targets :: "target list"
  st_proxy_targets :: "target list"
  st_stroppy_target :: "target option"
  st_db_host :: string
  st_db_port :: int
  st_containers :: "string list"
  st_network_id :: string
  st_terraform_wd :: string
  st_has_actor :: bool
  st_effective :: "(string \<times> options) list"

definition new_state :: run_state where
  "new_state = \<lparr>st_db_targets = [], st_monitor_targets = [], st_proxy_targets = [],
     st_stroppy_target = None, st_db_host = [], st_db_port = 0, st_containers = [], st_network_id = [],
     st_terraform_wd = [], st_has_actor = False, st_effective = []\<rparr>"

definition set_db_endpoint :: "string \<Rightarrow> int \<Rightarrow> run_state \<Rightarrow> run_state" where
  "set_db_endpoint host port s = s\<lparr>st_db_host := host, st_db_port := port\<rparr>"

definition add_container_id :: "string \<Rightarrow> run_state \<Rightarrow> run_state" where
  "add_container_id cid s = s\<lparr>st_containers := st_containers s @ [cid]\<rparr>"

definition set_effective_config :: "string \<Rightarrow> options \<Rightarrow> run_state \<Rightarrow> run_state" where
  "set_effective_config part cfg s = s\<lparr>st_effective := AList.update part cfg (st_effective s)\<rparr>"

definition option_list :: "'a option \<Rightarrow> 'a list" where
  "option_list x = (case x of None \<Rightarrow> [] | Some y \<Rightarrow> [y])"

definition all_targets :: "run_state \<Rightarrow> target list" where
  "all_targets s = st_db_targets s @ st_monitor_targets s @ st_proxy_targets s @
     option_list (st_stroppy_target s)"

definition all_target_hosts :: "run_state \<Rightarrow> string list" where
  "all_target_hosts s = map tg_host (st_db_targets s) @ map tg_host (st_monitor_targets s) @
     map tg_host (option_list (st_stroppy_target s))"

section \<open>Export and import\<close>

record target_info =
  ti_id :: string
  ti_host :: string
  ti_internal :: string
  ti_agent_port :: int
  ti_role :: string

text \<open>Provider and run configuration are filled in by the caller of the export.\<close>

record saved_state =
  sv_provider :: string
  sv_run_config :: string
  sv_targets :: "target_info list"
  sv_containers :: "string list"
  sv_network_id :: string
  sv_db_host :: string
  sv_db_port :: int
  sv_effective :: "(string \<times> options) list"

definition info_of :: "string \<Rightarrow> target \<Rightarrow> target_info" where
  "info_of role t = \<lparr>ti_id = tg_id t, ti_host = tg_host t, ti_internal = tg_internal t,
     ti_agent_port = tg_agent_port t, ti_role = role\<rparr>"

definition target_of :: "target_info \<Rightarrow> target" where
  "target_of i = \<lparr>tg_id = ti_id i, tg_host = ti_host i, tg_internal = ti_internal i,
     tg_agent_port = ti_agent_port i\<rparr>"

definition export_run_state :: "run_state \<Rightarrow> saved_state" where
  "export_run_state s = \<lparr>sv_provider = [], sv_run_config = [],
     sv_targets = map (info_of ''database'') (st_db_targets s) @ map (info_of ''monitor'') (st_monitor_targets s) @
       map (info_of ''proxy'') (st_proxy_targets s) @ map (info_of ''stroppy'') (option_list (st_stroppy_target s)),
     sv_containers = st_containers s, sv_network_id = st_network_id s, sv_db_host = st_db_host s,
     sv_db_port = st_db_port s, sv_effective = st_effective s\<rparr>"

definition import_target :: "target_info \<Rightarrow> run_state \<Rightarrow> run_state" where
  "import_target i s =
     (if ti_role i = ''database'' then s\<lparr>st_db_targets := st_db_targets s @ [target_of i]\<rparr>
      else if ti_role i = ''monitor'' then s\<lparr>st_monitor_targets := st_monitor_targets s @ [target_of i]\<rparr>
      else if ti_role i = ''proxy'' then s\<lparr>st_proxy_targets := st_proxy_targets s @ [target_of i]\<rparr>
      else if ti_role i = ''stroppy'' then s\<lparr>st_stroppy_target := Some (target_of i)\<rparr>
      else s)"

definition import_run_state :: "saved_state \<Rightarrow> run_state \<Rightarrow> run_state" where
  "import_run_state rs s = fold import_target (sv_targets rs)
     (s\<lparr>st_containers := sv_containers rs, st_network_id := sv_network_id rs, st_db_host := sv_db_host rs,
        st_db_port := sv_db_port rs, st_effective := sv_effective rs, st_db_targets := [],
        st_monitor_targets := [], st_proxy_targets := [], st_stroppy_target := None\<rparr>)"

section \<open>Import after export\<close>

lemma target_of_info [simp]: "target_of (info_of r t) = t"
  by (simp add: target_of_def info_of_def)

lemma role_of_info [simp]: "ti_role (info_of r t) = r"
  by (simp add: info_of_def)

lemma import_database:
  "fold import_target (map (info_of ''database'') ts) s = s\<lparr>st_db_targets := st_db_targets s @ ts\<rparr>"
  by (induction ts arbitrary: s) (simp_all add: import_target_def)

lemma import_monitor:
  "fold import_target (map (info_of ''monitor'') ts) s = s\<lparr>st_monitor_targets := st_monitor_targets s @ ts\<rparr>"
  by (induction ts arbitrary: s) (simp_all add: import_target_def)

lemma import_proxy:
  "fold import_target (map (info_of ''proxy'') ts) s = s\<lparr>st_proxy_targets := st_proxy_targets s @ ts\<rparr>"
  by (induction ts arbitrary: s) (simp_all add: import_target_def)

lemma import_stroppy:
  "fold import_target (map (info_of ''stroppy'') (option_list t)) s =
     (case t of None \<Rightarrow> s | Some x \<Rightarrow> s\<lparr>st_stroppy_target := Some x\<rparr>)"
  by (cases t) (simp_all add: option_list_def import_target_def)

lemmas import_groups = import_database import_monitor import_proxy import_stroppy

lemma import_export:
  "import_run_state (export_run_state s) t =
     s\<lparr>st_terraform_wd := st_terraform_wd t, st_has_actor := st_has_actor t\<rparr>"
  by (cases "st_stroppy_target s")
    (simp_all add: import_run_state_def export_run_state_def import_groups)

text \<open>
  Recovery restores a run's state from its snapshot: importing what was exported gives back
  every target of every role in its order, the endpoint, the containers, the network and the
  settings, whatever the state was imported into; exporting again gives the same snapshot. The
  terraform directory is the exception: after a recovery it is that of the fresh state.
\<close>

theorem run_state_roundtrip:
  "import_run_state (export_run_state s) t =
     s\<lparr>st_terraform_wd := st_terraform_wd t, st_has_actor := st_has_actor t\<rparr> \<and>
   export_run_state (import_run_state (export_run_state s) t) = export_run_state s \<and>
   all_targets (import_run_state (export_run_state s) t) = all_targets s \<and>
   st_terraform_wd (import_run_state (export_run_state s) new_state) = []"
  unfolding import_export by (simp add: all_targets_def new_state_def export_run_state_def)

text \<open>The scrape hosts leave the proxies out; the targets of the monitoring tasks do not.\<close>

lemma all_target_hosts_subset:
  "set (all_target_hosts s) \<subseteq> tg_host ` set (all_targets s)"
  by (auto simp: all_target_hosts_def all_targets_def)

lemma proxies_missing:
  "\<exists>s. tg_host ` set (all_targets s) \<noteq> set (all_target_hosts s)"
  by (rule exI [of _ "new_state\<lparr>st_proxy_targets := [\<lparr>tg_id = [], tg_host = ''p'', tg_internal = [], tg_agent_port = 0\<rparr>]\<rparr>"])
    (simp add: all_target_hosts_def all_targets_def new_state_def option_list_def)

end
