(* ===== verification/Rendered.thy ===== *)
theory Rendered
  imports AuxConfig Machines
begin

text \<open>
  What the dry run shows: \<open>run/rendered_configs.go\<close> (the files of each component, under the keys
  that the user's overrides share) and \<open>run/effective_config.go\<close> (the summary maps). A map is an
  association list; \<open>put_config\<close> is the closure that lets an override replace a body.
\<close>

section \<open>Rendered files\<close>

definition put_config :: "options \<Rightarrow> string \<Rightarrow> string \<Rightarrow> options \<Rightarrow> options" where
  "put_config overrides key body out =
     AList.update key (case map_of overrides key of Some v \<Rightarrow> v | None \<Rightarrow> body) out"

definition rendered_postgres :: "options \<Rightarrow> string \<Rightarrow> postgres_topology \<Rightarrow> options" where
  "rendered_postgres ov version t =
     (let put = put_config ov;
          conf = (\<lambda>role opts m. render_postgres_conf \<lparr>po_version = version, po_role = role,
            po_options = opts, po_patroni = pg_patroni t, po_memory = ms_memory_mb m\<rparr>);
          out = put ''postgresql.conf:master'' (conf ''master'' (pg_master_options t) (pg_master t)) [];
          out = (case pg_replicas t of [] \<Rightarrow> out
            | r # _ \<Rightarrow> put ''postgresql.conf:replica'' (conf ''replica'' (pg_replica_options t) r) out);
          out = put ''pg_hba.conf'' postgres_pg_hba_conf out;
          out = (if pg_patroni t then put ''patroni.yml'' (render_patroni_conf
              \<lparr>pa_version = version, pa_sync_mode = pg_sync_replicas t > 0,
               pa_sync_count = pg_sync_replicas t, pa_options = pg_master_options t\<rparr>) out else out);
          out = (if pg_pgbouncer t then put ''pgbouncer.ini'' (render_pgbouncer_conf
              \<lparr>bo_listen_port = 0, bo_pool_mode = [], bo_max_client_conn = 0, bo_default_pool_size = 0,
               bo_pg_port = 0, bo_auth_type = []\<rparr>) out else out)
      in if pg_haproxy t \<noteq> None then put ''haproxy.cfg'' (render_haproxy_conf
            \<lparr>ho_write_port = 5000, ho_read_port = 5001, ho_backends = [],
             ho_health_check = (if pg_patroni t then ''patroni'' else ''tcp''),
             ho_patroni_port = (if pg_patroni t then 8008 else 0)\<rparr>) out
         else out)"

definition rendered_mysql :: "options \<Rightarrow> string \<Rightarrow> mysql_topology \<Rightarrow> options" where
  "rendered_mysql ov version t =
     (let put = put_config ov;
          conf = (\<lambda>role opts m. render_mysql_conf \<lparr>mo_version = version, mo_role = role,
            mo_semi_sync = my_semi_sync t, mo_group_repl = my_group_repl t, mo_options = opts,
            mo_memory = ms_memory_mb m\<rparr>);
          out = put ''my.cnf:primary'' (conf ''primary'' (my_primary_options t) (my_primary t)) []
      in (case my_replicas t of [] \<Rightarrow> out
          | r # _ \<Rightarrow> put ''my.cnf:replica'' (conf ''replica'' (my_replica_options t) r) out))"

definition tcp_haproxy :: "int \<Rightarrow> int \<Rightarrow> haproxy_conf_opts" where
  "tcp_haproxy write read = \<lparr>ho_write_port = write, ho_read_port = read, ho_backends = [],
     ho_health_check = ''tcp'', ho_patroni_port = 0\<rparr>"

definition rendered_picodata :: "options \<Rightarrow> picodata_topology \<Rightarrow> options" where
  "rendered_picodata ov t =
     (let put = put_config ov;
          mem = (case pico_instances t of [] \<Rightarrow> 0 | m # _ \<Rightarrow> ms_memory_mb m);
          out = put ''picodata.yaml'' (render_picodata_conf \<lparr>pc_replication = pico_replication t,
            pc_options = pico_instance_options t, pc_memory = mem\<rparr>) []
      in if pico_haproxy t \<noteq> None
         then put ''haproxy.cfg'' (render_haproxy_conf (tcp_haproxy 4327 4328)) out else out)"

fun first_block_device :: "secondary_disk list \<Rightarrow> string" where
  "first_block_device [] = []"
| "first_block_device (d # ds) =
     (if sd_device_name d \<noteq> [] then ''/dev/disk/by-id/virtio-'' @ sd_device_name d
      else first_block_device ds)"

definition rendered_ydb :: "options \<Rightarrow> ydb_topology \<Rightarrow> options" where
  "rendered_ydb ov t =
     (let put = put_config ov; s = ydb_storage t;
          opts = (\<lambda>cpus mem. \<lparr>yo_host_count = ms_count s, yo_disk_path = ''/ydb_data'',
            yo_block_device = first_block_device (ms_secondary s), yo_cpus = cpus, yo_memory = mem,
            yo_fault_tolerance = ydb_fault_tolerance t\<rparr>);
          d = (case ydb_database t of None \<Rightarrow> s | Some d \<Rightarrow> d);
          out = put ''ydb.yaml:storage'' (render_ydb_storage_conf (opts (ms_cpus s) (ms_memory_mb s))) [];
          out = put ''ydb.yaml:database''
            (render_ydb_database_conf (opts (ms_cpus d) (ms_memory_mb d))) out
      in if ydb_haproxy t \<noteq> None
         then put ''haproxy.cfg'' (render_haproxy_conf (tcp_haproxy 2136 2137)) out else out)"

definition build_rendered_configs :: "run_config \<Rightarrow> options" where
  "build_rendered_configs cfg =
     (let db = rc_database cfg; ov = db_rendered_overrides db in
      if db_kind db = DatabasePostgres then
        (case db_postgres db of None \<Rightarrow> [] | Some t \<Rightarrow> rendered_postgres ov (db_version db) t)
      else if db_kind db = DatabaseMySQL then
        (case db_mysql db of None \<Rightarrow> [] | Some t \<Rightarrow> rendered_mysql ov (db_version db) t)
      else if db_kind db = DatabasePicodata then
        (case db_picodata db of None \<Rightarrow> [] | Some t \<Rightarrow> rendered_picodata ov t)
      else if db_kind db = DatabaseYDB then
        (case db_ydb db of None \<Rightarrow> [] | Some t \<Rightarrow> rendered_ydb ov t)
      else [])"

section \<open>Effective settings\<close>

text \<open>The multiplication sign of the summaries, in UTF-8.\<close>

definition times_sign :: string where
  "times_sign = [CHR 0xC3, CHR 0x97]"

definition show_sizes :: "int \<Rightarrow> int \<Rightarrow> int \<Rightarrow> string" where
  "show_sizes cpus mem disk = itoa cpus @ '' vCPU / '' @ itoa mem @ '' MB / '' @ itoa disk @ '' GB''"

definition show_machine :: "machine_spec \<Rightarrow> string" where
  "show_machine m = itoa (ms_count m) @ times_sign @ '' '' @
     show_sizes (ms_cpus m) (ms_memory_mb m) (ms_disk_gb m)"

definition show_replicas :: "machine_spec \<Rightarrow> string" where
  "show_replicas m = itoa (ms_count m) @ times_sign @ '' '' @ itoa (ms_cpus m) @ '' vCPU / '' @
     itoa (ms_memory_mb m) @ '' MB''"

definition positive_or :: "int \<Rightarrow> int \<Rightarrow> int" where
  "positive_or v d = (if v \<le> 0 then d else v)"

definition effective_ydb :: "machine_spec option \<Rightarrow> ydb_topology \<Rightarrow> options" where
  "effective_ydb ov t =
     (let s = ydb_storage t;
          disk = apply_override (positive_or (ms_disk_gb s) 80) ov ms_disk_gb;
          mem = apply_override (positive_or (ms_memory_mb s) 4096) ov ms_memory_mb;
          cpus = apply_override (positive_or (ms_cpus s) 2) ov ms_cpus;
          pdisk = (if int64 (disk - 2) < 10 then 10 else int64 (disk - 2));
          hard = go_quot (int64 (mem * 85)) 100;
          nodes = itoa (ms_count s) @ '' storage'' @
            (case ydb_database t of Some d \<Rightarrow> '' + '' @ itoa (ms_count d) @ '' compute'' | None \<Rightarrow> '' (combined)'')
      in [(''kind'', ''ydb''), (''nodes'', nodes), (''per_node'', show_sizes cpus mem disk),
          (''pdisk_gb'', itoa pdisk), (''mem_limit'', itoa hard @ '' MB''), (''cpu_count'', itoa cpus),
          (''erasure'', str_or (ydb_fault_tolerance t) ''none''), (''db_path'', ydb_database_path t)])"

definition effective_postgres :: "string \<Rightarrow> postgres_topology \<Rightarrow> options" where
  "effective_postgres version t =
     (let ec = [(''kind'', ''postgres''), (''version'', version), (''master'', show_machine (pg_master t))];
          ec = (case pg_replicas t of [] \<Rightarrow> ec | r # _ \<Rightarrow> AList.update ''replicas'' (show_replicas r) ec);
          ec = (if pg_patroni t then AList.update ''ha'' ''patroni + etcd'' ec else ec);
          ec = (if pg_pgbouncer t then AList.update ''pooler'' ''pgbouncer'' ec else ec)
      in overlay (pg_master_options t) ec)"

definition effective_mysql :: "(string \<times> string) list \<Rightarrow> mysql_topology \<Rightarrow> options" where
  "effective_mysql version t =
     (let ec = [(''kind'', ''mysql'')] @ version @ [(''primary'', show_machine (my_primary t))];
          ec = (case my_replicas t of [] \<Rightarrow> ec | r # _ \<Rightarrow> AList.update ''replicas'' (show_replicas r) ec);
          ec = (if my_group_repl t then AList.update ''replication'' ''group'' ec
                else if my_semi_sync t then AList.update ''replication'' ''semi-sync'' ec else ec)
      in overlay (my_primary_options t) ec)"

definition effective_picodata :: "nat \<Rightarrow> picodata_topology \<Rightarrow> options" where
  "effective_picodata instances t =
     (let ec = [(''kind'', ''picodata''), (''instances'', itoa (int instances)),
            (''shards'', itoa (pico_shards t)), (''rf'', itoa (pico_replication t))];
          ec = (case pico_instances t of [] \<Rightarrow> ec
            | m # _ \<Rightarrow> AList.update ''per_node'' (show_sizes (ms_cpus m) (ms_memory_mb m) (ms_disk_gb m)) ec)
      in overlay (pico_instance_options t) ec)"

definition effective_database :: "run_config \<Rightarrow> options option" where
  "effective_database cfg =
     (let db = rc_database cfg in
      if db_kind db = DatabaseYDB then map_option (effective_ydb (rc_machine_override cfg)) (db_ydb db)
      else if db_kind db = DatabasePostgres then map_option (effective_postgres (db_version db)) (db_postgres db)
      else if db_kind db = DatabaseMySQL then
        map_option (effective_mysql [(''version'', db_version db)]) (db_mysql db)
      else if db_kind db = DatabasePicodata then
        map_option (\<lambda>t. effective_picodata (length (pico_instances t)) t) (db_picodata db)
      else None)"

definition effective_benchmark :: "stroppy_config \<Rightarrow> options" where
  "effective_benchmark s =
     (if stp_script s \<noteq> [] then [(''script'', stp_script s)] else []) @
     (if stp_version s \<noteq> [] then [(''stroppy'', CHR ''v'' # stp_version s)] else []) @
     (if stp_duration s \<noteq> [] then [(''duration'', stp_duration s)] else []) @
     (if stp_vus s > 0 then [(''VUs'', itoa (stp_vus s))] else []) @
     (if stp_pool_size s > 0 then [(''pool'', itoa (stp_pool_size s))] else []) @
     (if stp_scale_factor s > 0 then [(''scale'', itoa (stp_scale_factor s))] else []) @
     (case stp_machine s of None \<Rightarrow> []
      | Some m \<Rightarrow> [(''runner'', itoa (ms_cpus m) @ '' vCPU / '' @ itoa (ms_memory_mb m) @ '' MB'')])"

definition effective_infrastructure :: "run_config \<Rightarrow> options" where
  "effective_infrastructure cfg =
     fold (\<lambda>m. AList.update (ms_role m) (show_machine m)) (rc_machines cfg)
       ([(''provider'', rc_provider cfg)] @
        (if rc_platform_id cfg \<noteq> [] then [(''platform'', rc_platform_id cfg)] else []))"

definition compute_effective_configs :: "run_config \<Rightarrow> (string \<times> options) list" where
  "compute_effective_configs cfg =
     (case effective_database cfg of None \<Rightarrow> [] | Some ec \<Rightarrow> [(''database'', ec)]) @
     (let bench = effective_benchmark (rc_stroppy cfg) in
      if bench \<noteq> [] then [(''benchmark'', bench)] else []) @
     [(''infrastructure'', effective_infrastructure cfg)]"

section \<open>Reading the previews\<close>

lemma map_of_put_config:
  "map_of (put_config ov key body out) k =
     (if k = key then Some (case map_of ov key of Some v \<Rightarrow> v | None \<Rightarrow> body) else map_of out k)"
  by (simp add: put_config_def update_conv')

lemma put_config_keys [simp]:
  "fst ` set (put_config ov key body out) = insert key (fst ` set out)"
  by (simp add: put_config_def dom_update)

end
