(* ===== verification/Tasks.thy ===== *)
theory Tasks
  imports AgentRun RunState Rendered Builder
begin

text \<open>
  What the tasks of a run send to the agents (\<open>run/task_postgres.go\<close>, \<open>task_mysql.go\<close>,
  \<open>task_picodata.go\<close>, \<open>task_ydb.go\<close>, \<open>task_patroni.go\<close>, \<open>task_etcd.go\<close>, \<open>task_pgbouncer.go\<close>,
  \<open>task_proxy.go\<close>, \<open>task_monitor.go\<close>). The plan of a task is the list of its sends, with the summary
  that it stores in the run's state when all of them succeeded. A task whose topology pointer is nil
  panics at its first use of it.
\<close>

section \<open>Plans\<close>

text \<open>Sends one after the other, the first error ending the task, or all of them at once.\<close>

datatype sends = In_order "(target \<times> payload) list" | At_once "(target \<times> payload) list"

datatype plan = Plan sends "options option" | Task_error string | Task_panic

fun sends_of :: "plan \<Rightarrow> (target \<times> payload) list" where
  "sends_of (Plan (In_order xs) _) = xs"
| "sends_of (Plan (At_once xs) _) = xs"
| "sends_of _ = []"

definition to_all :: "target list \<Rightarrow> payload \<Rightarrow> plan" where
  "to_all ts p = Plan (At_once (map (\<lambda>t. (t, p)) ts)) None"

definition with_topology :: "'t option \<Rightarrow> ('t \<Rightarrow> plan) \<Rightarrow> plan" where
  "with_topology topo f = (case topo of None \<Rightarrow> Task_panic | Some t \<Rightarrow> f t)"

definition host_of :: "target \<Rightarrow> string" where
  "host_of t = str_or (tg_internal t) (tg_host t)"

definition indexed :: "'a list \<Rightarrow> (nat \<times> 'a) list" where
  "indexed xs = zip [0..<length xs] xs"

text \<open>The first node takes the first specification, the others the first of the replicas, if any.\<close>

definition node_spec :: "machine_spec \<Rightarrow> machine_spec list \<Rightarrow> nat \<Rightarrow> machine_spec" where
  "node_spec m rs i = (if i = 0 then m else case rs of [] \<Rightarrow> m | r # _ \<Rightarrow> r)"

section \<open>PostgreSQL and MySQL\<close>

definition pg_install_plan :: "string \<Rightarrow> package option \<Rightarrow> run_state \<Rightarrow> plan" where
  "pg_install_plan version pkg st = to_all (st_db_targets st) (Install_postgres
     \<lparr>di_version = version, di_data_dir = ''/var/lib/postgresql/data'', di_package = pkg\<rparr>)"

definition pg_role :: "nat \<Rightarrow> string" where
  "pg_role i = (if i = 0 then ''master'' else ''replica'')"

definition pg_node_config ::
  "string \<Rightarrow> postgres_topology \<Rightarrow> options \<Rightarrow> string \<Rightarrow> nat \<Rightarrow> postgres_cluster" where
  "pg_node_config version t ov master i =
     \<lparr>pc_version = version, pc_role = pg_role i, pc_master_host = master, pc_patroni = pg_patroni t,
      pc_sync_replicas = pg_sync_replicas t,
      pc_memory_mb = ms_memory_mb (node_spec (pg_master t) (pg_replicas t) i),
      pc_pg_options = (if i = 0 then pg_master_options t else pg_replica_options t),
      pc_conf_override = at_key ov (''postgresql.conf:'' @ pg_role i),
      pc_hba_override = at_key ov ''pg_hba.conf''\<rparr>"

definition pg_config_plan :: "string \<Rightarrow> postgres_topology option \<Rightarrow> options \<Rightarrow> run_state \<Rightarrow> plan" where
  "pg_config_plan version topo ov st = with_topology topo (\<lambda>t.
     case st_db_targets st of
       [] \<Rightarrow> Task_panic
     | m # _ \<Rightarrow> Plan (In_order (map (\<lambda>(i, tg). (tg, Config_postgres (pg_node_config version t ov (host_of m) i)))
                  (indexed (st_db_targets st)))) (Some (effective_postgres version t)))"

definition mysql_install_plan :: "string \<Rightarrow> package option \<Rightarrow> run_state \<Rightarrow> plan" where
  "mysql_install_plan version pkg st = to_all (st_db_targets st) (Install_mysql
     \<lparr>di_version = version, di_data_dir = ''/var/lib/mysql'', di_package = pkg\<rparr>)"

definition mysql_role :: "nat \<Rightarrow> string" where
  "mysql_role i = (if i = 0 then ''primary'' else ''replica'')"

definition group_name :: string where
  "group_name = ''aaaaaaaa-bbbb-cccc-dddd-eeeeeeeeeeee''"

definition mysql_node_config :: "mysql_topology \<Rightarrow> options \<Rightarrow> target list \<Rightarrow> nat \<Rightarrow> target \<Rightarrow> mysql_cluster" where
  "mysql_node_config t ov targets i tg =
     \<lparr>mc_role = mysql_role i, mc_primary_host = host_of (hd targets), mc_local_host = host_of tg,
      mc_node_index = int i, mc_semi_sync = my_semi_sync t, mc_group_repl = my_group_repl t,
      mc_group_seeds = (if my_group_repl t then map (\<lambda>g. (host_of g @ '':33061'')) targets else []),
      mc_group_name = group_name,
      mc_memory_mb = ms_memory_mb (node_spec (my_primary t) (my_replicas t) i),
      mc_my_options = (if i = 0 then my_primary_options t else my_replica_options t),
      mc_conf_override = at_key ov (''my.cnf:'' @ mysql_role i)\<rparr>"

definition mysql_config_plan :: "mysql_topology option \<Rightarrow> options \<Rightarrow> run_state \<Rightarrow> plan" where
  "mysql_config_plan topo ov st = with_topology topo (\<lambda>t.
     Plan (In_order (map (\<lambda>(i, tg). (tg, Config_mysql (mysql_node_config t ov (st_db_targets st) i tg)))
       (indexed (st_db_targets st)))) (Some (effective_mysql [] t)))"

section \<open>Picodata and YDB\<close>

definition pico_install_plan :: "string \<Rightarrow> package option \<Rightarrow> run_state \<Rightarrow> plan" where
  "pico_install_plan version pkg st = to_all (st_db_targets st) (Install_picodata
     \<lparr>di_version = version, di_data_dir = ''/var/lib/picodata'', di_package = pkg\<rparr>)"

definition pico_node_config :: "picodata_topology \<Rightarrow> options \<Rightarrow> target list \<Rightarrow> nat \<Rightarrow> target \<Rightarrow> picodata_cluster" where
  "pico_node_config t ov targets i tg =
     \<lparr>pi_instance_id = int i, pi_peers = map host_of targets, pi_advertise_host = host_of tg,
      pi_replication = pico_replication t, pi_shards = pico_shards t,
      pi_memory_mb = (case pico_instances t of [] \<Rightarrow> 0 | m # _ \<Rightarrow> ms_memory_mb m),
      pi_pico_options = pico_instance_options t, pi_conf_override = at_key ov ''picodata.yaml''\<rparr>"

definition pico_config_plan :: "picodata_topology option \<Rightarrow> options \<Rightarrow> run_state \<Rightarrow> plan" where
  "pico_config_plan topo ov st = with_topology topo (\<lambda>t.
     Plan (In_order (map (\<lambda>(i, tg). (tg, Config_picodata (pico_node_config t ov (st_db_targets st) i tg)))
       (indexed (st_db_targets st)))) (Some (effective_picodata (length (st_db_targets st)) t)))"

definition ydb_install_plan :: "string \<Rightarrow> run_state \<Rightarrow> plan" where
  "ydb_install_plan version st = to_all (st_db_targets st) (Install_ydb version)"

definition ydb_node_config :: "ydb_topology \<Rightarrow> options \<Rightarrow> target list \<Rightarrow> nat \<Rightarrow> target \<Rightarrow> ydb_static" where
  "ydb_node_config t ov targets i tg =
     \<lparr>ys_hosts = map host_of targets, ys_instance_id = int i, ys_advertise_host = host_of tg,
      ys_disk_path = ''/ydb_data'', ys_block_device = first_block_device (ms_secondary (ydb_storage t)),
      ys_disk_gb = ms_disk_gb (ydb_storage t), ys_memory_mb = ms_memory_mb (ydb_storage t),
      ys_cpus = ms_cpus (ydb_storage t), ys_fault_tolerance = str_or (ydb_fault_tolerance t) ''none'',
      ys_options = ydb_storage_options t, ys_conf_override = at_key ov ''ydb.yaml:storage''\<rparr>"

definition ydb_config_plan :: "ydb_topology option \<Rightarrow> options \<Rightarrow> run_state \<Rightarrow> plan" where
  "ydb_config_plan topo ov st = with_topology topo (\<lambda>t.
     Plan (At_once (map (\<lambda>(i, tg). (tg, Config_ydb (ydb_node_config t ov (st_db_targets st) i tg)))
       (indexed (st_db_targets st)))) (Some (effective_ydb None t)))"

definition ydb_init_plan :: "ydb_topology option \<Rightarrow> run_state \<Rightarrow> plan" where
  "ydb_init_plan topo st =
     (case st_db_targets st of
        [] \<Rightarrow> Task_error ''no DB targets for YDB init''
      | first # _ \<Rightarrow> with_topology topo (\<lambda>t. Plan (In_order [(first, Init_ydb
          \<lparr>yi_endpoint = (''grpc://'' @ host_of first @ '':2136''),
           yi_database_path = str_or (ydb_database_path t) ''/Root/testdb'',
           yi_config_path = ''/opt/ydb/cfg/config.yaml''\<rparr>)]) None))"

definition ydb_dynamic_config :: "ydb_topology \<Rightarrow> options \<Rightarrow> target list \<Rightarrow> target \<Rightarrow> ydb_dynamic" where
  "ydb_dynamic_config t ov targets tg =
     (let spec = (case ydb_database t of None \<Rightarrow> ydb_storage t | Some d \<Rightarrow> d) in
      \<lparr>yd_endpoints = map host_of targets, yd_advertise_host = host_of tg,
       yd_database_path = str_or (ydb_database_path t) ''/Root/testdb'',
       yd_memory_mb = ms_memory_mb spec, yd_cpus = ms_cpus spec,
       yd_fault_tolerance = str_or (ydb_fault_tolerance t) ''none'',
       yd_storage_hosts = map host_of targets,
       yd_block_device = first_block_device (ms_secondary (ydb_storage t)),
       yd_options = ydb_database_options t, yd_conf_override = at_key ov ''ydb.yaml:database''\<rparr>)"

definition ydb_start_plan :: "ydb_topology option \<Rightarrow> options \<Rightarrow> run_state \<Rightarrow> plan" where
  "ydb_start_plan topo ov st = with_topology topo (\<lambda>t.
     Plan (At_once (map (\<lambda>tg. (tg, Start_ydb_db (ydb_dynamic_config t ov (st_db_targets st) tg)))
       (st_db_targets st))) None)"

section \<open>etcd, Patroni and PgBouncer\<close>

definition etcd_targets :: "run_state \<Rightarrow> target list" where
  "etcd_targets st = take 3 (st_db_targets st)"

definition etcd_install_plan :: "run_state \<Rightarrow> plan" where
  "etcd_install_plan st = to_all (etcd_targets st) (Install_etcd (mst_etcd default_monitoring))"

definition etcd_member :: "nat \<times> target \<Rightarrow> string" where
  "etcd_member m = (''etcd'' @ itoa (int (fst m)) @ ''=http://'' @ host_of (snd m) @ '':2380'')"

definition etcd_node_config :: "target list \<Rightarrow> nat \<Rightarrow> target \<Rightarrow> etcd_cluster" where
  "etcd_node_config targets i tg =
     \<lparr>et_name = (''etcd'' @ itoa (int i)), et_initial_cluster = join '','' (map etcd_member (indexed targets)),
      et_client_url = ''http://0.0.0.0:2379'', et_peer_url = ''http://0.0.0.0:2380'',
      et_advertise_client = (''http://'' @ host_of tg @ '':2379''), et_advertise_peer = (''http://'' @
                     host_of tg @
                     '':2380''),
      et_state = ''new''\<rparr>"

definition etcd_config_plan :: "run_state \<Rightarrow> plan" where
  "etcd_config_plan st =
     Plan (At_once (map (\<lambda>(i, tg). (tg, Config_etcd (etcd_node_config (etcd_targets st) i tg)))
       (indexed (etcd_targets st)))) None"

definition patroni_install_plan :: "run_state \<Rightarrow> plan" where
  "patroni_install_plan st = to_all (st_db_targets st) Install_patroni"

definition patroni_node_config ::
  "string \<Rightarrow> postgres_topology \<Rightarrow> options \<Rightarrow> run_state \<Rightarrow> nat \<Rightarrow> target \<Rightarrow> patroni_cluster" where
  "patroni_node_config version t ov st i tg =
     \<lparr>pt_name = ''stroppy-pg'', pt_node_name = (''pg'' @ itoa (int i)), pt_version = str_or version ''16'',
      pt_connect_addr = host_of tg,
      pt_etcd_hosts = join '','' (map (\<lambda>e. (host_of e @ '':2379'')) (etcd_targets st)),
      pt_sync_mode = pg_sync_replicas t > 0, pt_sync_count = pg_sync_replicas t,
      pt_options = pg_master_options t, pt_conf_override = at_key ov ''patroni.yml''\<rparr>"

definition patroni_config_plan :: "string \<Rightarrow> postgres_topology option \<Rightarrow> options \<Rightarrow> run_state \<Rightarrow> plan" where
  "patroni_config_plan version topo ov st = with_topology topo (\<lambda>t.
     Plan (In_order (map (\<lambda>(i, tg). (tg, Config_patroni (patroni_node_config version t ov st i tg)))
       (indexed (st_db_targets st)))) None)"

definition pgbouncer_install_plan :: "run_state \<Rightarrow> plan" where
  "pgbouncer_install_plan st = to_all (st_db_targets st) Install_pgbouncer"

definition pgbouncer_auth_type :: "postgres_topology option \<Rightarrow> string" where
  "pgbouncer_auth_type topo =
     (case topo of
        None \<Rightarrow> ''trust''
      | Some t \<Rightarrow> str_or (at_key (pg_pgbouncer_options t) ''auth_type'') ''trust'')"

definition pgbouncer_config_plan :: "postgres_topology option \<Rightarrow> options \<Rightarrow> run_state \<Rightarrow> plan" where
  "pgbouncer_config_plan topo ov st = to_all (st_db_targets st) (Config_pgbouncer
     \<lparr>pb_listen_port = 6432, pb_pool_mode = ''transaction'', pb_max_client_conn = 1000,
      pb_default_pool_size = 25, pb_pg_host = ''127.0.0.1'', pb_pg_port = 5432,
      pb_auth_type = pgbouncer_auth_type topo, pb_conf_override = at_key ov ''pgbouncer.ini''\<rparr>)"

section \<open>Proxies\<close>

definition proxy_install_plan :: "string \<Rightarrow> run_state \<Rightarrow> plan" where
  "proxy_install_plan kind st =
     (if st_proxy_targets st = [] then Plan (In_order []) None
      else if kind = DatabasePostgres \<or> kind = DatabasePicodata \<or> kind = DatabaseYDB
      then to_all (st_proxy_targets st) Install_haproxy
      else if kind = DatabaseMySQL then to_all (st_proxy_targets st) Install_proxysql
      else Plan (In_order []) None)"

definition backends_at :: "string \<Rightarrow> run_state \<Rightarrow> string list" where
  "backends_at port st = map (\<lambda>t. (host_of t @ '':'' @ port)) (st_db_targets st)"

definition haproxy_postgres :: "postgres_topology option \<Rightarrow> options \<Rightarrow> run_state \<Rightarrow> haproxy_setup" where
  "haproxy_postgres topo ov st =
     (let patroni = (case topo of None \<Rightarrow> False | Some t \<Rightarrow> pg_patroni t) in
      \<lparr>hp_db_kind = ''postgres'', hp_write_port = 5000, hp_read_port = 5001,
       hp_backends = backends_at ''5432'' st, hp_health_check = (if patroni then ''patroni'' else ''tcp''),
       hp_patroni_port = (if patroni then 8008 else 0), hp_conf_override = at_key ov ''haproxy.cfg''\<rparr>)"

definition proxysql_mysql :: "mysql_topology option \<Rightarrow> run_state \<Rightarrow> proxysql_setup" where
  "proxysql_mysql topo st =
     \<lparr>px_listen_port = 6033, px_admin_port = 6032, px_backends = backends_at ''3306'' st,
      px_group_replication = (case topo of None \<Rightarrow> False | Some t \<Rightarrow> my_group_repl t),
      px_writer_hostgroup = 10, px_reader_hostgroup = 20\<rparr>"

definition haproxy_picodata :: "options \<Rightarrow> run_state \<Rightarrow> haproxy_setup" where
  "haproxy_picodata ov st =
     \<lparr>hp_db_kind = ''picodata'', hp_write_port = 4327, hp_read_port = 4328,
      hp_backends = backends_at ''4327'' st, hp_health_check = ''tcp'', hp_patroni_port = 0,
      hp_conf_override = at_key ov ''haproxy.cfg''\<rparr>"

definition haproxy_ydb :: "options \<Rightarrow> run_state \<Rightarrow> haproxy_setup" where
  "haproxy_ydb ov st =
     \<lparr>hp_db_kind = ''ydb'', hp_write_port = 2136, hp_read_port = 2137,
      hp_backends = backends_at ''2136'' st, hp_health_check = ''tcp'', hp_patroni_port = 0,
      hp_conf_override = at_key ov ''haproxy.cfg''\<rparr>"

definition proxy_config_plan ::
  "string \<Rightarrow> postgres_topology option \<Rightarrow> mysql_topology option \<Rightarrow> options \<Rightarrow> run_state \<Rightarrow> plan" where
  "proxy_config_plan kind pg my ov st =
     (let ts = st_proxy_targets st in
      if ts = [] then Plan (In_order []) None
      else if kind = DatabasePostgres then to_all ts (Config_haproxy (haproxy_postgres pg ov st))
      else if kind = DatabaseMySQL then to_all ts (Config_proxysql (proxysql_mysql my st))
      else if kind = DatabasePicodata then to_all ts (Config_haproxy (haproxy_picodata ov st))
      else if kind = DatabaseYDB then to_all ts (Config_haproxy (haproxy_ydb ov st))
      else Plan (In_order []) None)"

section \<open>Monitoring\<close>

definition monitor_install_plan :: "string \<Rightarrow> run_state \<Rightarrow> plan" where
  "monitor_install_plan kind st = to_all (all_targets st) (Install_monitor kind)"

definition metrics_endpoint :: "monitor_config \<Rightarrow> string \<Rightarrow> int \<Rightarrow> string" where
  "metrics_endpoint mon url account =
     (if mon_metrics_endpoint mon = [] \<and> url \<noteq> []
      then (url @ ''/insert/'' @ itoa account @ ''/prometheus/api/v1/write'') else mon_metrics_endpoint mon)"

definition monitor_config_plan ::
  "monitor_config \<Rightarrow> string \<Rightarrow> string \<Rightarrow> string \<Rightarrow> string \<Rightarrow> int \<Rightarrow> run_state \<Rightarrow> plan" where
  "monitor_config_plan mon run_id kind url token account st = to_all (all_targets st) (Config_monitor
     \<lparr>mn_metrics_endpoint = metrics_endpoint mon url account, mn_logs_endpoint = mon_logs_endpoint mon,
      mn_scrape_targets = map host_of (all_targets st), mn_run_id = run_id, mn_database_kind = kind,
      mn_bearer_token = token\<rparr>)"

end
