(* ===== verification/StroppyTask.thy ===== *)
theory StroppyTask
  imports Tasks BuilderProps
begin

text \<open>
  The load generator's configuration (\<open>run/task_stroppy.go\<close>). The protobuf message of the stroppy
  package is the record of the fields that the code sets or reads, extensible by the others; its
  JSON codec (\<open>protojson\<close>) is a parameter. \<open>dbHost == "" && dbPort == 0\<close> asks for the preview,
  which holds sentinels instead of the endpoint.
\<close>

definition db_host_placeholder :: string where
  "db_host_placeholder = ''__STROPPY_DB_HOST__''"

definition db_port_placeholder :: string where
  "db_port_placeholder = ''__STROPPY_DB_PORT__''"

definition int32 :: "int \<Rightarrow> int" where
  "int32 x = (x + 2 ^ 31) mod 2 ^ 32 - 2 ^ 31"

record driver_run =
  dr_type :: string
  dr_url :: string
  dr_max_conns :: int
  dr_min_conns :: int

record otlp_export =
  oe_endpoint :: string
  oe_url_path :: string
  oe_insecure :: bool
  oe_prefix :: string
  oe_headers :: "string option"

text \<open>\<open>gc_exporter\<close>: no exporter, an exporter without OTLP, an OTLP exporter.\<close>

record global_config =
  gc_logger :: string
  gc_exporter :: "otlp_export option option"

record stroppy_run =
  sr_version :: string
  sr_script :: "string option"
  sr_drivers :: "(nat \<times> driver_run) list"
  sr_env :: options
  sr_k6_args :: "string list"
  sr_steps :: "string list"
  sr_no_steps :: "string list"
  sr_global :: "global_config option"

definition info_logger :: global_config where
  "info_logger = \<lparr>gc_logger = ''LOG_LEVEL_INFO'', gc_exporter = None\<rparr>"

definition otlp_of :: "stroppy_settings \<Rightarrow> otlp_export" where
  "otlp_of s = \<lparr>oe_endpoint = so_endpoint s, oe_url_path = so_url_path s, oe_insecure = so_insecure s,
     oe_prefix = so_metric_prefix s, oe_headers = (if so_headers s = [] then None else Some (so_headers s))\<rparr>"

definition has_otlp :: "global_config \<Rightarrow> bool" where
  "has_otlp g = (case gc_exporter g of Some (Some _) \<Rightarrow> True | _ \<Rightarrow> False)"

definition resource_attributes :: "stroppy_settings \<Rightarrow> string \<Rightarrow> string" where
  "resource_attributes s run_id = (''service.name='' @ str_or (so_service_name s) ''stroppy'' @
                     '',stroppy.run.id='' @ run_id)"

definition inject_otlp :: "stroppy_settings \<Rightarrow> string \<Rightarrow> 'x stroppy_run_scheme \<Rightarrow> 'x stroppy_run_scheme" where
  "inject_otlp s run_id rc =
     (if so_endpoint s = [] then rc
      else
        (let g = (case sr_global rc of None \<Rightarrow> info_logger | Some g \<Rightarrow> g);
             g = (if has_otlp g then g else g\<lparr>gc_exporter := Some (Some (otlp_of s))\<rparr>);
             rc = rc\<lparr>sr_global := Some g\<rparr>
         in if map_of (sr_env rc) ''OTEL_RESOURCE_ATTRIBUTES'' \<noteq> None then rc
            else rc\<lparr>sr_env := AList.update ''OTEL_RESOURCE_ATTRIBUTES'' (resource_attributes s run_id) (sr_env rc)\<rparr>))"

text \<open>The URL and the driver name of a database kind.\<close>

definition db_driver_url :: "string \<Rightarrow> string \<Rightarrow> string \<Rightarrow> string \<times> string" where
  "db_driver_url kind host port =
     (if kind = DatabasePostgres
      then ((''postgresql://postgres@'' @ host @ '':'' @ port @ ''/postgres?sslmode=disable''), ''postgres'')
      else if kind = DatabaseMySQL then ((''root@tcp('' @ host @ '':'' @ port @ '')/''), ''mysql'')
      else if kind = DatabasePicodata
      then ((''postgres://admin:T0psecret@'' @ host @ '':'' @ port @ ''?sslmode=disable''), ''picodata'')
      else if kind = DatabaseYDB then ((''grpc://'' @ host @ '':'' @ port @ ''/Root/testdb''), ''ydb'')
      else ((host @ '':'' @ port), kind))"

definition vus_of :: "stroppy_config \<Rightarrow> int" where
  "vus_of s =
     (let v = stp_vus s;
          v = (if v = 0 \<and> stp_vus_scale s > 0 then \<lfloor>stp_vus_scale s\<rfloor> else v);
          v = (if v = 0 \<and> stp_workers s > 0 then stp_workers s else v)
      in if v = 0 then 1 else v)"

definition build_stroppy_config ::
  "stroppy_config \<Rightarrow> string \<Rightarrow> string \<Rightarrow> int \<Rightarrow> stroppy_settings \<Rightarrow> string \<Rightarrow> stroppy_run" where
  "build_stroppy_config s kind host port settings run_id =
     (let script = str_or (str_or (stp_script s) (stp_workload s)) ''tpcc/procs'';
          preview = (host = [] \<and> port = 0);
          (url, driver) = db_driver_url kind (if preview then db_host_placeholder else host)
            (if preview then db_port_placeholder else itoa port);
          pool = int_or (stp_pool_size s) 100; scale = int_or (stp_scale_factor s) 1;
          duration = str_or (stp_duration s) ''60s''
      in inject_otlp settings run_id
           \<lparr>sr_version = ''1'', sr_script = Some script,
            sr_drivers = [(0, \<lparr>dr_type = driver, dr_url = url, dr_max_conns = int32 pool,
              dr_min_conns = int32 pool\<rparr>)],
            sr_env = [(''SCALE_FACTOR'', itoa scale), (''POOL_SIZE'', itoa pool)],
            sr_k6_args = [''--vus'', itoa (vus_of s), ''--duration'', duration],
            sr_steps = stp_steps s, sr_no_steps = stp_no_steps s, sr_global = Some info_logger\<rparr>)"

section \<open>The tasks\<close>

text \<open>The JSON codec: \<open>None\<close> is its error.\<close>

record 'x codec =
  cd_marshal :: "'x stroppy_run_scheme \<Rightarrow> string option"
  cd_unmarshal :: "string \<Rightarrow> 'x stroppy_run_scheme option"

definition stroppy_install_plan :: "stroppy_config \<Rightarrow> run_state \<Rightarrow> plan" where
  "stroppy_install_plan s st =
     (case st_stroppy_target st of
        None \<Rightarrow> Task_error ''stroppy target not provisioned''
      | Some tg \<Rightarrow> Plan (In_order [(tg, Install_stroppy (stp_version s))]) None)"

definition task_settings ::
  "(string \<Rightarrow> (string \<times> string) option) \<Rightarrow> stroppy_settings \<Rightarrow> string \<Rightarrow> string \<Rightarrow> int \<Rightarrow> stroppy_settings" where
  "task_settings parse s url token account =
     (if so_endpoint s = [] \<and> url \<noteq> [] then set_from_monitoring_url parse url token account s else s)"

definition fill_endpoint :: "string \<Rightarrow> string \<Rightarrow> string \<Rightarrow> string" where
  "fill_endpoint cfg host port =
     replace_all (replace_all cfg db_host_placeholder host) db_port_placeholder port"

definition stroppy_run_plan ::
  "unit codec \<Rightarrow> stroppy_config \<Rightarrow> stroppy_settings \<Rightarrow> string \<Rightarrow> string \<Rightarrow> run_state \<Rightarrow> plan" where
  "stroppy_run_plan cd s settings kind run_id st =
     (case st_stroppy_target st of
        None \<Rightarrow> Task_error ''stroppy target not provisioned''
      | Some tg \<Rightarrow>
          (let send = (\<lambda>json. Plan (In_order [(tg, Run_stroppy json)]) None) in
           if stp_config_override_json s \<noteq> [] then
             (case cd_unmarshal cd (fill_endpoint (stp_config_override_json s) (st_db_host st) (itoa (st_db_port st))) of
                None \<Rightarrow> Task_error ''parse stroppy config override''
              | Some rc \<Rightarrow> (case cd_marshal cd (inject_otlp settings run_id rc) of
                    None \<Rightarrow> Task_error ''marshal patched stroppy config''
                  | Some json \<Rightarrow> send json))
           else (case cd_marshal cd (build_stroppy_config s kind (st_db_host st) (st_db_port st) settings run_id) of
                None \<Rightarrow> Task_error ''marshal stroppy config''
              | Some json \<Rightarrow> send json)))"

section \<open>Injection keeps the user's choices\<close>

text \<open>
  C37. What injecting the tenant's metrics export does. Without an endpoint in the settings, nothing. With one, the
  configuration has an OTLP exporter afterwards: the one it had, or else one with exactly the endpoint, path, prefix,
  security and headers of the settings (an exporter of another kind is replaced); the rest of its global settings, the
  logger, is kept, or is at level info if there were none. The environment gets the resource attributes, with the
  service and the run, unless it had some, and is the same at every other name; nothing else changes, and
  injecting twice is injecting once.
\<close>

theorem inject_otlp_correct:
  fixes rc :: "'x stroppy_run_scheme" and s :: stroppy_settings and run_id :: string
  defines "rc' \<equiv> inject_otlp s run_id rc"
  shows "(so_endpoint s = [] \<longrightarrow> rc' = rc) \<and>
    (so_endpoint s \<noteq> [] \<longrightarrow>
       (\<exists>logger e. sr_global rc' = Some \<lparr>gc_logger = logger, gc_exporter = Some (Some e)\<rparr> \<and>
          (case sr_global rc of None \<Rightarrow> logger = ''LOG_LEVEL_INFO'' | Some g \<Rightarrow> logger = gc_logger g) \<and>
          (case Option.bind (Option.bind (sr_global rc) gc_exporter) (\<lambda>x. x) of
             Some old \<Rightarrow> e = old
           | None \<Rightarrow> oe_endpoint e = so_endpoint s \<and> oe_url_path e = so_url_path s \<and> oe_insecure e = so_insecure s \<and>
               oe_prefix e = so_metric_prefix s \<and> (oe_headers e = None \<longleftrightarrow> so_headers s = []) \<and>
               (\<forall>h. oe_headers e = Some h \<longrightarrow> h = so_headers s))) \<and>
       (\<forall>k. map_of (sr_env rc') k =
          (if k = ''OTEL_RESOURCE_ATTRIBUTES'' \<and> map_of (sr_env rc) k = None
           then Some ((''service.name='' @
                     (if so_service_name s = [] then ''stroppy'' else so_service_name s) @
                     '',stroppy.run.id='' @ run_id))
           else map_of (sr_env rc) k))) \<and>
    rc' = rc\<lparr>sr_global := sr_global rc', sr_env := sr_env rc'\<rparr> \<and>
    inject_otlp s run_id rc' = rc'"
proof (cases "so_endpoint s = []")
  case True
  then show ?thesis by (simp add: rc'_def inject_otlp_def)
next
  case False
  let ?k = "''OTEL_RESOURCE_ATTRIBUTES''"
  define g where "g = (case sr_global rc of None \<Rightarrow> info_logger | Some g \<Rightarrow> g)"
  define g' where "g' = (if has_otlp g then g else g\<lparr>gc_exporter := Some (Some (otlp_of s))\<rparr>)"
  define env where "env = (if map_of (sr_env rc) ?k \<noteq> None then sr_env rc else AList.update ?k (resource_attributes s run_id) (sr_env rc))"
  have r: "rc' = rc\<lparr>sr_global := Some g', sr_env := env\<rparr>"
    using False by (simp add: rc'_def inject_otlp_def Let_def g_def g'_def env_def)
  have h: "has_otlp g'" by (simp add: g'_def has_otlp_def)
  have e: "map_of env ?k \<noteq> None" by (simp add: env_def update_conv')
  have i: "inject_otlp s run_id rc' = rc'" using False h e by (simp add: r inject_otlp_def Let_def)
  have "\<exists>logger e. Some g' = Some \<lparr>gc_logger = logger, gc_exporter = Some (Some e)\<rparr> \<and>
      (case sr_global rc of None \<Rightarrow> logger = ''LOG_LEVEL_INFO'' | Some g \<Rightarrow> logger = gc_logger g) \<and>
      (case Option.bind (Option.bind (sr_global rc) gc_exporter) (\<lambda>x. x) of
         Some old \<Rightarrow> e = old
       | None \<Rightarrow> oe_endpoint e = so_endpoint s \<and> oe_url_path e = so_url_path s \<and> oe_insecure e = so_insecure s \<and>
           oe_prefix e = so_metric_prefix s \<and> (oe_headers e = None \<longleftrightarrow> so_headers s = []) \<and>
           (\<forall>h. oe_headers e = Some h \<longrightarrow> h = so_headers s))"
    by (intro exI [of _ "gc_logger g'"] exI [of _ "the (the (gc_exporter g'))"])
      (auto simp: g'_def g_def has_otlp_def info_logger_def otlp_of_def split: option.splits)
  moreover have "map_of env k = (if k = ?k \<and> map_of (sr_env rc) k = None
      then Some ((''service.name='' @
                  (if so_service_name s = [] then ''stroppy'' else so_service_name s) @
                  '',stroppy.run.id='' @ run_id))
      else map_of (sr_env rc) k)" for k
    by (auto simp: env_def update_conv' resource_attributes_def str_or_def)
  ultimately show ?thesis using False i r by simp
qed

definition sample_stroppy :: stroppy_config where
  "sample_stroppy = rc_stroppy (sample_cfg None)"

lemma inject_otlp_correct_witness:
  "has_otlp (the (sr_global (inject_otlp (default_stroppy_settings\<lparr>so_endpoint := ''vm:8428''\<rparr>) ''run-1''
     (build_stroppy_config sample_stroppy ''ydb'' [] 0 default_stroppy_settings ''run-1''))))"
proof -
  have "so_endpoint (default_stroppy_settings\<lparr>so_endpoint := ''vm:8428''\<rparr>) \<noteq> []" by simp
  then show ?thesis
    using inject_otlp_correct [of "default_stroppy_settings\<lparr>so_endpoint := ''vm:8428''\<rparr>" "''run-1''"
        "build_stroppy_config sample_stroppy ''ydb'' [] 0 default_stroppy_settings ''run-1''"] by (auto simp: has_otlp_def)
qed

section \<open>The preview's URL becomes the real one\<close>

lemma replace_after_plain:
  assumes "\<not> str_contains a ''__''" and "r = [] \<or> hd r \<noteq> CHR ''_''"
  shows "replace_all (a @ r) (CHR ''_'' # CHR ''_'' # ph) h = a @ replace_all r (CHR ''_'' # CHR ''_'' # ph) h"
  using assms(1)
proof (induction a)
  case (Cons c a)
  have "\<not> has_prefix (c # a @ r) ''__''"
    using Cons.prems assms(2) by (cases a; cases r) auto
  then show ?case using Cons by (simp add: replace_past)
qed simp

lemma fill_url:
  assumes "kind \<in> set supported_kinds" and "\<not> str_contains host ''__''"
  shows "fill_endpoint (fst (db_driver_url kind db_host_placeholder db_port_placeholder)) host port =
      fst (db_driver_url kind host port)"
proof -
  have after: "replace_all (host @ CHR '':'' # r) (CHR ''_'' # CHR ''_'' # ph) p =
      host @ replace_all (CHR '':'' # r) (CHR ''_'' # CHR ''_'' # ph) p" for r ph p
    using replace_after_plain [OF assms(2)] by simp
  have k: "kind = ''postgres'' \<or> kind = ''mysql'' \<or> kind = ''picodata'' \<or> kind = ''ydb''"
    using assms(1) by (simp add: supported_kinds_def)
  show ?thesis
    unfolding fill_endpoint_def db_host_placeholder_def db_port_placeholder_def db_driver_url_def
    using k by (elim disjE) (simp_all add: replace_all.simps after)
qed

text \<open>
  Filling the sentinels of the previewed connection URL with the provisioned endpoint gives
  exactly the URL that the run would have built itself, for every supported kind of database and
  every host that holds no double underscore; the number of virtual users is never zero.
\<close>

theorem preview_url_is_run_url:
  assumes "kind \<in> set supported_kinds" and "\<not> str_contains host ''__''"
  shows "fill_endpoint (fst (db_driver_url kind db_host_placeholder db_port_placeholder)) host (itoa port) =
      fst (db_driver_url kind host (itoa port)) \<and>
    vus_of s \<noteq> 0"
  using fill_url [OF assms] by (simp add: vus_of_def Let_def)

lemma preview_url_is_run_url_witness:
  "fill_endpoint (fst (db_driver_url ''ydb'' db_host_placeholder db_port_placeholder)) ''10.1.0.4'' (itoa 2136) =
     fst (db_driver_url ''ydb'' ''10.1.0.4'' (itoa 2136))"
  using preview_url_is_run_url [of "''ydb''" "''10.1.0.4''" 2136] by (simp add: supported_kinds_def)

text \<open>
  The URL of a YDB run names the default database, whatever database the topology asked the agent
  to create.
\<close>

lemma ydb_url_ignores_path:
  "fst (db_driver_url ''ydb'' host port) = ''grpc://'' @ host @ '':'' @ port @ ''/Root/testdb''"
  by (simp add: db_driver_url_def)

end
