(* ===== verification/Preview.thy ===== *)
theory Preview
  imports StroppyTask
begin

text \<open>
  From a built graph to the files on the machines: what each task of the graph sends, and the
  agreement of what the dry run shows (\<open>Rendered\<close>) with what the agents then write (\<open>AgentDb\<close>).
\<close>

section \<open>What a task sends\<close>

text \<open>The infrastructure tasks send nothing to agents.\<close>

fun plan_of :: "unit codec \<Rightarrow> (string \<Rightarrow> (string \<times> string) option) \<Rightarrow> task \<Rightarrow> run_state \<Rightarrow> plan option" where
  "plan_of cd parse (PgInstallTask v _ pkg) st = Some (pg_install_plan v pkg st)"
| "plan_of cd parse (PgConfigTask v t ov) st = Some (pg_config_plan v t ov st)"
| "plan_of cd parse (MySQLInstallTask v _ pkg) st = Some (mysql_install_plan v pkg st)"
| "plan_of cd parse (MySQLConfigTask t ov) st = Some (mysql_config_plan t ov st)"
| "plan_of cd parse (PicoInstallTask v _ pkg) st = Some (pico_install_plan v pkg st)"
| "plan_of cd parse (PicoConfigTask t ov) st = Some (pico_config_plan t ov st)"
| "plan_of cd parse (YDBInstallTask v _ _) st = Some (ydb_install_plan v st)"
| "plan_of cd parse (YDBConfigTask t ov) st = Some (ydb_config_plan t ov st)"
| "plan_of cd parse (YDBInitTask t) st = Some (ydb_init_plan t st)"
| "plan_of cd parse (YDBStartDBTask t ov) st = Some (ydb_start_plan t ov st)"
| "plan_of cd parse PatroniInstallTask st = Some (patroni_install_plan st)"
| "plan_of cd parse (PatroniConfigTask v t ov) st = Some (patroni_config_plan v t ov st)"
| "plan_of cd parse NoopTask st = Some (Plan (In_order []) None)"
| "plan_of cd parse EtcdInstallTask st = Some (etcd_install_plan st)"
| "plan_of cd parse EtcdConfigTask st = Some (etcd_config_plan st)"
| "plan_of cd parse (MonitorInstallTask k) st = Some (monitor_install_plan k st)"
| "plan_of cd parse (MonitorConfigTask m rid k url tok acc) st = Some (monitor_config_plan m rid k url tok acc st)"
| "plan_of cd parse PgBouncerInstallTask st = Some (pgbouncer_install_plan st)"
| "plan_of cd parse (PgBouncerConfigTask t ov) st = Some (pgbouncer_config_plan t ov st)"
| "plan_of cd parse (ProxyInstallTask k) st = Some (proxy_install_plan k st)"
| "plan_of cd parse (ProxyConfigTask k pg my _ _ ov) st = Some (proxy_config_plan k pg my ov st)"
| "plan_of cd parse (StroppyInstallTask s) st = Some (stroppy_install_plan s st)"
| "plan_of cd parse (StroppyRunTask s settings k rid url tok acc) st =
     Some (stroppy_run_plan cd s (task_settings parse settings url tok acc) k rid st)"
| "plan_of cd parse _ st = None"

definition planned :: "unit codec \<Rightarrow> (string \<Rightarrow> (string \<times> string) option) \<Rightarrow> task \<Rightarrow> run_state \<Rightarrow> (target \<times> payload) list" where
  "planned cd parse t st = (case plan_of cd parse t st of None \<Rightarrow> [] | Some p \<Rightarrow> sends_of p)"

section \<open>What an agent writes\<close>

text \<open>The preview's key of the file a payload configures, and the file the agent puts there.\<close>

fun preview_key :: "payload \<Rightarrow> string" where
  "preview_key (Config_postgres c) = ''postgresql.conf:'' @ pc_role c"
| "preview_key (Config_mysql c) = ''my.cnf:'' @ mc_role c"
| "preview_key (Config_picodata _) = ''picodata.yaml''"
| "preview_key (Config_ydb _) = ''ydb.yaml:storage''"
| "preview_key (Start_ydb_db _) = ''ydb.yaml:database''"
| "preview_key _ = []"

fun for_node :: "'w host \<Rightarrow> payload \<Rightarrow> string \<Rightarrow> string" where
  "for_node h (Config_mysql c) body = substitute_mysql body (mc_node_index c) (mysql_local_host c)"
| "for_node h (Config_picodata c) body = substitute_picodata body (picodata_hostname h c)"
| "for_node h (Config_ydb c) body = substitute_ydb_hosts body (ys_hosts c)"
| "for_node h (Start_ydb_db c) body = substitute_ydb_hosts body (yd_storage_hosts c)"
| "for_node h _ body = body"

text \<open>
  The operation that puts a text into the file that a payload configures: \<open>postgresql.conf\<close> is appended to, under a
  line of its own, the others are written anew.
\<close>

fun write_op :: "payload \<Rightarrow> string \<Rightarrow> op" where
  "write_op (Config_postgres c) text = must ''write postgresql.conf''
     (heredoc ''>>'' (''/etc/postgresql/'' @ postgres_version c @ ''/main/postgresql.conf'') ''PGCONF''
        (nl @ ''# stroppy-agent overrides'' @ nl @ text))"
| "write_op (Config_mysql c) text = must ''write my.cnf''
     (''mkdir -p /etc/mysql && '' @ heredoc ''>'' ''/etc/mysql/my.cnf'' ''MYCNF'' text)"
| "write_op (Config_picodata c) text = must ''write picodata config''
     (''mkdir -p /etc/picodata && '' @ heredoc ''>'' ''/etc/picodata/picodata.yaml'' ''PICOCONF'' text)"
| "write_op (Config_ydb c) text = must ''write ydb config''
     (''mkdir -p /opt/ydb/cfg && '' @ heredoc ''>'' ''/opt/ydb/cfg/config.yaml'' ''YDBCONF'' text)"
| "write_op (Start_ydb_db c) text = must ''write ydb database config''
     (''mkdir -p /opt/ydb/cfg && '' @ heredoc ''>'' ''/opt/ydb/cfg/database.yaml'' ''YDBDBCONF'' text)"
| "write_op _ text = Refuse []"

definition writes :: "payload \<Rightarrow> op list \<Rightarrow> string \<Rightarrow> bool" where
  "writes p ops text \<longleftrightarrow> (\<exists>rest. ops = write_op p text # rest)"

lemma handler_writes:
  "writes (Config_postgres pc) (config_postgres h pc) (postgres_conf_body h pc)"
  "writes (Config_mysql mc) (config_mysql h mc) (mysql_conf_body h mc)"
  "pi_peers pd \<noteq> [] \<Longrightarrow> \<exists>ops. config_picodata h pd = Some ops \<and> writes (Config_picodata pd) ops (picodata_body h pd)"
  "writes (Config_ydb ys) (config_ydb h ys) (ydb_static_body h ys)"
  "writes (Start_ydb_db yd) (start_ydb_db h yd) (ydb_dynamic_body h yd)"
proof -
  show "\<exists>ops. config_picodata h pd = Some ops \<and> writes (Config_picodata pd) ops (picodata_body h pd)" if "pi_peers pd \<noteq> []"
    using that by (cases "pi_peers pd") (simp_all add: config_picodata_def Let_def writes_def)
qed (simp_all add: writes_def config_postgres_def config_mysql_def config_ydb_def start_ydb_db_def Let_def)

section \<open>The dry run shows what the agents write\<close>

text \<open>
  Where preview and run may be compared: overrides are not empty texts, memory sizes are positive,
  MySQL is not 8.4 (the agent renders for 8.0), and the machines phase gave as many YDB machines as
  the topology has storage nodes, and a second PostgreSQL or MySQL machine only with replicas.
\<close>

definition comparable :: "run_config \<Rightarrow> run_state \<Rightarrow> bool" where
  "comparable cfg st \<longleftrightarrow>
     (let db = rc_database cfg; n = length (st_db_targets st) in
      list_all (\<lambda>(_, v). v \<noteq> []) (db_rendered_overrides db) \<and>
      (case db_postgres db of None \<Rightarrow> True
       | Some t \<Rightarrow> list_all (\<lambda>m. 0 < ms_memory_mb m) (pg_master t # pg_replicas t) \<and> (n \<le> 1 \<or> pg_replicas t \<noteq> [])) \<and>
      (case db_mysql db of None \<Rightarrow> True
       | Some t \<Rightarrow> list_all (\<lambda>m. 0 < ms_memory_mb m) (my_primary t # my_replicas t) \<and>
           (n \<le> 1 \<or> my_replicas t \<noteq> []) \<and> db_version db \<noteq> ''8.4'') \<and>
      (case db_picodata db of None \<Rightarrow> True
       | Some t \<Rightarrow> pico_instances t \<noteq> [] \<and> 0 < ms_memory_mb (hd (pico_instances t))) \<and>
      (case db_ydb db of None \<Rightarrow> True
       | Some t \<Rightarrow> 0 < ms_memory_mb (ydb_storage t) \<and> ms_count (ydb_storage t) = int n \<and>
           (case ydb_database t of None \<Rightarrow> True | Some d \<Rightarrow> 0 < ms_memory_mb d)))"

text \<open>An override that is not empty is what both sides take.\<close>

lemma override_body:
  assumes "list_all (\<lambda>(_, v). v \<noteq> []) ov"
  shows "(case map_of ov k of Some v \<Rightarrow> v | None \<Rightarrow> b) = (if at_key ov k = [] then b else at_key ov k)"
  using assms by (auto simp: at_key_def list_all_iff dest: map_of_SomeD split: option.split)

lemma in_indexed: "(i, tg) \<in> set (indexed ts) \<Longrightarrow> i < length ts \<and> tg = ts ! i"
  by (auto simp: indexed_def set_zip)

lemma memory_budget_pos [simp]: "0 < m \<Longrightarrow> memory_budget h m = m"
  by (simp add: memory_budget_def)

lemma render_version:
  "render_postgres_conf \<lparr>po_version = str_or v ''16'', po_role = r, po_options = opt, po_patroni = p, po_memory = m\<rparr> =
   render_postgres_conf \<lparr>po_version = v, po_role = r, po_options = opt, po_patroni = p, po_memory = m\<rparr>"
  "v \<noteq> ''8.4'' \<Longrightarrow>
   render_mysql_conf \<lparr>mo_version = ''8.0'', mo_role = r, mo_semi_sync = ss, mo_group_repl = g, mo_options = opt, mo_memory = m\<rparr> =
   render_mysql_conf \<lparr>mo_version = v, mo_role = r, mo_semi_sync = ss, mo_group_repl = g, mo_options = opt, mo_memory = m\<rparr>"
proof -
  show "render_postgres_conf \<lparr>po_version = str_or v ''16'', po_role = r, po_options = opt, po_patroni = p, po_memory = m\<rparr> =
      render_postgres_conf \<lparr>po_version = v, po_role = r, po_options = opt, po_patroni = p, po_memory = m\<rparr>"
    by (cases "v = []") (simp_all add: render_postgres_conf_def pg_settings_def str_or_def Let_def)
  assume "v \<noteq> ''8.4''"
  then have "mysql_defaults (if v = [] then ''8.0'' else v) = mysql_defaults ''8.0''"
    by (simp add: mysql_defaults_def)
  then show "render_mysql_conf \<lparr>mo_version = ''8.0'', mo_role = r, mo_semi_sync = ss, mo_group_repl = g, mo_options = opt, mo_memory = m\<rparr> =
      render_mysql_conf \<lparr>mo_version = v, mo_role = r, mo_semi_sync = ss, mo_group_repl = g, mo_options = opt, mo_memory = m\<rparr>"
    unfolding render_mysql_conf_def mysql_settings_def Let_def mysql_conf_opts.simps by simp
qed

lemma render_ydb_fault:
  "render_ydb_yaml nt \<lparr>yo_host_count = n, yo_disk_path = d, yo_block_device = b, yo_cpus = c, yo_memory = m,
     yo_fault_tolerance = str_or f ''none''\<rparr> =
   render_ydb_yaml nt \<lparr>yo_host_count = n, yo_disk_path = d, yo_block_device = b, yo_cpus = c, yo_memory = m,
     yo_fault_tolerance = f\<rparr>"
proof -
  let ?o = "\<lambda>f. \<lparr>yo_host_count = n, yo_disk_path = d, yo_block_device = b, yo_cpus = c, yo_memory = m, yo_fault_tolerance = f\<rparr>"
  have e: "ydb_erasure (?o (str_or f ''none'')) = ydb_erasure (?o f)" by (simp add: ydb_erasure_def str_or_def)
  have h: "ydb_hosts (?o g) = ydb_hosts (?o f)" "ydb_pdisk_path (?o g) = ydb_pdisk_path (?o f)"
    "ydb_hard_mb (?o g) = ydb_hard_mb (?o f)" for g
    by (simp_all add: ydb_hosts_def ydb_pdisk_path_def ydb_hard_mb_def)
  have "ydb_ring_lines (?o (str_or f ''none'')) = ydb_ring_lines (?o f)"
    unfolding ydb_ring_lines_def e h [of "str_or f ''none''"] ..
  then show ?thesis
    unfolding render_ydb_yaml_def ydb_lines_def e h [of "str_or f ''none''"] Let_def by simp
qed

lemma preview_postgres:
  assumes "list_all (\<lambda>(_, v). v \<noteq> []) ov" and "list_all (\<lambda>m. 0 < ms_memory_mb m) (pg_master t # pg_replicas t)"
    and "i = 0 \<or> pg_replicas t \<noteq> []"
  shows "map_of (rendered_postgres ov version t) (''postgresql.conf:'' @ pg_role i) =
    Some (postgres_conf_body h (pg_node_config version t ov master i))"
proof -
  show ?thesis
    using assms(2,3)
    by (cases "pg_replicas t"; cases "i = 0")
      (simp_all add: rendered_postgres_def Let_def map_of_put_config override_body [OF assms(1)] postgres_conf_body_def
        postgres_version_def pg_node_config_def pg_role_def node_spec_def render_version)
qed

lemma preview_mysql:
  assumes "list_all (\<lambda>(_, v). v \<noteq> []) ov" and "list_all (\<lambda>m. 0 < ms_memory_mb m) (my_primary t # my_replicas t)"
    and "i = 0 \<or> my_replicas t \<noteq> []" and "version \<noteq> ''8.4''"
  shows "\<exists>body. map_of (rendered_mysql ov version t) (''my.cnf:'' @ mysql_role i) = Some body \<and>
    mysql_conf_body h (mysql_node_config t ov ts i tg) =
      for_node h (Config_mysql (mysql_node_config t ov ts i tg)) body"
  using assms(2,3)
  by (cases "my_replicas t"; cases "i = 0")
    (simp_all add: rendered_mysql_def Let_def map_of_put_config override_body [OF assms(1)] mysql_conf_body_def
      mysql_node_config_def mysql_role_def node_spec_def render_version(2) [OF assms(4)])

lemma preview_picodata:
  assumes "list_all (\<lambda>(_, v). v \<noteq> []) ov" and "pico_instances t \<noteq> []" and "0 < ms_memory_mb (hd (pico_instances t))"
  shows "\<exists>body. map_of (rendered_picodata ov t) ''picodata.yaml'' = Some body \<and>
    picodata_body h (pico_node_config t ov ts i tg) =
      for_node h (Config_picodata (pico_node_config t ov ts i tg)) body"
  using assms(2,3)
  by (cases "pico_instances t")
    (simp_all add: rendered_picodata_def Let_def map_of_put_config override_body [OF assms(1)] picodata_body_def
      pico_node_config_def)

lemma preview_ydb:
  assumes "list_all (\<lambda>(_, v). v \<noteq> []) ov" and "0 < ms_memory_mb (ydb_storage t)"
    and "ms_count (ydb_storage t) = int (length ts)" and "\<forall>d. ydb_database t = Some d \<longrightarrow> 0 < ms_memory_mb d"
  shows "\<exists>body. map_of (rendered_ydb ov t) ''ydb.yaml:storage'' = Some body \<and>
      ydb_static_body h (ydb_node_config t ov ts i tg) = for_node h (Config_ydb (ydb_node_config t ov ts i tg)) body"
    "\<exists>body. map_of (rendered_ydb ov t) ''ydb.yaml:database'' = Some body \<and>
      ydb_dynamic_body h (ydb_dynamic_config t ov ts tg) = for_node h (Start_ydb_db (ydb_dynamic_config t ov ts tg)) body"
proof -
  have disk: "str_or ''/ydb_data'' ''/ydb_data'' = ''/ydb_data''" by (simp add: str_or_def)
  show "\<exists>body. map_of (rendered_ydb ov t) ''ydb.yaml:storage'' = Some body \<and>
      ydb_static_body h (ydb_node_config t ov ts i tg) = for_node h (Config_ydb (ydb_node_config t ov ts i tg)) body"
    "\<exists>body. map_of (rendered_ydb ov t) ''ydb.yaml:database'' = Some body \<and>
      ydb_dynamic_body h (ydb_dynamic_config t ov ts tg) = for_node h (Start_ydb_db (ydb_dynamic_config t ov ts tg)) body"
  using assms(2-4)
  by (auto simp: rendered_ydb_def Let_def map_of_put_config override_body [OF assms(1)] ydb_static_body_def
      ydb_node_config_def ydb_dynamic_body_def ydb_dynamic_config_def render_ydb_storage_conf_def
      render_ydb_database_conf_def render_ydb_fault disk split: option.split)
qed

text \<open>The tasks that configure the database, by kind.\<close>

lemma rendered_of_kind:
  "db_kind (rc_database cfg) = DatabasePostgres \<Longrightarrow> db_postgres (rc_database cfg) = Some tp \<Longrightarrow>
     build_rendered_configs cfg = rendered_postgres (db_rendered_overrides (rc_database cfg)) (db_version (rc_database cfg)) tp"
  "db_kind (rc_database cfg) = DatabaseMySQL \<Longrightarrow> db_mysql (rc_database cfg) = Some tm \<Longrightarrow>
     build_rendered_configs cfg = rendered_mysql (db_rendered_overrides (rc_database cfg)) (db_version (rc_database cfg)) tm"
  "db_kind (rc_database cfg) = DatabasePicodata \<Longrightarrow> db_picodata (rc_database cfg) = Some ti \<Longrightarrow>
     build_rendered_configs cfg = rendered_picodata (db_rendered_overrides (rc_database cfg)) ti"
  "db_kind (rc_database cfg) = DatabaseYDB \<Longrightarrow> db_ydb (rc_database cfg) = Some ty \<Longrightarrow>
     build_rendered_configs cfg = rendered_ydb (db_rendered_overrides (rc_database cfg)) ty"
  by (simp_all add: build_rendered_configs_def Let_def)

definition shown :: "'w host \<Rightarrow> run_config \<Rightarrow> payload \<Rightarrow> bool" where
  "shown h cfg p \<longleftrightarrow> (\<exists>body ops. map_of (build_rendered_configs cfg) (preview_key p) = Some body \<and>
     handler h p = Some ops \<and> writes p ops (for_node h p body))"

lemma shownI:
  "map_of (build_rendered_configs cfg) (preview_key p) = Some body \<Longrightarrow> handler h p = Some ops \<Longrightarrow>
     writes p ops (for_node h p body) \<Longrightarrow> shown h cfg p"
  by (auto simp: shown_def)

lemma shown_postgres:
  assumes "db_kind (rc_database cfg) = DatabasePostgres" and "comparable cfg st"
    and "(tg, p) \<in> set (sends_of (pg_config_plan (db_version (rc_database cfg)) (db_postgres (rc_database cfg))
      (db_rendered_overrides (rc_database cfg)) st))"
  shows "shown h cfg p"
proof -
  let ?db = "rc_database cfg" and ?ov = "db_rendered_overrides (rc_database cfg)"
  obtain t where t: "db_postgres ?db = Some t"
    using assms(3) by (auto simp: pg_config_plan_def with_topology_def split: option.splits)
  obtain i m where p: "p = Config_postgres (pg_node_config (db_version ?db) t ?ov m i)"
    "(i, tg) \<in> set (indexed (st_db_targets st))"
    using assms(3) t by (auto simp: pg_config_plan_def with_topology_def split: list.splits)
  have c: "list_all (\<lambda>(_, v). v \<noteq> []) ?ov" "list_all (\<lambda>m. 0 < ms_memory_mb m) (pg_master t # pg_replicas t)"
    "length (st_db_targets st) \<le> 1 \<or> pg_replicas t \<noteq> []"
    using assms(2) t by (auto simp: comparable_def Let_def)
  then have "i = 0 \<or> pg_replicas t \<noteq> []" using in_indexed [OF p(2)] by auto
  from preview_postgres [OF c(1,2) this] have b:
    "map_of (build_rendered_configs cfg) (''postgresql.conf:'' @ pg_role i) =
       Some (postgres_conf_body h (pg_node_config (db_version ?db) t ?ov m i))"
    unfolding rendered_of_kind(1) [OF assms(1) t] .
  have k: "preview_key p = ''postgresql.conf:'' @ pg_role i" using p(1) by (simp add: pg_node_config_def)
  show ?thesis
    by (rule shownI [OF b [folded k]]) (simp add: p(1), simp only: p(1) for_node.simps handler_writes)
qed

lemma shown_mysql:
  assumes "db_kind (rc_database cfg) = DatabaseMySQL" and "comparable cfg st"
    and "(tg, p) \<in> set (sends_of (mysql_config_plan (db_mysql (rc_database cfg))
      (db_rendered_overrides (rc_database cfg)) st))"
  shows "shown h cfg p"
proof -
  let ?db = "rc_database cfg" and ?ov = "db_rendered_overrides (rc_database cfg)"
  obtain t where t: "db_mysql ?db = Some t"
    using assms(3) by (auto simp: mysql_config_plan_def with_topology_def split: option.splits)
  obtain i where p: "p = Config_mysql (mysql_node_config t ?ov (st_db_targets st) i tg)"
    "(i, tg) \<in> set (indexed (st_db_targets st))"
    using assms(3) t by (auto simp: mysql_config_plan_def with_topology_def)
  have c: "list_all (\<lambda>(_, v). v \<noteq> []) ?ov" "list_all (\<lambda>m. 0 < ms_memory_mb m) (my_primary t # my_replicas t)"
    "length (st_db_targets st) \<le> 1 \<or> my_replicas t \<noteq> []" "db_version ?db \<noteq> ''8.4''"
    using assms(2) t by (auto simp: comparable_def Let_def)
  then have "i = 0 \<or> my_replicas t \<noteq> []" using in_indexed [OF p(2)] by auto
  from preview_mysql [OF c(1,2) this c(4)] obtain body where
    "map_of (rendered_mysql ?ov (db_version ?db) t) (''my.cnf:'' @ mysql_role i) = Some body"
    "mysql_conf_body h (mysql_node_config t ?ov (st_db_targets st) i tg) = for_node h p body"
    unfolding p(1) by blast
  moreover have "preview_key p = ''my.cnf:'' @ mysql_role i" using p(1) by (simp add: mysql_node_config_def)
  moreover have "handler h p = Some (config_mysql h (mysql_node_config t ?ov (st_db_targets st) i tg))"
    using p(1) by simp
  ultimately show ?thesis
    unfolding shown_def rendered_of_kind(2) [OF assms(1) t] p(1) by (metis handler_writes(2))
qed

lemma shown_picodata:
  assumes "db_kind (rc_database cfg) = DatabasePicodata" and "comparable cfg st"
    and "(tg, p) \<in> set (sends_of (pico_config_plan (db_picodata (rc_database cfg))
      (db_rendered_overrides (rc_database cfg)) st))"
  shows "shown h cfg p"
proof -
  let ?db = "rc_database cfg" and ?ov = "db_rendered_overrides (rc_database cfg)"
  obtain t where t: "db_picodata ?db = Some t"
    using assms(3) by (auto simp: pico_config_plan_def with_topology_def split: option.splits)
  obtain i where p: "p = Config_picodata (pico_node_config t ?ov (st_db_targets st) i tg)"
    "(i, tg) \<in> set (indexed (st_db_targets st))"
    using assms(3) t by (auto simp: pico_config_plan_def with_topology_def)
  have c: "list_all (\<lambda>(_, v). v \<noteq> []) ?ov" "pico_instances t \<noteq> []" "0 < ms_memory_mb (hd (pico_instances t))"
    using assms(2) t by (auto simp: comparable_def Let_def)
  from preview_picodata [OF c] obtain body where b:
    "map_of (rendered_picodata ?ov t) ''picodata.yaml'' = Some body"
    "picodata_body h (pico_node_config t ?ov (st_db_targets st) i tg) = for_node h p body"
    unfolding p(1) by blast
  have "pi_peers (pico_node_config t ?ov (st_db_targets st) i tg) \<noteq> []"
    using in_indexed [OF p(2)] by (auto simp: pico_node_config_def)
  from handler_writes(3) [OF this, of h] obtain ops where
    "handler h p = Some ops" "writes p ops (for_node h p body)" using p(1) b(2) by auto
  moreover have "preview_key p = ''picodata.yaml''" using p(1) by simp
  ultimately show ?thesis
    unfolding shown_def rendered_of_kind(3) [OF assms(1) t] using b(1) by metis
qed

lemma shown_ydb:
  assumes "db_kind (rc_database cfg) = DatabaseYDB" and "comparable cfg st"
  shows "(tg, p) \<in> set (sends_of (ydb_config_plan (db_ydb (rc_database cfg))
      (db_rendered_overrides (rc_database cfg)) st)) \<Longrightarrow> shown h cfg p"
    "(tg, p) \<in> set (sends_of (ydb_start_plan (db_ydb (rc_database cfg))
      (db_rendered_overrides (rc_database cfg)) st)) \<Longrightarrow> shown h cfg p"
proof -
  let ?db = "rc_database cfg" and ?ov = "db_rendered_overrides (rc_database cfg)" and ?ts = "st_db_targets st"
  have c: "list_all (\<lambda>(_, v). v \<noteq> []) ?ov" "0 < ms_memory_mb (ydb_storage t)"
    "ms_count (ydb_storage t) = int (length ?ts)" "\<forall>d. ydb_database t = Some d \<longrightarrow> 0 < ms_memory_mb d"
    if "db_ydb ?db = Some t" for t
    using assms(2) that by (auto simp: comparable_def Let_def)
  note prev = preview_ydb [OF c(1) c(2-4)]
  show "shown h cfg p" if mem: "(tg, p) \<in> set (sends_of (ydb_config_plan (db_ydb ?db) ?ov st))"
  proof -
    obtain t where t: "db_ydb ?db = Some t"
      using mem by (auto simp: ydb_config_plan_def with_topology_def split: option.splits)
    obtain i where p: "p = Config_ydb (ydb_node_config t ?ov ?ts i tg)"
      using mem t by (auto simp: ydb_config_plan_def with_topology_def)
    from prev(1) [OF t t t t, of h i tg] obtain body where
      "map_of (rendered_ydb ?ov t) (preview_key p) = Some body"
      "ydb_static_body h (ydb_node_config t ?ov ?ts i tg) = for_node h p body" by (auto simp: p)
    moreover have "handler h p = Some (config_ydb h (ydb_node_config t ?ov ?ts i tg))" using p by simp
    ultimately show ?thesis
      unfolding shown_def rendered_of_kind(4) [OF assms(1) t] p by (metis handler_writes(4))
  qed
  show "shown h cfg p" if mem: "(tg, p) \<in> set (sends_of (ydb_start_plan (db_ydb ?db) ?ov st))"
  proof -
    obtain t where t: "db_ydb ?db = Some t"
      using mem by (auto simp: ydb_start_plan_def with_topology_def split: option.splits)
    have p: "p = Start_ydb_db (ydb_dynamic_config t ?ov ?ts tg)"
      using mem t by (auto simp: ydb_start_plan_def with_topology_def)
    from prev(2) [OF t t t t, of h tg] obtain body where
      "map_of (rendered_ydb ?ov t) (preview_key p) = Some body"
      "ydb_dynamic_body h (ydb_dynamic_config t ?ov ?ts tg) = for_node h p body" by (auto simp: p)
    moreover have "handler h p = Some (start_ydb_db h (ydb_dynamic_config t ?ov ?ts tg))" using p by simp
    ultimately show ?thesis
      unfolding shown_def rendered_of_kind(4) [OF assms(1) t] p by (metis handler_writes(5))
  qed
qed

section \<open>Built graphs\<close>

lemma built_task:
  assumes "build cfg dp order = Inr (g, r)" and "n \<in> set (g_nodes g)"
  obtains install config where "db_tasks cfg = Inr (install, config)"
    "node_task n = map_of (phase_tasks cfg dp install config) (node_id n)"
proof -
  obtain b where b: "build_nodes cfg dp = Inr b" "g = b_graph b"
    using assms(1) by (auto simp: build_def split: sum.splits option.splits)
  from build_nodes_agree [OF b(1)] assms(2) b(2) that show ?thesis by (auto simp: tasks_agree_def)
qed

lemma start_node_ydb:
  assumes "build cfg dp order = Inr (g, r)" and "n \<in> set (g_nodes g)" and "node_id n = PhaseStartYDBDatabase"
  shows "db_kind (rc_database cfg) = DatabaseYDB"
proof -
  obtain b where b: "build_nodes cfg dp = Inr b" "g = b_graph b"
    using assms(1) by (auto simp: build_def split: sum.splits option.splits)
  from build_nodes_agree [OF b(1)] obtain tasks where "db_tasks cfg = Inr tasks" by metis
  from build_nodes_shape [OF this, of dp] b(1) have
    "b_shape b = expected_shape (needs_etcd (rc_database cfg)) (needs_patroni (rc_database cfg))
       (needs_pgbouncer (rc_database cfg)) (needs_proxy (rc_database cfg)) (needs_ydb_init (rc_database cfg))" by auto
  moreover have "shape_of n \<in> set (b_shape b)" using assms(2) b(2) by (simp add: b_shape_def)
  ultimately have "needs_ydb_init (rc_database cfg)"
    using assms(3) by (auto simp: shape_of_def expected_shape_def only_if_def split: if_splits)
  then show ?thesis by (simp add: needs_ydb_init_def)
qed


text \<open>A cluster of the sample topology, and a state with its machines.\<close>

definition sample_targets :: "target list" where
  "sample_targets = map (\<lambda>i. \<lparr>tg_id = ''db-'' @ itoa (int i), tg_host = [], tg_internal = ''10.0.0.'' @ itoa (int i + 1),
     tg_agent_port = 0\<rparr>) [0..<nat (ms_count (ydb_storage (the (db_ydb sample_db))))]"

definition sample_state :: run_state where
  "sample_state = new_state\<lparr>st_db_targets := sample_targets\<rparr>"

lemma sample_comparable: "comparable (sample_cfg None) sample_state"
  by code_simp

definition sample_codec :: "unit codec" where
  "sample_codec = \<lparr>cd_marshal = (\<lambda>_. None), cd_unmarshal = (\<lambda>_. None)\<rparr>"


end
