(* ===== verification/Provision.thy ===== *)
theory Provision
  imports Tasks BuilderProps "HOL-Library.Word"
begin

text \<open>
  The infrastructure tasks (\<open>run/task_infra.go\<close>): the network, the machines of both providers, the
  endpoint that the load generator connects to, and teardown. Docker and terraform are parameters:
  \<open>deploy\<close> is \<open>DockerDeployer.Deploy\<close> by machine id, and a terraform apply gives the addresses of
  the machines by name.
\<close>

section \<open>Network and subnet\<close>

text \<open>
  The docker network of a run: an existing one is reused; \<open>nets\<close> is the listing (\<open>None\<close> its error)
  and \<open>create\<close> the creation.
\<close>

definition docker_network ::
  "string option \<Rightarrow> (string \<times> string) list option \<Rightarrow> (string \<Rightarrow> string + string) \<Rightarrow> string \<Rightarrow> run_state
     \<Rightarrow> string option \<times> run_state" where
  "docker_network client_error nets create run_id st =
     (case client_error of
        Some e \<Rightarrow> (Some ((''network: docker client: '' @ e)), st)
      | None \<Rightarrow>
          (let name = (''stroppy-'' @ run_id) in
           case (case nets of None \<Rightarrow> None | Some ns \<Rightarrow> map_of ns name) of
             Some nid \<Rightarrow> (None, st\<lparr>st_network_id := nid\<rparr>)
           | None \<Rightarrow> (case create name of
                 Inl e \<Rightarrow> (Some ((''network: docker create: '' @ e)), st)
               | Inr nid \<Rightarrow> (None, st\<lparr>st_network_id := nid\<rparr>))))"

type_synonym u8 = "8 word"

fun run_hash :: "u8 \<Rightarrow> string \<Rightarrow> u8" where
  "run_hash h [] = h"
| "run_hash h (c # s) = run_hash (h * 31 + of_char c) s"

definition run_subnet_octet :: "string \<Rightarrow> int" where
  "run_subnet_octet run_id = uint (run_hash 0 run_id mod 254) + 1"

definition run_subnet_cidr :: "string \<Rightarrow> string" where
  "run_subnet_cidr run_id = (''10.'' @ itoa (run_subnet_octet run_id) @ ''.0.0/16'')"

section \<open>Machines\<close>

text \<open>The machines of a run with their ids, role by role.\<close>

definition machine_ids :: "run_config \<Rightarrow> (machine_spec \<times> string) list" where
  "machine_ids cfg = concat (map (\<lambda>m. map (\<lambda>i. (m, (rc_id cfg @ ''-'' @ ms_role m @
                     ''-'' @ itoa (int i))))
     [0..<nat (ms_count m)]) (rc_machines cfg))"

definition db_port :: "string \<Rightarrow> int" where
  "db_port kind = (if kind = DatabaseMySQL then 3306 else if kind = DatabaseYDB then 2136 else 5432)"

text \<open>A new machine joins the targets of its role; the first database machine is the endpoint.\<close>

definition add_machine ::
  "string \<Rightarrow> string \<Rightarrow> target \<Rightarrow> string \<Rightarrow> target list \<times> target list \<times> run_state \<Rightarrow> target list \<times> target list \<times> run_state"
where
  "add_machine kind role tg endpoint acc =
     (case acc of (dbs, proxies, st) \<Rightarrow>
        if role = RoleDatabase then
          (dbs @ [tg], proxies, if dbs = [] then set_db_endpoint endpoint (db_port kind) st else st)
        else if role = RoleProxy then (dbs, proxies @ [tg], st)
        else if role = RoleStroppy then (dbs, proxies, st\<lparr>st_stroppy_target := Some tg\<rparr>)
        else acc)"

fun deploy_machines ::
  "(string \<Rightarrow> string + string \<times> string) \<Rightarrow> string \<Rightarrow> (machine_spec \<times> string) list \<Rightarrow>
     target list \<times> target list \<times> run_state \<Rightarrow> string option \<times> target list \<times> target list \<times> run_state" where
  "deploy_machines deploy kind [] acc = (None, acc)"
| "deploy_machines deploy kind ((m, mid) # ms) acc =
     (case deploy mid of
        Inl e \<Rightarrow> (Some ((''machines: deploy '' @ mid @ '': '' @ e)), acc)
      | Inr (cid, name) \<Rightarrow>
          (let tg = \<lparr>tg_id = mid, tg_host = [], tg_internal = name, tg_agent_port = 0\<rparr>;
               acc = (fst acc, fst (snd acc), add_container_id cid (snd (snd acc)))
           in deploy_machines deploy kind ms (add_machine kind (ms_role m) tg name acc)))"

text \<open>Behind a proxy the load generator connects to it, but not with Picodata.\<close>

definition proxy_endpoint :: "string \<Rightarrow> target list \<Rightarrow> run_state \<Rightarrow> run_state" where
  "proxy_endpoint kind proxies st =
     (case proxies of
        [] \<Rightarrow> st
      | p # _ \<Rightarrow>
          if kind = DatabasePicodata then st
          else if kind = DatabasePostgres then set_db_endpoint (host_of p) 5000 st
          else if kind = DatabaseMySQL then set_db_endpoint (host_of p) 6033 st
          else if kind = DatabaseYDB then set_db_endpoint (host_of p) 2136 st
          else st)"

definition docker_machines ::
  "(string \<Rightarrow> string + string \<times> string) option \<Rightarrow> run_config \<Rightarrow> run_state \<Rightarrow> string option \<times> run_state" where
  "docker_machines deployer cfg st =
     (case deployer of
        None \<Rightarrow> (Some ''machines: DockerDeployer is nil'', st)
      | Some deploy \<Rightarrow>
          (let kind = db_kind (rc_database cfg) in
           case deploy_machines deploy kind (machine_ids cfg) ([], [], st) of
             (Some e, _, _, st) \<Rightarrow> (Some e, st)
           | (None, dbs, proxies, st) \<Rightarrow>
               (None, proxy_endpoint kind proxies (st\<lparr>st_db_targets := dbs, st_proxy_targets := proxies\<rparr>))))"

section \<open>Virtual machines\<close>

record yandex_vm =
  vm_cores :: int
  vm_memory :: int
  vm_disk_size :: int
  vm_disk_type :: string
  vm_public_ip :: bool
  vm_user_data :: string
  vm_secondary :: "secondary_disk list"

text \<open>Whole gigabytes, rounded up to a multiple of the cores.\<close>

definition vm_cores_of :: "machine_spec \<Rightarrow> int" where
  "vm_cores_of m = int_or (ms_cpus m) 2"

definition vm_memory_of :: "machine_spec \<Rightarrow> int" where
  "vm_memory_of m =
     (let cores = vm_cores_of m; gb = int_or (go_quot (ms_memory_mb m) 1024) 4
      in if cores > 0 \<and> go_rem gb cores \<noteq> 0 then go_quot (gb + cores - 1) cores * cores else gb)"

definition vm_secondary_of :: "machine_spec \<Rightarrow> secondary_disk list" where
  "vm_secondary_of m = map (\<lambda>d. d\<lparr>sd_type := str_or (sd_type d) ''network-ssd''\<rparr>)
     (filter (\<lambda>d. sd_device_name d \<noteq> [] \<and> sd_size_gb d > 0) (ms_secondary m))"

definition vm_of :: "yandex_settings \<Rightarrow> string \<Rightarrow> machine_spec \<Rightarrow> yandex_vm" where
  "vm_of yc cloud_init m =
     \<lparr>vm_cores = vm_cores_of m, vm_memory = vm_memory_of m, vm_disk_size = int_or (ms_disk_gb m) 50,
      vm_disk_type = str_or (ms_disk_type m) ''network-ssd'', vm_public_ip = y_assign_public_ip yc,
      vm_user_data = cloud_init, vm_secondary = vm_secondary_of m\<rparr>"

record yandex_vars =
  yv_name :: string
  yv_external_id :: string
  yv_cidr :: string
  yv_zone :: string
  yv_platform_id :: string
  yv_image_id :: string
  yv_serial_port :: bool
  yv_vms :: "(string \<times> yandex_vm) list"

text \<open>
  The maps \<open>vmSpecs\<close> and \<open>vmRoles\<close>, filled machine by machine; \<open>cloud_init\<close> is \<open>GenerateCloudInit\<close>
  by machine id, \<open>Inl\<close> its error.
\<close>

fun vm_specs ::
  "yandex_settings \<Rightarrow> (string \<Rightarrow> string + string) \<Rightarrow> (machine_spec \<times> string) list \<Rightarrow>
     (string \<times> yandex_vm) list \<Rightarrow> (string \<times> string) list \<Rightarrow>
     string + (string \<times> yandex_vm) list \<times> (string \<times> string) list" where
  "vm_specs yc cloud_init [] vms roles = Inr (vms, roles)"
| "vm_specs yc cloud_init ((m, mid) # ms) vms roles =
     (case cloud_init mid of
        Inl e \<Rightarrow> Inl ((''machines: generate cloud-init for '' @ mid @ '': '' @ e))
      | Inr ci \<Rightarrow> vm_specs yc cloud_init ms (AList.update mid (vm_of yc ci m) vms)
          (AList.update mid (ms_role m) roles))"

definition platform_id :: "run_config \<Rightarrow> yandex_settings \<Rightarrow> string" where
  "platform_id cfg yc = str_or (str_or (rc_platform_id cfg) (y_platform_id yc)) ''standard-v2''"

definition yandex_vars_of ::
  "run_config \<Rightarrow> yandex_settings \<Rightarrow> (string \<times> yandex_vm) list \<Rightarrow> yandex_vars" where
  "yandex_vars_of cfg yc vms =
     \<lparr>yv_name = (y_network_name yc @ ''-'' @ rc_id cfg), yv_external_id = y_network_id yc,
      yv_cidr = run_subnet_cidr (rc_id cfg), yv_zone = y_zone yc, yv_platform_id = platform_id cfg yc,
      yv_image_id = y_image_id yc, yv_serial_port = True, yv_vms = vms\<rparr>"

record vm_ip =
  ip_id :: string
  ip_nat :: string
  ip_internal :: string

definition vm_target :: "string \<Rightarrow> vm_ip \<Rightarrow> target" where
  "vm_target name ip = \<lparr>tg_id = name, tg_host = str_or (ip_nat ip) (ip_internal ip),
     tg_internal = ip_internal ip, tg_agent_port = 0\<rparr>"

text \<open>The loop over the map \<open>vmRoles\<close>, in the order \<open>order\<close> that Go chose.\<close>

fun populate ::
  "string \<Rightarrow> (string \<rightharpoonup> string) \<Rightarrow> (string \<rightharpoonup> vm_ip) \<Rightarrow> string list \<Rightarrow>
     target list \<times> target list \<times> run_state \<Rightarrow> string option \<times> target list \<times> target list \<times> run_state" where
  "populate kind roles ips [] acc = (None, acc)"
| "populate kind roles ips (name # order) acc =
     (case ips name of
        None \<Rightarrow> (Some ((''machines: terraform output missing IP for VM \"'' @ name @
                     ''\"'')), acc)
      | Some ip \<Rightarrow> populate kind roles ips order
          (add_machine kind (the (roles name)) (vm_target name ip) (ip_internal ip) acc))"

definition binary_url :: "cloud_settings \<Rightarrow> string \<Rightarrow> string" where
  "binary_url c server_addr =
     (if cs_binary_url c = [] \<and> server_addr \<noteq> [] then (server_addr @ ''/agent/binary'') else cs_binary_url c)"

fun settings_error_text :: "settings_error \<Rightarrow> string" where
  "settings_error_text (MissingYandexField name) = (''yandex cloud: '' @ name @ '' is required'')"
| "settings_error_text MissingServerAddr = ''cloud: server_addr is required''"

text \<open>
  \<open>apply_tf\<close> is terraform with its embedded templates: the error of its set-up or of the apply, with
  the text that says which, or the \<open>vm_ips\<close> output, \<open>Inl\<close> the error of its parsing.
\<close>

definition yandex_machines ::
  "server_settings option \<Rightarrow> string \<Rightarrow> (string \<Rightarrow> string + string) \<Rightarrow>
     (yandex_vars \<Rightarrow> string + (string + (string \<rightharpoonup> vm_ip))) \<Rightarrow> string \<Rightarrow> string list \<Rightarrow> run_config \<Rightarrow> run_state \<Rightarrow>
     string option \<times> run_state" where
  "yandex_machines settings server_addr cloud_init apply_tf wd order cfg st =
     (case settings of
        None \<Rightarrow> (Some ''machines: server settings not configured for Yandex Cloud provider'', st)
      | Some s \<Rightarrow>
          (let cloud = ss_cloud s; yc = cs_yandex cloud; kind = db_kind (rc_database cfg) in
           case validate_cloud cloud of Some e \<Rightarrow> (Some ((''machines: '' @
                     settings_error_text e)), st)
         | None \<Rightarrow> (case yandex_validate yc of Some e \<Rightarrow> (Some ((''machines: '' @
                     settings_error_text e)), st)
         | None \<Rightarrow>
           if binary_url cloud server_addr = []
           then (Some ''machines: binary_url or server_addr must be configured for cloud provider'', st)
           else case vm_specs yc cloud_init (machine_ids cfg) [] [] of
             Inl e \<Rightarrow> (Some e, st)
           | Inr (vms, roles) \<Rightarrow>
               (case apply_tf (yandex_vars_of cfg yc vms) of
                  Inl e \<Rightarrow> (Some ((''machines: '' @ e)), st)
                | Inr out \<Rightarrow>
                    (let st = st\<lparr>st_terraform_wd := wd, st_has_actor := True\<rparr> in
                     case out of
                       Inl e \<Rightarrow> (Some ((''machines: parse terraform output 'vm_ips': '' @
                     e)), st)
                     | Inr ips \<Rightarrow>
                         (case populate kind (map_of roles) ips order ([], [], st) of
                            (Some e, _, _, st) \<Rightarrow> (Some e, st)
                          | (None, dbs, proxies, st) \<Rightarrow>
                              (None, proxy_endpoint kind proxies
                                (st\<lparr>st_db_targets := dbs, st_proxy_targets := proxies\<rparr>))))))))"

text \<open>The dispatch of the two tasks on the provider.\<close>

definition network_task :: "string \<Rightarrow> (run_state \<Rightarrow> string option \<times> run_state) \<Rightarrow> run_state \<Rightarrow> string option \<times> run_state" where
  "network_task provider docker st = (if provider = ProviderDocker then docker st else (None, st))"

definition machines_task ::
  "(run_state \<Rightarrow> string option \<times> run_state) \<Rightarrow> (run_state \<Rightarrow> string option \<times> run_state) \<Rightarrow> run_config \<Rightarrow>
     run_state \<Rightarrow> string option \<times> run_state" where
  "machines_task docker yandex cfg st =
     (if rc_provider cfg = ProviderDocker then docker st
      else if rc_provider cfg = ProviderYandex then yandex st
      else (Some ((''machines: unsupported provider \"'' @ rc_provider cfg @ ''\" (supported: '' @
                   ProviderDocker @ '', '' @ ProviderYandex @ '')'')), st))"

section \<open>Teardown\<close>

text \<open>
  Teardown with docker: every recorded container, then the recorded network. The errors of the removals are only logged,
  and without a client the network is left; the task itself never fails. The result lists the removals that were
  tried with the error of each. \<open>to_stop\<close> and \<open>to_remove\<close> are the calls of Docker. Ids of Docker have 64
  characters, so that the log lines can cut them to twelve.
\<close>

datatype removal = Remove_container string | Remove_network string

record 'w docker_calls =
  to_client :: "string option"
  to_stop :: "string \<Rightarrow> 'w \<Rightarrow> string option \<times> 'w"
  to_remove :: "string \<Rightarrow> 'w \<Rightarrow> string option \<times> 'w"

fun stop_containers :: "'w docker_calls \<Rightarrow> string list \<Rightarrow> 'w \<Rightarrow> (removal \<times> string option) list \<times> 'w" where
  "stop_containers d [] w = ([], w)"
| "stop_containers d (c # cs) w =
     (case to_stop d c w of (e, w) \<Rightarrow> apfst (Cons (Remove_container c, e)) (stop_containers d cs w))"

definition docker_teardown :: "'w docker_calls \<Rightarrow> run_state \<Rightarrow> 'w \<Rightarrow> (removal \<times> string option) list \<times> 'w" where
  "docker_teardown d st w =
     (case stop_containers d (st_containers st) w of
        (tried, w) \<Rightarrow>
          if st_network_id st = [] \<or> to_client d \<noteq> None then (tried, w)
          else (case to_remove d (st_network_id st) w of
                  (e, w) \<Rightarrow> (tried @ [(Remove_network (st_network_id st), e)], w)))"

text \<open>The task: that of Yandex Cloud is \<open>teardown_destroy\<close> of theory \<open>Terraform\<close>.\<close>

definition teardown_task ::
  "string \<Rightarrow> 'w docker_calls \<Rightarrow> ('w \<Rightarrow> string option \<times> 'w) \<Rightarrow> run_state \<Rightarrow> 'w \<Rightarrow> string option \<times> 'w" where
  "teardown_task provider d yandex st w =
     (if provider = ProviderDocker then (None, snd (docker_teardown d st w))
      else if provider = ProviderYandex then yandex w else (None, w))"

section \<open>Bounds\<close>

lemma run_subnet_octet_range: "1 \<le> run_subnet_octet r \<and> run_subnet_octet r \<le> 254"
proof -
  have "run_hash 0 r mod 254 < 254" by (simp add: word_mod_less_divisor)
  then have "uint (run_hash 0 r mod 254) < 254" by (simp add: word_less_def)
  then show ?thesis by (simp add: run_subnet_octet_def)
qed

lemma vm_memory_props:
  assumes "0 \<le> ms_memory_mb m" and "0 \<le> ms_cpus m"
  shows "vm_cores_of m dvd vm_memory_of m" "int_or (ms_memory_mb m div 1024) 4 \<le> vm_memory_of m"
    "vm_memory_of m < int_or (ms_memory_mb m div 1024) 4 + vm_cores_of m"
proof -
  define c where "c = vm_cores_of m"
  define g where "g = int_or (ms_memory_mb m div 1024) 4"
  have c: "0 < c" using assms(2) by (simp add: c_def vm_cores_of_def int_or_def)
  have "0 \<le> ms_memory_mb m div 1024" using assms(1) by simp
  then have g: "0 < g" by (auto simp: g_def int_or_def order_less_le)
  have q: "go_quot (ms_memory_mb m) 1024 = ms_memory_mb m div 1024"
    using assms(1) by (rule go_quot_nonneg) simp
  have r: "go_rem g c = g mod c"
    using c g by (simp add: go_rem_def go_quot_nonneg minus_mult_div_eq_mod)
  have q2: "go_quot (g + c - 1) c = (g + c - 1) div c" using c g by (intro go_quot_nonneg) simp_all
  have mem: "vm_memory_of m = (if g mod c \<noteq> 0 then (g + c - 1) div c * c else g)"
    using c by (simp add: vm_memory_of_def Let_def q r q2 flip: c_def g_def)
  have up: "g \<le> (g + c - 1) div c * c \<and> (g + c - 1) div c * c < g + c"
  proof -
    have "(g + c - 1) div c * c + (g + c - 1) mod c = g + c - 1" by simp
    moreover have "0 \<le> (g + c - 1) mod c" "(g + c - 1) mod c < c" using c by simp_all
    ultimately show ?thesis by linarith
  qed
  show "vm_cores_of m dvd vm_memory_of m" using mem by (auto simp flip: c_def)
  show "int_or (ms_memory_mb m div 1024) 4 \<le> vm_memory_of m"
    using mem up unfolding g_def [symmetric] by simp
  show "vm_memory_of m < int_or (ms_memory_mb m div 1024) 4 + vm_cores_of m"
    using mem up c unfolding g_def [symmetric] c_def [symmetric] by simp
qed

text \<open>
  The sizes sent to terraform are within the cloud's rules: a machine's memory is a multiple of
  its cores, at least the whole gigabytes that were asked for and less than one core's share above
  them, and the run's subnet is 10.x.0.0/16 with x between 1 and 254, whatever the run id.
\<close>

theorem vm_sizes_valid:
  assumes "0 \<le> ms_memory_mb m" and "0 \<le> ms_cpus m"
  shows "vm_cores (vm_of yc ci m) dvd vm_memory (vm_of yc ci m) \<and>
    0 < vm_cores (vm_of yc ci m) \<and> 0 < vm_memory (vm_of yc ci m) \<and>
    ms_memory_mb m div 1024 \<le> vm_memory (vm_of yc ci m) \<and>
    vm_memory (vm_of yc ci m) < int_or (ms_memory_mb m div 1024) 4 + vm_cores (vm_of yc ci m) \<and>
    (\<exists>x. 1 \<le> x \<and> x \<le> 254 \<and> run_subnet_cidr r = ''10.'' @ itoa x @ ''.0.0/16'')"
proof -
  have m: "0 \<le> ms_memory_mb m div 1024" using assms(1) by simp
  have "0 < vm_cores_of m" using assms(2) by (simp add: vm_cores_of_def int_or_def)
  moreover have "ms_memory_mb m div 1024 \<le> vm_memory_of m"
    using vm_memory_props(2) [OF assms] by (simp add: int_or_def split: if_splits)
  moreover have "0 < vm_memory_of m"
    using vm_memory_props(2) [OF assms] m by (auto simp: int_or_def order_less_le split: if_splits)
  ultimately show ?thesis
    using vm_memory_props(1,3) [OF assms] run_subnet_octet_range [of r]
    by (auto simp: vm_of_def run_subnet_cidr_def)
qed

lemma vm_sizes_valid_witness:
  "vm_memory (vm_of (cs_yandex (ss_cloud default_server_settings)) [] (mk_spec RoleDatabase 1 4 9216 50)) = 12 \<and>
   4 dvd vm_memory (vm_of (cs_yandex (ss_cloud default_server_settings)) [] (mk_spec RoleDatabase 1 4 9216 50))"
  using vm_sizes_valid [of "mk_spec RoleDatabase 1 4 9216 50" "cs_yandex (ss_cloud default_server_settings)" "[]"]
  by (simp add: mk_spec_def vm_of_def vm_cores_of_def vm_memory_of_def int_or_def go_quot_def go_rem_def)

text \<open>Different runs may share their subnet.\<close>

lemma subnet_collision: "run_subnet_cidr ''run-1'' = run_subnet_cidr ''run-166''"
proof -
  have "run_hash 0 ''run-1'' = run_hash 0 ''run-166'' \<or> run_hash 0 ''run-1'' mod 254 = run_hash 0 ''run-166'' mod 254"
    by code_simp
  then show ?thesis by (auto simp: run_subnet_cidr_def run_subnet_octet_def)
qed

section \<open>The endpoint\<close>

definition endpoint_of :: "run_state \<Rightarrow> string \<times> int" where
  "endpoint_of st = (st_db_host st, st_db_port st)"

definition ids_of_role :: "string \<Rightarrow> (machine_spec \<times> string) list \<Rightarrow> string list" where
  "ids_of_role role ms = map snd (filter (\<lambda>(m, _). ms_role m = role) ms)"

lemma roles_distinct [simp]:
  "RoleDatabase \<noteq> RoleProxy" "RoleProxy \<noteq> RoleDatabase" "RoleStroppy \<noteq> RoleDatabase" "RoleStroppy \<noteq> RoleProxy"
  by simp_all

text \<open>What the loop over the machines adds to its accumulator.\<close>

lemma deploy_machines_state:
  "deploy_machines deploy kind ms (dbs, proxies, st) = (err, dbs', proxies', st') \<Longrightarrow>
     st_network_id st' = st_network_id st \<and> st_terraform_wd st' = st_terraform_wd st \<and>
     (\<exists>ok rest. ms = ok @ rest \<and> (err = None \<longleftrightarrow> rest = []) \<and>
        list_all (\<lambda>(m, mid). \<exists>r. deploy mid = Inr r) ok \<and>
        st_containers st' = st_containers st @ map (\<lambda>(m, mid). fst (projr (deploy mid))) ok \<and>
        map tg_id dbs' = map tg_id dbs @ ids_of_role RoleDatabase ok \<and>
        map tg_id proxies' = map tg_id proxies @ ids_of_role RoleProxy ok)"
proof (induction ms arbitrary: dbs proxies st)
  case Nil
  then show ?case by (simp add: ids_of_role_def)
next
  case (Cons x ms)
  obtain m mid where x: "x = (m, mid)" by (cases x)
  show ?case
  proof (cases "deploy mid")
    case (Inl e)
    then have "st' = st \<and> dbs' = dbs \<and> proxies' = proxies \<and> err \<noteq> None" using Cons.prems x by auto
    then show ?thesis by (intro conjI exI [of _ "[]"] exI [of _ "x # ms"]) (simp_all add: ids_of_role_def)
  next
    case (Inr r)
    obtain cid name where r: "r = (cid, name)" by (cases r)
    let ?tg = "\<lparr>tg_id = mid, tg_host = [], tg_internal = name, tg_agent_port = 0\<rparr>"
    obtain d p s where acc: "add_machine kind (ms_role m) ?tg name (dbs, proxies, add_container_id cid st) = (d, p, s)"
      by (metis prod.exhaust)
    from Cons.prems have "deploy_machines deploy kind ms (d, p, s) = (err, dbs', proxies', st')"
      using acc Inr r x by simp
    from Cons.IH [OF this] obtain ok rest where ih: "st_network_id st' = st_network_id s"
      "st_terraform_wd st' = st_terraform_wd s" "ms = ok @ rest" "err = None \<longleftrightarrow> rest = []"
      "list_all (\<lambda>(m, mid). \<exists>r. deploy mid = Inr r) ok"
      "st_containers st' = st_containers s @ map (\<lambda>(m, mid). fst (projr (deploy mid))) ok"
      "map tg_id dbs' = map tg_id d @ ids_of_role RoleDatabase ok"
      "map tg_id proxies' = map tg_id p @ ids_of_role RoleProxy ok" by blast
    have step: "st_network_id s = st_network_id st" "st_terraform_wd s = st_terraform_wd st"
      "st_containers s = st_containers st @ [cid]"
      "map tg_id d = map tg_id dbs @ ids_of_role RoleDatabase [x]"
      "map tg_id p = map tg_id proxies @ ids_of_role RoleProxy [x]"
      using acc by (auto simp: add_machine_def add_container_id_def set_db_endpoint_def ids_of_role_def x
          split: if_splits)
    show ?thesis
      by (intro conjI exI [of _ "x # ok"] exI [of _ rest])
        (use ih step Inr r x in \<open>simp_all add: ids_of_role_def\<close>)
  qed
qed

text \<open>The endpoint follows the first database machine, whoever provides the machines.\<close>

definition endpoint_known :: "string \<Rightarrow> target list \<Rightarrow> run_state \<Rightarrow> bool" where
  "endpoint_known kind dbs st \<longleftrightarrow> (dbs \<noteq> [] \<longrightarrow> endpoint_of st = (tg_internal (hd dbs), db_port kind))"

lemma endpoint_known_container [simp]:
  "endpoint_known kind dbs (add_container_id cid st) = endpoint_known kind dbs st"
  by (simp add: endpoint_known_def endpoint_of_def add_container_id_def)

lemma add_machine_endpoint:
  assumes "add_machine kind role tg ep (dbs, proxies, st) = (dbs', proxies', st')"
    and "endpoint_known kind dbs st" and "ep = tg_internal tg"
  shows "endpoint_known kind dbs' st'"
  using assms by (auto simp: add_machine_def endpoint_known_def endpoint_of_def set_db_endpoint_def split: if_splits)

lemma deploy_machines_endpoint:
  "deploy_machines deploy kind ms (dbs, proxies, st) = (err, dbs', proxies', st') \<Longrightarrow>
     endpoint_known kind dbs st \<Longrightarrow> list_all (\<lambda>t. tg_host t = []) (dbs @ proxies) \<Longrightarrow>
     endpoint_known kind dbs' st' \<and> list_all (\<lambda>t. tg_host t = []) (dbs' @ proxies')"
proof (induction ms arbitrary: dbs proxies st)
  case (Cons x ms)
  obtain m mid where x: "x = (m, mid)" by (cases x)
  show ?case
  proof (cases "deploy mid")
    case (Inl e)
    with Cons.prems x show ?thesis by auto
  next
    case (Inr r)
    obtain cid name where r: "r = (cid, name)" by (cases r)
    let ?tg = "\<lparr>tg_id = mid, tg_host = [], tg_internal = name, tg_agent_port = 0\<rparr>"
    obtain d p s where acc: "add_machine kind (ms_role m) ?tg name (dbs, proxies, add_container_id cid st) = (d, p, s)"
      by (metis prod.exhaust)
    have "endpoint_known kind d s"
      by (rule add_machine_endpoint [OF acc]) (use Cons.prems(2) in \<open>simp_all add: endpoint_known_container\<close>)
    moreover have "list_all (\<lambda>t. tg_host t = []) (d @ p)"
      using acc Cons.prems(3) by (auto simp: add_machine_def split: if_splits)
    moreover have "deploy_machines deploy kind ms (d, p, s) = (err, dbs', proxies', st')"
      using Cons.prems(1) acc Inr r x by simp
    ultimately show ?thesis using Cons.IH by blast
  qed
qed simp

text \<open>The machines phase of docker, taken apart once.\<close>

lemma docker_machines_cases:
  assumes "docker_machines (Some deploy) cfg st = (err, st')"
  obtains dbs proxies s where
    "deploy_machines deploy (db_kind (rc_database cfg)) (machine_ids cfg) ([], [], st) = (err, dbs, proxies, s)"
    "st' = (if err = None then proxy_endpoint (db_kind (rc_database cfg)) proxies
        (s\<lparr>st_db_targets := dbs, st_proxy_targets := proxies\<rparr>) else s)"
proof -
  obtain e dbs proxies s where d:
    "deploy_machines deploy (db_kind (rc_database cfg)) (machine_ids cfg) ([], [], st) = (e, dbs, proxies, s)"
    by (metis prod.exhaust)
  with assms have "e = err" "st' = (if err = None then proxy_endpoint (db_kind (rc_database cfg)) proxies
        (s\<lparr>st_db_targets := dbs, st_proxy_targets := proxies\<rparr>) else s)"
    by (auto simp: docker_machines_def Let_def split: option.splits)
  with d that show ?thesis by blast
qed

lemma proxy_endpoint_keeps [simp]:
  "st_containers (proxy_endpoint kind ps st) = st_containers st"
  "st_network_id (proxy_endpoint kind ps st) = st_network_id st"
  "st_terraform_wd (proxy_endpoint kind ps st) = st_terraform_wd st"
  "st_db_targets (proxy_endpoint kind ps st) = st_db_targets st"
  "st_proxy_targets (proxy_endpoint kind ps st) = st_proxy_targets st"
  by (simp_all add: proxy_endpoint_def set_db_endpoint_def split: list.splits)

text \<open>
  The docker machines phase deploys the machines of every specification in order: on success the
  database and proxy targets are the machines of their role in that order, and the run's containers
  are those it had and one for each machine.
\<close>

theorem docker_machines_correct:
  assumes "docker_machines (Some deploy) cfg st = (None, st')"
  shows "map tg_id (st_db_targets st') = ids_of_role RoleDatabase (machine_ids cfg) \<and>
    map tg_id (st_proxy_targets st') = ids_of_role RoleProxy (machine_ids cfg) \<and>
    st_containers st' = st_containers st @ map (\<lambda>(m, mid). fst (projr (deploy mid))) (machine_ids cfg) \<and>
    (\<forall>(m, mid) \<in> set (machine_ids cfg). \<exists>r. deploy mid = Inr r)"
proof -
  from docker_machines_cases [OF assms] obtain dbs proxies s where d:
    "deploy_machines deploy (db_kind (rc_database cfg)) (machine_ids cfg) ([], [], st) = (None, dbs, proxies, s)"
    "st' = proxy_endpoint (db_kind (rc_database cfg)) proxies (s\<lparr>st_db_targets := dbs, st_proxy_targets := proxies\<rparr>)"
    by auto
  from deploy_machines_state [OF d(1)] d(2) show ?thesis by (auto simp: list_all_iff)
qed

text \<open>The proxy that a payload configures takes writes on a port.\<close>

fun listens :: "payload \<Rightarrow> int \<Rightarrow> bool" where
  "listens (Config_haproxy hp) port = (hp_write_port hp = port)"
| "listens (Config_proxysql px) port = (px_listen_port px = port)"
| "listens _ port = False"

lemma proxy_plan_sends:
  "st_proxy_targets st = p # ps \<Longrightarrow> kind = DatabasePostgres \<Longrightarrow>
     (p, Config_haproxy (haproxy_postgres pg ov st)) \<in> set (sends_of (proxy_config_plan kind pg my ov st))"
  "st_proxy_targets st = p # ps \<Longrightarrow> kind = DatabaseMySQL \<Longrightarrow>
     (p, Config_proxysql (proxysql_mysql my st)) \<in> set (sends_of (proxy_config_plan kind pg my ov st))"
  "st_proxy_targets st = p # ps \<Longrightarrow> kind = DatabaseYDB \<Longrightarrow>
     (p, Config_haproxy (haproxy_ydb ov st)) \<in> set (sends_of (proxy_config_plan kind pg my ov st))"
  by (simp_all add: proxy_config_plan_def to_all_def Let_def)

lemma proxy_ports:
  "hp_write_port (haproxy_postgres pg ov st) = 5000" "hp_write_port (haproxy_ydb ov st) = 2136"
  "px_listen_port (proxysql_mysql my st) = 6033"
  by (simp_all add: haproxy_postgres_def haproxy_ydb_def proxysql_mysql_def Let_def)

lemma endpoint_proxy:
  assumes "st_proxy_targets st = p # ps" and "kind \<noteq> DatabasePicodata"
    and "(p, pl) \<in> set (sends_of (proxy_config_plan kind pg my ov st))"
    and "st_db_host st = host_of p" and "listens pl (st_db_port st)"
  shows "if st_proxy_targets st = [] \<or> kind = DatabasePicodata then X
      else st_db_host st = host_of (hd (st_proxy_targets st)) \<and>
        (\<exists>p. (hd (st_proxy_targets st), p) \<in> set (sends_of (proxy_config_plan kind pg my ov st)) \<and>
           listens p (st_db_port st))"
  using assms by auto

text \<open>
  After the docker machines phase the recorded endpoint is the first database machine with the port of its kind, or,
  behind a proxy of a database that is not Picodata, the first proxy machine with the port that the configuration sent
  to that proxy names.
\<close>

lemma endpoint_of_proxy_plan:
  fixes cfg :: run_config and st' :: run_state
  defines "kind \<equiv> db_kind (rc_database cfg)"
  assumes "docker_machines (Some deploy) cfg st = (None, st')" and "st_db_targets st' \<noteq> []"
    and "kind \<in> set supported_kinds"
  shows "(if st_proxy_targets st' = [] \<or> kind = DatabasePicodata
      then endpoint_of st' = (host_of (hd (st_db_targets st')), db_port kind)
      else st_db_host st' = host_of (hd (st_proxy_targets st')) \<and>
        (\<exists>p. (hd (st_proxy_targets st'), p) \<in> set (sends_of (proxy_config_plan kind pg my ov st')) \<and>
           listens p (st_db_port st')))"
proof -
  from docker_machines_cases [OF assms(2)] obtain dbs proxies s where d:
    "deploy_machines deploy kind (machine_ids cfg) ([], [], st) = (None, dbs, proxies, s)"
    "st' = proxy_endpoint kind proxies (s\<lparr>st_db_targets := dbs, st_proxy_targets := proxies\<rparr>)"
    unfolding kind_def by auto
  have e: "endpoint_known kind dbs s \<and> list_all (\<lambda>t. tg_host t = []) (dbs @ proxies)"
    using deploy_machines_endpoint [OF d(1)] by (simp add: endpoint_known_def)
  have ts: "st_db_targets st' = dbs" "st_proxy_targets st' = proxies" using d(2) by simp_all
  from assms(3) ts obtain t dbs' where dbs: "dbs = t # dbs'" by (cases dbs) auto
  have direct: "endpoint_of s = (host_of t, db_port kind)"
    using e dbs by (simp add: endpoint_known_def host_of_def str_or_def)
  have k: "kind = ''postgres'' \<or> kind = ''mysql'' \<or> kind = ''picodata'' \<or> kind = ''ydb''"
    using assms(4) by (simp add: supported_kinds_def)
  show ?thesis
  proof (cases proxies)
    case Nil
    then show ?thesis using d(2) direct dbs by (simp add: proxy_endpoint_def endpoint_of_def)
  next
    case (Cons p ps)
    show ?thesis
      using k
    proof (elim disjE)
      assume "kind = ''picodata''"
      then show ?thesis using d(2) direct dbs Cons by (simp add: proxy_endpoint_def endpoint_of_def)
    next
      assume k: "kind = ''postgres''"
      show ?thesis
        by (rule endpoint_proxy [OF _ _ proxy_plan_sends(1) [of _ p ps]])
          (use d(2) ts Cons k in \<open>simp_all add: proxy_endpoint_def set_db_endpoint_def proxy_ports\<close>)
    next
      assume k: "kind = ''mysql''"
      show ?thesis
        by (rule endpoint_proxy [OF _ _ proxy_plan_sends(2) [of _ p ps]])
          (use d(2) ts Cons k in \<open>simp_all add: proxy_endpoint_def set_db_endpoint_def proxy_ports\<close>)
    next
      assume k: "kind = ''ydb''"
      show ?thesis
        by (rule endpoint_proxy [OF _ _ proxy_plan_sends(3) [of _ p ps]])
          (use d(2) ts Cons k in \<open>simp_all add: proxy_endpoint_def set_db_endpoint_def proxy_ports\<close>)
    qed
  qed
qed

text \<open>
  What Docker's calls do: a removal without an error takes away that container or network and nothing else, one with
  an error nothing.
\<close>

definition lawful_docker :: "'w docker_calls \<Rightarrow> ('w \<Rightarrow> string set) \<Rightarrow> ('w \<Rightarrow> string set) \<Rightarrow> bool" where
  "lawful_docker d containers networks \<longleftrightarrow>
     (\<forall>c w e w'. to_stop d c w = (e, w') \<longrightarrow> networks w' = networks w \<and>
        containers w' = (if e = None then containers w - {c} else containers w)) \<and>
     (\<forall>n w e w'. to_remove d n w = (e, w') \<longrightarrow> containers w' = containers w \<and>
        networks w' = (if e = None then networks w - {n} else networks w))"

lemma stop_containers_tried:
  assumes "lawful_docker d containers networks"
  shows "stop_containers d cs w = (tried, w') \<Longrightarrow> map fst tried = map Remove_container cs \<and> networks w' = networks w \<and>
    containers w' = containers w - {c. (Remove_container c, None) \<in> set tried}"
proof (induction cs arbitrary: w tried w')
  case (Cons c cs)
  obtain e w1 where s: "to_stop d c w = (e, w1)" by fastforce
  obtain ts w2 where t: "stop_containers d cs w1 = (ts, w2)" by fastforce
  have "networks w1 = networks w" "containers w1 = (if e = None then containers w - {c} else containers w)"
    using assms s unfolding lawful_docker_def by blast+
  then show ?case using Cons.IH [OF t] Cons.prems s t by (auto split: if_splits)
qed simp

lemma docker_teardown_tried:
  assumes "lawful_docker d containers networks" and "docker_teardown d st w = (tried, w')"
  shows "map fst tried = map Remove_container (st_containers st) @
      (if st_network_id st = [] \<or> to_client d \<noteq> None then [] else [Remove_network (st_network_id st)]) \<and>
    containers w' = containers w - {c. (Remove_container c, None) \<in> set tried} \<and>
    networks w' = networks w - {n. (Remove_network n, None) \<in> set tried}"
proof -
  obtain ts w1 where t: "stop_containers d (st_containers st) w = (ts, w1)" by fastforce
  note s = stop_containers_tried [OF assms(1) t]
  have only: "(Remove_network n, e) \<notin> set ts" for n e
  proof
    assume "(Remove_network n, e) \<in> set ts"
    then have "Remove_network n \<in> set (map fst ts)" by force
    then show False using s by (simp add: image_iff)
  qed
  show ?thesis
  proof (cases "st_network_id st = [] \<or> to_client d \<noteq> None")
    case True
    then have "tried = ts" "w' = w1" using assms(2) t by (auto simp: docker_teardown_def)
    then show ?thesis using s only True by auto
  next
    case False
    obtain e w2 where r: "to_remove d (st_network_id st) w1 = (e, w2)" by fastforce
    have k: "containers w2 = containers w1" "networks w2 = (if e = None then networks w1 - {st_network_id st} else networks w1)"
      using assms(1) r unfolding lawful_docker_def by blast+
    have "tried = ts @ [(Remove_network (st_network_id st), e)]" "w' = w2"
      using assms(2) t r False by (auto simp: docker_teardown_def)
    then show ?thesis using s only False k by auto
  qed
qed


definition docker_sample :: run_config where
  "docker_sample = (sample_cfg None)\<lparr>rc_id := ''r1'', rc_machines := [mk_spec RoleDatabase 1 2 4096 50,
     mk_spec RoleProxy 1 2 4096 50]\<rparr>"

definition docker_ok :: "string \<Rightarrow> string + string \<times> string" where
  "docker_ok mid = Inr (''c-'' @ mid, mid)"

lemma docker_sample_run:
  "docker_machines (Some docker_ok) docker_sample new_state = (None,
     new_state\<lparr>st_db_targets := [\<lparr>tg_id = ''r1-database-0'', tg_host = [], tg_internal = ''r1-database-0'', tg_agent_port = 0\<rparr>],
       st_proxy_targets := [\<lparr>tg_id = ''r1-proxy-0'', tg_host = [], tg_internal = ''r1-proxy-0'', tg_agent_port = 0\<rparr>],
       st_containers := [''c-r1-database-0'', ''c-r1-proxy-0''],
       st_db_host := ''r1-proxy-0'', st_db_port := 2136\<rparr>)"
  by code_simp

lemma docker_machines_correct_witness:
  "map tg_id (st_db_targets (snd (docker_machines (Some docker_ok) docker_sample new_state))) = 
     ids_of_role RoleDatabase (machine_ids docker_sample)"
  using docker_machines_correct [OF docker_sample_run] by (simp add: docker_sample_run)
  
definition no_image :: "string \<Rightarrow> string + string \<times> string" where
  "no_image mid = (if mid = ''r1-proxy-0'' then Inl ''no such image'' else docker_ok mid)"

definition demo_docker :: "string set docker_calls" where
  "demo_docker = \<lparr>to_client = None, to_stop = (\<lambda>c w. (None, w - {c})), to_remove = (\<lambda>n w. (None, w))\<rparr>"

lemma no_image_run:
  "docker_machines (Some no_image) docker_sample new_state = (Some ''machines: deploy r1-proxy-0: no such image'',
     new_state\<lparr>st_containers := [''c-r1-database-0''], st_db_host := ''r1-database-0'', st_db_port := 2136\<rparr>)"
  by code_simp


end
