(* ===== verification/Terraform.thy ===== *)
theory Terraform
  imports Provision
begin

text \<open>
  The terraform actor (\<open>infrastructure/terraform/actor.go\<close>) with its unit of work (\<open>core/uow/uow.go\<close>), and the two
  tasks of a Yandex Cloud run that use it (\<open>domain/run/task_infra.go\<close>): the apply of the machines task and
  the destroy of the teardown task. The terraform program and the file system are arguments; the laws below say
  which resources exist and which ones the state file of a directory records.
\<close>

section \<open>Working directories\<close>

abbreviation working_dir :: string where
  "working_dir \<equiv> ''/tmp/stroppy-terraform''"

abbreviation var_file_name :: string where
  "var_file_name \<equiv> ''terraform.tfvars.json''"

abbreviation config_file_name :: string where
  "config_file_name \<equiv> ''custom.tfrc''"

text \<open>\<open>path.Join\<close> of an absolute directory and a name: \<open>..\<close> leads up, empty parts and \<open>.\<close> vanish.\<close>

fun clean_parts :: "string list \<Rightarrow> string list \<Rightarrow> string list" where
  "clean_parts done [] = done"
| "clean_parts done (p # ps) =
     (if p = [] \<or> p = ''.'' then clean_parts done ps
      else if p = ''..'' then clean_parts (butlast done) ps
      else clean_parts (done @ [p]) ps)"

definition path_join :: "string \<Rightarrow> string \<Rightarrow> string" where
  "path_join dir name = concat (map (\<lambda>p. CHR ''/'' # p) (clean_parts [] (split_on CHR ''/'' (dir @ ''/'' @ name)))) "

record tf_file =
  tf_name :: string
  tf_content :: string

record workdir =
  wd_id :: string
  wd_files :: "tf_file list"
  wd_vars :: string
  wd_env :: "string \<rightharpoonup> string"
  wd_path :: string

definition new_workdir :: "string \<Rightarrow> tf_file list \<Rightarrow> string \<Rightarrow> (string \<rightharpoonup> string) \<Rightarrow> workdir" where
  "new_workdir wid files vars env =
     \<lparr>wd_id = wid, wd_files = files, wd_vars = vars, wd_env = env, wd_path = path_join working_dir wid\<rparr>"

section \<open>The tool\<close>

text \<open>
  The calls on the operating system and on terraform, each with the error it gives or none; \<open>'c\<close> is the context of
  a call and \<open>'w\<close> the world. \<open>tm_new\<close> and the setters of terraform-exec do not change it.
\<close>

record ('c, 'w) terraform =
  tm_remove_all :: "string \<Rightarrow> 'w \<Rightarrow> string option \<times> 'w"
  tm_mkdir_all :: "string \<Rightarrow> 'w \<Rightarrow> string option \<times> 'w"
  tm_write :: "string \<Rightarrow> string \<Rightarrow> 'w \<Rightarrow> string option \<times> 'w"
  tm_new :: "string \<Rightarrow> 'w \<Rightarrow> string option"
  tm_set_env :: "(string \<rightharpoonup> string) \<Rightarrow> string option"
  tm_log_provider :: "string option"
  tm_log_core :: "string option"
  tm_log :: "string option"
  tm_init :: "'c \<Rightarrow> (string \<rightharpoonup> string) \<Rightarrow> string \<Rightarrow> 'w \<Rightarrow> string option \<times> 'w"
  tm_apply :: "'c \<Rightarrow> (string \<rightharpoonup> string) \<Rightarrow> string \<Rightarrow> 'w \<Rightarrow> string option \<times> 'w"
  tm_output :: "'c \<Rightarrow> (string \<rightharpoonup> string) \<Rightarrow> string \<Rightarrow> 'w \<Rightarrow> string + (string \<rightharpoonup> string)"
  tm_destroy :: "'c \<Rightarrow> (string \<rightharpoonup> string) \<Rightarrow> string \<Rightarrow> 'w \<Rightarrow> string option \<times> 'w"
  tm_environ :: "string list"

definition create_dir :: "('c, 'w) terraform \<Rightarrow> workdir \<Rightarrow> 'w \<Rightarrow> string option \<times> 'w" where
  "create_dir tm wd w =
     (case tm_remove_all tm (wd_path wd) w of
        (Some e, w) \<Rightarrow> (Some ((''error cleaning up working directory: '' @ e)), w)
      | (None, w) \<Rightarrow>
          (case tm_mkdir_all tm (wd_path wd) w of
             (Some e, w) \<Rightarrow> (Some ((''error creating working directory: '' @ e)), w)
           | (None, w) \<Rightarrow> (None, w)))"

fun write_tf_files :: "('c, 'w) terraform \<Rightarrow> string \<Rightarrow> tf_file list \<Rightarrow> 'w \<Rightarrow> string option \<times> 'w" where
  "write_tf_files tm dir [] w = (None, w)"
| "write_tf_files tm dir (f # fs) w =
     (case tm_write tm (path_join dir (tf_name f)) (tf_content f) w of
        (Some e, w) \<Rightarrow> (Some ((''error writing tf file: '' @ e)), w)
      | (None, w) \<Rightarrow> write_tf_files tm dir fs w)"

definition write_files :: "('c, 'w) terraform \<Rightarrow> workdir \<Rightarrow> 'w \<Rightarrow> string option \<times> 'w" where
  "write_files tm wd w =
     (case write_tf_files tm (wd_path wd) (wd_files wd) w of
        (Some e, w) \<Rightarrow> (Some e, w)
      | (None, w) \<Rightarrow>
          (case tm_write tm (path_join (wd_path wd) var_file_name) (wd_vars wd) w of
             (Some e, w) \<Rightarrow> (Some ((''error writing var file: '' @ e)), w)
           | (None, w) \<Rightarrow> (None, w)))"

text \<open>The variables of \<open>os.Environ\<close>: entries without a name are left out, and of two the later one counts.\<close>

definition env_slice_to_map :: "string list \<Rightarrow> string \<rightharpoonup> string" where
  "env_slice_to_map env =
     fold (\<lambda>kv m. let k = takeWhile (\<lambda>c. c \<noteq> CHR ''='') kv in
        if k = kv \<or> k = [] then m else m(k \<mapsto> drop (Suc (length k)) kv)) env Map.empty"

definition tf_env :: "('c, 'w) terraform \<Rightarrow> workdir \<Rightarrow> string \<rightharpoonup> string" where
  "tf_env tm wd = (env_slice_to_map (tm_environ tm) ++ wd_env wd)
     (''TF_CLI_CONFIG_FILE'' \<mapsto> path_join working_dir config_file_name)"

definition new_terraform :: "('c, 'w) terraform \<Rightarrow> 'c \<Rightarrow> workdir \<Rightarrow> 'w \<Rightarrow> string option \<times> 'w" where
  "new_terraform tm ctx wd w =
     (case tm_new tm (wd_path wd) w of
        Some e \<Rightarrow> (Some ((''error running NewTerraform: '' @ e)), w)
      | None \<Rightarrow>
     (case tm_set_env tm (tf_env tm wd) of
        Some e \<Rightarrow> (Some ((''error setting env: '' @ e)), w)
      | None \<Rightarrow>
     (case tm_log_provider tm of
        Some e \<Rightarrow> (Some ((''error setting log provider: '' @ e)), w)
      | None \<Rightarrow>
     (case tm_log_core tm of
        Some e \<Rightarrow> (Some ((''error setting log core: '' @ e)), w)
      | None \<Rightarrow>
     (case tm_log tm of
        Some e \<Rightarrow> (Some ((''error setting log: '' @ e)), w)
      | None \<Rightarrow>
     (case tm_init tm ctx (tf_env tm wd) (wd_path wd) w of
        (Some e, w) \<Rightarrow> (Some ((''error running init: '' @ e)), w)
      | (None, w) \<Rightarrow> (None, w)))))))"

section \<open>Unit of work\<close>

text \<open>The clean-ups that were added, each with its name; rollback runs the last one first and joins the errors.\<close>

type_synonym 's uow = "(string \<times> ('s \<Rightarrow> string option \<times> 's)) list"

definition uow_add :: "string \<Rightarrow> ('s \<Rightarrow> string option \<times> 's) \<Rightarrow> 's uow \<Rightarrow> 's uow" where
  "uow_add name f u = u @ [(name, f)]"

fun run_cleanups :: "'s uow \<Rightarrow> 's \<Rightarrow> string list \<times> 's" where
  "run_cleanups [] s = ([], s)"
| "run_cleanups ((name, f) # u) s =
     (case f s of
        (e, s) \<Rightarrow> (case run_cleanups u s of
          (es, s) \<Rightarrow> ((case e of None \<Rightarrow> es | Some e \<Rightarrow> ((''cleanup '' @
                     name @
                     '': '' @
                     e)) # es), s)))"

definition rollback :: "string \<Rightarrow> 's uow \<Rightarrow> 's \<Rightarrow> string \<times> 's" where
  "rollback primary u s = (case run_cleanups (rev u) s of (es, s) \<Rightarrow> (join nl (primary # es), s))"

section \<open>The actor\<close>

type_synonym actor = "string \<rightharpoonup> workdir"

text \<open>The executable has a default, so that the error of a missing one cannot occur.\<close>

definition tfrc_template :: string where
  "tfrc_template = (nl @ ''provider_installation {'' @ nl @ ''    network_mirror {'' @ nl @
                    ''        url = \"https://terraform-mirror.yandexcloud.net/\"'' @ nl @
                    ''        include = [\"registry.terraform.io/*/*\"]'' @ nl @ ''    }'' @ nl @
                    ''    direct {'' @ nl @ ''        exclude = [\"registry.terraform.io/*/*\"]'' @
                    nl @ ''    }'' @ nl @ ''}'')"

definition new_actor :: "('c, 'w) terraform \<Rightarrow> 'w \<Rightarrow> (string + actor) \<times> 'w" where
  "new_actor tm w =
     (case tm_mkdir_all tm working_dir w of
        (Some e, w) \<Rightarrow> (Inl ((''error creating working directory: '' @ e)), w)
      | (None, w) \<Rightarrow>
          (case tm_write tm (path_join working_dir config_file_name) tfrc_template w of
             (Some e, w) \<Rightarrow> (Inl ((''error writing config file: '' @ e)), w)
           | (None, w) \<Rightarrow> (Inr Map.empty, w)))"

definition destroy_cleanup :: "('c, 'w) terraform \<Rightarrow> 'c \<Rightarrow> workdir \<Rightarrow> actor \<times> 'w \<Rightarrow> string option \<times> actor \<times> 'w" where
  "destroy_cleanup tm ctx wd s =
     (case s of (a, w) \<Rightarrow> (case tm_destroy tm ctx (tf_env tm wd) (wd_path wd) w of (e, w) \<Rightarrow> (e, a(wd_id wd := None), w)))"

definition apply_terraform ::
  "('c, 'w) terraform \<Rightarrow> 'c \<Rightarrow> workdir \<Rightarrow> actor \<times> 'w \<Rightarrow> (string + (string \<rightharpoonup> string)) \<times> actor \<times> 'w" where
  "apply_terraform tm ctx wd s =
     (case s of (a, w) \<Rightarrow>
      if a (wd_id wd) \<noteq> None then (Inl ''working directory already exists'', a, w)
      else let a = a(wd_id wd \<mapsto> wd) in
        (case create_dir tm wd w of
           (Some e, w) \<Rightarrow> (Inl ((''error creating working directory: '' @ e)), a, w)
         | (None, w) \<Rightarrow>
        (case write_files tm wd w of
           (Some e, w) \<Rightarrow> (Inl ((''error writing files: '' @ e)), a, w)
         | (None, w) \<Rightarrow>
        (case new_terraform tm ctx wd w of
           (Some e, w) \<Rightarrow> (Inl ((''error creating terraform instance: '' @ e)), a, w)
         | (None, w) \<Rightarrow>
            (let u = uow_add ''terraform destroy'' (destroy_cleanup tm ctx wd) [] in
             case tm_apply tm ctx (tf_env tm wd) (wd_path wd) w of
               (Some e, w) \<Rightarrow> (case rollback ((''error running apply: '' @ e)) u (a, w) of (e, s) \<Rightarrow> (Inl e, s))
             | (None, w) \<Rightarrow>
                 (case tm_output tm ctx (tf_env tm wd) (wd_path wd) w of
                    Inl e \<Rightarrow> (case rollback ((''error running output: '' @ e)) u (a, w) of (e, s) \<Rightarrow> (Inl e, s))
                  | Inr out \<Rightarrow> (Inr out, a, w)))))))"

text \<open>\<open>shown\<close> prints the directories of the actor in the error.\<close>

definition destroy_terraform ::
  "('c, 'w) terraform \<Rightarrow> (actor \<Rightarrow> string) \<Rightarrow> 'c \<Rightarrow> string \<Rightarrow> actor \<times> 'w \<Rightarrow> string option \<times> actor \<times> 'w" where
  "destroy_terraform tm shown ctx wid s =
     (case s of (a, w) \<Rightarrow>
      case a wid of
        None \<Rightarrow> (Some ((''working directory '' @ wid @
                     '' not found. Available directories: '' @ shown a)), a, w)
      | Some wd \<Rightarrow>
          (case new_terraform tm ctx wd w of
             (Some e, w) \<Rightarrow> (Some ((''error running NewTerraform: '' @ e)), a, w)
           | (None, w) \<Rightarrow>
               (case tm_destroy tm ctx (tf_env tm wd) (wd_path wd) w of (e, w) \<Rightarrow> (e, a(wid := None), w))))"

section \<open>The tasks of a run\<close>

definition yandex_env :: "yandex_settings \<Rightarrow> string \<rightharpoonup> string" where
  "yandex_env yc = [''YC_TOKEN'' \<mapsto> y_token yc, ''YC_CLOUD_ID'' \<mapsto> y_cloud_id yc, ''YC_FOLDER_ID'' \<mapsto> y_folder_id yc, ''YC_ZONE'' \<mapsto> y_zone yc]"

text \<open>
  The apply of the machines task: \<open>files\<close> are the embedded templates, \<open>vars\<close> the variables as JSON. A new actor is made;
  it goes into the state of the run only when the apply has succeeded.
\<close>

definition machines_apply ::
  "('c, 'w) terraform \<Rightarrow> 'c \<Rightarrow> string + tf_file list \<Rightarrow> string + string \<Rightarrow> yandex_settings \<Rightarrow> string \<Rightarrow> 'w \<Rightarrow>
     (string + (string \<rightharpoonup> string)) \<times> actor option \<times> 'w" where
  "machines_apply tm ctx files vars yc rid w =
     (case files of
        Inl e \<Rightarrow> (Inl ((''load embedded terraform templates: '' @ e)), None, w)
      | Inr [] \<Rightarrow> (Inl ''no embedded terraform templates found'', None, w)
      | Inr (f # fs) \<Rightarrow>
     (case vars of
        Inl e \<Rightarrow> (Inl ((''marshal terraform vars: '' @ e)), None, w)
      | Inr vars \<Rightarrow>
     (case new_actor tm w of
        (Inl e, w) \<Rightarrow> (Inl ((''create terraform actor: '' @ e)), None, w)
      | (Inr a, w) \<Rightarrow>
     (case apply_terraform tm ctx (new_workdir rid (f # fs) vars (yandex_env yc)) (a, w) of
        (Inl e, _, w) \<Rightarrow> (Inl ((''terraform apply: '' @ e)), None, w)
      | (Inr out, a, w) \<Rightarrow> (Inr out, Some a, w)))))"

text \<open>The teardown task: without an actor in the state it makes a new one.\<close>

definition teardown_destroy ::
  "('c, 'w) terraform \<Rightarrow> (actor \<Rightarrow> string) \<Rightarrow> 'c \<Rightarrow> actor option \<Rightarrow> run_state \<Rightarrow> 'w \<Rightarrow> string option \<times> 'w" where
  "teardown_destroy tm shown ctx actor st w =
     (if st_terraform_wd st = [] then (None, w)
      else (case (case actor of Some a \<Rightarrow> (Inr a, w) | None \<Rightarrow> new_actor tm w) of
              (Inl e, w) \<Rightarrow> (Some ((''teardown: create terraform actor: '' @ e)), w)
            | (Inr a, w) \<Rightarrow>
                (case destroy_terraform tm shown ctx (st_terraform_wd st) (a, w) of
                   (Some e, _, w) \<Rightarrow> (Some ((''teardown: terraform destroy: '' @ e)), w)
                 | (None, _, w) \<Rightarrow> (None, w))))"


section \<open>What the tool does to resources\<close>

text \<open>
  \<open>alive\<close> are the resources that exist, \<open>tracked\<close> those that the state file of a directory records. Only apply and
  destroy change what exists; an apply in a directory without a state file makes new resources and records them, even
  when it fails; a destroy removes what is recorded, all of it when it succeeds. Removing a directory removes its state
  file and those below, and other files than the state file can be written without a change.
\<close>

definition below :: "string \<Rightarrow> string \<Rightarrow> bool" where
  "below p q \<longleftrightarrow> q = p \<or> has_prefix q (p @ ''/'')"

definition state_file :: "string \<Rightarrow> bool" where
  "state_file p \<longleftrightarrow> has_suffix p ''terraform.tfstate''"

definition lawful :: "('c, 'w) terraform \<Rightarrow> ('w \<Rightarrow> 'r set) \<Rightarrow> ('w \<Rightarrow> string \<Rightarrow> 'r set) \<Rightarrow> bool" where
  "lawful tm alive tracked \<longleftrightarrow>
     (\<forall>p w e w'. tm_remove_all tm p w = (e, w') \<longrightarrow> alive w' = alive w \<and> (e = None \<longrightarrow> tracked w' p = {}) \<and>
        (\<forall>q. \<not> below p q \<longrightarrow> tracked w' q = tracked w q)) \<and>
     (\<forall>p w. alive (snd (tm_mkdir_all tm p w)) = alive w \<and> tracked (snd (tm_mkdir_all tm p w)) = tracked w) \<and>
     (\<forall>p t w. \<not> state_file p \<longrightarrow> alive (snd (tm_write tm p t w)) = alive w \<and> tracked (snd (tm_write tm p t w)) = tracked w) \<and>
     (\<forall>c env p w. alive (snd (tm_init tm c env p w)) = alive w \<and> tracked (snd (tm_init tm c env p w)) = tracked w) \<and>
     (\<forall>c env p w e w'. tm_apply tm c env p w = (e, w') \<and> tracked w p = {} \<longrightarrow>
        (\<exists>N. alive w' = alive w \<union> N \<and> N \<inter> alive w = {} \<and> tracked w' = (tracked w)(p := N))) \<and>
     (\<forall>c env p w e w'. tm_destroy tm c env p w = (e, w') \<longrightarrow>
        (\<exists>D \<subseteq> tracked w p. alive w' = alive w - D \<and> tracked w' = (tracked w)(p := tracked w p - D) \<and> (e = None \<longrightarrow> D = tracked w p)))"

definition plain_names :: "workdir \<Rightarrow> bool" where
  "plain_names wd \<longleftrightarrow> list_all (\<lambda>f. \<not> state_file (path_join (wd_path wd) (tf_name f))) (wd_files wd) \<and>
     \<not> state_file (path_join (wd_path wd) var_file_name)"

lemma lawfulD:
  assumes "lawful tm alive tracked"
  shows "tm_remove_all tm p w = (e, w') \<Longrightarrow> alive w' = alive w"
    "tm_remove_all tm p w = (None, w') \<Longrightarrow> tracked w' p = {}"
    "tm_mkdir_all tm p w = (e, w') \<Longrightarrow> alive w' = alive w \<and> tracked w' = tracked w"
    "\<not> state_file p \<Longrightarrow> tm_write tm p t w = (e, w') \<Longrightarrow> alive w' = alive w \<and> tracked w' = tracked w"
    "tm_init tm c env p w = (e, w') \<Longrightarrow> alive w' = alive w \<and> tracked w' = tracked w"
    "tm_apply tm c env p w = (e, w') \<Longrightarrow> tracked w p = {} \<Longrightarrow>
       \<exists>N. alive w' = alive w \<union> N \<and> N \<inter> alive w = {} \<and> tracked w' = (tracked w)(p := N)"
    "tm_destroy tm c env p w = (e, w') \<Longrightarrow>
       \<exists>D \<subseteq> tracked w p. alive w' = alive w - D \<and> tracked w' = (tracked w)(p := tracked w p - D) \<and> (e = None \<longrightarrow> D = tracked w p)"
  using assms unfolding lawful_def by (metis snd_conv)+

lemma lawful_apply:
  assumes "lawful tm alive tracked" and "tm_apply tm c env p w = (e, w')" and "tracked w p = {}"
  shows "\<exists>N. alive w' = alive w \<union> N \<and> N \<inter> alive w = {} \<and> tracked w' p = N"
  using lawfulD(6) [OF assms] by (metis fun_upd_same)

lemma lawful_destroy:
  assumes "lawful tm alive tracked" and "tm_destroy tm c env p w = (e, w')"
  shows "\<exists>D \<subseteq> tracked w p. alive w' = alive w - D \<and> tracked w' p = tracked w p - D \<and> (e = None \<longrightarrow> D = tracked w p)"
  using lawfulD(7) [OF assms] by (metis fun_upd_same)

lemma create_dir_kept:
  assumes "lawful tm alive tracked" and "create_dir tm wd w = (e, w')"
  shows "alive w' = alive w" "e = None \<Longrightarrow> tracked w' (wd_path wd) = {}"
proof -
  obtain e1 w1 where r: "tm_remove_all tm (wd_path wd) w = (e1, w1)" by fastforce
  obtain e2 w2 where m: "tm_mkdir_all tm (wd_path wd) w1 = (e2, w2)" by fastforce
  note l = lawfulD(1) [OF assms(1) r] lawfulD(3) [OF assms(1) m]
  show "alive w' = alive w" using assms(2) l by (auto simp: create_dir_def r m split: option.splits)
  show "tracked w' (wd_path wd) = {}" if "e = None"
    using assms(2) that l lawfulD(2) [OF assms(1), of "wd_path wd" w w1] r
    by (auto simp: create_dir_def m split: option.splits)
qed

lemma write_tf_files_kept:
  assumes "lawful tm alive tracked"
  shows "write_tf_files tm dir fs w = (e, w') \<Longrightarrow> list_all (\<lambda>f. \<not> state_file (path_join dir (tf_name f))) fs \<Longrightarrow>
    alive w' = alive w \<and> tracked w' = tracked w"
proof (induction fs arbitrary: w)
  case (Cons f fs)
  obtain e1 w1 where r: "tm_write tm (path_join dir (tf_name f)) (tf_content f) w = (e1, w1)" by fastforce
  have "alive w1 = alive w \<and> tracked w1 = tracked w" using lawfulD(4) [OF assms _ r] Cons.prems(2) by simp
  then show ?case using Cons by (auto simp: r split: option.splits)
qed simp

lemma write_files_kept:
  assumes "lawful tm alive tracked" and "plain_names wd" and "write_files tm wd w = (e, w')"
  shows "alive w' = alive w \<and> tracked w' = tracked w"
proof -
  obtain e1 w1 where f: "write_tf_files tm (wd_path wd) (wd_files wd) w = (e1, w1)" by fastforce
  obtain e2 w2 where v: "tm_write tm (path_join (wd_path wd) var_file_name) (wd_vars wd) w1 = (e2, w2)" by fastforce
  have a: "alive w1 = alive w \<and> tracked w1 = tracked w"
    using write_tf_files_kept [OF assms(1) f] assms(2) by (simp add: plain_names_def)
  have "alive w2 = alive w1 \<and> tracked w2 = tracked w1"
    using lawfulD(4) [OF assms(1) _ v] assms(2) by (simp add: plain_names_def)
  then show ?thesis using a assms(3) by (auto simp: write_files_def f v split: option.splits)
qed

lemma new_terraform_kept:
  assumes "lawful tm alive tracked" and "new_terraform tm c wd w = (e, w')"
  shows "alive w' = alive w \<and> tracked w' = tracked w"
proof -
  obtain e1 w1 where i: "tm_init tm c (tf_env tm wd) (wd_path wd) w = (e1, w1)" by fastforce
  show ?thesis using lawfulD(5) [OF assms(1) i] assms(2) by (auto simp: new_terraform_def i split: option.splits)
qed

lemma new_actor_kept:
  assumes "lawful tm alive tracked" and "new_actor tm w = (r, w')"
  shows "alive w' = alive w \<and> tracked w' = tracked w \<and> (\<forall>a. r = Inr a \<longrightarrow> a = Map.empty)"
proof -
  obtain e1 w1 where m: "tm_mkdir_all tm working_dir w = (e1, w1)" by fastforce
  obtain e2 w2 where v: "tm_write tm (path_join working_dir config_file_name) tfrc_template w1 = (e2, w2)" by fastforce
  have "\<not> state_file (path_join working_dir config_file_name)" by code_simp
  from lawfulD(3) [OF assms(1) m] lawfulD(4) [OF assms(1) this v] show ?thesis
    using assms(2) by (auto simp: new_actor_def m v split: option.splits)
qed

section \<open>Applying\<close>

text \<open>One clean-up: the error names it when it fails.\<close>

lemma rollback_one:
  "rollback e (uow_add name f []) s = (case f s of (None, s) \<Rightarrow> (e, s) | (Some x, s) \<Rightarrow> (e @ (nl @
                     ''cleanup '' @
                     name @
                     '': '' @
                     x), s))"
  by (auto simp: rollback_def uow_add_def split: prod.splits option.splits)

definition named_cleanup :: "string \<Rightarrow> bool" where
  "named_cleanup e \<longleftrightarrow> (\<exists>x y. e = x @ (nl @
                     ''cleanup terraform destroy: '') @ y)"

lemma named_cleanup_append: "named_cleanup e \<Longrightarrow> named_cleanup (u @ e)"
  unfolding named_cleanup_def
proof (elim exE)
  fix x y
  assume "e = x @ (nl @ ''cleanup terraform destroy: '') @ y"
  then have "u @ e = (u @ x) @ (nl @ ''cleanup terraform destroy: '') @ y" by (simp only: append_assoc)
  then show "\<exists>x y. u @ e = x @ (nl @ ''cleanup terraform destroy: '') @ y" by blast
qed

text \<open>How an apply ends: before terraform ran, with the output, or after a rollback.\<close>

lemma apply_terraform_ends:
  assumes f: "a (wd_id wd) = None" and r: "apply_terraform tm c wd (a, w) = (r, a', w')"
    and d: "create_dir tm wd w = (e1, w1)" and t: "write_files tm wd w1 = (e2, w2)"
    and i: "new_terraform tm c wd w2 = (e3, w3)" and p: "tm_apply tm c (tf_env tm wd) (wd_path wd) w3 = (e4, w4)"
    and x: "tm_destroy tm c (tf_env tm wd) (wd_path wd) w4 = (e5, w5)"
  obtains (before) "isl r" "w' = w1 \<or> w' = w2 \<or> w' = w3"
    | (good) out where "e1 = None" "r = Inr out" "a' = a(wd_id wd \<mapsto> wd)" "w' = w4"
    | (undone) e where "e1 = None" "r = Inl e" "e5 \<noteq> None \<longrightarrow> named_cleanup e" "a' = a" "w' = w5"
proof -
  have c: "destroy_cleanup tm c wd (a(wd_id wd \<mapsto> wd), w4) = (e5, a, w5)"
    using f by (simp add: destroy_cleanup_def x fun_upd_idem)
  have roll: "\<exists>e'. rollback e (uow_add ''terraform destroy'' (destroy_cleanup tm c wd) []) (a(wd_id wd \<mapsto> wd), w4) = (e', a, w5) \<and>
      (e5 \<noteq> None \<longrightarrow> named_cleanup e')" for e
    unfolding rollback_one c named_cleanup_def by (cases e5) (simp, fastforce)
  show ?thesis
  proof (cases "e1 = None \<and> e2 = None \<and> e3 = None")
    case False
    then have "isl r" "w' = w1 \<or> w' = w2 \<or> w' = w3"
      using r f by (cases e1; cases e2; cases e3; auto simp: apply_terraform_def d t i)+
    then show ?thesis by (rule before)
  next
    case True
    have go: "apply_terraform tm c wd (a, w) = (let u = uow_add ''terraform destroy'' (destroy_cleanup tm c wd) [] in
        case e4 of
          Some e \<Rightarrow> (case rollback ((''error running apply: '' @ e)) u (a(wd_id wd \<mapsto> wd), w4) of (e, s) \<Rightarrow> (Inl e, s))
        | None \<Rightarrow>
            (case tm_output tm c (tf_env tm wd) (wd_path wd) w4 of
               Inl e \<Rightarrow> (case rollback ((''error running output: '' @ e)) u (a(wd_id wd \<mapsto> wd), w4) of (e, s) \<Rightarrow> (Inl e, s))
             | Inr out \<Rightarrow> (Inr out, a(wd_id wd \<mapsto> wd), w4)))"
      using True f by (simp add: apply_terraform_def d t i p Let_def)
    show ?thesis
    proof (cases e4)
      case (Some e)
      obtain e' where "rollback ((''error running apply: '' @ e)) (uow_add ''terraform destroy'' (destroy_cleanup tm c wd) [])
          (a(wd_id wd \<mapsto> wd), w4) = (e', a, w5)" "e5 \<noteq> None \<longrightarrow> named_cleanup e'" using roll by blast
      then show ?thesis using go r True by (intro undone [of e']) (simp_all add: Some Let_def)
    next
      case None
      show ?thesis
      proof (cases "tm_output tm c (tf_env tm wd) (wd_path wd) w4")
        case (Inl e)
        obtain e' where "rollback ((''error running output: '' @ e)) (uow_add ''terraform destroy'' (destroy_cleanup tm c wd) [])
            (a(wd_id wd \<mapsto> wd), w4) = (e', a, w5)" "e5 \<noteq> None \<longrightarrow> named_cleanup e'" using roll by blast
        then show ?thesis using go r True by (intro undone [of e']) (simp_all add: None Inl Let_def)
      next
        case (Inr out)
        then show ?thesis using go r True by (intro good [of out]) (simp_all add: None Let_def)
      qed
    qed
  qed
qed

lemma apply_terraform_cases:
  assumes l: "lawful tm alive tracked" and n: "plain_names wd" and f: "a (wd_id wd) = None"
    and r: "apply_terraform tm c wd (a, w) = (r, a', w')"
  shows "\<exists>N. N \<inter> alive w = {} \<and> alive w' = alive w \<union> N \<and>
    (case r of
       Inr _ \<Rightarrow> tracked w' (wd_path wd) = N \<and> a' = a(wd_id wd \<mapsto> wd)
     | Inl e \<Rightarrow> N = {} \<or> named_cleanup e \<and> tracked w' (wd_path wd) = N \<and> a' = a)"
proof -
  obtain e1 w1 where d: "create_dir tm wd w = (e1, w1)" by fastforce
  obtain e2 w2 where t: "write_files tm wd w1 = (e2, w2)" by fastforce
  obtain e3 w3 where i: "new_terraform tm c wd w2 = (e3, w3)" by fastforce
  obtain e4 w4 where p: "tm_apply tm c (tf_env tm wd) (wd_path wd) w3 = (e4, w4)" by fastforce
  obtain e5 w5 where x: "tm_destroy tm c (tf_env tm wd) (wd_path wd) w4 = (e5, w5)" by fastforce
  have k: "alive w1 = alive w" "alive w2 = alive w" "alive w3 = alive w" "e1 = None \<longrightarrow> tracked w3 (wd_path wd) = {}"
    using create_dir_kept [OF l d] write_files_kept [OF l n t] new_terraform_kept [OF l i] by simp_all
  from f r d t i p x show ?thesis
  proof (cases rule: apply_terraform_ends)
    case before
    from before(2) have "alive w' = alive w" by (elim disjE) (simp_all add: k)
    moreover obtain err where "r = Inl err" using before(1) by (cases r) simp_all
    ultimately show ?thesis by (intro exI [of _ "{}"]) simp
  next
    case (good out)
    then have fresh: "tracked w3 (wd_path wd) = {}" using k(4) by simp
    obtain N where N: "alive w4 = alive w \<union> N" "N \<inter> alive w = {}" "tracked w4 (wd_path wd) = N"
      using lawful_apply [OF l p fresh, unfolded k(3)] by blast
    show ?thesis unfolding good sum.case using N by (intro exI [of _ N]) simp
  next
    case (undone e)
    then have fresh: "tracked w3 (wd_path wd) = {}" using k(4) by simp
    obtain N where N: "alive w4 = alive w \<union> N" "N \<inter> alive w = {}" "tracked w4 (wd_path wd) = N"
      using lawful_apply [OF l p fresh, unfolded k(3)] by blast
    from lawful_destroy [OF l x, unfolded N(3)] obtain D where
      D: "D \<subseteq> N" "alive w5 = alive w4 - D" "tracked w5 (wd_path wd) = N - D" "e5 = None \<longrightarrow> D = N" by blast
    have a: "alive w5 = alive w \<union> (N - D)" unfolding D(2) N(1) using D(1) N(2) by fast
    have b: "(N - D) \<inter> alive w = {}" using N(2) by fast
    have "N - D = {} \<or> named_cleanup e" using D(4) undone(3) by (cases e5) simp_all
    then show ?thesis unfolding undone sum.case using a b D(3) by (intro exI [of _ "N - D"]) simp
  qed
qed

section \<open>Destroying\<close>

lemma destroy_terraform_kept:
  assumes l: "lawful tm alive tracked" and a: "a wid = Some wd"
    and r: "destroy_terraform tm shown c wid (a, w) = (e, a', w')"
  shows "\<exists>D \<subseteq> tracked w (wd_path wd). alive w' = alive w - D \<and> (e = None \<longrightarrow> D = tracked w (wd_path wd))"
proof -
  obtain e1 w1 where n: "new_terraform tm c wd w = (e1, w1)" by fastforce
  obtain e2 w2 where x: "tm_destroy tm c (tf_env tm wd) (wd_path wd) w1 = (e2, w2)" by fastforce
  have k: "alive w1 = alive w" "tracked w1 = tracked w" using new_terraform_kept [OF l n] by simp_all
  show ?thesis
  proof (cases e1)
    case None
    then have "e = e2" "w' = w2" using r by (simp_all add: destroy_terraform_def a n x)
    then show ?thesis using lawful_destroy [OF l x, unfolded k] by blast
  next
    case (Some t)
    then obtain t' where "e = Some t'" "w' = w1" using r by (auto simp: destroy_terraform_def a n)
    then show ?thesis using k by (intro exI [of _ "{}"]) simp
  qed
qed

text \<open>A successful apply is noted in the state of the run.\<close>

definition record_apply :: "string \<Rightarrow> string + 'o \<Rightarrow> run_state \<Rightarrow> run_state" where
  "record_apply rid r st = (case r of Inl _ \<Rightarrow> st | Inr _ \<Rightarrow> st\<lparr>st_terraform_wd := rid, st_has_actor := True\<rparr>)"

lemma machines_apply_cases:
  assumes l: "lawful tm alive tracked" and n: "plain_names (new_workdir rid fs vars (yandex_env yc))"
    and r: "machines_apply tm c (Inr fs) (Inr vars) yc rid w = (r, act, w')"
  shows "\<exists>N. N \<inter> alive w = {} \<and> alive w' = alive w \<union> N \<and>
    (case r of
       Inr _ \<Rightarrow> tracked w' (path_join working_dir rid) = N \<and> (\<exists>a wd. act = Some a \<and> a rid = Some wd \<and> wd_path wd = path_join working_dir rid)
     | Inl e \<Rightarrow> N = {} \<or> named_cleanup e)"
proof (cases fs)
  case Nil
  then have "\<exists>e. r = Inl e" "w' = w" using r by (auto simp: machines_apply_def)
  then show ?thesis by (intro exI [of _ "{}"]) auto
next
  case (Cons f gs)
  let ?wd = "new_workdir rid fs vars (yandex_env yc)"
  have wd: "wd_id ?wd = rid" "wd_path ?wd = path_join working_dir rid" by (simp_all add: new_workdir_def)
  obtain x w1 where x: "new_actor tm w = (x, w1)" by fastforce
  note k = new_actor_kept [OF l x]
  show ?thesis
  proof (cases x)
    case (Inl e)
    then have "\<exists>e. r = Inl e" "w' = w1" using r by (auto simp: machines_apply_def Cons x)
    then show ?thesis using k by (intro exI [of _ "{}"]) auto
  next
    case (Inr a)
    then have a: "a = Map.empty" using k by simp
    obtain q a' w2 where q: "apply_terraform tm c ?wd (Map.empty, w1) = (q, a', w2)" by (metis prod_cases3)
    have e: "(r, act, w') = (case q of Inl e \<Rightarrow> (Inl ((''terraform apply: '' @ e)), None, w2) | Inr out \<Rightarrow> (Inr out, Some a', w2))"
      using r q by (cases q) (auto simp: machines_apply_def Cons x Inr a)
    have f: "(Map.empty :: actor) (wd_id ?wd) = None" by simp
    obtain N where N: "N \<inter> alive w1 = {}" "alive w2 = alive w1 \<union> N"
      "case q of Inr _ \<Rightarrow> tracked w2 (wd_path ?wd) = N \<and> a' = [wd_id ?wd \<mapsto> ?wd]
       | Inl e \<Rightarrow> N = {} \<or> named_cleanup e \<and> tracked w2 (wd_path ?wd) = N \<and> a' = Map.empty"
      using apply_terraform_cases [OF l n f q] by blast
    show ?thesis
    proof (cases q)
      case (Inl e0)
      then have r: "r = Inl ((''terraform apply: '' @ e0))" "w' = w2" using e by simp_all
      show ?thesis unfolding r(1) sum.case
        using N k named_cleanup_append [of e0 "''terraform apply: ''"] Inl r(2) by (intro exI [of _ N]) auto
    next
      case (Inr out)
      then have r: "r = Inr out" "act = Some a'" "w' = w2" using e by simp_all
      show ?thesis unfolding r sum.case using N k wd Inr by (intro exI [of _ N]) auto
    qed
  qed
qed

text \<open>A teardown with the actor of the machines task removes what the directory records, all of it when it succeeds.\<close>

lemma teardown_takes_recorded:
  assumes "lawful tm alive tracked" and "rid \<noteq> []" and "a rid = Some wd" and "wd_path wd = path_join working_dir rid"
    and "teardown_destroy tm shown c (Some a) (record_apply rid (Inr out) new_state) w = (err, w')"
  shows "\<exists>D \<subseteq> tracked w (path_join working_dir rid). alive w' = alive w - D \<and> (err = None \<longrightarrow> D = tracked w (path_join working_dir rid))"
proof -
  obtain e a' w2 where x: "destroy_terraform tm shown c rid (a, w) = (e, a', w2)" by (metis prod_cases3)
  have y: "w' = w2 \<and> (err = None \<longleftrightarrow> e = None)"
    using assms(2,5) by (auto simp: teardown_destroy_def record_apply_def x split: option.splits)
  from destroy_terraform_kept [OF assms(1,3) x, unfolded assms(4)] show ?thesis using y by blast
qed

lemma teardown_after_failure:
  "teardown_destroy tm shown c act (record_apply rid (Inl e) new_state) w = (None, w)"
  by (simp add: teardown_destroy_def record_apply_def new_state_def)

text \<open>
  C10. The life of a Yandex Cloud run's resources, from the world \<open>w\<close>. The apply touches nothing that existed, and a
  failure leaves none of the new resources behind unless the error names the clean-up that failed. A later teardown
  with the actor of the machines task removes nothing but what the directory of the run then records; if nobody else
  has used that directory since the apply, this is nothing but resources of the run, and exactly all of them when the
  teardown succeeds. The directory is named by the run's id alone: \<open>other_apply_keeps_directory\<close> shows that runs
  with another plain id leave it alone, \<open>same_id_takes_over\<close> what a run with the same id does to it.
\<close>

theorem terraform_lifecycle:
  assumes "lawful tm alive tracked" and "plain_names (new_workdir rid fs vars (yandex_env yc))" and "rid \<noteq> []"
    and "machines_apply tm c (Inr fs) (Inr vars) yc rid w = (r, act, w1)"
    and "teardown_destroy tm shown c' act (record_apply rid r new_state) w2 = (err, w3)"
  shows "alive w \<subseteq> alive w1 \<and>
    (\<forall>e. r = Inl e \<and> \<not> named_cleanup e \<longrightarrow> alive w1 = alive w) \<and>
    alive w3 \<subseteq> alive w2 \<and> alive w2 - alive w3 \<subseteq> tracked w2 (path_join working_dir rid) \<and>
    (tracked w2 (path_join working_dir rid) = tracked w1 (path_join working_dir rid) \<longrightarrow>
       alive w2 - alive w3 \<subseteq> alive w1 - alive w \<and>
       (\<forall>out. r = Inr out \<and> err = None \<longrightarrow> alive w3 = alive w2 - (alive w1 - alive w)))"
proof -
  let ?p = "path_join working_dir rid"
  obtain N where N: "N \<inter> alive w = {}" "alive w1 = alive w \<union> N"
    "case r of Inr _ \<Rightarrow> tracked w1 ?p = N \<and> (\<exists>a wd. act = Some a \<and> a rid = Some wd \<and> wd_path wd = ?p)
     | Inl e \<Rightarrow> N = {} \<or> named_cleanup e"
    using machines_apply_cases [OF assms(1,2,4)] by blast
  have d: "alive w1 - alive w = N" using N by blast
  show ?thesis
  proof (cases r)
    case (Inl e)
    then have "w3 = w2" using assms(5) by (simp add: teardown_after_failure)
    then show ?thesis using N Inl d by auto
  next
    case (Inr out)
    then obtain a wd where a: "act = Some a" "a rid = Some wd" "wd_path wd = ?p" and t: "tracked w1 ?p = N" using N(3) by auto
    obtain D where "D \<subseteq> tracked w2 ?p" "alive w3 = alive w2 - D" "err = None \<longrightarrow> D = tracked w2 ?p"
      using teardown_takes_recorded [OF assms(1,3) a(2,3) assms(5) [unfolded Inr a(1)]] by blast
    then show ?thesis using Inr N(2) t unfolding d by auto
  qed
qed

text \<open>The apply of another run records nothing outside its own directory and those below.\<close>

lemma apply_keeps_elsewhere:
  assumes l: "lawful tm alive tracked" and n: "plain_names wd" and q: "\<not> below (wd_path wd) q" and f: "a (wd_id wd) = None"
    and r: "apply_terraform tm c wd (a, w) = (r, a', w')"
  shows "tracked w' q = tracked w q"
proof -
  obtain e0 w0 where m: "tm_remove_all tm (wd_path wd) w = (e0, w0)" by fastforce
  obtain eb wb where b: "tm_mkdir_all tm (wd_path wd) w0 = (eb, wb)" by fastforce
  obtain e1 w1 where d: "create_dir tm wd w = (e1, w1)" by fastforce
  obtain e2 w2 where t: "write_files tm wd w1 = (e2, w2)" by fastforce
  obtain e3 w3 where i: "new_terraform tm c wd w2 = (e3, w3)" by fastforce
  obtain e4 w4 where p: "tm_apply tm c (tf_env tm wd) (wd_path wd) w3 = (e4, w4)" by fastforce
  obtain e5 w5 where x: "tm_destroy tm c (tf_env tm wd) (wd_path wd) w4 = (e5, w5)" by fastforce
  have ne: "q \<noteq> wd_path wd" using q by (auto simp: below_def)
  have "tracked w0 q = tracked w q" using l m q unfolding lawful_def by metis
  moreover have "tracked wb = tracked w0" using lawfulD(3) [OF l b] by simp
  ultimately have k1: "tracked w1 q = tracked w q" using d by (auto simp: create_dir_def m b split: option.splits)
  have k2: "tracked w2 q = tracked w q" using write_files_kept [OF l n t] k1 by simp
  have k3: "tracked w3 q = tracked w q" using new_terraform_kept [OF l i] k2 by simp
  from f r d t i p x show ?thesis
  proof (cases rule: apply_terraform_ends)
    case before
    then show ?thesis using k1 k2 k3 by auto
  next
    case (good out)
    then have "tracked w3 (wd_path wd) = {}"
      using create_dir_kept(2) [OF l d] write_files_kept [OF l n t] new_terraform_kept [OF l i] by simp
    then show ?thesis using lawfulD(6) [OF l p] good(4) k3 ne by auto
  next
    case (undone e)
    then have "tracked w3 (wd_path wd) = {}"
      using create_dir_kept(2) [OF l d] write_files_kept [OF l n t] new_terraform_kept [OF l i] by simp
    then have "tracked w4 q = tracked w q" using lawfulD(6) [OF l p] k3 ne by auto
    then show ?thesis using lawfulD(7) [OF l x] undone(5) ne by auto
  qed
qed

lemma other_apply_keeps_directory:
  assumes l: "lawful tm alive tracked" and n: "plain_names (new_workdir rid' fs vars (yandex_env yc))"
    and q: "\<not> below (path_join working_dir rid') (path_join working_dir rid)"
    and r: "machines_apply tm c (Inr fs) (Inr vars) yc rid' w = (r, act, w')"
  shows "tracked w' (path_join working_dir rid) = tracked w (path_join working_dir rid)"
proof (cases fs)
  case Nil
  then show ?thesis using r by (simp add: machines_apply_def)
next
  case (Cons f gs)
  let ?wd = "new_workdir rid' fs vars (yandex_env yc)"
  have wd: "wd_id ?wd = rid'" "wd_path ?wd = path_join working_dir rid'" by (simp_all add: new_workdir_def)
  obtain x w1 where x: "new_actor tm w = (x, w1)" by fastforce
  note k = new_actor_kept [OF l x]
  show ?thesis
  proof (cases x)
    case (Inl e)
    then show ?thesis using r k by (auto simp: machines_apply_def Cons x)
  next
    case (Inr a)
    then have a: "a = Map.empty" using k by simp
    obtain y a' w2 where y: "apply_terraform tm c ?wd (Map.empty, w1) = (y, a', w2)" by (metis prod_cases3)
    have "w' = w2" using r y by (cases y) (auto simp: machines_apply_def Cons x Inr a)
    moreover have "tracked w2 (path_join working_dir rid) = tracked w1 (path_join working_dir rid)"
      using apply_keeps_elsewhere [OF l n _ _ y] q wd by simp
    ultimately show ?thesis using k by simp
  qed
qed

text \<open>
  A second run with the same id, of another tenant say, takes the directory over: the teardown of the first then
  removes the resources of the second and leaves its own.
\<close>

lemma same_id_takes_over:
  assumes l: "lawful tm alive tracked" and n: "plain_names (new_workdir rid fs' vars' (yandex_env yc'))" and i: "rid \<noteq> []"
    and n1: "plain_names (new_workdir rid fs vars (yandex_env yc))"
    and a1: "machines_apply tm c (Inr fs) (Inr vars) yc rid w = (Inr out, act, w1)"
    and a2: "machines_apply tm c' (Inr fs') (Inr vars') yc' rid w1 = (Inr out', act', w2)"
    and t: "teardown_destroy tm shown c'' act (record_apply rid (Inr out) new_state) w2 = (None, w3)"
  shows "alive w3 = alive w1"
proof -
  let ?p = "path_join working_dir rid"
  obtain a wd where a: "act = Some a" "a rid = Some wd" "wd_path wd = ?p" using machines_apply_cases [OF l n1 a1] by auto
  obtain N where N: "N \<inter> alive w1 = {}" "alive w2 = alive w1 \<union> N" "tracked w2 ?p = N"
    using machines_apply_cases [OF l n a2] by auto
  have "alive w3 = alive w2 - N" using teardown_takes_recorded [OF l i a(2,3) t [unfolded a(1)]] N(3) by auto
  then show ?thesis using N(1,2) by blast
qed

text \<open>A tool that makes one machine in a directory; the world is what exists and what the directories record.\<close>

definition demo_terraform :: "(unit, string set \<times> (string \<Rightarrow> string set)) terraform" where
  "demo_terraform = \<lparr>tm_remove_all = (\<lambda>p (al, tr). (None, al, \<lambda>q. if below p q then {} else tr q)),
     tm_mkdir_all = (\<lambda>p w. (None, w)), tm_write = (\<lambda>p t w. (None, w)), tm_new = (\<lambda>p w. None), tm_set_env = (\<lambda>e. None),
     tm_log_provider = None, tm_log_core = None, tm_log = None, tm_init = (\<lambda>c e p w. (None, w)),
     tm_apply = (\<lambda>c e p (al, tr). (None, insert ((p @ ''/vm'')) al, tr(p := {(p @ ''/vm'')} - al))),
     tm_output = (\<lambda>c e p w. Inr [''vm_ips'' \<mapsto> []]),
     tm_destroy = (\<lambda>c e p (al, tr). (None, al - tr p, tr(p := {}))), tm_environ = []\<rparr>"

lemma demo_lawful: "lawful demo_terraform fst snd"
  unfolding lawful_def
proof (intro conjI)
  show "\<forall>c env p w e w'. tm_apply demo_terraform c env p w = (e, w') \<and> snd w p = {} \<longrightarrow>
      (\<exists>N. fst w' = fst w \<union> N \<and> N \<inter> fst w = {} \<and> snd w' = (snd w)(p := N))"
  proof (intro allI impI)
    fix c env p e and w w' :: "string set \<times> (string \<Rightarrow> string set)"
    assume a: "tm_apply demo_terraform c env p w = (e, w') \<and> snd w p = {}"
    show "\<exists>N. fst w' = fst w \<union> N \<and> N \<inter> fst w = {} \<and> snd w' = (snd w)(p := N)"
      by (rule exI [of _ "{(p @ ''/vm'')} - fst w"]) (use a in \<open>auto simp: demo_terraform_def split: prod.splits\<close>)
  qed
  show "\<forall>c env p w e w'. tm_destroy demo_terraform c env p w = (e, w') \<longrightarrow>
      (\<exists>D \<subseteq> snd w p. fst w' = fst w - D \<and> snd w' = (snd w)(p := snd w p - D) \<and> (e = None \<longrightarrow> D = snd w p))"
  proof (intro allI impI)
    fix c env p e and w w' :: "string set \<times> (string \<Rightarrow> string set)"
    assume a: "tm_destroy demo_terraform c env p w = (e, w')"
    show "\<exists>D \<subseteq> snd w p. fst w' = fst w - D \<and> snd w' = (snd w)(p := snd w p - D) \<and> (e = None \<longrightarrow> D = snd w p)"
      by (rule exI [of _ "snd w p"]) (use a in \<open>auto simp: demo_terraform_def split: prod.splits\<close>)
  qed
qed (auto simp: demo_terraform_def below_def split: prod.splits)

definition demo_tf_files :: "tf_file list" where
  "demo_tf_files = [\<lparr>tf_name = ''main.tf'', tf_content = []\<rparr>]"

definition demo_yandex :: yandex_settings where
  "demo_yandex = \<lparr>y_token = ''t'', y_cloud_id = ''c'', y_folder_id = ''f'', y_zone = ''z'', y_network_id = [], y_network_name = [],
     y_subnet_cidr = [], y_platform_id = [], y_image_id = [], y_assign_public_ip = False, y_ssh_user = [], y_ssh_public_key = []\<rparr>"

lemma demo_plain: "plain_names (new_workdir ''run-1'' demo_tf_files ''{}'' (yandex_env demo_yandex))"
  unfolding plain_names_def new_workdir_def demo_tf_files_def by code_simp

lemma demo_path: "path_join working_dir ''run-1'' = ''/tmp/stroppy-terraform/run-1''"
  by code_simp

theorem terraform_lifecycle_witness:
  "\<exists>r act w1 w3. machines_apply demo_terraform () (Inr demo_tf_files) (Inr ''{}'') demo_yandex ''run-1'' ({}, \<lambda>p. {}) = (r, act, w1) \<and>
     fst w1 = {''/tmp/stroppy-terraform/run-1/vm''} \<and>
     teardown_destroy demo_terraform (\<lambda>a. []) () act (record_apply ''run-1'' r new_state) w1 = (None, w3) \<and> fst w3 = {}"
proof -
  obtain r act w1 where m: "machines_apply demo_terraform () (Inr demo_tf_files) (Inr ''{}'') demo_yandex ''run-1'' ({}, \<lambda>p. {}) = (r, act, w1)"
    by (metis prod_cases3)
  have r: "\<exists>out. r = Inr out" "fst w1 = {''/tmp/stroppy-terraform/run-1/vm''}"
    using m by (auto simp: machines_apply_def demo_tf_files_def new_actor_def apply_terraform_def demo_terraform_def create_dir_def
        write_files_def new_terraform_def new_workdir_def demo_path Let_def)
  obtain err w3 where t: "teardown_destroy demo_terraform (\<lambda>a. []) () act (record_apply ''run-1'' r new_state) w1 = (err, w3)"
    by (rule prod.exhaust)
  have e: "err = None"
    using m t by (auto simp: machines_apply_def demo_tf_files_def new_actor_def apply_terraform_def demo_terraform_def create_dir_def
        write_files_def new_terraform_def new_workdir_def Let_def teardown_destroy_def destroy_terraform_def record_apply_def)
  from terraform_lifecycle [OF demo_lawful demo_plain _ m t] have "fst w3 = {}" using r e by simp
  then show ?thesis using m t e r(2) by blast
qed

section \<open>Where it fails\<close>

text \<open>
  An actor knows only the directories that it applied itself. After a restart the teardown makes a new one, which
  finds nothing to destroy: the task fails and the resources stay.
\<close>

lemma fresh_actor_cannot_destroy:
  assumes "lawful tm alive tracked" and "st_terraform_wd st \<noteq> []" and "teardown_destroy tm shown c None st w = (err, w')"
  shows "err \<noteq> None \<and> alive w' = alive w"
proof -
  obtain x w1 where x: "new_actor tm w = (x, w1)" by fastforce
  note k = new_actor_kept [OF assms(1) x]
  show ?thesis
  proof (cases x)
    case (Inl e)
    then show ?thesis using assms(2,3) k by (auto simp: teardown_destroy_def x)
  next
    case (Inr a)
    then have "a = Map.empty" using k by simp
    then show ?thesis using assms(2,3) k by (auto simp: teardown_destroy_def x Inr destroy_terraform_def)
  qed
qed

text \<open>
  An apply starts by removing the directory, whatever it records: a second run with the same id, or a retry after
  an apply whose clean-up failed, forgets the resources of the first.
\<close>

lemma apply_forgets_directory:
  assumes "lawful tm alive tracked" and "create_dir tm wd w = (None, w')"
  shows "alive w' = alive w \<and> tracked w' (wd_path wd) = {}"
  using create_dir_kept [OF assms] by simp

text \<open>A failed clean-up still takes the directory off the list, so that the same actor cannot try again.\<close>

lemma cleanup_forgets_directory: "fst (snd (destroy_cleanup tm c wd (a, w))) (wd_id wd) = None"
  by (simp add: destroy_cleanup_def split: prod.splits)

text \<open>The id of a run is a part of the path: one part when it has no slash, and any directory otherwise.\<close>

lemma split_on_plain: "CHR ''/'' \<notin> set s \<Longrightarrow> split_on CHR ''/'' s = [s]"
  by (induction s) auto

lemma plain_id_path:
  assumes "CHR ''/'' \<notin> set rid" and "rid \<notin> {[], ''.'', ''..''}"
  shows "path_join working_dir rid = ''/tmp/stroppy-terraform/'' @ rid"
proof -
  have "split_on CHR ''/'' (working_dir @ ''/'' @ rid) = [[], ''tmp'', ''stroppy-terraform''] @ [rid]"
    using split_on_plain [OF assms(1)] by simp
  then show ?thesis using assms(2) by (simp add: path_join_def)
qed

lemma plain_ids_apart:
  assumes "CHR ''/'' \<notin> set rid" and "rid \<notin> {[], ''.'', ''..''}" and "CHR ''/'' \<notin> set rid'" and "rid' \<notin> {[], ''.'', ''..''}"
    and "rid \<noteq> rid'"
  shows "\<not> below (path_join working_dir rid') (path_join working_dir rid)"
proof
  have app: "has_prefix (u @ x) (u @ y) = has_prefix x y" for u x y :: string by (induction u) simp_all
  have mem: "has_prefix x y \<Longrightarrow> set y \<subseteq> set x" for x y :: string by (induction x y rule: has_prefix.induct) auto
  assume "below (path_join working_dir rid') (path_join working_dir rid)"
  then have "has_prefix (''/tmp/stroppy-terraform/'' @ rid) (''/tmp/stroppy-terraform/'' @ rid' @ ''/'')"
    using assms(5) by (simp add: below_def plain_id_path [OF assms(1,2)] plain_id_path [OF assms(3,4)] del: has_prefix.simps)
  then have "CHR ''/'' \<in> set rid" using mem [of rid "rid' @ ''/''"] by (simp add: app del: has_prefix.simps append_Cons append_Nil)
  then show False using assms(1) by blast
qed

lemma run_id_leaves_directory:
  "path_join working_dir ''../../home'' = ''/home''" "path_join working_dir [] = working_dir"
  by code_simp+

end
