(* ===== verification/RunServer.thy ===== *)
theory RunServer
  imports RunExec RunState Settings Text
begin

text \<open>
  How the server keeps its runs (\<open>api/server.go\<close>) and where it stores them
  (\<open>infrastructure/postgres/run_storage.go\<close>): starting, cancelling and deleting a run, and what happens to the runs
  that a restart interrupted. The table \<open>runs\<close> is a list of rows, newest first, with the primary key of
  its upsert; a row whose JSON does not decode carries the decoder's error. Docker is the list of its
  containers and networks.
\<close>

section \<open>The table of runs\<close>

text \<open>Times are Unix seconds, 0 for Go's zero time.\<close>

record run_snapshot =
  rs_graph :: "wire_node list"
  rs_nodes :: "node_state list"
  rs_state :: "saved_state option"
  rs_started :: int
  rs_finished :: int

record run_row =
  rr_id :: string
  rr_tenant :: string
  rr_snap :: "string + run_snapshot"

definition row_key :: "run_row \<Rightarrow> string \<times> string" where
  "row_key r = (rr_id r, rr_tenant r)"

definition upsert_run :: "string \<Rightarrow> string \<Rightarrow> run_snapshot \<Rightarrow> run_row list \<Rightarrow> run_row list" where
  "upsert_run tenant rid snap rows =
     (if list_ex (\<lambda>r. row_key r = (rid, tenant)) rows
      then map (\<lambda>r. if row_key r = (rid, tenant) then r\<lparr>rr_snap := Inr snap\<rparr> else r) rows
      else \<lparr>rr_id = rid, rr_tenant = tenant, rr_snap = Inr snap\<rparr> # rows)"

text \<open>\<open>Save\<close>: the first argument is the error of the database, if the statement fails.\<close>

definition save_run ::
  "string option \<Rightarrow> string \<Rightarrow> string \<Rightarrow> run_snapshot \<Rightarrow> run_row list \<Rightarrow> string option \<times> run_row list" where
  "save_run err tenant rid snap rows =
     (case err of None \<Rightarrow> (None, upsert_run tenant rid snap rows) | Some e \<Rightarrow> (Some e, rows))"

definition load_run :: "string \<Rightarrow> string \<Rightarrow> run_row list \<Rightarrow> string + run_snapshot option" where
  "load_run tenant rid rows =
     (case find (\<lambda>r. row_key r = (rid, tenant)) rows of
        None \<Rightarrow> Inr None
      | Some r \<Rightarrow> (case rr_snap r of Inl e \<Rightarrow> Inl (''run storage: unmarshal: '' @
                     e) | Inr s \<Rightarrow> Inr (Some s)))"

definition delete_row :: "string \<Rightarrow> string \<Rightarrow> run_row list \<Rightarrow> run_row list" where
  "delete_row tenant rid rows = filter (\<lambda>r. row_key r \<noteq> (rid, tenant)) rows"

text \<open>What the list of runs shows of a configuration, which is decoded by \<open>brief\<close>.\<close>

record run_brief =
  br_kind :: string
  br_version :: string
  br_script :: string
  br_duration :: string
  br_vus :: int
  br_machines :: "(string \<times> int) list"

definition no_brief :: run_brief where
  "no_brief = \<lparr>br_kind = [], br_version = [], br_script = [], br_duration = [], br_vus = 0, br_machines = []\<rparr>"

record run_summary =
  su_id :: string
  su_nodes :: "node_state list"
  su_total :: nat
  su_done :: nat
  su_failed :: nat
  su_pending :: nat
  su_cancelled :: bool
  su_started :: int
  su_finished :: int
  su_provider :: string
  su_brief :: run_brief
  su_node_count :: int

definition count_node :: "node_state \<Rightarrow> run_summary \<Rightarrow> run_summary" where
  "count_node n s =
     (case ns_status n of
        Done \<Rightarrow> s\<lparr>su_done := Suc (su_done s)\<rparr>
      | Failed \<Rightarrow> s\<lparr>su_failed := Suc (su_failed s)\<rparr>
      | Cancelled \<Rightarrow> s\<lparr>su_cancelled := True, su_failed := Suc (su_failed s)\<rparr>
      | Running \<Rightarrow> s\<lparr>su_pending := Suc (su_pending s)\<rparr>
      | Pending \<Rightarrow> s\<lparr>su_pending := Suc (su_pending s)\<rparr>)"

definition summary_of :: "(string \<Rightarrow> run_brief option) \<Rightarrow> string \<Rightarrow> run_snapshot \<Rightarrow> run_summary" where
  "summary_of brief rid snap =
     (let b = (case rs_state snap of
            None \<Rightarrow> no_brief
          | Some st \<Rightarrow> if sv_run_config st = [] then no_brief
              else (case brief (sv_run_config st) of None \<Rightarrow> no_brief | Some b \<Rightarrow> b))
      in fold count_node (rs_nodes snap)
        \<lparr>su_id = rid, su_nodes = rs_nodes snap, su_total = length (rs_nodes snap), su_done = 0, su_failed = 0,
         su_pending = 0, su_cancelled = False, su_started = rs_started snap, su_finished = rs_finished snap,
         su_provider = (case rs_state snap of None \<Rightarrow> [] | Some st \<Rightarrow> sv_provider st), su_brief = b,
         su_node_count = sum_list (map snd (filter (\<lambda>m. fst m = ''database'') (br_machines b)))\<rparr>)"

definition list_rows :: "(string \<Rightarrow> run_brief option) \<Rightarrow> string \<Rightarrow> run_row list \<Rightarrow> run_summary list" where
  "list_rows brief tenant rows = concat (map (\<lambda>r. case rr_snap r of
       Inl _ \<Rightarrow> [] | Inr s \<Rightarrow> [summary_of brief (rr_id r) s]) (filter (\<lambda>r. rr_tenant r = tenant) rows))"

text \<open>Baselines: (name, tenant) to run id.\<close>

type_synonym baselines = "((string \<times> string) \<times> string) list"

definition set_baseline :: "string \<Rightarrow> string \<Rightarrow> string \<Rightarrow> baselines \<Rightarrow> baselines" where
  "set_baseline tenant name rid bs = AList.update (name, tenant) rid bs"

definition get_baseline :: "string \<Rightarrow> string \<Rightarrow> baselines \<Rightarrow> string" where
  "get_baseline tenant name bs = (case map_of bs (name, tenant) of None \<Rightarrow> [] | Some rid \<Rightarrow> rid)"

definition list_baselines :: "string \<Rightarrow> baselines \<Rightarrow> (string \<times> string) list" where
  "list_baselines tenant bs = map (\<lambda>(k, rid). (fst k, rid)) (filter (\<lambda>(k, rid). snd k = tenant) bs)"

section \<open>Docker\<close>

record docker_container =
  dc_id :: string
  dc_names :: "string list"
  dc_running :: bool

text \<open>
  \<open>dk_client\<close>: a client can be made; \<open>dk_lists\<close>: the daemon lists its containers and networks; \<open>dk_stuck\<close>: the ids
  whose removal fails.
\<close>

record docker =
  dk_client :: bool
  dk_lists :: bool
  dk_containers :: "docker_container list"
  dk_networks :: "(string \<times> string) list"
  dk_stuck :: "string \<Rightarrow> bool"

definition listed :: "docker \<Rightarrow> docker_container list" where
  "listed d = (if dk_lists d then dk_containers d else [])"

definition remove_container :: "string \<Rightarrow> docker \<Rightarrow> docker" where
  "remove_container cid d =
     (if dk_stuck d cid then d else d\<lparr>dk_containers := filter (\<lambda>c. dc_id c \<noteq> cid) (dk_containers d)\<rparr>)"

definition remove_network :: "string \<Rightarrow> docker \<Rightarrow> docker" where
  "remove_network nid d =
     (if dk_stuck d nid then d else d\<lparr>dk_networks := filter (\<lambda>n. fst n \<noteq> nid) (dk_networks d)\<rparr>)"

definition agent_prefix :: "string \<Rightarrow> string" where
  "agent_prefix rid = (''stroppy-agent-'' @ rid @ ''-'')"

definition clean_name :: "string \<Rightarrow> string" where
  "clean_name name = trim_prefix name ''/''"

text \<open>The loops over a listing: containers with a name, or networks, that match are removed.\<close>

definition sweep_containers :: "(string \<Rightarrow> bool) \<Rightarrow> docker \<Rightarrow> docker" where
  "sweep_containers match d = fold (\<lambda>c d. fold (\<lambda>name d.
     if match (clean_name name) then remove_container (dc_id c) d else d) (dc_names c) d) (listed d) d"

definition sweep_networks :: "(string \<Rightarrow> bool) \<Rightarrow> docker \<Rightarrow> docker" where
  "sweep_networks match d = fold (\<lambda>(nid, name) d. if match name then remove_network nid d else d)
     (if dk_lists d then dk_networks d else []) d"

definition cleanup_run_resources :: "string \<Rightarrow> docker \<Rightarrow> docker" where
  "cleanup_run_resources rid d =
     (if \<not> dk_client d then d
      else sweep_networks (\<lambda>name. name = (''stroppy-'' @ rid))
        (sweep_containers (\<lambda>name. has_prefix name (agent_prefix rid)) d))"

definition orphan_container :: "string list \<Rightarrow> string \<Rightarrow> bool" where
  "orphan_container active name \<longleftrightarrow> has_prefix name ''stroppy-agent-'' \<and>
     \<not> list_ex (\<lambda>rid. has_prefix name (agent_prefix rid)) active"

definition orphan_network :: "string list \<Rightarrow> string \<Rightarrow> bool" where
  "orphan_network active name \<longleftrightarrow> has_prefix name ''stroppy-'' \<and> \<not> str_contains name ''cloud'' \<and>
     \<not> list_ex (\<lambda>rid. name = (''stroppy-'' @ rid)) active"

definition cleanup_orphans :: "string list \<Rightarrow> docker \<Rightarrow> docker" where
  "cleanup_orphans active d =
     (if \<not> dk_client d \<or> \<not> dk_lists d then d
      else sweep_networks (orphan_network active) (sweep_containers (orphan_container active) d))"

definition can_recover :: "saved_state option \<Rightarrow> docker \<Rightarrow> bool" where
  "can_recover st d =
     (case st of
        None \<Rightarrow> False
      | Some s \<Rightarrow> dk_client d \<and> list_ex (\<lambda>cid. list_ex (\<lambda>c. dc_id c = cid \<and> dc_running c) (dk_containers d)) (sv_containers s))"

section \<open>The server\<close>

text \<open>
  \<open>rv_signals\<close> records the calls of cancel functions; \<open>rv_write_error\<close> is the error of the database when it is to
  write the row with an id and a tenant.
\<close>

record run_server =
  rv_rows :: "run_row list"
  rv_cancels :: "string list"
  rv_tenants :: "(string \<times> string) list"
  rv_cancelled :: "string list"
  rv_signals :: "string list"
  rv_docker :: docker
  rv_write_error :: "string \<times> string \<Rightarrow> string option"

type_synonym response = "nat \<times> string"

definition active_count :: "string \<Rightarrow> run_server \<Rightarrow> nat" where
  "active_count tenant sv = length (filter (\<lambda>x. snd x = tenant) (rv_tenants sv))"

text \<open>The checks of \<open>runStart\<close>; \<open>resolve\<close> is the resolution of preset and package, \<open>show\<close> the quota's message.\<close>

definition start_check ::
  "(run_config \<Rightarrow> string + run_config) \<Rightarrow> (quota_error \<Rightarrow> string) \<Rightarrow> tenant_quotas \<Rightarrow> int \<Rightarrow> string \<Rightarrow> run_config \<Rightarrow>
     run_server \<Rightarrow> response + run_config" where
  "start_check resolve show_quota quotas now tenant cfg sv =
     (let cfg = (if rc_id cfg = [] then cfg\<lparr>rc_id := (''run-'' @ itoa now)\<rparr> else cfg) in
      case resolve cfg of
        Inl e \<Rightarrow> Inl (400, e)
      | Inr cfg \<Rightarrow>
          (let cfg = fill_machines cfg in
           case validate_quotas quotas cfg of
             Some e \<Rightarrow> Inl (403, (''quota exceeded: '' @ show_quota e))
           | None \<Rightarrow>
               (case load_run tenant (rc_id cfg) (rv_rows sv) of
                  Inr (Some _) \<Rightarrow> Inl (409, (''run \"'' @ rc_id cfg @
                     ''\" already exists''))
                | _ \<Rightarrow>
                    if q_max_concurrent_runs quotas > 0 \<and> int (active_count tenant sv) \<ge> q_max_concurrent_runs quotas
                    then Inl (403, (''concurrent run limit reached ('' @
                     itoa (int (active_count tenant sv)) @ ''/'' @
                     itoa (q_max_concurrent_runs quotas) @ '')''))
                    else Inr cfg)))"

definition register_run :: "string \<Rightarrow> string \<Rightarrow> run_server \<Rightarrow> run_server" where
  "register_run rid tenant sv = sv\<lparr>rv_cancels := List.insert rid (rv_cancels sv),
     rv_tenants := AList.update rid tenant (rv_tenants sv)\<rparr>"

definition unregister_run :: "string \<Rightarrow> run_server \<Rightarrow> run_server" where
  "unregister_run rid sv = sv\<lparr>rv_cancels := removeAll rid (rv_cancels sv),
     rv_tenants := AList.delete rid (rv_tenants sv), rv_signals := rv_signals sv @ [rid]\<rparr>"

definition cancel_run :: "string \<Rightarrow> string \<Rightarrow> run_server \<Rightarrow> response \<times> run_server" where
  "cancel_run tenant rid sv =
     (case load_run tenant rid (rv_rows sv) of
        Inl _ \<Rightarrow> ((404, ''run not found''), sv)
      | Inr _ \<Rightarrow>
          if rid \<notin> set (rv_cancels sv) then ((404, ''run not active or already finished''), sv)
          else ((200, ''cancelling''), sv\<lparr>rv_signals := rv_signals sv @ [rid],
            rv_cancelled := List.insert rid (rv_cancelled sv)\<rparr>))"

definition delete_run :: "string \<Rightarrow> string \<Rightarrow> run_server \<Rightarrow> response \<times> run_server" where
  "delete_run tenant rid sv =
     (case load_run tenant rid (rv_rows sv) of
        Inr (Some _) \<Rightarrow>
          (let sv = sv\<lparr>rv_docker := cleanup_run_resources rid (rv_docker sv)\<rparr>
           in case rv_write_error sv (rid, tenant) of
                Some e \<Rightarrow> ((500, e), sv)
              | None \<Rightarrow> ((200, ''deleted''), sv\<lparr>rv_rows := delete_row tenant rid (rv_rows sv)\<rparr>))
      | _ \<Rightarrow> ((404, ''not found''), sv))"

definition list_runs :: "(string \<Rightarrow> run_brief option) \<Rightarrow> string \<Rightarrow> run_server \<Rightarrow> run_summary list" where
  "list_runs brief tenant sv =
     map (\<lambda>s. if su_id s \<in> set (rv_cancelled sv) then s\<lparr>su_cancelled := True\<rparr> else s) (list_rows brief tenant (rv_rows sv))"

section \<open>After a restart\<close>

definition orphaned_error :: string where
  "orphaned_error = ''server restarted -- run orphaned''"

definition fail_pending :: "node_state \<Rightarrow> node_state" where
  "fail_pending n = (if ns_status n = Pending then n\<lparr>ns_status := Failed, ns_error := orphaned_error\<rparr> else n)"

definition has_pending :: "run_snapshot \<Rightarrow> bool" where
  "has_pending snap \<longleftrightarrow> list_ex (\<lambda>n. ns_status n = Pending) (rs_nodes snap)"

text \<open>The error of the save is dropped.\<close>

definition mark_run_failed :: "string option \<Rightarrow> string \<Rightarrow> string \<Rightarrow> run_snapshot \<Rightarrow> run_row list \<Rightarrow> run_row list" where
  "mark_run_failed err tenant rid snap rows =
     (if has_pending snap then snd (save_run err tenant rid (snap\<lparr>rs_nodes := map fail_pending (rs_nodes snap)\<rparr>) rows) else rows)"

text \<open>The incomplete runs with the snapshots read at the start, and one round of the loop over them.\<close>

definition incomplete_runs :: "run_row list \<Rightarrow> (string \<times> string \<times> run_snapshot) list" where
  "incomplete_runs rows = concat (map (\<lambda>r. case rr_snap r of
     Inl _ \<Rightarrow> [] | Inr s \<Rightarrow> if has_pending s then [(rr_id r, rr_tenant r, s)] else []) rows)"

fun recover_one :: "string \<times> string \<times> run_snapshot \<Rightarrow> run_server \<times> (string \<times> string \<times> run_snapshot) list \<Rightarrow>
    run_server \<times> (string \<times> string \<times> run_snapshot) list" where
  "recover_one (rid, tenant, snap) (sv, resumed) =
     (if can_recover (rs_state snap) (rv_docker sv) then (sv, resumed @ [(rid, tenant, snap)])
      else (sv\<lparr>rv_rows := mark_run_failed (rv_write_error sv (rid, tenant)) tenant rid snap (rv_rows sv),
              rv_docker := cleanup_run_resources rid (rv_docker sv)\<rparr>, resumed))"

text \<open>The result: the server, and the runs for which \<open>recoverRun\<close> is started.\<close>

definition recover_or_cleanup :: "run_server \<Rightarrow> run_server \<times> (string \<times> string \<times> run_snapshot) list" where
  "recover_or_cleanup sv =
     (let (sv, resumed) = fold recover_one (incomplete_runs (rv_rows sv)) (sv, [])
      in (sv\<lparr>rv_docker := cleanup_orphans (map fst resumed) (rv_docker sv)\<rparr>, resumed))"

text \<open>Names and versions.\<close>

definition extract_run_id :: "string \<Rightarrow> string" where
  "extract_run_id mid =
     (let parts = split_on CHR ''-'' mid
      in if length parts \<ge> 3 then join ''-'' (take (length parts - 2) parts) else mid)"

definition extract_db_kind :: "(string \<Rightarrow> string option) \<Rightarrow> run_snapshot option \<Rightarrow> string" where
  "extract_db_kind kind snap =
     (case snap of None \<Rightarrow> ''postgres''
      | Some s \<Rightarrow>
          (case rs_state s of None \<Rightarrow> ''postgres''
           | Some st \<Rightarrow>
               if sv_run_config st = [] then ''postgres''
               else (case kind (sv_run_config st) of None \<Rightarrow> ''postgres'' | Some k \<Rightarrow> if k = [] then ''postgres'' else k)))"


section \<open>Sweeping\<close>

definition swept :: "(string \<Rightarrow> bool) \<Rightarrow> docker_container \<Rightarrow> bool" where
  "swept match c \<longleftrightarrow> list_ex (\<lambda>name. match (clean_name name)) (dc_names c)"

lemma sweep_names:
  "fold (\<lambda>name d. if m (clean_name name) then remove_container cid d else d) names d =
     (if list_ex (\<lambda>name. m (clean_name name)) names then remove_container cid d else d)"
  by (induction names arbitrary: d) (auto simp: remove_container_def)

lemma sweep_loop:
  "fold (\<lambda>c d. if swept m c then remove_container (dc_id c) d else d) cs d =
     d\<lparr>dk_containers := filter (\<lambda>c. dk_stuck d (dc_id c) \<or> (\<forall>x \<in> set cs. swept m x \<longrightarrow> dc_id x \<noteq> dc_id c)) (dk_containers d)\<rparr>"
  by (induction cs arbitrary: d) (auto simp: remove_container_def intro!: arg_cong [of _ _ "\<lambda>xs. _\<lparr>dk_containers := xs\<rparr>"] filter_cong)

lemma sweep_containers_eq:
  assumes "distinct (map dc_id (dk_containers d))"
  shows "sweep_containers m d = (if dk_lists d
     then d\<lparr>dk_containers := filter (\<lambda>c. \<not> swept m c \<or> dk_stuck d (dc_id c)) (dk_containers d)\<rparr> else d)"
proof -
  have "sweep_containers m d =
      d\<lparr>dk_containers := filter (\<lambda>c. dk_stuck d (dc_id c) \<or> (\<forall>x \<in> set (listed d). swept m x \<longrightarrow> dc_id x \<noteq> dc_id c)) (dk_containers d)\<rparr>"
    unfolding sweep_containers_def sweep_names swept_def [symmetric] by (rule sweep_loop)
  moreover have "filter (\<lambda>c. dk_stuck d (dc_id c) \<or> (\<forall>x \<in> set (dk_containers d). swept m x \<longrightarrow> dc_id x \<noteq> dc_id c)) (dk_containers d) =
      filter (\<lambda>c. \<not> swept m c \<or> dk_stuck d (dc_id c)) (dk_containers d)"
    using assms by (intro filter_cong refl) (auto simp: distinct_map inj_on_def)
  ultimately show ?thesis
  proof (cases "dk_lists d")
    case True
    then have "listed d = dk_containers d" by (simp add: listed_def)
    with \<open>sweep_containers m d = _\<close> \<open>filter _ _ = _\<close> True show ?thesis by (simp only: if_True)
  qed (simp add: listed_def)
qed

lemma sweep_network_loop:
  "\<exists>ns'. fold (\<lambda>(nid, name) d. if m name then remove_network nid d else d) ns d = d\<lparr>dk_networks := ns'\<rparr>"
proof (induction ns arbitrary: d)
  case Nil
  show ?case by (rule exI [of _ "dk_networks d"]) simp
next
  case (Cons n ns)
  obtain nid name where n: "n = (nid, name)" by (cases n)
  show ?case
  proof (cases "m name")
    case True
    obtain ns' where "fold (\<lambda>(nid, name) d. if m name then remove_network nid d else d) ns (remove_network nid d) =
        (remove_network nid d)\<lparr>dk_networks := ns'\<rparr>" using Cons by blast
    then show ?thesis using True n by (intro exI [of _ ns']) (simp add: remove_network_def)
  next
    case False
    then show ?thesis using n Cons [of d] by simp
  qed
qed

lemma sweep_networks_fields [simp]:
  "dk_containers (sweep_networks m d) = dk_containers d" "dk_client (sweep_networks m d) = dk_client d"
  "dk_lists (sweep_networks m d) = dk_lists d" "dk_stuck (sweep_networks m d) = dk_stuck d"
  using sweep_network_loop [of m "if dk_lists d then dk_networks d else []" d]
  by (auto simp: sweep_networks_def)

text \<open>Docker can be reached and lists its containers, which have distinct ids.\<close>

definition docker_up :: "docker \<Rightarrow> bool" where
  "docker_up d \<longleftrightarrow> dk_client d \<and> dk_lists d \<and> distinct (map dc_id (dk_containers d))"

definition of_run :: "string \<Rightarrow> docker_container \<Rightarrow> bool" where
  "of_run rid = swept (\<lambda>name. has_prefix name (agent_prefix rid))"

lemma cleanup_run_containers:
  "docker_up d \<Longrightarrow> docker_up (cleanup_run_resources rid d) \<and>
     dk_stuck (cleanup_run_resources rid d) = dk_stuck d \<and>
     dk_containers (cleanup_run_resources rid d) = filter (\<lambda>c. \<not> of_run rid c \<or> dk_stuck d (dc_id c)) (dk_containers d)"
  by (simp add: cleanup_run_resources_def docker_up_def sweep_containers_eq of_run_def distinct_map_filter)

lemma cleanup_orphans_containers:
  "docker_up d \<Longrightarrow> dk_containers (cleanup_orphans active d) =
     filter (\<lambda>c. \<not> swept (orphan_container active) c \<or> dk_stuck d (dc_id c)) (dk_containers d)"
  by (simp add: cleanup_orphans_def docker_up_def sweep_containers_eq)

lemma cleanup_runs_containers:
  "docker_up d \<Longrightarrow> docker_up (fold (\<lambda>x. cleanup_run_resources (fst x)) xs d) \<and>
     dk_stuck (fold (\<lambda>x. cleanup_run_resources (fst x)) xs d) = dk_stuck d \<and>
     dk_containers (fold (\<lambda>x. cleanup_run_resources (fst x)) xs d) =
       filter (\<lambda>c. (\<forall>x \<in> set xs. \<not> of_run (fst x) c) \<or> dk_stuck d (dc_id c)) (dk_containers d)"
proof (induction xs arbitrary: d)
  case (Cons x xs)
  from Cons.IH [OF conjunct1 [OF cleanup_run_containers [OF Cons.prems]]] cleanup_run_containers [OF Cons.prems]
  show ?case by (auto intro!: filter_cong)
qed simp

section \<open>The loop over the incomplete runs\<close>

lemma recover_loop:
  "fold recover_one runs (sv, res) = (sv', res') \<Longrightarrow> distinct runs \<Longrightarrow> set runs \<inter> set res = {} \<Longrightarrow>
     (\<exists>new. res' = res @ new \<and> set new \<subseteq> set runs) \<and>
     rv_rows sv' = fold (\<lambda>(i, t, s). mark_run_failed (rv_write_error sv (i, t)) t i s) (filter (\<lambda>x. x \<notin> set res') runs) (rv_rows sv) \<and>
     rv_docker sv' = fold (\<lambda>x. cleanup_run_resources (fst x)) (filter (\<lambda>x. x \<notin> set res') runs) (rv_docker sv)"
proof (induction runs arbitrary: sv res)
  case (Cons x runs)
  obtain rid tenant snap where x: "x = (rid, tenant, snap)" by (cases x)
  show ?case
  proof (cases "can_recover (rs_state snap) (rv_docker sv)")
    case True
    then have step: "fold recover_one runs (sv, res @ [x]) = (sv', res')" using Cons.prems(1) x by simp
    have "x \<notin> set runs" using Cons.prems(2) by simp
    then have "set runs \<inter> set (res @ [x]) = {}" using Cons.prems(3) by auto
    from Cons.IH [OF step _ this] Cons.prems(2) obtain new where
      new: "res' = (res @ [x]) @ new" "set new \<subseteq> set runs" and
      rest: "rv_rows sv' = fold (\<lambda>(i, t, s). mark_run_failed (rv_write_error sv (i, t)) t i s) (filter (\<lambda>x. x \<notin> set res') runs) (rv_rows sv)"
      "rv_docker sv' = fold (\<lambda>x. cleanup_run_resources (fst x)) (filter (\<lambda>x. x \<notin> set res') runs) (rv_docker sv)"
      by auto
    have "filter (\<lambda>x. x \<notin> set res') (x # runs) = filter (\<lambda>x. x \<notin> set res') runs" using new(1) by simp
    then show ?thesis using new rest by (intro conjI exI [of _ "x # new"]) auto
  next
    case False
    let ?sv = "sv\<lparr>rv_rows := mark_run_failed (rv_write_error sv (rid, tenant)) tenant rid snap (rv_rows sv),
      rv_docker := cleanup_run_resources rid (rv_docker sv)\<rparr>"
    have step: "fold recover_one runs (?sv, res) = (sv', res')" using Cons.prems(1) x False by simp
    have "set runs \<inter> set res = {}" "distinct runs" using Cons.prems(2,3) by auto
    from Cons.IH [OF step this(2,1)] obtain new where
      new: "res' = res @ new" "set new \<subseteq> set runs" and
      rest: "rv_rows sv' = fold (\<lambda>(i, t, s). mark_run_failed (rv_write_error sv (i, t)) t i s) (filter (\<lambda>x. x \<notin> set res') runs) (rv_rows ?sv)"
      "rv_docker sv' = fold (\<lambda>x. cleanup_run_resources (fst x)) (filter (\<lambda>x. x \<notin> set res') runs) (rv_docker ?sv)"
      by auto
    have "x \<notin> set res'" using new Cons.prems(2,3) by auto
    then have "filter (\<lambda>x. x \<notin> set res') (x # runs) = x # filter (\<lambda>x. x \<notin> set res') runs" by simp
    then show ?thesis using new rest x by (intro conjI exI [of _ new]) auto
  qed
qed simp

text \<open>A run is resumed only on a running container, and is resumed when one of its running containers is left.\<close>

lemma alive_sub:
  "set (dk_containers d') \<subseteq> set (dk_containers d) \<Longrightarrow> dk_client d' = dk_client d \<Longrightarrow> can_recover st d' \<Longrightarrow> can_recover st d"
  by (auto simp: can_recover_def list_ex_iff split: option.splits)

definition failed_snapshot :: "run_snapshot \<Rightarrow> run_snapshot" where
  "failed_snapshot s = s\<lparr>rs_nodes := map fail_pending (rs_nodes s)\<rparr>"

definition fail_rows :: "(string \<times> string \<times> run_snapshot) list \<Rightarrow> run_row \<Rightarrow> run_row" where
  "fail_rows xs r = (case rr_snap r of Inl _ \<Rightarrow> r
     | Inr s \<Rightarrow> if (rr_id r, rr_tenant r, s) \<in> set xs then r\<lparr>rr_snap := Inr (failed_snapshot s)\<rparr> else r)"

definition run_key :: "string \<times> string \<times> run_snapshot \<Rightarrow> string \<times> string" where
  "run_key x = (fst x, fst (snd x))"

definition stored_in :: "run_row list \<Rightarrow> string \<times> string \<times> run_snapshot \<Rightarrow> bool" where
  "stored_in rows x \<longleftrightarrow> (\<exists>r \<in> set rows. row_key r = run_key x \<and> rr_snap r = Inr (snd (snd x))) \<and> has_pending (snd (snd x))"

lemma row_key_fail [simp]: "row_key (fail_rows xs r) = row_key r"
  by (simp add: fail_rows_def row_key_def split: sum.split)

lemma mark_row:
  assumes "distinct (map row_key rows)" and "stored_in rows (i, t, s)"
  shows "mark_run_failed None t i s rows = map (fail_rows [(i, t, s)]) rows"
proof -
  obtain r where r: "r \<in> set rows" "row_key r = (i, t)" "rr_snap r = Inr s" and p: "has_pending s"
    using assms(2) by (auto simp: stored_in_def run_key_def)
  have "(if row_key q = (i, t) then q\<lparr>rr_snap := Inr (failed_snapshot s)\<rparr> else q) = fail_rows [(i, t, s)] q"
    if q: "q \<in> set rows" for q
  proof (cases "row_key q = (i, t)")
    case True
    then have "q = r" using assms(1) q r(1,2) by (auto simp: distinct_map inj_on_def)
    then show ?thesis using r(2,3) by (simp add: fail_rows_def row_key_def)
  next
    case False
    then show ?thesis by (auto simp: fail_rows_def row_key_def split: sum.split)
  qed
  then have "map (\<lambda>q. if row_key q = (i, t) then q\<lparr>rr_snap := Inr (failed_snapshot s)\<rparr> else q) rows =
      map (fail_rows [(i, t, s)]) rows" by simp
  moreover have "list_ex (\<lambda>q. row_key q = (i, t)) rows" using r by (auto simp: list_ex_iff)
  ultimately show ?thesis using p unfolding mark_run_failed_def save_run_def upsert_run_def failed_snapshot_def [symmetric] by simp
qed

lemma fail_rows_Cons:
  assumes "run_key x \<notin> run_key ` set xs"
  shows "fail_rows xs (fail_rows [x] r) = fail_rows (x # xs) r"
proof (cases "rr_snap r")
  case (Inr s)
  show ?thesis
  proof (cases "(rr_id r, rr_tenant r, s) = x")
    case True
    have "(rr_id r, rr_tenant r, s') \<notin> set xs" for s' using assms True by (force simp: run_key_def)
    then show ?thesis using Inr True by (simp add: fail_rows_def)
  next
    case False
    then show ?thesis using Inr by (simp add: fail_rows_def)
  qed
qed (simp add: fail_rows_def)

lemma mark_rows:
  "distinct (map row_key rows) \<Longrightarrow> distinct (map run_key xs) \<Longrightarrow> \<forall>x \<in> set xs. stored_in rows x \<Longrightarrow>
     fold (\<lambda>(i, t, s). mark_run_failed None t i s) xs rows = map (fail_rows xs) rows"
proof (induction xs arbitrary: rows)
  case Nil
  have "fail_rows [] r = r" for r by (simp add: fail_rows_def split: sum.split)
  then show ?case by simp
next
  case (Cons x xs)
  obtain i t s where x: "x = (i, t, s)" by (cases x)
  let ?rows = "map (fail_rows [x]) rows"
  have mark: "mark_run_failed None t i s rows = ?rows" using mark_row [OF Cons.prems(1)] Cons.prems(3) x by simp
  have stored: "stored_in ?rows y" if y: "y \<in> set xs" for y
  proof -
    obtain r where r: "r \<in> set rows" "row_key r = run_key y" "rr_snap r = Inr (snd (snd y))" "has_pending (snd (snd y))"
      using Cons.prems(3) y by (auto simp: stored_in_def)
    have "run_key x \<noteq> run_key y" using Cons.prems(2) y by auto
    then have "fail_rows [x] r = r" using r(2,3) by (auto simp: fail_rows_def row_key_def run_key_def)
    then show ?thesis using r by (force simp: stored_in_def)
  qed
  have "distinct (map row_key ?rows)" using Cons.prems(1) by (simp add: comp_def)
  from Cons.IH [OF this _ ] Cons.prems(2) stored
  have "fold (\<lambda>(i, t, s). mark_run_failed None t i s) xs ?rows = map (fail_rows xs) ?rows" by simp
  moreover have "map (fail_rows xs) ?rows = map (fail_rows (x # xs)) rows"
    using fail_rows_Cons [of x xs] Cons.prems(2) by simp
  ultimately show ?case using mark x by simp
qed

text \<open>A run whose save fails keeps its row.\<close>

lemma mark_rows_written:
  "fold (\<lambda>(i, t, s). mark_run_failed (err (i, t)) t i s) xs rows =
   fold (\<lambda>(i, t, s). mark_run_failed None t i s) (filter (\<lambda>x. err (run_key x) = None) xs) rows"
proof (induction xs arbitrary: rows)
  case (Cons x xs)
  obtain i t s where x: "x = (i, t, s)" by (cases x)
  have "mark_run_failed (Some e) t i s rows = rows" for e by (simp add: mark_run_failed_def save_run_def)
  then show ?case using Cons x by (cases "err (i, t)") (simp_all add: run_key_def)
qed simp

lemma incomplete_in: "x \<in> set (incomplete_runs rows) \<longleftrightarrow> stored_in rows x"
  by (cases x) (force simp: incomplete_runs_def stored_in_def row_key_def run_key_def split: sum.splits)

lemma incomplete_distinct: "distinct (map row_key rows) \<Longrightarrow> distinct (map run_key (incomplete_runs rows))"
proof (induction rows)
  case (Cons r rows)
  have "run_key x \<noteq> row_key r" if "stored_in rows x" for x
  proof -
    obtain q where "q \<in> set rows" "row_key q = run_key x" using \<open>stored_in rows x\<close> by (auto simp: stored_in_def)
    then have "run_key x \<in> set (map row_key rows)" by force
    then show ?thesis using Cons.prems by auto
  qed
  then have "run_key x \<noteq> row_key r" if "x \<in> set (incomplete_runs rows)" for x
    using that incomplete_in by blast
  moreover have "incomplete_runs (r # rows) = (case rr_snap r of Inl _ \<Rightarrow> [] | Inr s \<Rightarrow>
      if has_pending s then [(rr_id r, rr_tenant r, s)] else []) @ incomplete_runs rows"
    by (simp add: incomplete_runs_def)
  moreover have "run_key (rr_id r, rr_tenant r, s) = row_key r" for s by (simp add: run_key_def row_key_def)
  ultimately show ?case using Cons by (cases "rr_snap r") (simp_all, metis imageE)
qed (simp add: incomplete_runs_def)

lemma resumed_mono: "fold recover_one runs (sv, res) = (sv', res') \<Longrightarrow> set res \<subseteq> set res'"
proof (induction runs arbitrary: sv res)
  case (Cons x runs)
  obtain sv1 res1 where s: "recover_one x (sv, res) = (sv1, res1)" by (cases "recover_one x (sv, res)")
  then have "set res \<subseteq> set res1" by (cases x) (auto split: if_splits)
  then show ?case using Cons.IH [of sv1 res1] Cons.prems s by auto
qed simp

lemma docker_shrinks:
  "fold recover_one runs (sv, res) = (sv', res') \<Longrightarrow> docker_up (rv_docker sv) \<Longrightarrow>
     docker_up (rv_docker sv') \<and> set (dk_containers (rv_docker sv')) \<subseteq> set (dk_containers (rv_docker sv))"
proof (induction runs arbitrary: sv res)
  case (Cons x runs)
  obtain sv1 res1 where s: "recover_one x (sv, res) = (sv1, res1)" by (cases "recover_one x (sv, res)")
  then have "docker_up (rv_docker sv1) \<and> set (dk_containers (rv_docker sv1)) \<subseteq> set (dk_containers (rv_docker sv))"
    using cleanup_run_containers [OF Cons.prems(2)] Cons.prems(2) by (cases x) (auto split: if_splits)
  then show ?case using Cons.IH [of sv1 res1] Cons.prems s by auto
qed simp

lemma resumed_alive:
  "fold recover_one runs (sv, res) = (sv', res') \<Longrightarrow> docker_up (rv_docker sv) \<Longrightarrow>
     \<forall>x \<in> set res. can_recover (rs_state (snd (snd x))) d0 \<Longrightarrow>
     set (dk_containers (rv_docker sv)) \<subseteq> set (dk_containers d0) \<Longrightarrow> dk_client d0 \<Longrightarrow>
     (\<forall>x \<in> set res'. can_recover (rs_state (snd (snd x))) d0) \<and>
     (\<forall>x \<in> set runs. x \<notin> set res' \<longrightarrow> \<not> can_recover (rs_state (snd (snd x))) (rv_docker sv'))"
proof (induction runs arbitrary: sv res)
  case (Cons x runs)
  obtain rid tenant snap where x: "x = (rid, tenant, snap)" by (cases x)
  show ?case
  proof (cases "can_recover (rs_state snap) (rv_docker sv)")
    case True
    then have step: "fold recover_one runs (sv, res @ [x]) = (sv', res')" using Cons.prems(1) x by simp
    have "can_recover (rs_state snap) d0"
      using alive_sub [OF Cons.prems(4) _ True] Cons.prems(2,5) by (simp add: docker_up_def)
    then have alive: "\<forall>x \<in> set (res @ [x]). can_recover (rs_state (snd (snd x))) d0" using Cons.prems(3) x by simp
    from Cons.IH [OF step Cons.prems(2) alive Cons.prems(4,5)]
    show ?thesis using resumed_mono [OF step] by auto
  next
    case False
    let ?sv = "sv\<lparr>rv_rows := mark_run_failed (rv_write_error sv (rid, tenant)) tenant rid snap (rv_rows sv),
      rv_docker := cleanup_run_resources rid (rv_docker sv)\<rparr>"
    have step: "fold recover_one runs (?sv, res) = (sv', res')" using Cons.prems(1) x False by simp
    have up: "docker_up (rv_docker ?sv)" and sub: "set (dk_containers (rv_docker ?sv)) \<subseteq> set (dk_containers (rv_docker sv))"
      using cleanup_run_containers [OF Cons.prems(2), of rid] by auto
    have "\<not> can_recover (rs_state snap) (rv_docker sv')"
      using False alive_sub [of "rv_docker sv'" "rv_docker sv"] docker_shrinks [OF step up] sub Cons.prems(2) up
      by (auto simp: docker_up_def)
    moreover have sub0: "set (dk_containers (rv_docker ?sv)) \<subseteq> set (dk_containers d0)" using sub Cons.prems(4) by auto
    ultimately show ?thesis using Cons.IH [OF step up Cons.prems(3) sub0 Cons.prems(5)] x by auto
  qed
qed simp

section \<open>What a restart leaves\<close>

lemma fail_pending_none: "ns_status (fail_pending n) \<noteq> Pending"
  by (simp add: fail_pending_def)

lemma failed_not_pending: "\<not> has_pending (failed_snapshot s)"
  by (auto simp: has_pending_def failed_snapshot_def list_ex_iff fail_pending_none)

definition settle_row ::
  "(string \<times> string \<Rightarrow> string option) \<Rightarrow> (string \<times> string \<times> run_snapshot) list \<Rightarrow> run_row \<Rightarrow> run_row" where
  "settle_row err resumed r = (case rr_snap r of Inl _ \<Rightarrow> r
     | Inr s \<Rightarrow> if has_pending s \<and> (rr_id r, rr_tenant r, s) \<notin> set resumed \<and> err (row_key r) = None
         then r\<lparr>rr_snap := Inr (failed_snapshot s)\<rparr> else r)"

lemma settle_is_fail:
  assumes "r \<in> set rows"
  shows "fail_rows (filter (\<lambda>x. err (run_key x) = None) (filter (\<lambda>x. x \<notin> set resumed) (incomplete_runs rows))) r =
    settle_row err resumed r"
proof (cases "rr_snap r")
  case (Inr s)
  have "(rr_id r, rr_tenant r, s) \<in> set (incomplete_runs rows) \<longleftrightarrow> has_pending s"
    unfolding incomplete_in using assms Inr by (auto simp: stored_in_def run_key_def row_key_def)
  then show ?thesis using Inr by (auto simp: fail_rows_def settle_row_def run_key_def row_key_def)
qed (simp add: fail_rows_def settle_row_def)

text \<open>
  C12. What a restart does to the interrupted runs: the table is the old one, row by row, with the pending nodes of
  exactly those incomplete runs marked as failed that are not resumed and whose row the database writes; a run is resumed
  only on a running container of its own, and one that is not resumed has no running container left; the containers
  removed are exactly those that can be removed and of which a name begins with the prefix of a run given up, or
  is that of an agent and begins with the prefix of no resumed run.
\<close>

theorem recovery_settles_runs:
  assumes "recover_or_cleanup sv = (sv', resumed)" and "distinct (map row_key (rv_rows sv))" and "docker_up (rv_docker sv)"
  shows "rv_rows sv' = map (settle_row (rv_write_error sv) resumed) (rv_rows sv) \<and>
    (\<forall>(rid, tenant, s) \<in> set resumed. stored_in (rv_rows sv) (rid, tenant, s) \<and> can_recover (rs_state s) (rv_docker sv)) \<and>
    (\<forall>r \<in> set (rv_rows sv). \<forall>s. rr_snap r = Inr s \<and> has_pending s \<and> (rr_id r, rr_tenant r, s) \<notin> set resumed \<longrightarrow>
       \<not> can_recover (rs_state s) (rv_docker sv')) \<and>
    dk_containers (rv_docker sv') = filter (\<lambda>c. dk_stuck (rv_docker sv) (dc_id c) \<or>
       \<not> swept (orphan_container (map fst resumed)) c \<and>
       (\<forall>(rid, tenant, s) \<in> set (incomplete_runs (rv_rows sv)). (rid, tenant, s) \<notin> set resumed \<longrightarrow> \<not> of_run rid c))
       (dk_containers (rv_docker sv))"
proof -
  let ?runs = "incomplete_runs (rv_rows sv)"
  let ?left = "filter (\<lambda>x. x \<notin> set resumed) ?runs"
  let ?stuck = "\<lambda>c. dk_stuck (rv_docker sv) (dc_id c)"
  obtain sv1 where loop: "fold recover_one ?runs (sv, []) = (sv1, resumed)"
    and sv': "sv' = sv1\<lparr>rv_docker := cleanup_orphans (map fst resumed) (rv_docker sv1)\<rparr>"
    using assms(1) by (auto simp: recover_or_cleanup_def split: prod.splits)
  have dist: "distinct (map run_key ?runs)" by (rule incomplete_distinct [OF assms(2)])
  then have "distinct ?runs" by (simp add: distinct_map)
  from recover_loop [OF loop this] have sub: "set resumed \<subseteq> set ?runs"
    and rows: "rv_rows sv1 = fold (\<lambda>(i, t, s). mark_run_failed (rv_write_error sv (i, t)) t i s) ?left (rv_rows sv)"
    and dock: "rv_docker sv1 = fold (\<lambda>x. cleanup_run_resources (fst x)) ?left (rv_docker sv)" by auto
  let ?written = "filter (\<lambda>x. rv_write_error sv (run_key x) = None) ?left"
  have "\<forall>x \<in> set ?written. stored_in (rv_rows sv) x" using incomplete_in by auto
  from mark_rows [OF assms(2) distinct_map_filter [OF distinct_map_filter [OF dist]] this]
  have rows': "rv_rows sv' = map (settle_row (rv_write_error sv) resumed) (rv_rows sv)"
    using rows settle_is_fail [of _ "rv_rows sv" "rv_write_error sv" resumed] sv' unfolding mark_rows_written by simp
  have c1: "docker_up (rv_docker sv1)" "dk_stuck (rv_docker sv1) = dk_stuck (rv_docker sv)" "dk_containers (rv_docker sv1) =
      filter (\<lambda>c. (\<forall>x \<in> set ?left. \<not> of_run (fst x) c) \<or> ?stuck c) (dk_containers (rv_docker sv))"
    using cleanup_runs_containers [OF assms(3), of ?left] dock by simp_all
  then have cs: "dk_containers (rv_docker sv') = filter (\<lambda>c. \<not> swept (orphan_container (map fst resumed)) c \<or> ?stuck c)
      (filter (\<lambda>c. (\<forall>x \<in> set ?left. \<not> of_run (fst x) c) \<or> ?stuck c) (dk_containers (rv_docker sv)))"
    using cleanup_orphans_containers [OF c1(1)] sv' by simp
  have "dk_client (rv_docker sv)" using assms(3) by (simp add: docker_up_def)
  from resumed_alive [OF loop assms(3) _ subset_refl this]
  have alive: "\<forall>x \<in> set resumed. can_recover (rs_state (snd (snd x))) (rv_docker sv)"
    and gone: "\<forall>x \<in> set ?runs. x \<notin> set resumed \<longrightarrow> \<not> can_recover (rs_state (snd (snd x))) (rv_docker sv1)" by auto
  have "dk_client (rv_docker sv') = dk_client (rv_docker sv1)" "set (dk_containers (rv_docker sv')) \<subseteq> set (dk_containers (rv_docker sv1))"
    using cs c1 sv' by (auto simp: cleanup_orphans_def docker_up_def sweep_containers_eq)
  then have gone': "\<not> can_recover st (rv_docker sv')" if "\<not> can_recover st (rv_docker sv1)" for st
    using alive_sub that by blast
  have inc: "(rr_id r, rr_tenant r, s) \<in> set ?runs" if "r \<in> set (rv_rows sv)" "rr_snap r = Inr s" "has_pending s" for r s
    unfolding incomplete_in using that by (auto simp: stored_in_def run_key_def row_key_def)
  show ?thesis
  proof (intro conjI)
    show "\<forall>(rid, tenant, s) \<in> set resumed. stored_in (rv_rows sv) (rid, tenant, s) \<and> can_recover (rs_state s) (rv_docker sv)"
      using sub alive incomplete_in by fastforce
    show "\<forall>r \<in> set (rv_rows sv). \<forall>s. rr_snap r = Inr s \<and> has_pending s \<and> (rr_id r, rr_tenant r, s) \<notin> set resumed \<longrightarrow>
       \<not> can_recover (rs_state s) (rv_docker sv')"
      using inc gone gone' by fastforce
    show "dk_containers (rv_docker sv') = filter (\<lambda>c. ?stuck c \<or> \<not> swept (orphan_container (map fst resumed)) c \<and>
       (\<forall>(rid, tenant, s) \<in> set ?runs. (rid, tenant, s) \<notin> set resumed \<longrightarrow> \<not> of_run rid c)) (dk_containers (rv_docker sv))"
      unfolding cs filter_filter by (intro filter_cong refl) auto
  qed (rule rows')
qed

text \<open>Two interrupted runs: the container of the first is alive.\<close>

definition demo_state :: "string \<Rightarrow> saved_state" where
  "demo_state cid = \<lparr>sv_provider = ''docker'', sv_run_config = [], sv_targets = [], sv_containers = [cid], sv_network_id = [],
     sv_db_host = [], sv_db_port = 0, sv_effective = []\<rparr>"

definition demo_snapshot :: "saved_state option \<Rightarrow> run_snapshot" where
  "demo_snapshot st = \<lparr>rs_graph = [], rs_nodes = [\<lparr>ns_id = ''network'', ns_status = Done, ns_error = []\<rparr>,
     \<lparr>ns_id = ''machines'', ns_status = Pending, ns_error = []\<rparr>], rs_state = st, rs_started = 1, rs_finished = 0\<rparr>"

definition demo_server :: run_server where
  "demo_server = \<lparr>rv_rows = [\<lparr>rr_id = ''a'', rr_tenant = ''t'', rr_snap = Inr (demo_snapshot (Some (demo_state ''c1'')))\<rparr>,
       \<lparr>rr_id = ''b'', rr_tenant = ''t'', rr_snap = Inr (demo_snapshot None)\<rparr>],
     rv_cancels = [], rv_tenants = [], rv_cancelled = [], rv_signals = [],
     rv_docker = \<lparr>dk_client = True, dk_lists = True,
       dk_containers = [\<lparr>dc_id = ''c1'', dc_names = [''/stroppy-agent-a-database-0''], dc_running = True\<rparr>,
         \<lparr>dc_id = ''c2'', dc_names = [''/stroppy-agent-b-database-0''], dc_running = True\<rparr>],
       dk_networks = [], dk_stuck = (\<lambda>_. False)\<rparr>,
     rv_write_error = (\<lambda>_. None)\<rparr>"

lemma demo_resumed: "map fst (snd (recover_or_cleanup demo_server)) = [''a'']"
  by code_simp

theorem recovery_settles_runs_witness:
  "\<exists>sv' resumed. recover_or_cleanup demo_server = (sv', resumed) \<and> map fst resumed = [''a''] \<and>
     rv_rows sv' = map (settle_row (\<lambda>_. None) resumed) (rv_rows demo_server)"
proof -
  obtain sv' resumed where r: "recover_or_cleanup demo_server = (sv', resumed)" by (cases "recover_or_cleanup demo_server")
  have "distinct (map row_key (rv_rows demo_server))" "docker_up (rv_docker demo_server)"
    by (simp_all add: demo_server_def row_key_def docker_up_def)
  moreover have "rv_write_error demo_server = (\<lambda>_. None)" by (simp add: demo_server_def)
  ultimately show ?thesis using recovery_settles_runs [OF r] r demo_resumed by simp
qed

section \<open>Further facts\<close>

lemma count_nodes:
  "su_done (fold count_node ns s) + su_failed (fold count_node ns s) + su_pending (fold count_node ns s) =
     su_done s + su_failed s + su_pending s + length ns \<and> su_total (fold count_node ns s) = su_total s"
  by (induction ns arbitrary: s) (auto simp: count_node_def split: status.splits)

text \<open>The counts of the list of runs add up.\<close>

lemma summary_counts: "su_done (summary_of b rid s) + su_failed (summary_of b rid s) + su_pending (summary_of b rid s) =
    su_total (summary_of b rid s)"
  unfolding summary_of_def Let_def using count_nodes by simp

text \<open>A tenant without the run can cancel it: the missing row is no error of \<open>Load\<close>.\<close>

lemma cancel_foreign_run:
  assumes "load_run tenant rid (rv_rows sv) = Inr None" and "rid \<in> set (rv_cancels sv)"
  shows "cancel_run tenant rid sv = ((200, ''cancelling''),
     sv\<lparr>rv_signals := rv_signals sv @ [rid], rv_cancelled := List.insert rid (rv_cancelled sv)\<rparr>)"
  using assms by (simp add: cancel_run_def)

text \<open>A run without containers, such as one on virtual machines, is never resumed, and its teardown is marked failed.\<close>

lemma run_without_containers: "sv_containers st = [] \<Longrightarrow> \<not> can_recover (Some st) d"
  by (simp add: can_recover_def)

text \<open>Two requests that are checked before either is registered both start, whatever the limit.\<close>

lemma start_race:
  assumes "start_check resolve show quotas now tenant cfg sv = Inr c1" and "start_check resolve show quotas now tenant cfg' sv = Inr c2"
    and "q_max_concurrent_runs quotas = 1" and "rc_id c1 \<noteq> rc_id c2" and "rv_tenants sv = []"
  shows "active_count tenant (register_run (rc_id c2) tenant (register_run (rc_id c1) tenant sv)) = 2"
  using assms(4,5) by (simp add: register_run_def active_count_def)

text \<open>The containers of a run whose id continues the removed one with a dash go with it.\<close>

lemma cleanup_takes_longer_id:
  assumes "docker_up d" and "\<not> dk_stuck d (dc_id c)" and "of_run ((rid @ ''-'' @ x)) c"
  shows "c \<notin> set (dk_containers (cleanup_run_resources rid d))"
proof -
  have "agent_prefix (rid @ ''-'' @ x) = agent_prefix rid @ x @ ''-''" by (simp add: agent_prefix_def)
  then have "has_prefix n (agent_prefix rid)" if "has_prefix n (agent_prefix (rid @ ''-'' @ x))" for n
    using that by (auto simp: has_prefix_iff)
  then have "of_run rid c" using assms(3) by (auto simp: of_run_def swept_def list_ex_iff)
  then show ?thesis using cleanup_run_containers [OF assms(1)] assms(2) by simp
qed

text \<open>The run id comes back from the id of a machine.\<close>

lemma extract_machine_run:
  assumes "CHR ''-'' \<notin> set role" and "CHR ''-'' \<notin> set k"
  shows "extract_run_id (rid @ ''-'' @ role @ ''-'' @ k) = rid"
proof -
  have "split_on CHR ''-'' (rid @ ''-'' @ role @ ''-'' @ k) = split_on CHR ''-'' rid @ [role, k]"
    using split_on_append [OF assms(2), of "rid @ CHR ''-'' # role"] split_on_append [OF assms(1), of rid] by simp
  moreover have "1 \<le> length (split_on CHR ''-'' rid)" by (cases "split_on CHR ''-'' rid") simp_all
  ultimately show ?thesis by (simp add: extract_run_id_def Let_def join_split_on)
qed

end
