(* ===== verification/App.thy ===== *)
theory App
  imports RunServer AuxConfig
begin

text \<open>
  The facade of the server (\<open>api/api.go\<close>): what a start, a validation, a dry run and a recovery build out of a
  configuration, and the addresses given to agents. The settings and accounts of tenants, the operating
  system, the creation of a docker deployer and the JSON of configurations are arguments. A recovered run is
  shown to be the run that was interrupted, without the nodes that were done.
\<close>

section \<open>Addresses\<close>

text \<open>The port that \<open>net.SplitHostPort\<close> returns, the empty string when it fails.\<close>

definition index_of :: "char \<Rightarrow> string \<Rightarrow> nat option" where
  "index_of c s = (if c \<in> set s then Some (length (takeWhile (\<lambda>x. x \<noteq> c) s)) else None)"

definition last_index_of :: "char \<Rightarrow> string \<Rightarrow> nat option" where
  "last_index_of c s = map_option (\<lambda>i. length s - 1 - i) (index_of c (rev s))"

definition split_port :: "string \<Rightarrow> string" where
  "split_port s =
     (case last_index_of CHR '':'' s of
        None \<Rightarrow> []
      | Some i \<Rightarrow>
          if s ! 0 = CHR ''['' then
            (case index_of CHR '']'' s of
               None \<Rightarrow> []
             | Some e \<Rightarrow>
                 if e + 1 \<noteq> i \<or> CHR ''['' \<in> set (drop 1 s) \<or> CHR '']'' \<in> set (drop (e + 1) s) then []
                 else drop (i + 1) s)
          else if CHR '':'' \<in> set (take i s) \<or> CHR ''['' \<in> set s \<or> CHR '']'' \<in> set s then []
          else drop (i + 1) s)"

definition docker_host_only :: "bool \<Rightarrow> string" where
  "docker_host_only linux = (if linux then ''172.17.0.1'' else ''host.docker.internal'')"

definition docker_host_addr :: "bool \<Rightarrow> string \<Rightarrow> string" where
  "docker_host_addr linux listen =
     (''http://'' @ docker_host_only linux @ '':'' @ str_or (split_port listen) ''8080'')"

definition rewrite_localhost :: "string \<Rightarrow> string \<Rightarrow> string" where
  "rewrite_localhost url host = fold (\<lambda>local u. replace_all local host u) [''localhost'', ''127.0.0.1''] url"

definition server_host :: "string \<Rightarrow> string" where
  "server_host addr =
     (let h = trim_prefix (trim_prefix addr ''https://'') ''http://'' in
      case index_of CHR '':'' h of None \<Rightarrow> h | Some i \<Rightarrow> if i > 0 then take i h else h)"

section \<open>Dependencies of a build\<close>

record app =
  ap_monitoring_url :: string
  ap_monitoring_token :: string
  ap_listen_addr :: string
  ap_linux :: bool
  ap_settings :: "(string \<Rightarrow> server_settings option) option"
  ap_account :: "(string \<Rightarrow> int) option"
  ap_parse_url :: "string \<Rightarrow> (string \<times> string) option"
  ap_deployer :: "string \<Rightarrow> string option"

datatype app_error = Invalid_config config_error | Deps_failed string | Build_failed build_error | No_run_state | Bad_run_config

definition tenant_settings :: "app \<Rightarrow> string \<Rightarrow> server_settings option" where
  "tenant_settings a tenant = Option.bind (ap_settings a) (\<lambda>f. f tenant)"

definition build_deps :: "app \<Rightarrow> string \<Rightarrow> run_config \<Rightarrow> app_error + deps" where
  "build_deps a tenant cfg =
     (let addr = (case tenant_settings a tenant of None \<Rightarrow> [] | Some s \<Rightarrow> cs_server_addr (ss_cloud s));
          dp = \<lparr>dp_server_addr = addr, dp_monitoring_url = ap_monitoring_url a, dp_monitoring_token = ap_monitoring_token a,
            dp_account_id = (case ap_account a of None \<Rightarrow> 0 | Some f \<Rightarrow> if tenant \<noteq> [] then f tenant else 0),
            dp_tenant_id = tenant, dp_parse_url = ap_parse_url a\<rparr>
      in if rc_provider cfg = ProviderDocker then
           (let dp = (if addr = [] then dp\<lparr>dp_server_addr := docker_host_addr (ap_linux a) (ap_listen_addr a)\<rparr> else dp);
                dp = (if ap_monitoring_url a \<noteq> []
                  then dp\<lparr>dp_monitoring_url := rewrite_localhost (ap_monitoring_url a) (docker_host_only (ap_linux a))\<rparr> else dp)
            in case ap_deployer a (''stroppy-'' @ rc_id cfg) of
                 Some e \<Rightarrow> Inl (Deps_failed (''api: docker deployer: '' @ e))
               | None \<Rightarrow> Inr dp)
         else if rc_provider cfg = ProviderYandex \<and> ap_monitoring_url a \<noteq> [] \<and> addr \<noteq> []
         then Inr (dp\<lparr>dp_monitoring_url := rewrite_localhost (ap_monitoring_url a) (server_host addr)\<rparr>)
         else Inr dp)"

text \<open>Validation and dry run build without settings.\<close>

definition no_deps :: "app \<Rightarrow> deps" where
  "no_deps a = \<lparr>dp_server_addr = [], dp_monitoring_url = [], dp_monitoring_token = [], dp_account_id = 0,
     dp_tenant_id = [], dp_parse_url = ap_parse_url a\<rparr>"

section \<open>Operations\<close>

definition app_executor :: "task graph \<Rightarrow> task executor" where
  "app_executor g = \<lparr>ex_graph = g, ex_retry = default_retry_policy, ex_storage = True\<rparr>"

definition app_start :: "app \<Rightarrow> string \<Rightarrow> run_config \<Rightarrow> string list \<Rightarrow> app_error + (run_config \<times> task executor \<times> exec)" where
  "app_start a tenant cfg order =
     (case validate_config cfg of
        Some e \<Rightarrow> Inl (Invalid_config e)
      | None \<Rightarrow>
          (let cfg = fill_machines cfg in
           case build_deps a tenant cfg of
             Inl e \<Rightarrow> Inl e
           | Inr dp \<Rightarrow>
               (case build cfg dp order of
                  Inl e \<Rightarrow> Inl (Build_failed e)
                | Inr (g, r) \<Rightarrow> Inr (cfg, app_executor g, new_executor))))"

definition app_validate :: "app \<Rightarrow> run_config \<Rightarrow> string list \<Rightarrow> app_error option" where
  "app_validate a cfg order =
     (case validate_config cfg of
        Some e \<Rightarrow> Some (Invalid_config e)
      | None \<Rightarrow>
          (case build (fill_machines cfg) (no_deps a) order of
             Inl e \<Rightarrow> Some (Build_failed e) | Inr _ \<Rightarrow> None))"

definition app_dry_run :: "app \<Rightarrow> run_config \<Rightarrow> string list \<Rightarrow> string list \<Rightarrow> build_error + (wire_node list \<times> run_config)" where
  "app_dry_run a cfg order order' =
     (let cfg = fill_machines (bake_override cfg) in
      case build cfg (no_deps a) order of
        Inl e \<Rightarrow> Inl e
      | Inr (g, r) \<Rightarrow> (case graph_marshal g order' of Inl e \<Rightarrow> Inl (InvalidGraph e) | Inr ws \<Rightarrow> Inr (ws, cfg)))"

text \<open>What the executor saves: its graph, its nodes, and the state of the run with the configuration.\<close>

definition exported_state :: "(run_config \<Rightarrow> string) \<Rightarrow> run_config \<Rightarrow> run_state \<Rightarrow> saved_state" where
  "exported_state encode cfg rst = (export_run_state rst)\<lparr>sv_provider := rc_provider cfg, sv_run_config := encode cfg\<rparr>"

definition saved_run :: "(run_config \<Rightarrow> string) \<Rightarrow> run_config \<Rightarrow> task executor \<Rightarrow> exec \<Rightarrow> run_state \<Rightarrow> int \<Rightarrow> int \<Rightarrow> run_snapshot" where
  "saved_run encode cfg c st rst t0 t1 = \<lparr>rs_graph = map wire_of (g_nodes (ex_graph c)),
     rs_nodes = snap_nodes (snapshot_of c st), rs_state = Some (exported_state encode cfg rst),
     rs_started = t0, rs_finished = t1\<rparr>"

definition done_nodes :: "run_snapshot \<Rightarrow> string list" where
  "done_nodes snap = map ns_id (filter (\<lambda>n. ns_status n = Done) (rs_nodes snap))"

definition app_recover ::
  "app \<Rightarrow> (string \<Rightarrow> run_config option) \<Rightarrow> string \<Rightarrow> run_snapshot \<Rightarrow> string list \<Rightarrow> string list \<Rightarrow>
     app_error + (run_config \<times> task executor \<times> exec \<times> run_state)" where
  "app_recover a decode tenant snap order order' =
     (case rs_state snap of
        None \<Rightarrow> Inl No_run_state
      | Some s \<Rightarrow>
          (case decode (sv_run_config s) of
             None \<Rightarrow> Inl Bad_run_config
           | Some cfg \<Rightarrow>
               (let cfg = fill_machines cfg in
                case build_deps a tenant cfg of
                  Inl e \<Rightarrow> Inl e
                | Inr dp \<Rightarrow>
                    (let rst = import_run_state s new_state in
                     case build cfg dp order of
                       Inl e \<Rightarrow> Inl (Build_failed e)
                     | Inr (g, r) \<Rightarrow>
                         (let g = (case reg_unmarshal r (rs_graph snap) order' of Inl _ \<Rightarrow> g | Inr g' \<Rightarrow> g')
                          in Inr (cfg, app_executor g, fold mark_node_done (done_nodes snap) new_executor, rst))))))"

section \<open>The graph does not depend on the dependencies\<close>

lemma fill_twice: "fill_machines (fill_machines cfg) = fill_machines cfg"
  by (auto simp: fill_machines_def stroppy_machine_def mk_spec_def split: option.split)

lemma wire_shape: "node_type n = node_id n \<Longrightarrow> node_type m = node_id m \<Longrightarrow> shape_of n = shape_of m \<Longrightarrow> wire_of n = wire_of m"
  by (simp add: shape_of_def wire_of_def)

lemma built_wires:
  "map wire_of (g_nodes (built_graph cfg dp)) = map wire_of (g_nodes (built_graph cfg dp'))"
proof (cases "db_tasks cfg")
  case (Inl e)
  then show ?thesis by (simp add: built_graph_def build_nodes_def Let_def)
next
  case (Inr tasks)
  from build_nodes_shape [OF Inr, of dp] build_nodes_shape [OF Inr, of dp'] obtain b b' where
    b: "build_nodes cfg dp = Inr b" "build_nodes cfg dp' = Inr b'" "b_shape b = b_shape b'" by metis
  have ty: "\<forall>n \<in> set (g_nodes (b_graph b)). node_type n = node_id n" "\<forall>n \<in> set (g_nodes (b_graph b')). node_type n = node_id n"
    using build_nodes_reg [OF b(1)] build_nodes_reg [OF b(2)] by (simp_all add: reg_ok_def)
  have "list_all2 (\<lambda>n m. shape_of n = shape_of m) (g_nodes (b_graph b)) (g_nodes (b_graph b'))"
    using b(3) by (simp add: b_shape_def list.rel_map flip: list.rel_eq)
  then have "list_all2 (\<lambda>n m. wire_of n = wire_of m) (g_nodes (b_graph b)) (g_nodes (b_graph b'))"
    using ty by (auto intro: list.rel_mono_strong wire_shape)
  then show ?thesis using b by (simp add: built_graph_def list.rel_map flip: list.rel_eq)
qed

lemma wire_ids: "map wire_of (g_nodes g) = map wire_of (g_nodes g') \<Longrightarrow> node_ids g = node_ids g'"
proof -
  assume "map wire_of (g_nodes g) = map wire_of (g_nodes g')"
  then have "map w_id (map wire_of (g_nodes g)) = map w_id (map wire_of (g_nodes g'))" by simp
  then show ?thesis by (simp add: wire_of_def node_ids_def comp_def)
qed

lemma restore_built:
  assumes "build cfg dp order = Inr (g, r)" and "map_order (built_graph cfg dp) order'"
  shows "reg_unmarshal r (map wire_of (g_nodes (built_graph cfg dp'))) order' = Inr g" and "g = built_graph cfg dp"
proof -
  obtain b where b: "build_nodes cfg dp = Inr b" "g = b_graph b" "r = b_reg b"
    using assms(1) by (auto simp: build_def split: sum.splits option.splits)
  show g: "g = built_graph cfg dp" using b by (simp add: built_graph_def)
  have same: "\<lparr>g_nodes = g_nodes g\<rparr> = g" by (cases g) simp
  have "restore_tasks r (map wire_of (g_nodes g)) = Inr (g_nodes g)"
    using b build_nodes_reg [OF b(1)] by (intro restore_tasks_wire) (auto simp: reg_ok_def)
  then show "reg_unmarshal r (map wire_of (g_nodes (built_graph cfg dp'))) order' = Inr g"
    using built.valid [OF assms(2)] g unfolding built_wires [of cfg dp' dp]
    by (simp add: reg_unmarshal_def Let_def same [unfolded g])
qed

section \<open>Recovery\<close>

lemma done_ids:
  "set (done_nodes (saved_run encode cfg c st rst t0 t1)) =
     {i \<in> set (node_ids (ex_graph c)). status_at st i = Some Done}"
proof -
  have "(case x of None \<Rightarrow> Pending | Some s \<Rightarrow> s) = Done \<longleftrightarrow> x = Some Done" for x by (cases x) simp_all
  then have "done_nodes (saved_run encode cfg c st rst t0 t1) =
      map node_id (filter (\<lambda>n. status_at st (node_id n) = Some Done) (g_nodes (ex_graph c)))"
    by (simp add: done_nodes_def saved_run_def snapshot_of_def Let_def filter_map comp_def node_snapshot_def)
  then show ?thesis by (auto simp: node_ids_def)
qed

lemma marks_of: "status_at (fold mark_node_done ids new_executor) i = (if i \<in> set ids then Some Done else None)"
  using status_at_marks by (simp add: new_executor_def)

lemma import_saved:
  "import_run_state (exported_state encode cfg rst) t = import_run_state (export_run_state rst) t"
  by (simp add: exported_state_def import_run_state_def)

text \<open>
  C11. Recovery resumes the run that was interrupted: from whatever state a started run was saved in, as
  long as its configuration decodes, the recovery builds the same nodes with the tasks of the present
  settings, starts an executor that is in an initial state, with exactly the nodes that were done marked as done, and
  gives the tasks the targets, endpoint, containers, network and settings the run had (all but the terraform directory).
\<close>

theorem recovery_resumes_run:
  assumes "app_start a tenant cfg order = Inr (cfg', c, st0)" and "exec_run c st0 es = Some st"
    and "decode (encode cfg') = Some cfg'" and "build_deps a' tenant cfg' = Inr dp'"
    and "map_order (built_graph cfg' dp') order'" and "map_order (built_graph cfg' dp') order''"
  shows "\<exists>c' st'. app_recover a' decode tenant (saved_run encode cfg' c st rst t0 t1) order' order'' =
      Inr (cfg', c', st', rst\<lparr>st_terraform_wd := [], st_has_actor := False\<rparr>) \<and>
    ex_graph c' = built_graph cfg' dp' \<and> map wire_of (g_nodes (ex_graph c')) = map wire_of (g_nodes (ex_graph c)) \<and>
    exec_init c' st' \<and>
    (\<forall>i \<in> set (node_ids (ex_graph c)). status_at st' i = (if status_at st i = Some Done then Some Done else None))"
proof -
  obtain dp g r where start: "cfg' = fill_machines cfg" "build cfg' dp order = Inr (g, r)" "c = app_executor g"
    using assms(1) by (auto simp: app_start_def Let_def split: option.splits sum.splits)
  have fill: "fill_machines cfg' = cfg'" using fill_twice start(1) by simp
  have kind: "db_kind (rc_database cfg') \<in> set supported_kinds"
    using start(2) db_tasks_supported db_tasks_unsupported
    by (fastforce simp: build_def build_nodes_def Let_def split: sum.splits)
  obtain b :: builder where b: "build cfg' dp' order' = Inr (built_graph cfg' dp', b_reg b)" 
    using build_ok [OF kind, of dp'] assms(5) by blast
  have g: "g = built_graph cfg' dp"
    using start(2) by (auto simp: build_def built_graph_def split: sum.splits option.splits)
  have wires: "map wire_of (g_nodes (built_graph cfg' dp')) = map wire_of (g_nodes (ex_graph c))"
    using built_wires start(3) g by (simp add: app_executor_def)
  have unm: "reg_unmarshal (b_reg b) (map wire_of (g_nodes (ex_graph c))) order'' = Inr (built_graph cfg' dp')"
    using restore_built(1) [OF b assms(6), of dp] start(3) g by (simp add: app_executor_def)
  let ?snap = "saved_run encode cfg' c st rst t0 t1"
  let ?c' = "app_executor (built_graph cfg' dp')" and ?st' = "fold mark_node_done (done_nodes ?snap) new_executor"
  have parts: "rs_state ?snap = Some (exported_state encode cfg' rst)" "rs_graph ?snap = map wire_of (g_nodes (ex_graph c))"
    "sv_run_config (exported_state encode cfg' rst) = encode cfg'"
    by (simp_all add: saved_run_def exported_state_def)
  have rst: "import_run_state (exported_state encode cfg' rst) new_state = rst\<lparr>st_terraform_wd := [], st_has_actor := False\<rparr>"
    unfolding import_saved import_export by (simp add: new_state_def)
  have rec: "app_recover a' decode tenant ?snap order' order'' =
      Inr (cfg', ?c', ?st', rst\<lparr>st_terraform_wd := [], st_has_actor := False\<rparr>)"
    unfolding app_recover_def parts using assms(3,4) fill b unm rst by (simp add: parts Let_def)
  have ids: "node_ids (built_graph cfg' dp') = node_ids (ex_graph c)" by (rule wire_ids [OF wires])
  have graph: "ex_graph ?c' = built_graph cfg' dp'" by (simp add: app_executor_def)
  have "exec_init ?c' ?st'"
    unfolding exec_init_def graph using built_ids [of cfg' dp'] ids done_ids [of encode cfg' c st rst t0 t1]
    by (intro conjI exI [of _ "done_nodes ?snap"]) auto
  moreover have "\<forall>i \<in> set (node_ids (ex_graph c)). status_at ?st' i = (if status_at st i = Some Done then Some Done else None)"
    unfolding marks_of done_ids by simp
  ultimately show ?thesis using rec graph wires by (intro exI [of _ ?c'] exI [of _ ?st']) simp
qed

definition sample_app :: app where
  "sample_app = \<lparr>ap_monitoring_url = [], ap_monitoring_token = [], ap_listen_addr = '':8080'', ap_linux = True,
     ap_settings = None, ap_account = None, ap_parse_url = (\<lambda>_. None), ap_deployer = (\<lambda>_. None)\<rparr>"

definition sample_filled :: run_config where
  "sample_filled = fill_machines (sample_cfg None)"

lemma sample_valid: "validate_config (sample_cfg None) = None"
  by code_simp

lemma sample_started:
  obtains c dp' where "app_start sample_app ''t'' (sample_cfg None) (node_ids (built_graph sample_filled dp')) = Inr (sample_filled, c, new_executor)"
    "build_deps sample_app ''t'' sample_filled = Inr dp'"
proof -
  have p: "rc_provider sample_filled = ProviderYandex"
    by (simp add: sample_filled_def fill_machines_def sample_cfg_def)
  obtain dp' where dp: "build_deps sample_app ''t'' sample_filled = Inr dp'"
    using p by (simp add: build_deps_def sample_app_def)
  have "db_kind (rc_database sample_filled) \<in> set supported_kinds"
    by (simp add: sample_filled_def fill_machines_def sample_cfg_def sample_db_def supported_kinds_def)
  from build_ok [OF this, of dp'] obtain b :: builder where
    "build sample_filled dp' (node_ids (built_graph sample_filled dp')) = Inr (built_graph sample_filled dp', b_reg b)"
    using built_ids [of sample_filled dp'] by (auto simp: map_order_def)
  then have "app_start sample_app ''t'' (sample_cfg None) (node_ids (built_graph sample_filled dp')) =
      Inr (sample_filled, app_executor (built_graph sample_filled dp'), new_executor)"
    using dp sample_valid by (simp add: app_start_def sample_filled_def [symmetric] Let_def)
  then show ?thesis using that dp by blast
qed

theorem recovery_resumes_run_witness:
  "\<exists>order snap c' st'. app_recover sample_app (\<lambda>_. Some sample_filled) ''t'' snap order order =
     Inr (sample_filled, c', st', new_state) \<and> exec_init c' st'"
proof -
  obtain c dp' where s: "app_start sample_app ''t'' (sample_cfg None) (node_ids (built_graph sample_filled dp')) = Inr (sample_filled, c, new_executor)"
    "build_deps sample_app ''t'' sample_filled = Inr dp'" using sample_started by blast
  let ?order = "node_ids (built_graph sample_filled dp')"
  have o: "map_order (built_graph sample_filled dp') ?order" using built_ids [of sample_filled dp'] by (simp add: map_order_def)
  have run: "exec_run c new_executor [] = Some new_executor" by simp
  have new: "new_state\<lparr>st_terraform_wd := [], st_has_actor := False\<rparr> = new_state" by (simp add: new_state_def)
  from recovery_resumes_run [OF s(1) run _ s(2) o o, of "\<lambda>_. Some sample_filled" "\<lambda>_. ''{}''" new_state 1 0]
  show ?thesis unfolding new by blast
qed

end
