(* ===== verification/Catalog.thy ===== *)
theory Catalog
  imports App "HOL-Library.Product_Lexorder"
begin

text \<open>
  Packages and presets of a tenant (\<open>api/package_handlers.go\<close>, \<open>api/preset_handlers.go\<close>,
  \<open>types/presets.go\<close>) with the queries they make (\<open>generated/packages.sql.go\<close>,
  \<open>generated/presets.sql.go\<close>). The database is the lists of its rows with the constraints of the
  migrations; whether it answers, its error texts, the order of its collation and the JSON of topologies are arguments.
  Both tables are instances of one contract: a tenant's requests leave alone the rows of others and built-in rows.
\<close>

section \<open>The database\<close>

datatype db_error = Unavailable | No_rows | Violation

text \<open>
  \<open>de_up q\<close>: the database answers the query \<open>q\<close>. \<open>de_rank\<close> is a name's place in the
  database's collation. Times are Unix seconds.
\<close>

record db_env =
  de_up :: "string \<Rightarrow> bool"
  de_show :: "db_error \<Rightarrow> string"
  de_rank :: "string \<Rightarrow> int"
  de_now :: int

definition db_answer :: "db_env \<Rightarrow> string \<Rightarrow> db_error + 'a \<Rightarrow> db_error + 'a" where
  "db_answer env q x = (if de_up env q then x else Inl Unavailable)"

definition query_one :: "('r \<Rightarrow> bool) \<Rightarrow> 'r list \<Rightarrow> db_error + 'r" where
  "query_one p rows = (case find p rows of None \<Rightarrow> Inl No_rows | Some r \<Rightarrow> Inr r)"

text \<open>What a handler writes: an error, or a body.\<close>

datatype 'a reply = Fail nat string | Reply nat 'a

section \<open>The tables\<close>

record tenant =
  tn_id :: string
  tn_name :: string
  tn_account :: int
  tn_created :: int

record package_row =
  pw_id :: string
  pw_tenant :: string
  pw_name :: string
  pw_description :: string
  pw_kind :: string
  pw_version :: string
  pw_builtin :: bool
  pw_apt :: "string list"
  pw_pre :: "string list"
  pw_repo :: string
  pw_repo_key :: string
  pw_deb :: "string option"
  pw_deb_filename :: string
  pw_created :: int
  pw_updated :: int

record preset_row =
  pt_id :: string
  pt_tenant :: string
  pt_name :: string
  pt_description :: string
  pt_kind :: string
  pt_topology :: string
  pt_builtin :: bool
  pt_created :: int
  pt_updated :: int

record catalog =
  ct_tenants :: "tenant list"
  ct_packages :: "package_row list"
  ct_presets :: "preset_row list"

definition tenant_ids :: "'a catalog_scheme \<Rightarrow> string list" where
  "tenant_ids db = map tn_id (ct_tenants db)"

section \<open>Queries on packages\<close>

definition package_clash :: "package_row \<Rightarrow> package_row \<Rightarrow> bool" where
  "package_clash r x \<longleftrightarrow> pw_id x = pw_id r \<or> pw_tenant x = pw_tenant r \<and> pw_name x = pw_name r"

definition insert_package :: "package_row \<Rightarrow> package_row list \<Rightarrow> package_row list option" where
  "insert_package r rows = (if list_ex (package_clash r) rows then None else Some (rows @ [r]))"

definition create_package_row :: "db_env \<Rightarrow> package_row \<Rightarrow> 'a catalog_scheme \<Rightarrow> db_error + 'a catalog_scheme" where
  "create_package_row env r db = db_answer env ''CreatePackage''
     (if pw_tenant r \<notin> set (tenant_ids db) then Inl Violation
      else (case insert_package (r\<lparr>pw_deb := None, pw_created := de_now env, pw_updated := de_now env\<rparr>) (ct_packages db) of
              None \<Rightarrow> Inl Violation
            | Some rows \<Rightarrow> Inr (db\<lparr>ct_packages := rows\<rparr>)))"

definition find_package :: "db_env \<Rightarrow> string \<Rightarrow> string \<Rightarrow> 'a catalog_scheme \<Rightarrow> db_error + package_row" where
  "find_package env tenant pid db = db_answer env ''GetPackage''
     (query_one (\<lambda>r. pw_id r = pid \<and> pw_tenant r = tenant) (ct_packages db))"

text \<open>\<open>ORDER BY is_builtin DESC, name\<close>\<close>

definition package_order :: "db_env \<Rightarrow> package_row list \<Rightarrow> package_row list" where
  "package_order env rows = sort_key (\<lambda>r. (\<not> pw_builtin r, de_rank env (pw_name r))) rows"

definition packages_of :: "db_env \<Rightarrow> string \<Rightarrow> 'a catalog_scheme \<Rightarrow> db_error + package_row list" where
  "packages_of env tenant db = db_answer env ''ListPackages''
     (Inr (package_order env (filter (\<lambda>r. pw_tenant r = tenant) (ct_packages db))))"

definition packages_by_kind :: "db_env \<Rightarrow> string \<Rightarrow> string \<Rightarrow> 'a catalog_scheme \<Rightarrow> db_error + package_row list" where
  "packages_by_kind env tenant kind db = db_answer env ''ListPackagesByKind''
     (Inr (package_order env (filter (\<lambda>r. pw_tenant r = tenant \<and> pw_kind r = kind) (ct_packages db))))"

definition packages_by_version ::
  "db_env \<Rightarrow> string \<Rightarrow> string \<Rightarrow> string \<Rightarrow> 'a catalog_scheme \<Rightarrow> db_error + package_row list" where
  "packages_by_version env tenant kind version db = db_answer env ''ListPackagesByKindVersion''
     (Inr (package_order env
        (filter (\<lambda>r. pw_tenant r = tenant \<and> pw_kind r = kind \<and> pw_version r = version) (ct_packages db))))"

text \<open>The columns that \<open>UpdatePackage\<close> sets; the unique name may get in the way.\<close>

definition set_package :: "int \<Rightarrow> package_row \<Rightarrow> package_row \<Rightarrow> package_row" where
  "set_package now p r = r\<lparr>pw_name := pw_name p, pw_description := pw_description p, pw_kind := pw_kind p,
     pw_version := pw_version p, pw_apt := pw_apt p, pw_pre := pw_pre p, pw_repo := pw_repo p,
     pw_repo_key := pw_repo_key p, pw_deb_filename := pw_deb_filename p, pw_updated := now\<rparr>"

definition update_package_rows :: "int \<Rightarrow> package_row \<Rightarrow> package_row list \<Rightarrow> package_row list option" where
  "update_package_rows now p rows =
     (let hit = (\<lambda>r. pw_id r = pw_id p \<and> pw_tenant r = pw_tenant p \<and> \<not> pw_builtin r) in
      if list_ex hit rows \<and>
         list_ex (\<lambda>r. \<not> hit r \<and> pw_tenant r = pw_tenant p \<and> pw_name r = pw_name p) rows then None
      else Some (map (\<lambda>r. if hit r then set_package now p r else r) rows))"

definition update_package_row :: "db_env \<Rightarrow> package_row \<Rightarrow> 'a catalog_scheme \<Rightarrow> db_error + 'a catalog_scheme" where
  "update_package_row env p db = db_answer env ''UpdatePackage''
     (case update_package_rows (de_now env) p (ct_packages db) of
        None \<Rightarrow> Inl Violation | Some rows \<Rightarrow> Inr (db\<lparr>ct_packages := rows\<rparr>))"

definition set_deb_rows :: "int \<Rightarrow> string \<Rightarrow> string \<Rightarrow> string \<Rightarrow> string \<Rightarrow> package_row list \<Rightarrow> package_row list" where
  "set_deb_rows now tenant pid data filename rows = map (\<lambda>r. if pw_id r = pid \<and> pw_tenant r = tenant
     then r\<lparr>pw_deb := Some data, pw_deb_filename := filename, pw_updated := now\<rparr> else r) rows"

definition update_deb_data ::
  "db_env \<Rightarrow> string \<Rightarrow> string \<Rightarrow> string \<Rightarrow> string \<Rightarrow> 'a catalog_scheme \<Rightarrow> db_error + 'a catalog_scheme" where
  "update_deb_data env tenant pid data filename db = db_answer env ''UpdatePackageDebData''
     (Inr (db\<lparr>ct_packages := set_deb_rows (de_now env) tenant pid data filename (ct_packages db)\<rparr>))"

definition find_deb_data :: "db_env \<Rightarrow> string \<Rightarrow> string \<Rightarrow> 'a catalog_scheme \<Rightarrow> db_error + (string option \<times> string)" where
  "find_deb_data env tenant pid db = db_answer env ''GetPackageDebData''
     (case query_one (\<lambda>r. pw_id r = pid \<and> pw_tenant r = tenant) (ct_packages db) of
        Inl e \<Rightarrow> Inl e | Inr r \<Rightarrow> Inr (pw_deb r, pw_deb_filename r))"

definition delete_package_rows :: "string \<Rightarrow> string \<Rightarrow> package_row list \<Rightarrow> package_row list" where
  "delete_package_rows tenant pid rows = filter (\<lambda>r. \<not> (pw_id r = pid \<and> pw_tenant r = tenant \<and> \<not> pw_builtin r)) rows"

definition delete_package_row :: "db_env \<Rightarrow> string \<Rightarrow> string \<Rightarrow> 'a catalog_scheme \<Rightarrow> db_error + 'a catalog_scheme" where
  "delete_package_row env tenant pid db = db_answer env ''DeletePackage''
     (Inr (db\<lparr>ct_packages := delete_package_rows tenant pid (ct_packages db)\<rparr>))"

section \<open>Queries on presets\<close>

definition preset_clash :: "preset_row \<Rightarrow> preset_row \<Rightarrow> bool" where
  "preset_clash r x \<longleftrightarrow> pt_id x = pt_id r \<or> pt_tenant x = pt_tenant r \<and> pt_name x = pt_name r"

definition insert_preset :: "preset_row \<Rightarrow> preset_row list \<Rightarrow> preset_row list option" where
  "insert_preset r rows = (if list_ex (preset_clash r) rows then None else Some (rows @ [r]))"

definition create_preset_row :: "db_env \<Rightarrow> preset_row \<Rightarrow> 'a catalog_scheme \<Rightarrow> db_error + 'a catalog_scheme" where
  "create_preset_row env r db = db_answer env ''CreatePreset''
     (if pt_tenant r \<notin> set (tenant_ids db) then Inl Violation
      else (case insert_preset (r\<lparr>pt_created := de_now env, pt_updated := de_now env\<rparr>) (ct_presets db) of
              None \<Rightarrow> Inl Violation
            | Some rows \<Rightarrow> Inr (db\<lparr>ct_presets := rows\<rparr>)))"

definition find_preset :: "db_env \<Rightarrow> string \<Rightarrow> string \<Rightarrow> 'a catalog_scheme \<Rightarrow> db_error + preset_row" where
  "find_preset env tenant pid db = db_answer env ''GetPreset''
     (query_one (\<lambda>r. pt_id r = pid \<and> pt_tenant r = tenant) (ct_presets db))"

definition preset_order :: "db_env \<Rightarrow> preset_row list \<Rightarrow> preset_row list" where
  "preset_order env rows = sort_key (\<lambda>r. (\<not> pt_builtin r, de_rank env (pt_name r))) rows"

definition presets_of :: "db_env \<Rightarrow> string \<Rightarrow> 'a catalog_scheme \<Rightarrow> db_error + preset_row list" where
  "presets_of env tenant db = db_answer env ''ListPresetsTenant''
     (Inr (preset_order env (filter (\<lambda>r. pt_tenant r = tenant) (ct_presets db))))"

definition presets_by_kind :: "db_env \<Rightarrow> string \<Rightarrow> string \<Rightarrow> 'a catalog_scheme \<Rightarrow> db_error + preset_row list" where
  "presets_by_kind env tenant kind db = db_answer env ''ListPresetsByKind''
     (Inr (preset_order env (filter (\<lambda>r. pt_tenant r = tenant \<and> pt_kind r = kind) (ct_presets db))))"

definition set_preset :: "int \<Rightarrow> preset_row \<Rightarrow> preset_row \<Rightarrow> preset_row" where
  "set_preset now p r = r\<lparr>pt_name := pt_name p, pt_description := pt_description p, pt_topology := pt_topology p,
     pt_updated := now\<rparr>"

definition update_preset_rows :: "int \<Rightarrow> preset_row \<Rightarrow> preset_row list \<Rightarrow> preset_row list option" where
  "update_preset_rows now p rows =
     (let hit = (\<lambda>r. pt_id r = pt_id p \<and> pt_tenant r = pt_tenant p \<and> \<not> pt_builtin r) in
      if list_ex hit rows \<and>
         list_ex (\<lambda>r. \<not> hit r \<and> pt_tenant r = pt_tenant p \<and> pt_name r = pt_name p) rows then None
      else Some (map (\<lambda>r. if hit r then set_preset now p r else r) rows))"

definition update_preset_row :: "db_env \<Rightarrow> preset_row \<Rightarrow> 'a catalog_scheme \<Rightarrow> db_error + 'a catalog_scheme" where
  "update_preset_row env p db = db_answer env ''UpdatePreset''
     (case update_preset_rows (de_now env) p (ct_presets db) of
        None \<Rightarrow> Inl Violation | Some rows \<Rightarrow> Inr (db\<lparr>ct_presets := rows\<rparr>))"

definition delete_preset_rows :: "string \<Rightarrow> string \<Rightarrow> preset_row list \<Rightarrow> preset_row list" where
  "delete_preset_rows tenant pid rows = filter (\<lambda>r. \<not> (pt_id r = pid \<and> pt_tenant r = tenant \<and> \<not> pt_builtin r)) rows"

definition delete_preset_row :: "db_env \<Rightarrow> string \<Rightarrow> string \<Rightarrow> 'a catalog_scheme \<Rightarrow> db_error + 'a catalog_scheme" where
  "delete_preset_row env tenant pid db = db_answer env ''DeletePreset''
     (Inr (db\<lparr>ct_presets := delete_preset_rows tenant pid (ct_presets db)\<rparr>))"


section \<open>Handlers of packages\<close>

type_synonym fields = "(string \<times> string) list"

record package_req =
  pq_name :: string
  pq_description :: string
  pq_kind :: string
  pq_version :: string
  pq_apt :: "string list"
  pq_pre :: "string list"
  pq_repo :: string
  pq_repo_key :: string

record package_item =
  pi_id :: string
  pi_name :: string
  pi_description :: string
  pi_kind :: string
  pi_version :: string
  pi_builtin :: bool
  pi_apt :: "string list"
  pi_pre :: "string list"
  pi_repo :: string
  pi_deb_filename :: string
  pi_has_deb :: bool
  pi_created :: int

definition package_item_of :: "package_row \<Rightarrow> package_item" where
  "package_item_of r = \<lparr>pi_id = pw_id r, pi_name = pw_name r, pi_description = pw_description r, pi_kind = pw_kind r,
     pi_version = pw_version r, pi_builtin = pw_builtin r, pi_apt = pw_apt r, pi_pre = pw_pre r, pi_repo = pw_repo r,
     pi_deb_filename = pw_deb_filename r, pi_has_deb = (pw_deb_filename r \<noteq> []), pi_created = pw_created r\<rparr>"

definition list_packages :: "db_env \<Rightarrow> string \<Rightarrow> string \<Rightarrow> string \<Rightarrow> 'a catalog_scheme \<Rightarrow> package_item list reply" where
  "list_packages env tenant kind version db =
     (case (if kind \<noteq> [] \<and> version \<noteq> [] then packages_by_version env tenant kind version db
            else if kind \<noteq> [] then packages_by_kind env tenant kind db
            else packages_of env tenant db) of
        Inl e \<Rightarrow> Fail 500 (de_show env e)
      | Inr rows \<Rightarrow> Reply 200 (map package_item_of rows))"

definition get_package :: "db_env \<Rightarrow> string \<Rightarrow> string \<Rightarrow> 'a catalog_scheme \<Rightarrow> (package_item \<times> string) reply" where
  "get_package env tenant pid db =
     (case find_package env tenant pid db of
        Inl _ \<Rightarrow> Fail 404 ''package not found''
      | Inr r \<Rightarrow> Reply 200 (package_item_of r, pw_repo_key r))"

text \<open>The row of a request; \<open>body = None\<close> below is a body that does not decode.\<close>

definition requested_package :: "string \<Rightarrow> string \<Rightarrow> package_req \<Rightarrow> package_row" where
  "requested_package tenant pid rq = \<lparr>pw_id = pid, pw_tenant = tenant, pw_name = pq_name rq,
     pw_description = pq_description rq, pw_kind = pq_kind rq, pw_version = pq_version rq, pw_builtin = False,
     pw_apt = pq_apt rq, pw_pre = pq_pre rq, pw_repo = pq_repo rq, pw_repo_key = pq_repo_key rq, pw_deb = None,
     pw_deb_filename = [], pw_created = 0, pw_updated = 0\<rparr>"

definition create_package ::
  "db_env \<Rightarrow> string \<Rightarrow> string \<Rightarrow> package_req option \<Rightarrow> 'a catalog_scheme \<Rightarrow> fields reply \<times> 'a catalog_scheme" where
  "create_package env new_id tenant body db =
     (case body of
        None \<Rightarrow> (Fail 400 ''name and db_kind are required'', db)
      | Some rq \<Rightarrow>
          if pq_name rq = [] \<or> pq_kind rq = [] then (Fail 400 ''name and db_kind are required'', db)
          else (case create_package_row env (requested_package tenant new_id rq) db of
                  Inl _ \<Rightarrow> (Fail 409 ''name already exists'', db)
                | Inr db' \<Rightarrow> (Reply 201 [(''id'', new_id)], db')))"

definition update_package ::
  "db_env \<Rightarrow> string \<Rightarrow> string \<Rightarrow> package_req option \<Rightarrow> 'a catalog_scheme \<Rightarrow> fields reply \<times> 'a catalog_scheme" where
  "update_package env tenant pid body db =
     (case body of
        None \<Rightarrow> (Fail 400 ''invalid json'', db)
      | Some rq \<Rightarrow>
          (case find_package env tenant pid db of
             Inl _ \<Rightarrow> (Fail 404 ''not found'', db)
           | Inr pkg \<Rightarrow>
               if pw_builtin pkg then (Fail 403 ''cannot edit built-in package, clone it first'', db)
               else (case update_package_row env
                       ((requested_package tenant pid rq)\<lparr>pw_deb_filename := pw_deb_filename pkg\<rparr>) db of
                       Inl e \<Rightarrow> (Fail 500 (de_show env e), db)
                     | Inr db' \<Rightarrow> (Reply 200 [(''status'', ''updated'')], db'))))"

definition delete_package :: "db_env \<Rightarrow> string \<Rightarrow> string \<Rightarrow> 'a catalog_scheme \<Rightarrow> fields reply \<times> 'a catalog_scheme" where
  "delete_package env tenant pid db =
     (case delete_package_row env tenant pid db of
        Inl e \<Rightarrow> (Fail 500 (de_show env e), db)
      | Inr db' \<Rightarrow> (Reply 200 [(''status'', ''deleted'')], db'))"

definition clone_package ::
  "db_env \<Rightarrow> string \<Rightarrow> string \<Rightarrow> string \<Rightarrow> 'a catalog_scheme \<Rightarrow> fields reply \<times> 'a catalog_scheme" where
  "clone_package env new_id tenant pid db =
     (case find_package env tenant pid db of
        Inl _ \<Rightarrow> (Fail 404 ''source not found'', db)
      | Inr src \<Rightarrow>
          (let name = pw_name src @ '' (copy)'' in
           case create_package_row env (src\<lparr>pw_id := new_id, pw_tenant := tenant, pw_name := name, pw_builtin := False,
                  pw_deb_filename := []\<rparr>) db of
             Inl e \<Rightarrow> (Fail 409 (''clone failed: '' @ de_show env e), db)
           | Inr db' \<Rightarrow> (Reply 201 [(''id'', new_id), (''name'', name)], db')))"

text \<open>An upload is the file's name and bytes, or what is wrong with the form.\<close>

definition upload_package_deb ::
  "db_env \<Rightarrow> string \<Rightarrow> string \<Rightarrow> (nat \<times> string) + (string \<times> string) \<Rightarrow> 'a catalog_scheme \<Rightarrow>
     fields reply \<times> 'a catalog_scheme" where
  "upload_package_deb env tenant pid form db =
     (case form of
        Inl (code, msg) \<Rightarrow> (Fail code msg, db)
      | Inr (filename, data) \<Rightarrow>
          (case update_deb_data env tenant pid data filename db of
             Inl e \<Rightarrow> (Fail 500 (de_show env e), db)
           | Inr db' \<Rightarrow> (Reply 200 [(''status'', ''uploaded''), (''filename'', filename), (''size'', itoa (int (length data)))], db')))"

definition download_package_deb :: "db_env \<Rightarrow> string \<Rightarrow> string \<Rightarrow> 'a catalog_scheme \<Rightarrow> (string \<times> string) reply" where
  "download_package_deb env tenant pid db =
     (case find_deb_data env tenant pid db of
        Inl _ \<Rightarrow> Fail 404 ''no deb file''
      | Inr (data, filename) \<Rightarrow>
          (case data of
             None \<Rightarrow> Fail 404 ''no deb file''
           | Some d \<Rightarrow> if d = [] then Fail 404 ''no deb file'' else Reply 200 (filename, d)))"

text \<open>A new tenant gets the built-in packages; the ids are drawn in order, errors are dropped.\<close>

definition builtin_package_row :: "string \<Rightarrow> string \<Rightarrow> package \<Rightarrow> package_row" where
  "builtin_package_row tenant pid p = \<lparr>pw_id = pid, pw_tenant = tenant, pw_name = pkg_name p,
     pw_description = pkg_description p, pw_kind = pkg_db_kind p, pw_version = pkg_db_version p, pw_builtin = True,
     pw_apt = pkg_apt_packages p, pw_pre = pkg_pre_install p, pw_repo = pkg_custom_repo p,
     pw_repo_key = pkg_custom_repo_key p, pw_deb = None, pw_deb_filename = [], pw_created = 0, pw_updated = 0\<rparr>"

definition or_same :: "db_error + 'd \<Rightarrow> 'd \<Rightarrow> 'd" where
  "or_same x db = (case x of Inl _ \<Rightarrow> db | Inr db' \<Rightarrow> db')"

definition seed_builtin_packages ::
  "db_env \<Rightarrow> string \<Rightarrow> string list \<Rightarrow> 'a catalog_scheme \<Rightarrow> 'a catalog_scheme" where
  "seed_builtin_packages env tenant ids db =
     fold (\<lambda>(pid, p) db. or_same (create_package_row env (builtin_package_row tenant pid p) db) db)
       (zip ids builtin_packages) db"

section \<open>Handlers of presets\<close>

text \<open>The JSON of topologies: \<open>json.Marshal\<close> and, per kind, \<open>json.Unmarshal\<close> with its error.\<close>

record topology_codec =
  tc_marshal :: "topology_json \<Rightarrow> string"
  tc_postgres :: "string \<Rightarrow> string + postgres_topology"
  tc_mysql :: "string \<Rightarrow> string + mysql_topology"
  tc_picodata :: "string \<Rightarrow> string + picodata_topology"
  tc_ydb :: "string \<Rightarrow> string + ydb_topology"

definition parse_topology :: "topology_codec \<Rightarrow> string \<Rightarrow> preset \<Rightarrow> string + preset" where
  "parse_topology codec raw p =
     (if pr_db_kind p = DatabasePostgres then map_sum id (\<lambda>t. p\<lparr>pr_postgres := Some t\<rparr>) (tc_postgres codec raw)
      else if pr_db_kind p = DatabaseMySQL then map_sum id (\<lambda>t. p\<lparr>pr_mysql := Some t\<rparr>) (tc_mysql codec raw)
      else if pr_db_kind p = DatabasePicodata then map_sum id (\<lambda>t. p\<lparr>pr_picodata := Some t\<rparr>) (tc_picodata codec raw)
      else if pr_db_kind p = DatabaseYDB then map_sum id (\<lambda>t. p\<lparr>pr_ydb := Some t\<rparr>) (tc_ydb codec raw)
      else Inr p)"

definition preset_of_kind :: "string \<Rightarrow> preset" where
  "preset_of_kind kind = \<lparr>pr_id = [], pr_tenant_id = [], pr_name = [], pr_description = [], pr_db_kind = kind,
     pr_is_builtin = False, pr_postgres = None, pr_mysql = None, pr_picodata = None, pr_ydb = None\<rparr>"

record preset_req =
  sq_name :: string
  sq_description :: string
  sq_kind :: string
  sq_topology :: string

definition list_presets :: "db_env \<Rightarrow> string \<Rightarrow> string \<Rightarrow> 'a catalog_scheme \<Rightarrow> preset_row list reply" where
  "list_presets env tenant kind db =
     (case (if kind \<noteq> [] then presets_by_kind env tenant kind db else presets_of env tenant db) of
        Inl e \<Rightarrow> Fail 500 (de_show env e)
      | Inr rows \<Rightarrow> Reply 200 rows)"

definition get_preset :: "db_env \<Rightarrow> string \<Rightarrow> string \<Rightarrow> 'a catalog_scheme \<Rightarrow> preset_row reply" where
  "get_preset env tenant pid db =
     (case find_preset env tenant pid db of Inl _ \<Rightarrow> Fail 404 ''preset not found'' | Inr r \<Rightarrow> Reply 200 r)"

definition create_preset ::
  "db_env \<Rightarrow> topology_codec \<Rightarrow> string \<Rightarrow> string \<Rightarrow> preset_req option \<Rightarrow> 'a catalog_scheme \<Rightarrow>
     fields reply \<times> 'a catalog_scheme" where
  "create_preset env codec new_id tenant body db =
     (case body of
        None \<Rightarrow> (Fail 400 ''name, db_kind, and topology are required'', db)
      | Some rq \<Rightarrow>
          if sq_name rq = [] \<or> sq_kind rq = [] \<or> sq_topology rq = []
          then (Fail 400 ''name, db_kind, and topology are required'', db)
          else (case parse_topology codec (sq_topology rq) (preset_of_kind (sq_kind rq)) of
                  Inl e \<Rightarrow> (Fail 400 (''invalid topology: '' @ e), db)
                | Inr _ \<Rightarrow>
                    (case create_preset_row env \<lparr>pt_id = new_id, pt_tenant = tenant, pt_name = sq_name rq,
                            pt_description = sq_description rq, pt_kind = sq_kind rq, pt_topology = sq_topology rq,
                            pt_builtin = False, pt_created = 0, pt_updated = 0\<rparr> db of
                       Inl _ \<Rightarrow> (Fail 409 ''name already exists'', db)
                     | Inr db' \<Rightarrow> (Reply 201 [(''id'', new_id)], db'))))"

text \<open>The topology of an update: the old one when none is given.\<close>

definition updated_topology :: "topology_codec \<Rightarrow> preset_row \<Rightarrow> preset_req \<Rightarrow> string + string" where
  "updated_topology codec row rq =
     (if sq_topology rq = [] then Inr (pt_topology row)
      else (case parse_topology codec (sq_topology rq) (preset_of_kind (pt_kind row)) of
              Inl e \<Rightarrow> Inl (''invalid topology: '' @ e)
            | Inr _ \<Rightarrow> Inr (sq_topology rq)))"

definition update_preset ::
  "db_env \<Rightarrow> topology_codec \<Rightarrow> string \<Rightarrow> string \<Rightarrow> preset_req option \<Rightarrow> 'a catalog_scheme \<Rightarrow>
     fields reply \<times> 'a catalog_scheme" where
  "update_preset env codec tenant pid body db =
     (case body of
        None \<Rightarrow> (Fail 400 ''invalid json'', db)
      | Some rq \<Rightarrow>
          (case find_preset env tenant pid db of
             Inl _ \<Rightarrow> (Fail 404 ''not found'', db)
           | Inr row \<Rightarrow>
               if pt_builtin row then (Fail 403 ''cannot edit built-in preset, clone it first'', db)
               else (case updated_topology codec row rq of
                       Inl e \<Rightarrow> (Fail 400 e, db)
                     | Inr topo \<Rightarrow>
                         (case update_preset_row env (row\<lparr>pt_id := pid, pt_tenant := tenant,
                                 pt_name := str_or (sq_name rq) (pt_name row), pt_description := sq_description rq,
                                 pt_topology := topo\<rparr>) db of
                            Inl e \<Rightarrow> (Fail 500 (de_show env e), db)
                          | Inr db' \<Rightarrow> (Reply 200 [(''status'', ''updated'')], db')))))"

definition delete_preset :: "db_env \<Rightarrow> string \<Rightarrow> string \<Rightarrow> 'a catalog_scheme \<Rightarrow> fields reply \<times> 'a catalog_scheme" where
  "delete_preset env tenant pid db =
     (case delete_preset_row env tenant pid db of
        Inl e \<Rightarrow> (Fail 500 (de_show env e), db)
      | Inr db' \<Rightarrow> (Reply 200 [(''status'', ''deleted'')], db'))"

definition clone_preset ::
  "db_env \<Rightarrow> string \<Rightarrow> string \<Rightarrow> string \<Rightarrow> 'a catalog_scheme \<Rightarrow> fields reply \<times> 'a catalog_scheme" where
  "clone_preset env new_id tenant pid db =
     (case find_preset env tenant pid db of
        Inl _ \<Rightarrow> (Fail 404 ''source not found'', db)
      | Inr src \<Rightarrow>
          (let name = pt_name src @ '' (copy)'' in
           case create_preset_row env (src\<lparr>pt_id := new_id, pt_tenant := tenant, pt_name := name, pt_builtin := False\<rparr>) db of
             Inl e \<Rightarrow> (Fail 409 (''clone failed: '' @ de_show env e), db)
           | Inr db' \<Rightarrow> (Reply 201 [(''id'', new_id), (''name'', name)], db')))"

definition builtin_preset_row :: "topology_codec \<Rightarrow> string \<Rightarrow> string \<Rightarrow> preset \<Rightarrow> preset_row" where
  "builtin_preset_row codec tenant pid p = \<lparr>pt_id = pid, pt_tenant = tenant, pt_name = pr_name p,
     pt_description = pr_description p, pt_kind = pr_db_kind p,
     pt_topology = (case preset_topology_json p of JEmpty \<Rightarrow> [] | t \<Rightarrow> tc_marshal codec t), pt_builtin = True,
     pt_created = 0, pt_updated = 0\<rparr>"

definition seed_builtin_presets ::
  "db_env \<Rightarrow> topology_codec \<Rightarrow> string \<Rightarrow> string list \<Rightarrow> 'a catalog_scheme \<Rightarrow> 'a catalog_scheme" where
  "seed_builtin_presets env codec tenant ids db =
     fold (\<lambda>(pid, p) db. or_same (create_preset_row env (builtin_preset_row codec tenant pid p) db) db)
       (zip ids builtin_presets) db"

section \<open>What a run uses\<close>

definition has_topology :: "database_config \<Rightarrow> bool" where
  "has_topology d \<longleftrightarrow> db_postgres d \<noteq> None \<or> db_mysql d \<noteq> None \<or> db_picodata d \<noteq> None \<or> db_ydb d \<noteq> None"

text \<open>The topology of a parsed preset, put where its kind belongs.\<close>

definition apply_preset :: "string \<Rightarrow> preset \<Rightarrow> database_config \<Rightarrow> database_config" where
  "apply_preset kind p d =
     (if kind = DatabasePostgres then d\<lparr>db_postgres := pr_postgres p\<rparr>
      else if kind = DatabaseMySQL then d\<lparr>db_mysql := pr_mysql p\<rparr>
      else if kind = DatabasePicodata then d\<lparr>db_picodata := pr_picodata p\<rparr>
      else if kind = DatabaseYDB then d\<lparr>db_ydb := pr_ydb p\<rparr>
      else d)"

definition resolve_run_preset ::
  "db_env \<Rightarrow> topology_codec \<Rightarrow> string \<Rightarrow> 'a catalog_scheme \<Rightarrow> run_config \<Rightarrow> string + run_config" where
  "resolve_run_preset env codec tenant db cfg =
     (if rc_preset_id cfg = [] then Inr cfg
      else (case find_preset env tenant (rc_preset_id cfg) db of
              Inl e \<Rightarrow> Inl (''preset not found: '' @ de_show env e)
            | Inr row \<Rightarrow>
                (let d = rc_database cfg;
                     d = (if db_kind d = [] then d\<lparr>db_kind := pt_kind row\<rparr> else d)
                 in if has_topology d then Inr (cfg\<lparr>rc_database := d\<rparr>)
                    else (case parse_topology codec (pt_topology row) (preset_of_kind (pt_kind row)) of
                            Inl e \<Rightarrow> Inl (''invalid preset topology: '' @ e)
                          | Inr p \<Rightarrow> Inr (cfg\<lparr>rc_database := apply_preset (pt_kind row) p d\<rparr>)))))"

text \<open>
  The choice of a package, its URL and its token; \<open>issue\<close> signs the claims of the download
  (\<open>None\<close>: no issuer, or it fails) and the server's address is that of the tenant's settings or of docker.
\<close>

definition chosen_package :: "db_env \<Rightarrow> string \<Rightarrow> 'a catalog_scheme \<Rightarrow> run_config \<Rightarrow> string + package_row" where
  "chosen_package env tenant db cfg =
     (if rc_package_id cfg \<noteq> [] then
        (case find_package env tenant (rc_package_id cfg) db of
           Inl e \<Rightarrow> Inl (''package not found: '' @ de_show env e) | Inr r \<Rightarrow> Inr r)
      else (case packages_by_version env tenant (db_kind (rc_database cfg)) (db_version (rc_database cfg)) db of
              Inr (r # rows) \<Rightarrow> Inr r
            | _ \<Rightarrow> Inl (''no package found for '' @ db_kind (rc_database cfg) @ '' '' @ db_version (rc_database cfg))))"

definition package_of_row :: "package_row \<Rightarrow> package" where
  "package_of_row r = \<lparr>pkg_id = pw_id r, pkg_tenant_id = [], pkg_name = pw_name r, pkg_description = [],
     pkg_db_kind = pw_kind r, pkg_db_version = pw_version r, pkg_is_builtin = False, pkg_apt_packages = pw_apt r,
     pkg_pre_install = pw_pre r, pkg_custom_repo = pw_repo r, pkg_custom_repo_key = pw_repo_key r,
     pkg_deb_filename = [], pkg_deb_token = []\<rparr>"

definition resolve_run_package ::
  "db_env \<Rightarrow> app \<Rightarrow> (string \<Rightarrow> string option) \<Rightarrow> string \<Rightarrow> 'a catalog_scheme \<Rightarrow> run_config \<Rightarrow> string + run_config" where
  "resolve_run_package env a issue tenant db cfg =
     (if db_kind (rc_database cfg) = DatabaseYDB then Inr cfg
      else (case chosen_package env tenant db cfg of
              Inl e \<Rightarrow> Inl e
            | Inr r \<Rightarrow>
                (let p = package_of_row r;
                     addr = (case tenant_settings a tenant of None \<Rightarrow> [] | Some s \<Rightarrow> cs_server_addr (ss_cloud s));
                     addr = str_or addr (docker_host_addr (ap_linux a) (ap_listen_addr a));
                     p = (if pw_deb_filename r = [] then p
                          else p\<lparr>pkg_deb_filename := (addr @ ''/api/v1/packages/'' @
                     pw_id r @ ''/deb''),
                            pkg_deb_token := (case issue tenant of None \<Rightarrow> [] | Some t \<Rightarrow> t)\<rparr>)
                 in Inr (cfg\<lparr>rc_resolved_package := Some p\<rparr>))))"

text \<open>The two resolutions that a start makes, in its order.\<close>

definition resolve_run ::
  "db_env \<Rightarrow> topology_codec \<Rightarrow> app \<Rightarrow> (string \<Rightarrow> string option) \<Rightarrow> string \<Rightarrow> 'a catalog_scheme \<Rightarrow> run_config \<Rightarrow> string + run_config" where
  "resolve_run env codec a issue tenant db cfg =
     (case resolve_run_preset env codec tenant db cfg of
        Inl e \<Rightarrow> Inl e | Inr cfg \<Rightarrow> resolve_run_package env a issue tenant db cfg)"


section \<open>The contract of the tables\<close>

text \<open>Rows that requests of tenant \<open>t\<close> must not touch: those of others, and built-in ones.\<close>

definition protected :: "('r \<Rightarrow> string) \<Rightarrow> ('r \<Rightarrow> bool) \<Rightarrow> string \<Rightarrow> 'r list \<Rightarrow> 'r list" where
  "protected owner builtin t rows = filter (\<lambda>r. owner r \<noteq> t \<or> builtin r) rows"

definition unique_rows :: "('r \<Rightarrow> string) \<Rightarrow> ('r \<Rightarrow> string) \<Rightarrow> ('r \<Rightarrow> string) \<Rightarrow> 'r list \<Rightarrow> bool" where
  "unique_rows key owner title rows \<longleftrightarrow> distinct (map key rows) \<and> distinct (map (\<lambda>r. (owner r, title r)) rows)"

locale tenant_table =
  fixes key :: "'r \<Rightarrow> string" and owner :: "'r \<Rightarrow> string" and title :: "'r \<Rightarrow> string" and builtin :: "'r \<Rightarrow> bool"
    and insert_row :: "'r \<Rightarrow> 'r list \<Rightarrow> 'r list option"
    and update_rows :: "'r \<Rightarrow> 'r list \<Rightarrow> 'r list option"
    and delete_rows :: "string \<Rightarrow> string \<Rightarrow> 'r list \<Rightarrow> 'r list"
  assumes insert_appends: "insert_row r rows = Some rows' \<Longrightarrow> rows' = rows @ [r]"
    and insert_fresh: "insert_row r rows = Some rows' \<Longrightarrow> x \<in> set rows \<Longrightarrow>
      key x \<noteq> key r \<and> (owner x = owner r \<longrightarrow> title x \<noteq> title r)"
    and update_maps: "update_rows p rows = Some rows' \<Longrightarrow> \<exists>f. rows' = map f rows \<and>
      (\<forall>x. key (f x) = key x \<and> owner (f x) = owner x \<and> builtin (f x) = builtin x) \<and>
      (\<forall>x. f x \<noteq> x \<longrightarrow> owner x = owner p \<and> \<not> builtin x)"
    and update_unique: "update_rows p rows = Some rows' \<Longrightarrow> unique_rows key owner title rows \<Longrightarrow>
      distinct (map (\<lambda>r. (owner r, title r)) rows')"
    and delete_filters: "\<exists>q. delete_rows t i rows = filter q rows \<and> (\<forall>x. \<not> q x \<longrightarrow> owner x = t \<and> \<not> builtin x)"
begin

lemma insert_protects:
  "insert_row r rows = Some rows' \<Longrightarrow> owner r = t \<Longrightarrow> \<not> builtin r \<Longrightarrow>
     protected owner builtin t rows' = protected owner builtin t rows"
  by (drule insert_appends) (simp add: protected_def)

lemma update_protects:
  assumes "update_rows p rows = Some rows'" and "owner p = t"
  shows "protected owner builtin t rows' = protected owner builtin t rows"
proof -
  obtain f where f: "rows' = map f rows" "\<And>x. owner (f x) = owner x" "\<And>x. builtin (f x) = builtin x"
    "\<And>x. f x \<noteq> x \<Longrightarrow> owner x = t \<and> \<not> builtin x"
    using update_maps [OF assms(1)] assms(2) by blast
  have "filter (\<lambda>r. owner r \<noteq> t \<or> builtin r) (map f rows) = filter (\<lambda>r. owner r \<noteq> t \<or> builtin r) rows"
    by (induction rows) (use f(2-4) in force)+
  then show ?thesis by (simp add: protected_def f(1))
qed

lemma delete_protects: "protected owner builtin t (delete_rows t i rows) = protected owner builtin t rows"
proof -
  obtain q where q: "delete_rows t i rows = filter q rows" "\<And>x. \<not> q x \<Longrightarrow> owner x = t \<and> \<not> builtin x"
    using delete_filters by blast
  have "(q x \<and> (owner x \<noteq> t \<or> builtin x)) = (owner x \<noteq> t \<or> builtin x)" for x using q(2) by blast
  then show ?thesis by (simp add: protected_def q(1) conj_commute)
qed

lemma insert_unique:
  assumes "insert_row r rows = Some rows'" and "unique_rows key owner title rows"
  shows "unique_rows key owner title rows'"
proof -
  have r: "rows' = rows @ [r]" using assms(1) by (rule insert_appends)
  have "key r \<notin> key ` set rows" "(owner r, title r) \<notin> (\<lambda>r. (owner r, title r)) ` set rows"
    using insert_fresh [OF assms(1)] by force+
  then show ?thesis using assms(2) by (simp add: r unique_rows_def)
qed

lemma update_keeps_unique:
  assumes "update_rows p rows = Some rows'" and "unique_rows key owner title rows"
  shows "unique_rows key owner title rows'"
proof -
  obtain f where f: "rows' = map f rows" "\<And>x. key (f x) = key x" using update_maps [OF assms(1)] by blast
  then have "map key rows' = map key rows" by (simp add: comp_def)
  then show ?thesis using update_unique assms by (simp add: unique_rows_def)
qed

lemma delete_unique: "unique_rows key owner title rows \<Longrightarrow> unique_rows key owner title (delete_rows t i rows)"
  using delete_filters [of t i rows] by (auto simp: unique_rows_def distinct_map_filter)

end

text \<open>An update that renames the one row it hits, when no other row has the name.\<close>

lemma rename_distinct:
  assumes d: "distinct (map (\<lambda>r. (owner r, title r)) rows)"
    and k: "distinct (map key rows)"
    and h: "\<And>x. hit x \<longleftrightarrow> key x = i \<and> owner x = t \<and> ok x"
    and f: "\<And>x. hit x \<Longrightarrow> owner (f x) = t \<and> title (f x) = new"
    and free: "list_ex hit rows \<longrightarrow> \<not> list_ex (\<lambda>r. \<not> hit r \<and> owner r = t \<and> title r = new) rows"
  shows "distinct (map (\<lambda>r. (owner r, title r)) (map (\<lambda>r. if hit r then f r else r) rows))"
proof -
  have i: "inj_on (\<lambda>r. (owner r, title r)) (set rows)" and dr: "distinct rows" and ik: "inj_on key (set rows)"
    using d k by (auto simp: distinct_map)
  have "inj_on (\<lambda>r. (owner (if hit r then f r else r), title (if hit r then f r else r))) (set rows)"
  proof (rule inj_onI)
    fix x y
    assume xy: "x \<in> set rows" "y \<in> set rows"
      "(owner (if hit x then f x else x), title (if hit x then f x else x)) =
       (owner (if hit y then f y else y), title (if hit y then f y else y))"
    have other: "title z \<noteq> new" if "list_ex hit rows" "\<not> hit z" "z \<in> set rows" "owner z = t" for z
      using free that by (auto simp: list_ex_iff)
    have some: "list_ex hit rows" if "hit z" "z \<in> set rows" for z using that by (auto simp: list_ex_iff)
    consider "hit x" "hit y" | "hit x" "\<not> hit y" | "\<not> hit x" "hit y" | "\<not> hit x" "\<not> hit y" by blast
    then show "x = y"
    proof cases
      case 1
      then have "key x = key y" using h by simp
      then show ?thesis using ik xy(1,2) by (meson inj_onD)
    next
      case 2
      then have "owner y = t" "title y = new" using xy(3) f [of x] by auto
      then show ?thesis using other [OF some [OF 2(1) xy(1)] 2(2) xy(2)] by simp
    next
      case 3
      then have "owner x = t" "title x = new" using xy(3) f [of y] by auto
      then show ?thesis using other [OF some [OF 3(2) xy(2)] 3(1) xy(1)] by simp
    next
      case 4
      then have "(owner x, title x) = (owner y, title y)" using xy(3) by simp
      then show ?thesis using i xy(1,2) by (meson inj_onD)
    qed
  qed
  then show ?thesis using dr by (simp add: distinct_map comp_def)
qed

interpretation pkgs: tenant_table pw_id pw_tenant pw_name pw_builtin insert_package "update_package_rows now" delete_package_rows
proof
  fix r x :: package_row and rows rows'
  assume "insert_package r rows = Some rows'"
  then show "rows' = rows @ [r]" "x \<in> set rows \<Longrightarrow> pw_id x \<noteq> pw_id r \<and> (pw_tenant x = pw_tenant r \<longrightarrow> pw_name x \<noteq> pw_name r)"
    by (auto simp: insert_package_def package_clash_def list_ex_iff split: if_splits)
next
  fix p and rows rows' :: "package_row list"
  assume u: "update_package_rows now p rows = Some rows'"
  let ?hit = "\<lambda>r. pw_id r = pw_id p \<and> pw_tenant r = pw_tenant p \<and> \<not> pw_builtin r"
  have r: "rows' = map (\<lambda>r. if ?hit r then set_package now p r else r) rows"
    and free: "list_ex ?hit rows \<longrightarrow> \<not> list_ex (\<lambda>r. \<not> ?hit r \<and> pw_tenant r = pw_tenant p \<and> pw_name r = pw_name p) rows"
    using u by (auto simp: update_package_rows_def Let_def split: if_splits)
  then show "\<exists>f. rows' = map f rows \<and>
      (\<forall>x. pw_id (f x) = pw_id x \<and> pw_tenant (f x) = pw_tenant x \<and> pw_builtin (f x) = pw_builtin x) \<and>
      (\<forall>x. f x \<noteq> x \<longrightarrow> pw_tenant x = pw_tenant p \<and> \<not> pw_builtin x)"
    by (intro exI [of _ "\<lambda>r. if ?hit r then set_package now p r else r"]) (simp add: set_package_def)
  assume "unique_rows pw_id pw_tenant pw_name rows"
  then show "distinct (map (\<lambda>r. (pw_tenant r, pw_name r)) rows')"
    unfolding r unique_rows_def by (intro rename_distinct [OF _ _ _ _ free]) (auto simp: set_package_def)
next
  fix t i and rows :: "package_row list"
  show "\<exists>q. delete_package_rows t i rows = filter q rows \<and> (\<forall>x. \<not> q x \<longrightarrow> pw_tenant x = t \<and> \<not> pw_builtin x)"
    unfolding delete_package_rows_def
    by (rule exI [of _ "\<lambda>r. \<not> (pw_id r = i \<and> pw_tenant r = t \<and> \<not> pw_builtin r)"]) simp
qed

interpretation prs: tenant_table pt_id pt_tenant pt_name pt_builtin insert_preset "update_preset_rows now" delete_preset_rows
proof
  fix r x :: preset_row and rows rows'
  assume "insert_preset r rows = Some rows'"
  then show "rows' = rows @ [r]" "x \<in> set rows \<Longrightarrow> pt_id x \<noteq> pt_id r \<and> (pt_tenant x = pt_tenant r \<longrightarrow> pt_name x \<noteq> pt_name r)"
    by (auto simp: insert_preset_def preset_clash_def list_ex_iff split: if_splits)
next
  fix p and rows rows' :: "preset_row list"
  assume u: "update_preset_rows now p rows = Some rows'"
  let ?hit = "\<lambda>r. pt_id r = pt_id p \<and> pt_tenant r = pt_tenant p \<and> \<not> pt_builtin r"
  have r: "rows' = map (\<lambda>r. if ?hit r then set_preset now p r else r) rows"
    and free: "list_ex ?hit rows \<longrightarrow> \<not> list_ex (\<lambda>r. \<not> ?hit r \<and> pt_tenant r = pt_tenant p \<and> pt_name r = pt_name p) rows"
    using u by (auto simp: update_preset_rows_def Let_def split: if_splits)
  then show "\<exists>f. rows' = map f rows \<and>
      (\<forall>x. pt_id (f x) = pt_id x \<and> pt_tenant (f x) = pt_tenant x \<and> pt_builtin (f x) = pt_builtin x) \<and>
      (\<forall>x. f x \<noteq> x \<longrightarrow> pt_tenant x = pt_tenant p \<and> \<not> pt_builtin x)"
    by (intro exI [of _ "\<lambda>r. if ?hit r then set_preset now p r else r"]) (simp add: set_preset_def)
  assume "unique_rows pt_id pt_tenant pt_name rows"
  then show "distinct (map (\<lambda>r. (pt_tenant r, pt_name r)) rows')"
    unfolding r unique_rows_def by (intro rename_distinct [OF _ _ _ _ free]) (auto simp: set_preset_def)
next
  fix t i and rows :: "preset_row list"
  show "\<exists>q. delete_preset_rows t i rows = filter q rows \<and> (\<forall>x. \<not> q x \<longrightarrow> pt_tenant x = t \<and> \<not> pt_builtin x)"
    unfolding delete_preset_rows_def
    by (rule exI [of _ "\<lambda>r. \<not> (pt_id r = i \<and> pt_tenant r = t \<and> \<not> pt_builtin r)"]) simp
qed

section \<open>Requests of a tenant\<close>

datatype catalog_request =
    Create_package string "package_req option"
  | Update_package string "package_req option"
  | Delete_package string
  | Clone_package string string
  | Upload_deb string "(nat \<times> string) + (string \<times> string)"
  | Create_preset string "preset_req option"
  | Update_preset string "preset_req option"
  | Delete_preset string
  | Clone_preset string string

fun catalog_step ::
  "db_env \<Rightarrow> topology_codec \<Rightarrow> string \<Rightarrow> catalog_request \<Rightarrow> 'a catalog_scheme \<Rightarrow> fields reply \<times> 'a catalog_scheme" where
  "catalog_step env codec t (Create_package new_id body) db = create_package env new_id t body db"
| "catalog_step env codec t (Update_package pid body) db = update_package env t pid body db"
| "catalog_step env codec t (Delete_package pid) db = delete_package env t pid db"
| "catalog_step env codec t (Clone_package new_id pid) db = clone_package env new_id t pid db"
| "catalog_step env codec t (Upload_deb pid form) db = upload_package_deb env t pid form db"
| "catalog_step env codec t (Create_preset new_id body) db = create_preset env codec new_id t body db"
| "catalog_step env codec t (Update_preset pid body) db = update_preset env codec t pid body db"
| "catalog_step env codec t (Delete_preset pid) db = delete_preset env t pid db"
| "catalog_step env codec t (Clone_preset new_id pid) db = clone_preset env new_id t pid db"

definition catalog_run ::
  "topology_codec \<Rightarrow> string \<Rightarrow> (db_env \<times> catalog_request) list \<Rightarrow> 'a catalog_scheme \<Rightarrow> 'a catalog_scheme" where
  "catalog_run codec t rqs db = fold (\<lambda>(env, rq) db. snd (catalog_step env codec t rq db)) rqs db"

text \<open>A row but for its .deb file and the time of its update.\<close>

definition without_deb :: "package_row \<Rightarrow> package_row" where
  "without_deb r = r\<lparr>pw_deb := None, pw_deb_filename := [], pw_updated := 0\<rparr>"

definition same_elsewhere :: "string \<Rightarrow> 'a catalog_scheme \<Rightarrow> 'a catalog_scheme \<Rightarrow> bool" where
  "same_elsewhere t db db' \<longleftrightarrow>
     filter (\<lambda>r. pw_tenant r \<noteq> t) (ct_packages db') = filter (\<lambda>r. pw_tenant r \<noteq> t) (ct_packages db) \<and>
     map without_deb (protected pw_tenant pw_builtin t (ct_packages db')) =
       map without_deb (protected pw_tenant pw_builtin t (ct_packages db)) \<and>
     protected pt_tenant pt_builtin t (ct_presets db') = protected pt_tenant pt_builtin t (ct_presets db) \<and>
     ct_tenants db' = ct_tenants db"

text \<open>The constraints of the two tables.\<close>

definition catalog_ok :: "'a catalog_scheme \<Rightarrow> bool" where
  "catalog_ok db \<longleftrightarrow> unique_rows pw_id pw_tenant pw_name (ct_packages db) \<and>
     unique_rows pt_id pt_tenant pt_name (ct_presets db) \<and>
     pw_tenant ` set (ct_packages db) \<subseteq> set (tenant_ids db) \<and> pt_tenant ` set (ct_presets db) \<subseteq> set (tenant_ids db)"

lemma protected_foreign:
  "protected owner builtin t rows' = protected owner builtin t rows \<Longrightarrow>
     filter (\<lambda>r. owner r \<noteq> t) rows' = filter (\<lambda>r. owner r \<noteq> t) rows"
proof -
  have "filter (\<lambda>r. owner r \<noteq> t) rows = filter (\<lambda>r. owner r \<noteq> t) (protected owner builtin t rows)" for rows
    by (auto simp: protected_def intro: filter_cong)
  then show "protected owner builtin t rows' = protected owner builtin t rows \<Longrightarrow> ?thesis" by metis
qed

lemma same_packages:
  "protected pw_tenant pw_builtin t rows = protected pw_tenant pw_builtin t (ct_packages db) \<Longrightarrow>
     same_elsewhere t db (db\<lparr>ct_packages := rows\<rparr>)"
  using protected_foreign [of pw_tenant pw_builtin t rows "ct_packages db"] by (simp add: same_elsewhere_def)

lemma same_presets:
  "protected pt_tenant pt_builtin t rows = protected pt_tenant pt_builtin t (ct_presets db) \<Longrightarrow>
     same_elsewhere t db (db\<lparr>ct_presets := rows\<rparr>)"
  by (simp add: same_elsewhere_def)

lemma same_refl: "same_elsewhere t db db" by (simp add: same_elsewhere_def)

lemma same_trans: "same_elsewhere t a b \<Longrightarrow> same_elsewhere t b c \<Longrightarrow> same_elsewhere t a c"
  by (simp add: same_elsewhere_def)

subsection \<open>Queries\<close>

lemma db_answer_Inr: "db_answer env q x = Inr y \<longleftrightarrow> de_up env q \<and> x = Inr y" by (simp add: db_answer_def)

lemma one_Inr: "query_one p rows = Inr r \<Longrightarrow> r \<in> set rows \<and> p r"
  by (auto simp: query_one_def find_Some_iff split: option.splits)

lemmas query_results = db_answer_Inr one_Inr

lemma create_package_row_Inr:
  assumes "create_package_row env r db = Inr db'"
  obtains rows where "db' = db\<lparr>ct_packages := rows\<rparr>" "pw_tenant r \<in> set (tenant_ids db)"
    "insert_package (r\<lparr>pw_deb := None, pw_created := de_now env, pw_updated := de_now env\<rparr>) (ct_packages db) = Some rows"
  using assms by (auto simp: create_package_row_def db_answer_Inr split: if_splits option.splits)

lemma create_preset_row_Inr:
  assumes "create_preset_row env r db = Inr db'"
  obtains rows where "db' = db\<lparr>ct_presets := rows\<rparr>" "pt_tenant r \<in> set (tenant_ids db)"
    "insert_preset (r\<lparr>pt_created := de_now env, pt_updated := de_now env\<rparr>) (ct_presets db) = Some rows"
  using assms by (auto simp: create_preset_row_def db_answer_Inr split: if_splits option.splits)

lemma create_package_row_same:
  assumes "create_package_row env r db = Inr db'" and "pw_tenant r = t" and "\<not> pw_builtin r"
  shows "same_elsewhere t db db'"
proof -
  obtain rows where d: "db' = db\<lparr>ct_packages := rows\<rparr>"
    and i: "insert_package (r\<lparr>pw_deb := None, pw_created := de_now env, pw_updated := de_now env\<rparr>) (ct_packages db) = Some rows"
    using create_package_row_Inr [OF assms(1)] .
  show ?thesis unfolding d by (rule same_packages, rule pkgs.insert_protects [OF i]) (use assms in simp_all)
qed

lemma create_preset_row_same:
  assumes "create_preset_row env r db = Inr db'" and "pt_tenant r = t" and "\<not> pt_builtin r"
  shows "same_elsewhere t db db'"
proof -
  obtain rows where d: "db' = db\<lparr>ct_presets := rows\<rparr>"
    and i: "insert_preset (r\<lparr>pt_created := de_now env, pt_updated := de_now env\<rparr>) (ct_presets db) = Some rows"
    using create_preset_row_Inr [OF assms(1)] .
  show ?thesis unfolding d by (rule same_presets, rule prs.insert_protects [OF i]) (use assms in simp_all)
qed

lemma update_package_row_same:
  assumes "update_package_row env p db = Inr db'" and "pw_tenant p = t"
  shows "same_elsewhere t db db'"
  using assms(1)
  by (auto simp: update_package_row_def db_answer_Inr split: option.splits
      intro!: same_packages pkgs.update_protects [OF _ assms(2)])

lemma update_preset_row_same:
  assumes "update_preset_row env p db = Inr db'" and "pt_tenant p = t"
  shows "same_elsewhere t db db'"
  using assms(1)
  by (auto simp: update_preset_row_def db_answer_Inr split: option.splits
      intro!: same_presets prs.update_protects [OF _ assms(2)])

lemma delete_package_row_same: "delete_package_row env t pid db = Inr db' \<Longrightarrow> same_elsewhere t db db'"
  by (auto simp: delete_package_row_def db_answer_Inr intro!: same_packages pkgs.delete_protects)

lemma delete_preset_row_same: "delete_preset_row env t pid db = Inr db' \<Longrightarrow> same_elsewhere t db db'"
  by (auto simp: delete_preset_row_def db_answer_Inr intro!: same_presets prs.delete_protects)

lemma update_deb_data_same:
  assumes "update_deb_data env t pid data filename db = Inr db'"
  shows "same_elsewhere t db db'"
proof -
  let ?f = "\<lambda>r. if pw_id r = pid \<and> pw_tenant r = t
     then r\<lparr>pw_deb := Some data, pw_deb_filename := filename, pw_updated := de_now env\<rparr> else r"
  have d: "db' = db\<lparr>ct_packages := map ?f (ct_packages db)\<rparr>"
    using assms by (auto simp: update_deb_data_def db_answer_Inr set_deb_rows_def)
  have "filter (\<lambda>r. pw_tenant r \<noteq> t) (map ?f rows) = filter (\<lambda>r. pw_tenant r \<noteq> t) rows"
    "map without_deb (protected pw_tenant pw_builtin t (map ?f rows)) = map without_deb (protected pw_tenant pw_builtin t rows)"
    for rows by (induction rows) (auto simp: protected_def without_deb_def)
  then show ?thesis by (simp add: d same_elsewhere_def)
qed

lemmas rows_same = create_package_row_same create_preset_row_same update_package_row_same update_preset_row_same
  delete_package_row_same delete_preset_row_same update_deb_data_same

lemma catalog_step_same: "same_elsewhere t db (snd (catalog_step env codec t rq db))"
  by (cases rq) (auto simp: create_package_def update_package_def delete_package_def clone_package_def
      upload_package_deb_def create_preset_def update_preset_def delete_preset_def clone_preset_def requested_package_def
      same_refl Let_def split: option.splits sum.splits if_splits prod.splits elim!: rows_same)

section \<open>Isolation\<close>

text \<open>
  C24. Whatever a tenant asks for packages and presets, in whatever order, at whatever time and with whichever
  queries failing: the tables of tenants, the packages and the presets of other tenants stay as they are, and its own
  built-in presets stay as they are and its built-in packages keep everything but their .deb file.
\<close>

theorem catalog_isolated: "same_elsewhere t db (catalog_run codec t rqs db)"
  unfolding catalog_run_def
proof (induction rqs arbitrary: db)
  case (Cons x rqs)
  obtain env rq where x: "x = (env, rq)" by force
  show ?case using same_trans [OF catalog_step_same Cons.IH] by (simp add: x)
qed (simp add: same_refl)

subsection \<open>Constraints\<close>

lemma catalog_ok_packages:
  "catalog_ok db \<Longrightarrow> unique_rows pw_id pw_tenant pw_name rows \<Longrightarrow> pw_tenant ` set rows \<subseteq> set (tenant_ids db) \<Longrightarrow>
     catalog_ok (db\<lparr>ct_packages := rows\<rparr>)"
  by (simp add: catalog_ok_def tenant_ids_def)

lemma catalog_ok_presets:
  "catalog_ok db \<Longrightarrow> unique_rows pt_id pt_tenant pt_name rows \<Longrightarrow> pt_tenant ` set rows \<subseteq> set (tenant_ids db) \<Longrightarrow>
     catalog_ok (db\<lparr>ct_presets := rows\<rparr>)"
  by (simp add: catalog_ok_def tenant_ids_def)

lemma create_package_row_ok:
  assumes "create_package_row env r db = Inr db'" and ok: "catalog_ok db"
  shows "catalog_ok db'"
proof -
  obtain rows where d: "db' = db\<lparr>ct_packages := rows\<rparr>" "pw_tenant r \<in> set (tenant_ids db)"
    and i: "insert_package (r\<lparr>pw_deb := None, pw_created := de_now env, pw_updated := de_now env\<rparr>) (ct_packages db) = Some rows"
    using create_package_row_Inr [OF assms(1)] .
  show ?thesis unfolding d(1)
    by (rule catalog_ok_packages [OF ok pkgs.insert_unique [OF i]])
      (use ok d(2) pkgs.insert_appends [OF i] in \<open>simp_all add: catalog_ok_def\<close>)
qed

lemma create_preset_row_ok:
  assumes "create_preset_row env r db = Inr db'" and ok: "catalog_ok db"
  shows "catalog_ok db'"
proof -
  obtain rows where d: "db' = db\<lparr>ct_presets := rows\<rparr>" "pt_tenant r \<in> set (tenant_ids db)"
    and i: "insert_preset (r\<lparr>pt_created := de_now env, pt_updated := de_now env\<rparr>) (ct_presets db) = Some rows"
    using create_preset_row_Inr [OF assms(1)] .
  show ?thesis unfolding d(1)
    by (rule catalog_ok_presets [OF ok prs.insert_unique [OF i]])
      (use ok d(2) prs.insert_appends [OF i] in \<open>simp_all add: catalog_ok_def\<close>)
qed

lemma map_keeps_owner:
  assumes "rows' = map f rows" and "\<And>x. owner (f x) = owner x"
  shows "owner ` set rows' = owner ` set rows"
  using assms by (force simp: image_iff)

lemma update_package_row_ok:
  assumes "update_package_row env p db = Inr db'" and ok: "catalog_ok db"
  shows "catalog_ok db'"
proof -
  obtain rows where d: "db' = db\<lparr>ct_packages := rows\<rparr>" and u: "update_package_rows (de_now env) p (ct_packages db) = Some rows"
    using assms(1) by (auto simp: update_package_row_def db_answer_Inr split: option.splits)
  obtain f where "rows = map f (ct_packages db)" "\<And>x. pw_tenant (f x) = pw_tenant x"
    using pkgs.update_maps [OF u] by blast
  then have "pw_tenant ` set rows = pw_tenant ` set (ct_packages db)" by (rule map_keeps_owner)
  then show ?thesis using pkgs.update_keeps_unique [OF u] ok unfolding d
    by (intro catalog_ok_packages) (simp_all add: catalog_ok_def)
qed

lemma update_preset_row_ok:
  assumes "update_preset_row env p db = Inr db'" and ok: "catalog_ok db"
  shows "catalog_ok db'"
proof -
  obtain rows where d: "db' = db\<lparr>ct_presets := rows\<rparr>" and u: "update_preset_rows (de_now env) p (ct_presets db) = Some rows"
    using assms(1) by (auto simp: update_preset_row_def db_answer_Inr split: option.splits)
  obtain f where "rows = map f (ct_presets db)" "\<And>x. pt_tenant (f x) = pt_tenant x"
    using prs.update_maps [OF u] by blast
  then have "pt_tenant ` set rows = pt_tenant ` set (ct_presets db)" by (rule map_keeps_owner)
  then show ?thesis using prs.update_keeps_unique [OF u] ok unfolding d
    by (intro catalog_ok_presets) (simp_all add: catalog_ok_def)
qed

lemma delete_package_row_ok:
  assumes "delete_package_row env t pid db = Inr db'" and ok: "catalog_ok db"
  shows "catalog_ok db'"
proof -
  have d: "db' = db\<lparr>ct_packages := delete_package_rows t pid (ct_packages db)\<rparr>"
    using assms(1) by (auto simp: delete_package_row_def db_answer_Inr)
  show ?thesis unfolding d
    by (rule catalog_ok_packages [OF ok pkgs.delete_unique]) (use ok in \<open>auto simp: catalog_ok_def delete_package_rows_def\<close>)
qed

lemma delete_preset_row_ok:
  assumes "delete_preset_row env t pid db = Inr db'" and ok: "catalog_ok db"
  shows "catalog_ok db'"
proof -
  have d: "db' = db\<lparr>ct_presets := delete_preset_rows t pid (ct_presets db)\<rparr>"
    using assms(1) by (auto simp: delete_preset_row_def db_answer_Inr)
  show ?thesis unfolding d
    by (rule catalog_ok_presets [OF ok prs.delete_unique]) (use ok in \<open>auto simp: catalog_ok_def delete_preset_rows_def\<close>)
qed

lemma update_deb_data_ok:
  assumes "update_deb_data env t pid data filename db = Inr db'" and ok: "catalog_ok db"
  shows "catalog_ok db'"
proof -
  let ?rows = "set_deb_rows (de_now env) t pid data filename (ct_packages db)"
  have d: "db' = db\<lparr>ct_packages := ?rows\<rparr>" using assms(1) by (auto simp: update_deb_data_def db_answer_Inr)
  have m: "map pw_id ?rows = map pw_id (ct_packages db)"
    "map (\<lambda>r. (pw_tenant r, pw_name r)) ?rows = map (\<lambda>r. (pw_tenant r, pw_name r)) (ct_packages db)"
    by (simp_all add: set_deb_rows_def)
  have "pw_tenant ` set ?rows = pw_tenant ` set (ct_packages db)"
    by (rule map_keeps_owner [OF set_deb_rows_def]) simp
  then show ?thesis using ok m unfolding d
    by (intro catalog_ok_packages) (simp_all add: catalog_ok_def unique_rows_def)
qed

lemmas rows_ok = create_package_row_ok create_preset_row_ok update_package_row_ok update_preset_row_ok
  delete_package_row_ok delete_preset_row_ok update_deb_data_ok

lemma catalog_step_ok: "catalog_ok db \<Longrightarrow> catalog_ok (snd (catalog_step env codec t rq db))"
  by (cases rq) (auto simp: create_package_def update_package_def delete_package_def clone_package_def
      upload_package_deb_def create_preset_def update_preset_def delete_preset_def clone_preset_def
      Let_def split: option.splits sum.splits if_splits prod.splits intro: rows_ok)

lemma or_same_ok: "(\<And>db'. x = Inr db' \<Longrightarrow> catalog_ok db') \<Longrightarrow> catalog_ok db \<Longrightarrow> catalog_ok (or_same x db)"
  by (simp add: or_same_def split: sum.splits)

lemma seed_packages_ok: "catalog_ok db \<Longrightarrow> catalog_ok (seed_builtin_packages env t ids db)"
  unfolding seed_builtin_packages_def
  by (rule fold_invariant [where Q = "\<lambda>_. True"]) (auto intro!: or_same_ok elim: create_package_row_ok)

lemma seed_presets_ok: "catalog_ok db \<Longrightarrow> catalog_ok (seed_builtin_presets env codec t ids db)"
  unfolding seed_builtin_presets_def
  by (rule fold_invariant [where Q = "\<lambda>_. True"]) (auto intro!: or_same_ok elim: create_preset_row_ok)

subsection \<open>The package of a run\<close>

lemma builtin_first:
  assumes "package_order env rows = r # rs" and "\<exists>b \<in> set rows. pw_builtin b"
  shows "pw_builtin r"
proof -
  let ?k = "\<lambda>r. (\<not> pw_builtin r, de_rank env (pw_name r))"
  have "sorted (map ?k (r # rs))" using assms(1) sorted_sort_key [of ?k rows] by (simp add: package_order_def)
  moreover obtain b where b: "b \<in> set (r # rs)" "pw_builtin b" using assms by (metis package_order_def set_sort)
  ultimately have "?k r \<le> ?k b" by auto
  then show ?thesis using b(2) by (simp add: less_eq_prod_def)
qed

text \<open>
  A built-in package takes an uploaded .deb file: nothing stops an operator of the tenant.
\<close>

lemma builtin_deb_replaced:
  "\<exists>env db. (\<exists>r \<in> set (ct_packages db). pw_builtin r) \<and>
     (\<forall>r \<in> set (ct_packages (snd (upload_package_deb env ''t'' ''p'' (Inr (''x.deb'', ''x'')) (db :: catalog)))).
        pw_builtin r \<and> pw_deb r = Some ''x'')"
proof -
  let ?r = "(builtin_package_row ''t'' ''p'' (hd builtin_packages))"
  let ?db = "\<lparr>ct_tenants = [], ct_packages = [?r], ct_presets = []\<rparr> :: catalog"
  let ?env = "\<lparr>de_up = (\<lambda>_. True), de_show = (\<lambda>_. []), de_rank = (\<lambda>_. 0), de_now = 0\<rparr>"
  have "(\<exists>r \<in> set (ct_packages ?db). pw_builtin r) \<and>
     (\<forall>r \<in> set (ct_packages (snd (upload_package_deb ?env ''t'' ''p'' (Inr (''x.deb'', ''x'')) ?db))). pw_builtin r \<and> pw_deb r = Some ''x'')"
    by (simp add: upload_package_deb_def update_deb_data_def db_answer_def set_deb_rows_def builtin_package_row_def)
  then show ?thesis by blast
qed

lemma set_package_order: "set (package_order env rows) = set rows" by (simp add: package_order_def)

lemma packages_by_version_Inr:
  "packages_by_version env t kind version db = Inr rows \<Longrightarrow>
     rows = package_order env (filter (\<lambda>r. pw_tenant r = t \<and> pw_kind r = kind \<and> pw_version r = version) (ct_packages db))"
  by (simp add: packages_by_version_def db_answer_Inr)

text \<open>
  A run gets a package of its own tenant: the one it names, of whatever kind that is, or one of its kind and
  version, and then a built-in one when there is any.
\<close>

lemma chosen_package_row:
  assumes "chosen_package env t db cfg = Inr r"
  shows "r \<in> set (ct_packages db) \<and> pw_tenant r = t \<and>
    (if rc_package_id cfg \<noteq> [] then pw_id r = rc_package_id cfg
     else pw_kind r = db_kind (rc_database cfg) \<and> pw_version r = db_version (rc_database cfg) \<and>
       ((\<exists>b \<in> set (ct_packages db). pw_builtin b \<and> pw_tenant b = t \<and> pw_kind b = pw_kind r \<and> pw_version b = pw_version r)
          \<longrightarrow> pw_builtin r))"
proof (cases "rc_package_id cfg = []")
  case True
  let ?rows = "filter (\<lambda>r. pw_tenant r = t \<and> pw_kind r = db_kind (rc_database cfg) \<and>
    pw_version r = db_version (rc_database cfg)) (ct_packages db)"
  have "\<exists>rs. package_order env ?rows = r # rs"
    using assms True by (auto simp: chosen_package_def dest!: packages_by_version_Inr split: sum.splits list.splits) metis
  then obtain rs where rs: "package_order env ?rows = r # rs" by blast
  have "r \<in> set (package_order env ?rows)" by (simp add: rs)
  then have "r \<in> set ?rows" by (simp only: set_package_order)
  then show ?thesis using builtin_first [OF rs] True by auto
next
  case False
  then show ?thesis using assms
    by (auto simp: chosen_package_def find_package_def db_answer_Inr dest: one_Inr split: sum.splits)
qed

text \<open>An update without a name clears it, which a creation refuses.\<close>

lemma update_clears_name:
  assumes "find_package env t pid db = Inr pkg" and "\<not> pw_builtin pkg" and "pq_name rq = []"
    and "update_package env t pid (Some rq) db = (Reply 200 fs, db')"
  shows "\<exists>r \<in> set (ct_packages db'). pw_id r = pid \<and> pw_name r = []"
proof -
  have p: "pkg \<in> set (ct_packages db)" "pw_id pkg = pid" "pw_tenant pkg = t"
    using assms(1) one_Inr by (auto simp: find_package_def db_answer_Inr dest!: one_Inr)
  let ?p = "(requested_package t pid rq)\<lparr>pw_deb_filename := pw_deb_filename pkg\<rparr>"
  have "update_package_row env ?p db = Inr db'"
    using assms by (auto simp: update_package_def split: sum.splits)
  then obtain rows where d: "db' = db\<lparr>ct_packages := rows\<rparr>" and u: "update_package_rows (de_now env) ?p (ct_packages db) = Some rows"
    by (auto simp: update_package_row_def db_answer_Inr split: option.splits)
  then have "set_package (de_now env) ?p pkg \<in> set rows"
    using p assms(2) by (auto simp: update_package_rows_def requested_package_def Let_def split: if_splits)
  then show ?thesis using d p assms(3) by (intro bexI) (auto simp: set_package_def requested_package_def)
qed

end
