(* ===== verification/Access.thy ===== *)
theory Access
  imports Text
begin

text \<open>
  Who may call what (\<open>auth/middleware.go\<close>, \<open>auth/context.go\<close>, the routes of \<open>api/server.go\<close>): roles,
  the claims of a request, the middleware that authenticates and the ones that guard groups of routes, and the
  table of routes. The JWT library, the hash of API tokens and chi's matching of paths are arguments.
\<close>

section \<open>Roles\<close>

definition role_level :: "string \<Rightarrow> int" where
  "role_level r = (if r = ''viewer'' then 1 else if r = ''operator'' then 2 else if r = ''owner'' then 3 else 0)"

text \<open>The order of roles, as a type of its own.\<close>

datatype role = No_role | Viewer | Operator | Owner

definition parse_role :: "string \<Rightarrow> role" where
  "parse_role r = (if r = ''viewer'' then Viewer else if r = ''operator'' then Operator
     else if r = ''owner'' then Owner else No_role)"

instantiation role :: linorder
begin

fun less_role :: "role \<Rightarrow> role \<Rightarrow> bool" where
  "less_role No_role r \<longleftrightarrow> r \<noteq> No_role"
| "less_role Viewer r \<longleftrightarrow> r = Operator \<or> r = Owner"
| "less_role Operator r \<longleftrightarrow> r = Owner"
| "less_role Owner r \<longleftrightarrow> False"

definition less_eq_role :: "role \<Rightarrow> role \<Rightarrow> bool" where
  "less_eq_role r s \<longleftrightarrow> r < s \<or> r = s"

instance
proof
  fix x y z :: role
  show "x < y \<longleftrightarrow> x \<le> y \<and> \<not> y \<le> x" by (cases x; cases y) (auto simp: less_eq_role_def)
  show "x \<le> x" by (simp add: less_eq_role_def)
  show "x \<le> y \<Longrightarrow> y \<le> z \<Longrightarrow> x \<le> z" by (cases x; cases y; cases z) (auto simp: less_eq_role_def)
  show "x \<le> y \<Longrightarrow> y \<le> x \<Longrightarrow> x = y" by (cases x; cases y) (auto simp: less_eq_role_def)
  show "x \<le> y \<or> y \<le> x" by (cases x; cases y) (auto simp: less_eq_role_def)
qed

end

lemma role_level_order: "role_level r \<le> role_level s \<longleftrightarrow> parse_role r \<le> parse_role s"
  by (auto simp: role_level_def parse_role_def less_eq_role_def)

section \<open>Authentication\<close>

record claims =
  cl_user :: string
  cl_name :: string
  cl_tenant :: string
  cl_role :: string
  cl_root :: bool

record api_token =
  at_id :: string
  at_tenant :: string
  at_name :: string
  at_hash :: string
  at_role :: string
  at_by :: string
  at_expires :: "int option"
  at_created :: int

record request =
  rq_method :: string
  rq_path :: string
  rq_authorization :: string
  rq_token :: string

text \<open>\<open>ae_tokens\<close> is \<open>None\<close> without a database; times are Unix seconds.\<close>

record auth_env =
  ae_jwt :: "string \<Rightarrow> claims option"
  ae_sha :: "string \<Rightarrow> string"
  ae_tokens :: "api_token list option"
  ae_now :: int

definition is_public_path :: "string \<Rightarrow> bool" where
  "is_public_path path \<longleftrightarrow>
     path \<in> {''/api/v1/auth/login'', ''/api/v1/auth/refresh'', ''/api/v1/auth/logout''} \<or>
     has_prefix path ''/api/share/'' \<or>
     \<not> has_prefix path ''/ws/'' \<and> \<not> has_prefix path ''/api/''"

definition token_valid :: "int \<Rightarrow> string \<Rightarrow> api_token \<Rightarrow> bool" where
  "token_valid now hash t \<longleftrightarrow> at_hash t = hash \<and> (case at_expires t of None \<Rightarrow> True | Some e \<Rightarrow> e > now)"

definition api_claims :: "api_token \<Rightarrow> claims" where
  "api_claims t = \<lparr>cl_user = ''api-token'', cl_name = ''api-token'', cl_tenant = at_tenant t, cl_role = at_role t,
     cl_root = False\<rparr>"

definition credential_of :: "request \<Rightarrow> string" where
  "credential_of rq =
     (let header = (if rq_authorization rq = [] then (if rq_token rq \<noteq> [] then ''Bearer '' @ rq_token rq else [])
        else rq_authorization rq)
      in header)"

datatype verdict = Pass "claims option" | Reject nat string

definition authenticate :: "auth_env \<Rightarrow> request \<Rightarrow> verdict" where
  "authenticate env rq =
     (if is_public_path (rq_path rq) then Pass None
      else (let header = credential_of rq in
        if header = [] then Reject 401 ''missing Authorization header''
        else (let token = trim_prefix header ''Bearer '' in
          case ae_jwt env token of
            Some c \<Rightarrow> Pass (Some c)
          | None \<Rightarrow>
              (case Option.bind (ae_tokens env) (find (token_valid (ae_now env) (ae_sha env token))) of
                 Some t \<Rightarrow> Pass (Some (api_claims t))
               | None \<Rightarrow> Reject 401 ''invalid credentials''))))"

section \<open>Guards\<close>

definition require_role :: "string \<Rightarrow> claims option \<Rightarrow> (nat \<times> string) option" where
  "require_role min_role c =
     (case c of
        None \<Rightarrow> Some (401, ''unauthorized'')
      | Some c \<Rightarrow> if cl_root c \<or> role_level (cl_role c) \<ge> role_level min_role then None else Some (403, ''forbidden''))"

definition require_root :: "claims option \<Rightarrow> (nat \<times> string) option" where
  "require_root c =
     (case c of
        None \<Rightarrow> Some (401, ''unauthorized'')
      | Some c \<Rightarrow> if cl_root c then None else Some (403, ''forbidden''))"

definition tenant_required :: "claims option \<Rightarrow> (nat \<times> string) option" where
  "tenant_required c =
     (case c of
        None \<Rightarrow> Some (403, ''tenant selection required'')
      | Some c \<Rightarrow> if cl_tenant c = [] then Some (403, ''tenant selection required'') else None)"

text \<open>The middlewares of a group, in the order in which they are installed.\<close>

datatype guard = Tenant_required | Require_role string | Require_root

fun guard_check :: "guard \<Rightarrow> claims option \<Rightarrow> (nat \<times> string) option" where
  "guard_check Tenant_required c = tenant_required c"
| "guard_check (Require_role r) c = require_role r c"
| "guard_check Require_root c = require_root c"

fun guards_check :: "guard list \<Rightarrow> claims option \<Rightarrow> (nat \<times> string) option" where
  "guards_check [] c = None"
| "guards_check (g # gs) c = (case guard_check g c of Some r \<Rightarrow> Some r | None \<Rightarrow> guards_check gs c)"

section \<open>Routes\<close>

record route =
  rt_method :: string
  rt_pattern :: string
  rt_handler :: string
  rt_guards :: "guard list"

definition routed :: "string \<Rightarrow> guard list \<Rightarrow> (string \<times> string \<times> string) list \<Rightarrow> route list" where
  "routed root gs rs = map (\<lambda>(m, p, h). \<lparr>rt_method = m, rt_pattern = root @ p, rt_handler = h, rt_guards = gs\<rparr>) rs"

definition open_routes :: "route list" where
  "open_routes = routed [] []
     [(''GET'', ''/metrics'', ''metrics''), (''GET'', ''/health'', ''health''),
      (''GET'', ''/api/share/{token}'', ''getSharedRun''),
      (''POST'', ''/api/v1/auth/login'', ''login''), (''POST'', ''/api/v1/auth/refresh'', ''refresh''),
      (''POST'', ''/api/v1/auth/logout'', ''logout''), (''GET'', ''/packages/*'', ''packages''),
      (''GET'', ''/agent/binary'', ''serveBinary'')]"

definition user_routes :: "route list" where
  "user_routes = routed [] []
     [(''GET'', ''/api/v1/auth/me'', ''authMe''), (''POST'', ''/api/v1/auth/select-tenant'', ''selectTenant''),
      (''PUT'', ''/api/v1/auth/password'', ''changePassword''), (''GET'', ''/api/v1/grafana'', ''getGrafanaConfig''),
      (''GET'', ''/ws/logs'', ''wsLogs''), (''GET'', ''/ws/logs/{runID}'', ''wsLogsRun'')]"

definition agent_routes :: "route list" where
  "agent_routes = routed ''/api/agent'' []
     [(''POST'', ''/register'', ''agentRegister''), (''POST'', ''/poll'', ''agentPoll''),
      (''POST'', ''/report'', ''agentReport''), (''POST'', ''/logs-batch'', ''agentLogBatch'')]"

definition viewer_routes :: "route list" where
  "viewer_routes = routed ''/api/v1'' [Tenant_required]
     [(''GET'', ''/packages'', ''listPackages''), (''GET'', ''/packages/{id}'', ''getPackage''),
      (''GET'', ''/packages/{id}/deb'', ''downloadPackageDeb''), (''GET'', ''/runs'', ''listRuns''),
      (''GET'', ''/run/{runID}/status'', ''runStatus''), (''GET'', ''/run/{runID}/logs'', ''runLogs''),
      (''GET'', ''/run/{runID}/metrics'', ''runMetrics''), (''GET'', ''/compare'', ''compareRuns''),
      (''GET'', ''/stroppy-versions'', ''stroppyVersions''), (''GET'', ''/stroppy-commits'', ''stroppyCommits''),
      (''GET'', ''/presets'', ''listPresetsTenant''), (''GET'', ''/presets/{id}'', ''getPreset''),
      (''GET'', ''/settings'', ''getSettings'')]"

definition operator_routes :: "route list" where
  "operator_routes = routed ''/api/v1'' [Tenant_required, Require_role ''operator'']
     [(''POST'', ''/run'', ''runStart''), (''POST'', ''/validate'', ''runValidate''),
      (''POST'', ''/dry-run'', ''runDryRun''), (''POST'', ''/probe'', ''stroppyProbe''),
      (''DELETE'', ''/run/{runID}'', ''deleteRun''), (''POST'', ''/run/{runID}/cancel'', ''cancelRun''),
      (''POST'', ''/run/{runID}/share'', ''createShareLink''), (''PUT'', ''/baseline/{name}'', ''setBaseline''),
      (''GET'', ''/baseline/{name}'', ''getBaseline''), (''GET'', ''/baselines'', ''listBaselines''),
      (''POST'', ''/upload/deb'', ''uploadPackage''), (''POST'', ''/upload/rpm'', ''uploadPackage''),
      (''POST'', ''/presets'', ''createPreset''), (''PUT'', ''/presets/{id}'', ''updatePreset''),
      (''DELETE'', ''/presets/{id}'', ''deletePreset''), (''POST'', ''/presets/{id}/clone'', ''clonePreset''),
      (''POST'', ''/packages'', ''createPackage''), (''PUT'', ''/packages/{id}'', ''updatePackage''),
      (''DELETE'', ''/packages/{id}'', ''deletePackage''), (''POST'', ''/packages/{id}/clone'', ''clonePackage''),
      (''POST'', ''/packages/{id}/deb'', ''uploadPackageDeb'')]"

definition owner_routes :: "route list" where
  "owner_routes = routed ''/api/v1'' [Tenant_required, Require_role ''owner'']
     [(''PUT'', ''/settings'', ''updateSettings''), (''GET'', ''/tenant/members'', ''listMembers''),
      (''POST'', ''/tenant/members'', ''addMember''), (''PUT'', ''/tenant/members/{userID}'', ''updateMember''),
      (''DELETE'', ''/tenant/members/{userID}'', ''removeMember''), (''GET'', ''/tenant/tokens'', ''listAPITokens''),
      (''POST'', ''/tenant/tokens'', ''createAPIToken''), (''DELETE'', ''/tenant/tokens/{id}'', ''revokeAPIToken'')]"

definition admin_routes :: "route list" where
  "admin_routes = routed ''/api/v1/admin'' [Require_root]
     [(''GET'', ''/tenants'', ''listTenantsAdmin''), (''POST'', ''/tenants'', ''createTenantAdmin''),
      (''DELETE'', ''/tenants/{id}'', ''deleteTenantAdmin''), (''GET'', ''/users'', ''listUsersAdmin''),
      (''POST'', ''/users'', ''createUserAdmin''), (''DELETE'', ''/users/{id}'', ''deleteUserAdmin''),
      (''PUT'', ''/users/{id}/password'', ''resetPasswordAdmin'')]"

definition router :: "route list" where
  "router = open_routes @ user_routes @ agent_routes @ viewer_routes @ operator_routes @ owner_routes @ admin_routes"

text \<open>The pattern's part before its first parameter or wildcard; a matched path begins with it.\<close>

definition static_part :: "string \<Rightarrow> string" where
  "static_part p = takeWhile (\<lambda>c. c \<noteq> CHR ''{'' \<and> c \<noteq> CHR ''*'') p"

definition chi_match :: "(string \<Rightarrow> string \<Rightarrow> route option) \<Rightarrow> bool" where
  "chi_match lookup \<longleftrightarrow> (\<forall>m p r. lookup m p = Some r \<longrightarrow>
     r \<in> set router \<and> rt_method r = m \<and> has_prefix p (static_part (rt_pattern r)))"

datatype outcome = Handled string "claims option" | Refused nat string | Unrouted "claims option"

definition serve :: "auth_env \<Rightarrow> (string \<Rightarrow> string \<Rightarrow> route option) \<Rightarrow> request \<Rightarrow> outcome" where
  "serve env lookup rq =
     (case authenticate env rq of
        Reject code msg \<Rightarrow> Refused code msg
      | Pass c \<Rightarrow>
          (case lookup (rq_method rq) (rq_path rq) of
             None \<Rightarrow> Unrouted c
           | Some r \<Rightarrow>
               (case guards_check (rt_guards r) c of Some (code, msg) \<Rightarrow> Refused code msg | None \<Rightarrow> Handled (rt_handler r) c)))"

section \<open>What a served request proves\<close>

definition handlers :: "route list \<Rightarrow> string set" where
  "handlers rs = set (map rt_handler rs)"

text \<open>Claims come from a signed token or from a valid API token of the tenant.\<close>

definition authentic :: "auth_env \<Rightarrow> request \<Rightarrow> claims \<Rightarrow> bool" where
  "authentic env rq c \<longleftrightarrow> (let token = trim_prefix (credential_of rq) ''Bearer '' in
     ae_jwt env token = Some c \<or>
     (\<exists>ts t. ae_tokens env = Some ts \<and> t \<in> set ts \<and> token_valid (ae_now env) (ae_sha env token) t \<and> c = api_claims t))"

lemma authenticate_pass: "authenticate env rq = Pass (Some c) \<Longrightarrow> authentic env rq c"
  by (auto simp: authenticate_def authentic_def Let_def bind_eq_Some_conv find_Some_iff
      split: if_splits option.splits) (metis nth_mem)+

lemma authenticate_none: "authenticate env rq = Pass None \<Longrightarrow> is_public_path (rq_path rq)"
  by (auto simp: authenticate_def Let_def split: if_splits option.splits)

lemma serve_handled:
  assumes "serve env lookup rq = Handled h c" and "chi_match lookup"
  obtains r where "r \<in> set router" "rt_handler r = h" "guards_check (rt_guards r) c = None"
    "has_prefix (rq_path rq) (static_part (rt_pattern r))" "authenticate env rq = Pass c"
proof -
  obtain r where "lookup (rq_method rq) (rq_path rq) = Some r" "rt_handler r = h" "guards_check (rt_guards r) c = None"
    "authenticate env rq = Pass c"
    using assms(1) by (auto simp: serve_def split: verdict.splits option.splits)
  then show ?thesis using that assms(2) by (auto simp: chi_match_def)
qed


text \<open>The guards that protect a handler, by its group of routes.\<close>

lemma guards_of_route: "r \<in> set router \<Longrightarrow> rt_guards r =
   (if rt_handler r \<in> handlers (open_routes @ user_routes @ agent_routes) then []
    else if rt_handler r \<in> handlers viewer_routes then [Tenant_required]
    else if rt_handler r \<in> handlers operator_routes then [Tenant_required, Require_role ''operator'']
    else if rt_handler r \<in> handlers owner_routes then [Tenant_required, Require_role ''owner''] else [Require_root])"
proof -
  have "list_all (\<lambda>r. rt_guards r =
   (if rt_handler r \<in> handlers (open_routes @ user_routes @ agent_routes) then []
    else if rt_handler r \<in> handlers viewer_routes then [Tenant_required]
    else if rt_handler r \<in> handlers operator_routes then [Tenant_required, Require_role ''operator'']
    else if rt_handler r \<in> handlers owner_routes then [Tenant_required, Require_role ''owner''] else [Require_root])) router"
    by code_simp
  then show "r \<in> set router \<Longrightarrow> ?thesis" by (simp add: list_all_iff)
qed

lemma handler_groups:
  "handlers viewer_routes \<inter> handlers (open_routes @ user_routes @ agent_routes) = {}"
  "handlers operator_routes \<inter> handlers (open_routes @ user_routes @ agent_routes @ viewer_routes) = {}"
  "handlers owner_routes \<inter> handlers (open_routes @ user_routes @ agent_routes @ viewer_routes @ operator_routes) = {}"
  "handlers admin_routes \<inter>
     handlers (open_routes @ user_routes @ agent_routes @ viewer_routes @ operator_routes @ owner_routes) = {}"
  by code_simp+

text \<open>Literal beginnings under which no path is public.\<close>

definition protected_part :: "string \<Rightarrow> bool" where
  "protected_part p \<longleftrightarrow> list_ex (has_prefix p) [''/api/v1/auth/me'', ''/api/v1/auth/select-tenant'', ''/api/v1/auth/password'',
     ''/api/v1/grafana'', ''/ws/logs'', ''/api/agent/'', ''/api/v1/run'', ''/api/v1/admin/'']"

lemma no_public_path: "protected_part p \<Longrightarrow> \<not> is_public_path p"
  by (auto simp: protected_part_def is_public_path_def has_prefix_iff)

lemma protected_extend: "has_prefix p s \<Longrightarrow> protected_part s \<Longrightarrow> protected_part p"
  by (auto simp: protected_part_def has_prefix_iff)

lemma unguarded_route:
  assumes "r \<in> set router" and "rt_guards r = []" and "rt_handler r \<notin> handlers open_routes"
    and "has_prefix p (static_part (rt_pattern r))"
  shows "\<not> is_public_path p"
proof -
  have "list_all (\<lambda>r. rt_guards r = [] \<longrightarrow> rt_handler r \<in> handlers open_routes \<or> protected_part (static_part (rt_pattern r))) router"
    by code_simp
  then have "protected_part (static_part (rt_pattern r))" using assms by (auto simp: list_all_iff)
  then show ?thesis using assms(4) protected_extend no_public_path by blast
qed

lemma require_role_passed:
  "require_role r c = None \<longleftrightarrow> (\<exists>cl. c = Some cl \<and> (cl_root cl \<or> parse_role r \<le> parse_role (cl_role cl)))"
  by (auto simp: require_role_def role_level_order split: option.splits)

lemma require_root_passed: "require_root c = None \<longleftrightarrow> (\<exists>cl. c = Some cl \<and> cl_root cl)"
  by (auto simp: require_root_def split: option.splits)

lemma tenant_required_passed: "tenant_required c = None \<longleftrightarrow> (\<exists>cl. c = Some cl \<and> cl_tenant cl \<noteq> [])"
  by (auto simp: tenant_required_def split: option.splits)

lemmas guards_passed = require_role_passed require_root_passed tenant_required_passed

lemma served_claims:
  assumes "serve env lookup rq = Handled h c" and "chi_match lookup" and "h \<notin> handlers open_routes"
  shows "\<exists>cl. c = Some cl \<and> authentic env rq cl"
proof -
  obtain r where r: "r \<in> set router" "rt_handler r = h" "guards_check (rt_guards r) c = None"
    "has_prefix (rq_path rq) (static_part (rt_pattern r))" "authenticate env rq = Pass c"
    using serve_handled assms(1,2) .
  have "c \<noteq> None"
  proof (cases "rt_guards r = []")
    case True
    then have "\<not> is_public_path (rq_path rq)" using unguarded_route r(1,2,4) assms(3) by blast
    then show ?thesis using r(5) authenticate_none [of env rq] by (cases c) auto
  next
    case False
    then show ?thesis using r(3) guards_of_route [OF r(1)] by (auto simp: guards_passed split: if_splits option.splits)
  qed
  then show ?thesis using r(5) authenticate_pass by auto
qed

lemma parse_role_names [simp]: "parse_role ''operator'' = Operator" "parse_role ''owner'' = Owner"
  by (simp_all add: parse_role_def)

text \<open>
  C5. Whatever chi's matching is (it only has to respect method and literal beginning of the patterns), a request
  reaches a handler that is not of the open group only with the claims of a signed token or of an unexpired API token
  that it carries; moreover handlers of the viewer, operator and owner groups run only for a chosen tenant, those of
  the operator group only for operators, owners and root, those of the owner group only for owners and root, and those
  of the admin group only for root.
\<close>

theorem access_enforced:
  assumes "serve env lookup rq = Handled h c" and "chi_match lookup" and "h \<notin> handlers open_routes"
  shows "\<exists>cl. c = Some cl \<and> authentic env rq cl \<and>
    (h \<in> handlers (viewer_routes @ operator_routes @ owner_routes) \<longrightarrow> cl_tenant cl \<noteq> []) \<and>
    (h \<in> handlers operator_routes \<longrightarrow> cl_root cl \<or> Operator \<le> parse_role (cl_role cl)) \<and>
    (h \<in> handlers owner_routes \<longrightarrow> cl_root cl \<or> parse_role (cl_role cl) = Owner) \<and>
    (h \<in> handlers admin_routes \<longrightarrow> cl_root cl)"
proof -
  obtain cl where cl: "c = Some cl" "authentic env rq cl" using served_claims assms by blast
  obtain r where r: "r \<in> set router" "rt_handler r = h" "guards_check (rt_guards r) c = None"
    using serve_handled assms(1,2) .
  have un: "handlers (as @ bs) = handlers as \<union> handlers bs" for as bs by (auto simp: handlers_def)
  have own: "Owner \<le> x \<longleftrightarrow> x = Owner" for x by (cases x) (auto simp: less_eq_role_def)
  show ?thesis using cl r(3) guards_of_route [OF r(1)] handler_groups
    by (auto simp: r(2) un guards_passed own split: if_splits option.splits)
qed

definition demo_env :: auth_env where
  "demo_env = \<lparr>ae_jwt = (\<lambda>t. if t = ''jwt'' then Some \<lparr>cl_user = ''u1'', cl_name = ''ann'', cl_tenant = ''t1'',
     cl_role = ''operator'', cl_root = False\<rparr> else None), ae_sha = rev, ae_tokens = Some [], ae_now = 0\<rparr>"

definition demo_lookup :: "string \<Rightarrow> string \<Rightarrow> route option" where
  "demo_lookup m p = find (\<lambda>r. rt_method r = m \<and> rt_pattern r = p) router"

definition demo_request :: request where
  "demo_request = \<lparr>rq_method = ''POST'', rq_path = ''/api/v1/run'', rq_authorization = ''Bearer jwt'', rq_token = []\<rparr>"

lemma static_part_prefix: "has_prefix p (static_part p)"
  unfolding static_part_def has_prefix_iff by (metis takeWhile_dropWhile_id)

lemma demo_lookup_ok: "chi_match demo_lookup"
  by (auto simp: chi_match_def demo_lookup_def find_Some_iff static_part_prefix)

theorem access_enforced_witness:
  "\<exists>cl. serve demo_env demo_lookup demo_request = Handled ''runStart'' (Some cl) \<and> cl_tenant cl \<noteq> [] \<and>
     (cl_root cl \<or> Operator \<le> parse_role (cl_role cl))"
proof -
  obtain cl where s: "serve demo_env demo_lookup demo_request = Handled ''runStart'' (Some cl)"
    by (rule that) code_simp
  have "''runStart'' \<notin> handlers open_routes" "''runStart'' \<in> handlers operator_routes"
    "''runStart'' \<in> handlers (viewer_routes @ operator_routes @ owner_routes)" by code_simp+
  then show ?thesis using access_enforced [OF s demo_lookup_ok] s by auto
qed

end
