(* ===== verification/Accounts.thy ===== *)
theory Accounts
  imports Catalog Access
begin

text \<open>
  Users, tenants, members and tokens: the queries of \<open>generated/users\<close>, \<open>tenants\<close>, \<open>members\<close>,
  \<open>refresh_tokens\<close>, \<open>api_tokens\<close> and \<open>settings.sql.go\<close> with the constraints of the migrations, the
  handlers of \<open>api/auth_handlers.go\<close>, \<open>tenant_handlers.go\<close>, \<open>admin_handlers.go\<close> and
  \<open>settings_handlers.go\<close>, and the tokens of \<open>auth/jwt.go\<close>. Hashes, signatures and random values are
  arguments. Every request keeps the tables well-formed, and every access token that is issued is typed by them.
\<close>

section \<open>Tokens\<close>

record jwt_claims =
  jc_claims :: claims
  jc_subject :: string
  jc_issued :: int
  jc_expires :: int

text \<open>
  \<open>cr_check\<close> and \<open>cr_hash\<close> are bcrypt, \<open>cr_sha\<close> is the hexadecimal SHA-256, \<open>cr_sign\<close> and
  \<open>cr_verify\<close> are HMAC signatures with the server's secret (\<open>cr_verify\<close> refuses other methods).
\<close>

record crypto =
  cr_check :: "string \<Rightarrow> string \<Rightarrow> bool"
  cr_hash :: "string \<Rightarrow> string option"
  cr_sha :: "string \<Rightarrow> string"
  cr_sign :: "jwt_claims \<Rightarrow> string option"
  cr_verify :: "string \<Rightarrow> jwt_claims option"

definition jwt_issue :: "crypto \<Rightarrow> int \<Rightarrow> claims \<Rightarrow> int \<Rightarrow> string option" where
  "jwt_issue cr now c ttl = cr_sign cr \<lparr>jc_claims = c, jc_subject = cl_user c, jc_issued = now, jc_expires = now + ttl\<rparr>"

definition jwt_parse :: "crypto \<Rightarrow> int \<Rightarrow> string \<Rightarrow> claims option" where
  "jwt_parse cr now tok =
     (case cr_verify cr tok of
        None \<Rightarrow> None
      | Some j \<Rightarrow> if now < jc_expires j then Some (jc_claims j) else None)"

definition access_ttl :: int where "access_ttl = 15 * 60"

definition refresh_ttl :: int where "refresh_ttl = 7 * 24 * 3600"

section \<open>The tables\<close>

record user =
  us_id :: string
  us_name :: string
  us_hash :: string
  us_root :: bool
  us_created :: int

record member =
  mb_tenant :: string
  mb_user :: string
  mb_role :: string
  mb_created :: int

record refresh_token =
  rf_id :: string
  rf_user :: string
  rf_hash :: string
  rf_expires :: int
  rf_created :: int

text \<open>\<open>ac_refs\<close>: the tenants of the rows of \<open>runs\<close> and \<open>baselines\<close>, which have no cascade.\<close>

record accounts = catalog +
  ac_users :: "user list"
  ac_members :: "member list"
  ac_refresh :: "refresh_token list"
  ac_tokens :: "api_token list"
  ac_settings :: "(string \<times> string) list"
  ac_refs :: "string list"

subsection \<open>Users\<close>

definition create_user_row :: "db_env \<Rightarrow> user \<Rightarrow> accounts \<Rightarrow> db_error + accounts" where
  "create_user_row env u db = db_answer env ''CreateUser''
     (if list_ex (\<lambda>x. us_id x = us_id u \<or> us_name x = us_name u) (ac_users db) then Inl Violation
      else Inr (db\<lparr>ac_users := ac_users db @ [u\<lparr>us_created := de_now env\<rparr>]\<rparr>))"

definition get_user :: "db_env \<Rightarrow> string \<Rightarrow> accounts \<Rightarrow> db_error + user" where
  "get_user env uid db = db_answer env ''GetUser'' (query_one (\<lambda>u. us_id u = uid) (ac_users db))"

definition get_user_by_name :: "db_env \<Rightarrow> string \<Rightarrow> accounts \<Rightarrow> db_error + user" where
  "get_user_by_name env name db = db_answer env ''GetUserByUsername'' (query_one (\<lambda>u. us_name u = name) (ac_users db))"

definition list_users :: "db_env \<Rightarrow> accounts \<Rightarrow> db_error + user list" where
  "list_users env db = db_answer env ''ListUsers'' (Inr (sort_key us_created (ac_users db)))"

definition update_password :: "db_env \<Rightarrow> string \<Rightarrow> string \<Rightarrow> accounts \<Rightarrow> db_error + accounts" where
  "update_password env hash uid db = db_answer env ''UpdatePassword''
     (Inr (db\<lparr>ac_users := map (\<lambda>u. if us_id u = uid then u\<lparr>us_hash := hash\<rparr> else u) (ac_users db)\<rparr>))"

text \<open>Members and refresh tokens go with the user; API tokens that the user made forbid it.\<close>

definition delete_user_row :: "db_env \<Rightarrow> string \<Rightarrow> accounts \<Rightarrow> db_error + accounts" where
  "delete_user_row env uid db = db_answer env ''DeleteUser''
     (if list_ex (\<lambda>t. at_by t = uid) (ac_tokens db) then Inl Violation
      else Inr (db\<lparr>ac_users := filter (\<lambda>u. us_id u \<noteq> uid) (ac_users db),
             ac_members := filter (\<lambda>m. mb_user m \<noteq> uid) (ac_members db),
             ac_refresh := filter (\<lambda>r. rf_user r \<noteq> uid) (ac_refresh db)\<rparr>))"

subsection \<open>Tenants\<close>

definition create_tenant_row :: "db_env \<Rightarrow> tenant \<Rightarrow> accounts \<Rightarrow> db_error + accounts" where
  "create_tenant_row env t db = db_answer env ''CreateTenant''
     (if list_ex (\<lambda>x. tn_id x = tn_id t \<or> tn_name x = tn_name t \<or> tn_account x = tn_account t) (ct_tenants db)
      then Inl Violation
      else Inr (db\<lparr>ct_tenants := ct_tenants db @ [t\<lparr>tn_created := de_now env\<rparr>]\<rparr>))"

definition get_tenant :: "db_env \<Rightarrow> string \<Rightarrow> accounts \<Rightarrow> db_error + tenant" where
  "get_tenant env tid db = db_answer env ''GetTenant'' (query_one (\<lambda>t. tn_id t = tid) (ct_tenants db))"

definition list_tenants :: "db_env \<Rightarrow> accounts \<Rightarrow> db_error + tenant list" where
  "list_tenants env db = db_answer env ''ListTenants'' (Inr (sort_key tn_created (ct_tenants db)))"

definition delete_tenant_row :: "db_env \<Rightarrow> string \<Rightarrow> accounts \<Rightarrow> db_error + accounts" where
  "delete_tenant_row env tid db = db_answer env ''DeleteTenant''
     (if tid \<in> set (ac_refs db) then Inl Violation
      else Inr (db\<lparr>ct_tenants := filter (\<lambda>t. tn_id t \<noteq> tid) (ct_tenants db),
             ct_packages := filter (\<lambda>r. pw_tenant r \<noteq> tid) (ct_packages db),
             ct_presets := filter (\<lambda>r. pt_tenant r \<noteq> tid) (ct_presets db),
             ac_members := filter (\<lambda>m. mb_tenant m \<noteq> tid) (ac_members db),
             ac_tokens := filter (\<lambda>t. at_tenant t \<noteq> tid) (ac_tokens db),
             ac_settings := AList.delete tid (ac_settings db)\<rparr>))"

subsection \<open>Members\<close>

definition member_roles :: "string list" where "member_roles = [''viewer'', ''operator'', ''owner'']"

definition add_member_row :: "db_env \<Rightarrow> member \<Rightarrow> accounts \<Rightarrow> db_error + accounts" where
  "add_member_row env m db = db_answer env ''AddMember''
     (if mb_tenant m \<notin> set (tenant_ids db) \<or> mb_user m \<notin> us_id ` set (ac_users db) \<or> mb_role m \<notin> set member_roles \<or>
         list_ex (\<lambda>x. mb_tenant x = mb_tenant m \<and> mb_user x = mb_user m) (ac_members db) then Inl Violation
      else Inr (db\<lparr>ac_members := ac_members db @ [m\<lparr>mb_created := de_now env\<rparr>]\<rparr>))"

definition get_member :: "db_env \<Rightarrow> string \<Rightarrow> string \<Rightarrow> accounts \<Rightarrow> db_error + member" where
  "get_member env tid uid db = db_answer env ''GetMember''
     (query_one (\<lambda>m. mb_tenant m = tid \<and> mb_user m = uid) (ac_members db))"

definition update_member_role :: "db_env \<Rightarrow> string \<Rightarrow> string \<Rightarrow> string \<Rightarrow> accounts \<Rightarrow> db_error + accounts" where
  "update_member_role env role tid uid db = db_answer env ''UpdateMemberRole''
     (let hit = (\<lambda>m. mb_tenant m = tid \<and> mb_user m = uid) in
      if list_ex hit (ac_members db) \<and> role \<notin> set member_roles then Inl Violation
      else Inr (db\<lparr>ac_members := map (\<lambda>m. if hit m then m\<lparr>mb_role := role\<rparr> else m) (ac_members db)\<rparr>))"

definition remove_member_row :: "db_env \<Rightarrow> string \<Rightarrow> string \<Rightarrow> accounts \<Rightarrow> db_error + accounts" where
  "remove_member_row env tid uid db = db_answer env ''RemoveMember''
     (Inr (db\<lparr>ac_members := filter (\<lambda>m. \<not> (mb_tenant m = tid \<and> mb_user m = uid)) (ac_members db)\<rparr>))"

text \<open>The joins: members with the user's name, and the user's tenants by name.\<close>

definition tenant_members :: "db_env \<Rightarrow> string \<Rightarrow> accounts \<Rightarrow> db_error + (member \<times> string) list" where
  "tenant_members env tid db = db_answer env ''ListTenantMembers''
     (Inr (sort_key (\<lambda>(m, name). mb_created m)
        (concat (map (\<lambda>m. map (\<lambda>u. (m, us_name u)) (filter (\<lambda>u. us_id u = mb_user m) (ac_users db)))
           (filter (\<lambda>m. mb_tenant m = tid) (ac_members db))))))"

definition user_tenants :: "db_env \<Rightarrow> string \<Rightarrow> accounts \<Rightarrow> db_error + (member \<times> string) list" where
  "user_tenants env uid db = db_answer env ''ListUserTenants''
     (Inr (sort_key (\<lambda>(m, name). de_rank env name)
        (concat (map (\<lambda>m. map (\<lambda>t. (m, tn_name t)) (filter (\<lambda>t. tn_id t = mb_tenant m) (ct_tenants db)))
           (filter (\<lambda>m. mb_user m = uid) (ac_members db))))))"

subsection \<open>Refresh tokens and API tokens\<close>

definition create_refresh_token :: "db_env \<Rightarrow> refresh_token \<Rightarrow> accounts \<Rightarrow> db_error + accounts" where
  "create_refresh_token env r db = db_answer env ''CreateRefreshToken''
     (if rf_user r \<notin> us_id ` set (ac_users db) \<or>
         list_ex (\<lambda>x. rf_id x = rf_id r \<or> rf_hash x = rf_hash r) (ac_refresh db) then Inl Violation
      else Inr (db\<lparr>ac_refresh := ac_refresh db @ [r\<lparr>rf_created := de_now env\<rparr>]\<rparr>))"

definition get_refresh_token :: "db_env \<Rightarrow> string \<Rightarrow> accounts \<Rightarrow> db_error + refresh_token" where
  "get_refresh_token env hash db = db_answer env ''GetRefreshToken''
     (query_one (\<lambda>r. rf_hash r = hash \<and> de_now env < rf_expires r) (ac_refresh db))"

definition delete_refresh_token :: "db_env \<Rightarrow> string \<Rightarrow> accounts \<Rightarrow> db_error + accounts" where
  "delete_refresh_token env rid db = db_answer env ''DeleteRefreshToken''
     (Inr (db\<lparr>ac_refresh := filter (\<lambda>r. rf_id r \<noteq> rid) (ac_refresh db)\<rparr>))"

definition token_roles :: "string list" where "token_roles = [''viewer'', ''operator'']"

definition create_token_row :: "db_env \<Rightarrow> api_token \<Rightarrow> accounts \<Rightarrow> db_error + accounts" where
  "create_token_row env t db = db_answer env ''CreateAPIToken''
     (if at_tenant t \<notin> set (tenant_ids db) \<or> at_by t \<notin> us_id ` set (ac_users db) \<or> at_role t \<notin> set token_roles \<or>
         list_ex (\<lambda>x. at_id x = at_id t \<or> at_hash x = at_hash t) (ac_tokens db) then Inl Violation
      else Inr (db\<lparr>ac_tokens := ac_tokens db @ [t\<lparr>at_created := de_now env\<rparr>]\<rparr>))"

definition tenant_tokens :: "db_env \<Rightarrow> string \<Rightarrow> accounts \<Rightarrow> db_error + api_token list" where
  "tenant_tokens env tid db = db_answer env ''ListTenantAPITokens''
     (Inr (sort_key at_created (filter (\<lambda>t. at_tenant t = tid) (ac_tokens db))))"

definition delete_token_row :: "db_env \<Rightarrow> string \<Rightarrow> string \<Rightarrow> accounts \<Rightarrow> db_error + accounts" where
  "delete_token_row env tok tid db = db_answer env ''DeleteAPIToken''
     (Inr (db\<lparr>ac_tokens := filter (\<lambda>t. \<not> (at_id t = tok \<and> at_tenant t = tid)) (ac_tokens db)\<rparr>))"

subsection \<open>Settings\<close>

definition get_settings_row :: "db_env \<Rightarrow> string \<Rightarrow> accounts \<Rightarrow> db_error + string" where
  "get_settings_row env tid db = db_answer env ''GetTenantSettings''
     (case map_of (ac_settings db) tid of None \<Rightarrow> Inl No_rows | Some s \<Rightarrow> Inr s)"

definition upsert_settings :: "db_env \<Rightarrow> string \<Rightarrow> string \<Rightarrow> accounts \<Rightarrow> db_error + accounts" where
  "upsert_settings env tid s db = db_answer env ''UpsertTenantSettings''
     (if tid \<notin> set (tenant_ids db) then Inl Violation
      else Inr (db\<lparr>ac_settings := AList.update tid s (ac_settings db)\<rparr>))"


section \<open>Sessions\<close>

text \<open>What a handler answers: fields, and the refresh cookie with its age when it sets one.\<close>

type_synonym session_reply = "(fields \<times> (string \<times> int) option) reply"

text \<open>Random values of a request: a row id, a token in hexadecimal, the next account number, ids of seeded rows.\<close>

record fresh =
  fr_id :: string
  fr_hex :: string
  fr_account :: int
  fr_package_ids :: "string list"
  fr_preset_ids :: "string list"

text \<open>The claims of a user: the tenant is chosen when there is exactly one.\<close>

definition user_claims :: "user \<Rightarrow> (member \<times> string) list \<Rightarrow> claims" where
  "user_claims u tenants =
     (let c = \<lparr>cl_user = us_id u, cl_name = us_name u, cl_tenant = [], cl_role = [], cl_root = us_root u\<rparr> in
      case tenants of
        [(m, name)] \<Rightarrow> c\<lparr>cl_tenant := mb_tenant m, cl_role := mb_role m\<rparr>
      | _ \<Rightarrow> c)"

definition new_refresh :: "db_env \<Rightarrow> crypto \<Rightarrow> fresh \<Rightarrow> user \<Rightarrow> refresh_token" where
  "new_refresh env cr fr u = \<lparr>rf_id = fr_id fr, rf_user = us_id u, rf_hash = cr_sha cr (fr_hex fr),
     rf_expires = de_now env + refresh_ttl, rf_created = 0\<rparr>"

definition login :: "db_env \<Rightarrow> crypto \<Rightarrow> fresh \<Rightarrow> (string \<times> string) option \<Rightarrow> accounts \<Rightarrow> session_reply \<times> accounts" where
  "login env cr fr body db =
     (case body of
        None \<Rightarrow> (Fail 400 ''invalid request body'', db)
      | Some (name, password) \<Rightarrow>
          (case get_user_by_name env name db of
             Inl _ \<Rightarrow> (Fail 401 ''invalid credentials'', db)
           | Inr u \<Rightarrow>
               if \<not> cr_check cr password (us_hash u) then (Fail 401 ''invalid credentials'', db)
               else (case user_tenants env (us_id u) db of
                       Inl _ \<Rightarrow> (Fail 500 ''internal error'', db)
                     | Inr tenants \<Rightarrow>
                         (case jwt_issue cr (de_now env) (user_claims u tenants) access_ttl of
                            None \<Rightarrow> (Fail 500 ''token generation failed'', db)
                          | Some tok \<Rightarrow>
                              (case create_refresh_token env (new_refresh env cr fr u) db of
                                 Inl _ \<Rightarrow> (Fail 500 ''internal error'', db)
                               | Inr db' \<Rightarrow> (Reply 200 ([(''access_token'', tok)], Some (fr_hex fr, refresh_ttl)), db'))))))"

text \<open>A refresh finds the token of the cookie, then, whatever else happened meanwhile, rotates it.\<close>

definition refresh_rotate :: "db_env \<Rightarrow> crypto \<Rightarrow> fresh \<Rightarrow> refresh_token \<Rightarrow> accounts \<Rightarrow> session_reply \<times> accounts" where
  "refresh_rotate env cr fr rt db =
     (let db = or_same (delete_refresh_token env (rf_id rt) db) db in
      case get_user env (rf_user rt) db of
        Inl _ \<Rightarrow> (Fail 401 ''user not found'', db)
      | Inr u \<Rightarrow>
          (let tenants = (case user_tenants env (us_id u) db of Inl _ \<Rightarrow> [] | Inr ts \<Rightarrow> ts) in
           case jwt_issue cr (de_now env) (user_claims u tenants) access_ttl of
             None \<Rightarrow> (Fail 500 ''token generation failed'', db)
           | Some tok \<Rightarrow>
               (Reply 200 ([(''access_token'', tok)], Some (fr_hex fr, refresh_ttl)),
                or_same (create_refresh_token env (new_refresh env cr fr u) db) db)))"

definition refresh :: "db_env \<Rightarrow> crypto \<Rightarrow> fresh \<Rightarrow> string option \<Rightarrow> accounts \<Rightarrow> session_reply \<times> accounts" where
  "refresh env cr fr cookie db =
     (case cookie of
        None \<Rightarrow> (Fail 401 ''missing refresh token'', db)
      | Some v \<Rightarrow>
          (case get_refresh_token env (cr_sha cr v) db of
             Inl _ \<Rightarrow> (Fail 401 ''invalid refresh token'', db)
           | Inr rt \<Rightarrow> refresh_rotate env cr fr rt db))"

definition logout :: "db_env \<Rightarrow> crypto \<Rightarrow> string option \<Rightarrow> accounts \<Rightarrow> session_reply \<times> accounts" where
  "logout env cr cookie db =
     (Reply 200 ([(''status'', ''ok'')], Some ([], 0)),
      (case cookie of
         None \<Rightarrow> db
       | Some v \<Rightarrow>
           (case get_refresh_token env (cr_sha cr v) db of
              Inl _ \<Rightarrow> db
            | Inr rt \<Rightarrow> or_same (delete_refresh_token env (rf_id rt) db) db)))"

definition select_tenant ::
  "db_env \<Rightarrow> crypto \<Rightarrow> claims option \<Rightarrow> string option \<Rightarrow> accounts \<Rightarrow> session_reply" where
  "select_tenant env cr claims body db =
     (case claims of
        None \<Rightarrow> Fail 401 ''unauthorized''
      | Some c \<Rightarrow>
          (case body of
             None \<Rightarrow> Fail 400 ''tenant_id required''
           | Some tid \<Rightarrow>
               if tid = [] then Fail 400 ''tenant_id required''
               else (case (if cl_root c
                           then (case get_tenant env tid db of
                                   Inl _ \<Rightarrow> Inl (Fail 404 ''tenant not found'') | Inr t \<Rightarrow> Inr ''owner'')
                           else (case get_member env tid (cl_user c) db of
                                   Inl _ \<Rightarrow> Inl (Fail 403 ''not a member of this tenant'') | Inr m \<Rightarrow> Inr (mb_role m))) of
                       Inl e \<Rightarrow> e
                     | Inr role \<Rightarrow>
                         (case jwt_issue cr (de_now env) (c\<lparr>cl_tenant := tid, cl_role := role\<rparr>) access_ttl of
                            None \<Rightarrow> Fail 500 ''token generation failed''
                          | Some tok \<Rightarrow> Reply 200 ([(''access_token'', tok)], None)))))"

definition change_password ::
  "db_env \<Rightarrow> crypto \<Rightarrow> claims option \<Rightarrow> (string \<times> string) option \<Rightarrow> accounts \<Rightarrow> session_reply \<times> accounts" where
  "change_password env cr claims body db =
     (case claims of
        None \<Rightarrow> (Fail 401 ''unauthorized'', db)
      | Some c \<Rightarrow>
          (case body of
             None \<Rightarrow> (Fail 400 ''invalid request body'', db)
           | Some (current, new) \<Rightarrow>
               (case get_user env (cl_user c) db of
                  Inl _ \<Rightarrow> (Fail 500 ''internal error'', db)
                | Inr u \<Rightarrow>
                    if \<not> cr_check cr current (us_hash u) then (Fail 401 ''current password is incorrect'', db)
                    else (case cr_hash cr new of
                            None \<Rightarrow> (Fail 500 ''internal error'', db)
                          | Some h \<Rightarrow>
                              (case update_password env h (cl_user c) db of
                                 Inl _ \<Rightarrow> (Fail 500 ''internal error'', db)
                               | Inr db' \<Rightarrow> (Reply 200 ([(''status'', ''ok'')], None), db'))))))"

text \<open>What a client learns about itself: the claims and the tenants of their user.\<close>

definition auth_me :: "db_env \<Rightarrow> claims option \<Rightarrow> accounts \<Rightarrow> (claims \<times> (string \<times> string \<times> string) list) reply" where
  "auth_me env claims db =
     (case claims of
        None \<Rightarrow> Fail 401 ''unauthorized''
      | Some c \<Rightarrow> Reply 200 (c, map (\<lambda>(m, name). (mb_tenant m, name, mb_role m))
          (case user_tenants env (cl_user c) db of Inl _ \<Rightarrow> [] | Inr ts \<Rightarrow> ts)))"

section \<open>Tenant management\<close>

definition tenant_of :: "claims option \<Rightarrow> string" where
  "tenant_of claims = (case claims of None \<Rightarrow> [] | Some c \<Rightarrow> cl_tenant c)"

definition list_members :: "db_env \<Rightarrow> claims option \<Rightarrow> accounts \<Rightarrow> (member \<times> string) list reply" where
  "list_members env claims db =
     (case tenant_members env (tenant_of claims) db of Inl e \<Rightarrow> Fail 500 (de_show env e) | Inr ms \<Rightarrow> Reply 200 ms)"

definition status_only :: "nat \<Rightarrow> string \<Rightarrow> session_reply" where
  "status_only code s = Reply code ([(''status'', s)], None)"

definition add_member ::
  "db_env \<Rightarrow> claims option \<Rightarrow> (string \<times> string) option \<Rightarrow> accounts \<Rightarrow> session_reply \<times> accounts" where
  "add_member env claims body db =
     (case body of
        None \<Rightarrow> (Fail 400 ''user_id and role are required'', db)
      | Some (uid, role) \<Rightarrow>
          if uid = [] \<or> role = [] then (Fail 400 ''user_id and role are required'', db)
          else if role_level role = 0 then (Fail 400 ''role must be viewer, operator, or owner'', db)
          else (case add_member_row env \<lparr>mb_tenant = tenant_of claims, mb_user = uid, mb_role = role, mb_created = 0\<rparr> db of
                  Inl _ \<Rightarrow> (Fail 409 ''member already exists or user not found'', db)
                | Inr db' \<Rightarrow> (status_only 201 ''ok'', db')))"

definition update_member ::
  "db_env \<Rightarrow> claims option \<Rightarrow> string \<Rightarrow> string option \<Rightarrow> accounts \<Rightarrow> session_reply \<times> accounts" where
  "update_member env claims uid body db =
     (case body of
        None \<Rightarrow> (Fail 400 ''role is required'', db)
      | Some role \<Rightarrow>
          if role = [] then (Fail 400 ''role is required'', db)
          else if role_level role = 0 then (Fail 400 ''role must be viewer, operator, or owner'', db)
          else (case update_member_role env role (tenant_of claims) uid db of
                  Inl e \<Rightarrow> (Fail 500 (de_show env e), db)
                | Inr db' \<Rightarrow> (status_only 200 ''ok'', db')))"

definition remove_member :: "db_env \<Rightarrow> claims option \<Rightarrow> string \<Rightarrow> accounts \<Rightarrow> session_reply \<times> accounts" where
  "remove_member env claims uid db =
     (case remove_member_row env (tenant_of claims) uid db of
        Inl e \<Rightarrow> (Fail 500 (de_show env e), db)
      | Inr db' \<Rightarrow> (status_only 200 ''deleted'', db'))"

definition list_api_tokens :: "db_env \<Rightarrow> claims option \<Rightarrow> accounts \<Rightarrow> api_token list reply" where
  "list_api_tokens env claims db =
     (case tenant_tokens env (tenant_of claims) db of Inl e \<Rightarrow> Fail 500 (de_show env e) | Inr ts \<Rightarrow> Reply 200 ts)"

text \<open>The guards of its route make sure that there are claims.\<close>

definition create_api_token ::
  "db_env \<Rightarrow> crypto \<Rightarrow> fresh \<Rightarrow> claims \<Rightarrow> (string \<times> string \<times> int option) option \<Rightarrow> accounts \<Rightarrow>
     session_reply \<times> accounts" where
  "create_api_token env cr fr c body db =
     (case body of
        None \<Rightarrow> (Fail 400 ''name and role are required'', db)
      | Some (name, role, expires) \<Rightarrow>
          if name = [] \<or> role = [] then (Fail 400 ''name and role are required'', db)
          else (case create_token_row env \<lparr>at_id = fr_id fr, at_tenant = cl_tenant c, at_name = name,
                       at_hash = cr_sha cr (fr_hex fr), at_role = role, at_by = cl_user c, at_expires = expires,
                       at_created = 0\<rparr> db of
                  Inl e \<Rightarrow> (Fail 500 (de_show env e), db)
                | Inr db' \<Rightarrow> (Reply 201 ([(''id'', fr_id fr), (''name'', name), (''token'', fr_hex fr)], None), db')))"

definition revoke_api_token :: "db_env \<Rightarrow> claims option \<Rightarrow> string \<Rightarrow> accounts \<Rightarrow> session_reply \<times> accounts" where
  "revoke_api_token env claims tok db =
     (case delete_token_row env tok (tenant_of claims) db of
        Inl e \<Rightarrow> (Fail 500 (de_show env e), db)
      | Inr db' \<Rightarrow> (status_only 200 ''revoked'', db'))"

section \<open>Administration\<close>

text \<open>The JSON of settings.\<close>

record settings_codec =
  sc_marshal :: "server_settings \<Rightarrow> string"
  sc_parse :: "string \<Rightarrow> server_settings option"

definition list_tenants_admin :: "db_env \<Rightarrow> accounts \<Rightarrow> tenant list reply" where
  "list_tenants_admin env db =
     (case list_tenants env db of Inl e \<Rightarrow> Fail 500 (de_show env e) | Inr ts \<Rightarrow> Reply 200 ts)"

definition create_tenant_admin ::
  "db_env \<Rightarrow> settings_codec \<Rightarrow> topology_codec \<Rightarrow> fresh \<Rightarrow> string option \<Rightarrow> accounts \<Rightarrow> session_reply \<times> accounts" where
  "create_tenant_admin env sc tc fr body db =
     (case body of
        None \<Rightarrow> (Fail 400 ''name is required'', db)
      | Some name \<Rightarrow>
          if name = [] then (Fail 400 ''name is required'', db)
          else (case create_tenant_row env \<lparr>tn_id = fr_id fr, tn_name = name, tn_account = fr_account fr, tn_created = 0\<rparr> db of
                  Inl _ \<Rightarrow> (Fail 409 ''tenant name already exists'', db)
                | Inr db \<Rightarrow>
                    (let db = or_same (upsert_settings env (fr_id fr) (sc_marshal sc default_server_settings) db) db;
                         db = seed_builtin_packages env (fr_id fr) (fr_package_ids fr) db;
                         db = seed_builtin_presets env tc (fr_id fr) (fr_preset_ids fr) db
                     in (Reply 201 ([(''id'', fr_id fr), (''name'', name)], None), db))))"

definition delete_tenant_admin :: "db_env \<Rightarrow> string \<Rightarrow> accounts \<Rightarrow> session_reply \<times> accounts" where
  "delete_tenant_admin env tid db =
     (case delete_tenant_row env tid db of
        Inl e \<Rightarrow> (Fail 500 (de_show env e), db)
      | Inr db' \<Rightarrow> (status_only 200 ''deleted'', db'))"

definition list_users_admin :: "db_env \<Rightarrow> accounts \<Rightarrow> user list reply" where
  "list_users_admin env db = (case list_users env db of Inl e \<Rightarrow> Fail 500 (de_show env e) | Inr us \<Rightarrow> Reply 200 us)"

definition create_user_admin ::
  "db_env \<Rightarrow> crypto \<Rightarrow> fresh \<Rightarrow> (string \<times> string \<times> bool) option \<Rightarrow> accounts \<Rightarrow> session_reply \<times> accounts" where
  "create_user_admin env cr fr body db =
     (case body of
        None \<Rightarrow> (Fail 400 ''username and password are required'', db)
      | Some (name, password, is_root) \<Rightarrow>
          if name = [] \<or> password = [] then (Fail 400 ''username and password are required'', db)
          else (case cr_hash cr password of
                  None \<Rightarrow> (Fail 500 ''internal error'', db)
                | Some h \<Rightarrow>
                    (case create_user_row env \<lparr>us_id = fr_id fr, us_name = name, us_hash = h, us_root = is_root, us_created = 0\<rparr> db of
                       Inl _ \<Rightarrow> (Fail 409 ''username already exists'', db)
                     | Inr db' \<Rightarrow> (Reply 201 ([(''id'', fr_id fr), (''username'', name)], None), db'))))"

definition delete_user_admin :: "db_env \<Rightarrow> string \<Rightarrow> accounts \<Rightarrow> session_reply \<times> accounts" where
  "delete_user_admin env uid db =
     (case delete_user_row env uid db of
        Inl e \<Rightarrow> (Fail 500 (de_show env e), db)
      | Inr db' \<Rightarrow> (status_only 200 ''deleted'', db'))"

definition reset_password_admin ::
  "db_env \<Rightarrow> crypto \<Rightarrow> string \<Rightarrow> string option \<Rightarrow> accounts \<Rightarrow> session_reply \<times> accounts" where
  "reset_password_admin env cr uid body db =
     (case body of
        None \<Rightarrow> (Fail 400 ''password is required'', db)
      | Some password \<Rightarrow>
          if password = [] then (Fail 400 ''password is required'', db)
          else (case cr_hash cr password of
                  None \<Rightarrow> (Fail 500 ''internal error'', db)
                | Some h \<Rightarrow>
                    (case update_password env h uid db of
                       Inl e \<Rightarrow> (Fail 500 (de_show env e), db)
                     | Inr db' \<Rightarrow> (status_only 200 ''ok'', db'))))"

section \<open>Settings of a tenant\<close>

definition load_tenant_settings :: "db_env \<Rightarrow> settings_codec \<Rightarrow> string \<Rightarrow> accounts \<Rightarrow> server_settings" where
  "load_tenant_settings env sc tid db =
     (case get_settings_row env tid db of
        Inl _ \<Rightarrow> default_server_settings
      | Inr s \<Rightarrow> (case sc_parse sc s of None \<Rightarrow> default_server_settings | Some st \<Rightarrow> st))"

definition settings_for_tenant :: "db_env \<Rightarrow> settings_codec \<Rightarrow> accounts \<Rightarrow> string \<Rightarrow> server_settings" where
  "settings_for_tenant env sc db tid =
     (if tid = [] then default_server_settings
      else (case get_settings_row env tid db of
              Inl _ \<Rightarrow> default_server_settings
            | Inr s \<Rightarrow> (case sc_parse sc s of None \<Rightarrow> default_server_settings | Some st \<Rightarrow> st)))"

definition get_settings :: "db_env \<Rightarrow> settings_codec \<Rightarrow> claims option \<Rightarrow> accounts \<Rightarrow> server_settings" where
  "get_settings env sc claims db = load_tenant_settings env sc (tenant_of claims) db"

text \<open>The settings that are stored: only root sets the server's address and the URL of its binary.\<close>

definition settings_update :: "server_settings \<Rightarrow> claims option \<Rightarrow> server_settings \<Rightarrow> server_settings" where
  "settings_update prev claims updated =
     (case claims of
        Some c \<Rightarrow> if cl_root c then updated else updated\<lparr>ss_cloud := (ss_cloud updated)
          \<lparr>cs_server_addr := cs_server_addr (ss_cloud prev), cs_binary_url := cs_binary_url (ss_cloud prev)\<rparr>\<rparr>
      | None \<Rightarrow> updated\<lparr>ss_cloud := (ss_cloud updated)
          \<lparr>cs_server_addr := cs_server_addr (ss_cloud prev), cs_binary_url := cs_binary_url (ss_cloud prev)\<rparr>\<rparr>)"

definition update_settings ::
  "db_env \<Rightarrow> settings_codec \<Rightarrow> claims option \<Rightarrow> string + server_settings \<Rightarrow> accounts \<Rightarrow> session_reply \<times> accounts" where
  "update_settings env sc claims body db =
     (case body of
        Inl e \<Rightarrow> (Fail 400 e, db)
      | Inr st \<Rightarrow>
          (case upsert_settings env (tenant_of claims)
                  (sc_marshal sc (settings_update (load_tenant_settings env sc (tenant_of claims) db) claims st)) db of
             Inl e \<Rightarrow> (Fail 500 (''save settings: '' @ de_show env e), db)
           | Inr db' \<Rightarrow> (status_only 200 ''ok'', db')))"


section \<open>The tables stay well-formed\<close>

text \<open>The constraints of the migrations, per table, for the ids of tenants and users in \<open>T\<close> and \<open>U\<close>.\<close>

definition users_ok :: "user list \<Rightarrow> bool" where
  "users_ok us \<longleftrightarrow> distinct (map us_id us) \<and> distinct (map us_name us)"

definition tenants_ok :: "tenant list \<Rightarrow> bool" where
  "tenants_ok ts \<longleftrightarrow> distinct (map tn_id ts) \<and> distinct (map tn_name ts)"

definition members_ok :: "string set \<Rightarrow> string set \<Rightarrow> member list \<Rightarrow> bool" where
  "members_ok T U ms \<longleftrightarrow> distinct (map (\<lambda>m. (mb_tenant m, mb_user m)) ms) \<and>
     (\<forall>m \<in> set ms. mb_tenant m \<in> T \<and> mb_user m \<in> U \<and> mb_role m \<in> set member_roles)"

definition refresh_ok :: "string set \<Rightarrow> refresh_token list \<Rightarrow> bool" where
  "refresh_ok U rs \<longleftrightarrow> distinct (map rf_id rs) \<and> distinct (map rf_hash rs) \<and> (\<forall>r \<in> set rs. rf_user r \<in> U)"

definition tokens_ok :: "string set \<Rightarrow> string set \<Rightarrow> api_token list \<Rightarrow> bool" where
  "tokens_ok T U ts \<longleftrightarrow> distinct (map at_id ts) \<and> distinct (map at_hash ts) \<and>
     (\<forall>t \<in> set ts. at_tenant t \<in> T \<and> at_by t \<in> U \<and> at_role t \<in> set token_roles)"

definition user_ids :: "accounts \<Rightarrow> string set" where
  "user_ids db = us_id ` set (ac_users db)"

definition accounts_ok :: "accounts \<Rightarrow> bool" where
  "accounts_ok db \<longleftrightarrow> catalog_ok db \<and> users_ok (ac_users db) \<and> tenants_ok (ct_tenants db) \<and>
     members_ok (set (tenant_ids db)) (user_ids db) (ac_members db) \<and> refresh_ok (user_ids db) (ac_refresh db) \<and>
     tokens_ok (set (tenant_ids db)) (user_ids db) (ac_tokens db) \<and>
     set (map fst (ac_settings db)) \<subseteq> set (tenant_ids db) \<and> set (ac_refs db) \<subseteq> set (tenant_ids db)"

lemma members_ok_mono: "members_ok T U ms \<Longrightarrow> T \<subseteq> T' \<Longrightarrow> U \<subseteq> U' \<Longrightarrow> members_ok T' U' ms"
  by (auto simp: members_ok_def)

lemma refresh_ok_mono: "refresh_ok U rs \<Longrightarrow> U \<subseteq> U' \<Longrightarrow> refresh_ok U' rs"
  by (auto simp: refresh_ok_def)

lemma tokens_ok_mono: "tokens_ok T U ts \<Longrightarrow> T \<subseteq> T' \<Longrightarrow> U \<subseteq> U' \<Longrightarrow> tokens_ok T' U' ts"
  by (auto simp: tokens_ok_def)

text \<open>The invariant from those of the tables, the rows of the catalog and of runs staying the same.\<close>

lemma accounts_okI:
  assumes "accounts_ok db" and "ct_packages db' = ct_packages db" and "ct_presets db' = ct_presets db"
    and "ac_refs db' = ac_refs db" and "set (tenant_ids db) \<subseteq> set (tenant_ids db')"
    and "users_ok (ac_users db')" and "tenants_ok (ct_tenants db')"
    and "members_ok (set (tenant_ids db')) (user_ids db') (ac_members db')" and "refresh_ok (user_ids db') (ac_refresh db')"
    and "tokens_ok (set (tenant_ids db')) (user_ids db') (ac_tokens db')"
    and "set (map fst (ac_settings db')) \<subseteq> set (tenant_ids db')"
  shows "accounts_ok db'"
  using assms by (auto simp: accounts_ok_def catalog_ok_def)

text \<open>The requests that are not queries of packages, presets or runs.\<close>

datatype account_request =
    Login "(string \<times> string) option"
  | Refresh "string option"
  | Logout "string option"
  | Select_tenant "claims option" "string option"
  | Change_password "claims option" "(string \<times> string) option"
  | Add_member "claims option" "(string \<times> string) option"
  | Update_member "claims option" string "string option"
  | Remove_member "claims option" string
  | Create_token claims "(string \<times> string \<times> int option) option"
  | Revoke_token "claims option" string
  | Create_tenant "string option"
  | Delete_tenant string
  | Create_user "(string \<times> string \<times> bool) option"
  | Delete_user string
  | Reset_password string "string option"
  | Update_settings "claims option" "string + server_settings"

text \<open>What surrounds a request: the database's answers and time, cryptography, codecs, random values.\<close>

record surroundings =
  sr_env :: db_env
  sr_crypto :: crypto
  sr_settings :: settings_codec
  sr_topology :: topology_codec
  sr_fresh :: fresh

fun account_step :: "surroundings \<Rightarrow> account_request \<Rightarrow> accounts \<Rightarrow> session_reply \<times> accounts" where
  "account_step s (Login body) db = login (sr_env s) (sr_crypto s) (sr_fresh s) body db"
| "account_step s (Refresh cookie) db = refresh (sr_env s) (sr_crypto s) (sr_fresh s) cookie db"
| "account_step s (Logout cookie) db = logout (sr_env s) (sr_crypto s) cookie db"
| "account_step s (Select_tenant c body) db = (select_tenant (sr_env s) (sr_crypto s) c body db, db)"
| "account_step s (Change_password c body) db = change_password (sr_env s) (sr_crypto s) c body db"
| "account_step s (Add_member c body) db = add_member (sr_env s) c body db"
| "account_step s (Update_member c uid body) db = update_member (sr_env s) c uid body db"
| "account_step s (Remove_member c uid) db = remove_member (sr_env s) c uid db"
| "account_step s (Create_token c body) db = create_api_token (sr_env s) (sr_crypto s) (sr_fresh s) c body db"
| "account_step s (Revoke_token c tok) db = revoke_api_token (sr_env s) c tok db"
| "account_step s (Create_tenant body) db =
     create_tenant_admin (sr_env s) (sr_settings s) (sr_topology s) (sr_fresh s) body db"
| "account_step s (Delete_tenant tid) db = delete_tenant_admin (sr_env s) tid db"
| "account_step s (Create_user body) db = create_user_admin (sr_env s) (sr_crypto s) (sr_fresh s) body db"
| "account_step s (Delete_user uid) db = delete_user_admin (sr_env s) uid db"
| "account_step s (Reset_password uid body) db = reset_password_admin (sr_env s) (sr_crypto s) uid body db"
| "account_step s (Update_settings c body) db = update_settings (sr_env s) (sr_settings s) c body db"

definition account_run :: "(surroundings \<times> account_request) list \<Rightarrow> accounts \<Rightarrow> accounts" where
  "account_run rqs db = fold (\<lambda>(s, rq) db. snd (account_step s rq db)) rqs db"

subsection \<open>Queries\<close>

lemma accounts_okD:
  assumes "accounts_ok db"
  shows "catalog_ok db" "users_ok (ac_users db)" "tenants_ok (ct_tenants db)"
    "members_ok (set (tenant_ids db)) (user_ids db) (ac_members db)" "refresh_ok (user_ids db) (ac_refresh db)"
    "tokens_ok (set (tenant_ids db)) (user_ids db) (ac_tokens db)"
    "set (map fst (ac_settings db)) \<subseteq> set (tenant_ids db)" "set (ac_refs db) \<subseteq> set (tenant_ids db)"
  using assms by (simp_all add: accounts_ok_def)

lemma create_user_row_ok:
  assumes "create_user_row env u db = Inr db'" and ok: "accounts_ok db"
  shows "accounts_ok db'"
proof (rule accounts_okI [OF ok])
  have d: "db' = db\<lparr>ac_users := ac_users db @ [u\<lparr>us_created := de_now env\<rparr>]\<rparr>"
    and f: "\<not> list_ex (\<lambda>x. us_id x = us_id u \<or> us_name x = us_name u) (ac_users db)"
    using assms(1) by (auto simp: create_user_row_def db_answer_Inr split: if_splits)
  show "users_ok (ac_users db')" using accounts_okD(2) [OF ok] f by (auto simp: d users_ok_def list_ex_iff)
  have U: "user_ids db \<subseteq> user_ids db'" by (auto simp: user_ids_def d)
  have T: "tenant_ids db' = tenant_ids db" by (simp add: d tenant_ids_def)
  show "members_ok (set (tenant_ids db')) (user_ids db') (ac_members db')"
    "refresh_ok (user_ids db') (ac_refresh db')" "tokens_ok (set (tenant_ids db')) (user_ids db') (ac_tokens db')"
    unfolding T using accounts_okD(4-6) [OF ok] members_ok_mono [OF _ order_refl U] refresh_ok_mono [OF _ U]
      tokens_ok_mono [OF _ order_refl U] by (simp_all add: d)
  show "set (map fst (ac_settings db')) \<subseteq> set (tenant_ids db')" unfolding T using accounts_okD(7) [OF ok] by (simp add: d)
qed (use assms in \<open>auto simp: create_user_row_def db_answer_Inr tenant_ids_def accounts_ok_def split: if_splits\<close>)

lemma update_password_ok:
  assumes "update_password env hash uid db = Inr db'" and ok: "accounts_ok db"
  shows "accounts_ok db'"
proof -
  let ?f = "\<lambda>u. if us_id u = uid then u\<lparr>us_hash := hash\<rparr> else u"
  have d: "db' = db\<lparr>ac_users := map ?f (ac_users db)\<rparr>" using assms(1) by (auto simp: update_password_def db_answer_Inr)
  have f: "us_id (?f u) = us_id u" "us_name (?f u) = us_name u" for u by simp_all
  have "users_ok (map ?f (ac_users db)) = users_ok (ac_users db)" unfolding users_ok_def map_map comp_def f ..
  moreover have "user_ids db' = user_ids db" unfolding user_ids_def d by (simp add: image_image f del: if_image_distrib)
  ultimately show ?thesis using ok by (simp add: accounts_ok_def d catalog_ok_def tenant_ids_def)
qed

lemma delete_user_row_ok:
  assumes "delete_user_row env uid db = Inr db'" and ok: "accounts_ok db"
  shows "accounts_ok db'"
proof (rule accounts_okI [OF ok])
  have d: "db' = db\<lparr>ac_users := filter (\<lambda>u. us_id u \<noteq> uid) (ac_users db),
             ac_members := filter (\<lambda>m. mb_user m \<noteq> uid) (ac_members db),
             ac_refresh := filter (\<lambda>r. rf_user r \<noteq> uid) (ac_refresh db)\<rparr>"
    and f: "\<not> list_ex (\<lambda>t. at_by t = uid) (ac_tokens db)"
    using assms(1) by (auto simp: delete_user_row_def db_answer_Inr split: if_splits)
  have U: "user_ids db' = user_ids db - {uid}" by (auto simp: user_ids_def d)
  have T: "tenant_ids db' = tenant_ids db" by (simp add: d tenant_ids_def)
  show "users_ok (ac_users db')" using accounts_okD(2) [OF ok] by (simp add: d users_ok_def distinct_map_filter)
  show "members_ok (set (tenant_ids db')) (user_ids db') (ac_members db')"
    unfolding T U using accounts_okD(4) [OF ok] by (auto simp: d members_ok_def distinct_map_filter)
  show "refresh_ok (user_ids db') (ac_refresh db')"
    unfolding U using accounts_okD(5) [OF ok] by (auto simp: d refresh_ok_def distinct_map_filter)
  show "tokens_ok (set (tenant_ids db')) (user_ids db') (ac_tokens db')"
    unfolding T U using accounts_okD(6) [OF ok] f by (auto simp: d tokens_ok_def list_ex_iff)
  show "set (map fst (ac_settings db')) \<subseteq> set (tenant_ids db')" unfolding T using accounts_okD(7) [OF ok] by (simp add: d)
qed (use assms in \<open>auto simp: delete_user_row_def db_answer_Inr tenant_ids_def accounts_ok_def split: if_splits\<close>)

lemma create_tenant_row_ok:
  assumes "create_tenant_row env t db = Inr db'" and ok: "accounts_ok db"
  shows "accounts_ok db'"
proof (rule accounts_okI [OF ok])
  have d: "db' = db\<lparr>ct_tenants := ct_tenants db @ [t\<lparr>tn_created := de_now env\<rparr>]\<rparr>"
    and f: "\<not> list_ex (\<lambda>x. tn_id x = tn_id t \<or> tn_name x = tn_name t \<or> tn_account x = tn_account t) (ct_tenants db)"
    using assms(1) by (auto simp: create_tenant_row_def db_answer_Inr split: if_splits)
  show "tenants_ok (ct_tenants db')" using accounts_okD(3) [OF ok] f by (auto simp: d tenants_ok_def list_ex_iff)
  show T: "set (tenant_ids db) \<subseteq> set (tenant_ids db')" by (auto simp: d tenant_ids_def)
  have U: "user_ids db' = user_ids db" by (simp add: user_ids_def d)
  show "members_ok (set (tenant_ids db')) (user_ids db') (ac_members db')"
    "tokens_ok (set (tenant_ids db')) (user_ids db') (ac_tokens db')" "refresh_ok (user_ids db') (ac_refresh db')"
    unfolding U using accounts_okD(4-6) [OF ok] members_ok_mono [OF _ T order_refl] tokens_ok_mono [OF _ T order_refl]
    by (simp_all add: d)
  show "set (map fst (ac_settings db')) \<subseteq> set (tenant_ids db')"
    using subset_trans [OF accounts_okD(7) [OF ok] T] by (simp add: d)
qed (use assms in \<open>auto simp: create_tenant_row_def db_answer_Inr accounts_ok_def split: if_splits\<close>)

lemma unique_rows_filter: "unique_rows key owner title rows \<Longrightarrow> unique_rows key owner title (filter p rows)"
  by (simp add: unique_rows_def distinct_map_filter)

lemma delete_tenant_row_ok:
  assumes "delete_tenant_row env tid db = Inr db'" and ok: "accounts_ok db"
  shows "accounts_ok db'"
proof -
  have d: "db' = db\<lparr>ct_tenants := filter (\<lambda>t. tn_id t \<noteq> tid) (ct_tenants db),
             ct_packages := filter (\<lambda>r. pw_tenant r \<noteq> tid) (ct_packages db),
             ct_presets := filter (\<lambda>r. pt_tenant r \<noteq> tid) (ct_presets db),
             ac_members := filter (\<lambda>m. mb_tenant m \<noteq> tid) (ac_members db),
             ac_tokens := filter (\<lambda>t. at_tenant t \<noteq> tid) (ac_tokens db),
             ac_settings := AList.delete tid (ac_settings db)\<rparr>" and f: "tid \<notin> set (ac_refs db)"
    using assms(1) by (auto simp: delete_tenant_row_def db_answer_Inr split: if_splits)
  have U: "user_ids db' = user_ids db" by (simp add: user_ids_def d)
  have T: "set (tenant_ids db') = set (tenant_ids db) - {tid}" by (auto simp: tenant_ids_def d)
  have "catalog_ok db'" unfolding catalog_ok_def T
    using accounts_okD(1) [OF ok] by (auto simp: catalog_ok_def d unique_rows_filter)
  moreover have "tenants_ok (ct_tenants db')" using accounts_okD(3) [OF ok] by (simp add: d tenants_ok_def distinct_map_filter)
  moreover have "members_ok (set (tenant_ids db')) (user_ids db') (ac_members db')"
    unfolding T U using accounts_okD(4) [OF ok] by (auto simp: members_ok_def d distinct_map_filter)
  moreover have "tokens_ok (set (tenant_ids db')) (user_ids db') (ac_tokens db')"
    unfolding T U using accounts_okD(6) [OF ok] by (auto simp: tokens_ok_def d distinct_map_filter)
  moreover have "set (map fst (ac_settings db')) \<subseteq> set (tenant_ids db')"
    using accounts_okD(7) [OF ok] unfolding T by (auto simp: d delete_keys)
  moreover have "set (ac_refs db') \<subseteq> set (tenant_ids db')" unfolding T using accounts_okD(8) [OF ok] f by (auto simp: d)
  moreover have "users_ok (ac_users db')" "refresh_ok (user_ids db') (ac_refresh db')"
    unfolding U using accounts_okD(2,5) [OF ok] by (simp_all add: d)
  ultimately show ?thesis by (simp add: accounts_ok_def)
qed

lemma set_members_ok:
  assumes "accounts_ok db" and "members_ok (set (tenant_ids db)) (user_ids db) ms"
  shows "accounts_ok (db\<lparr>ac_members := ms\<rparr>)"
  using assms by (auto simp: accounts_ok_def catalog_ok_def tenant_ids_def user_ids_def)

lemma set_refresh_ok:
  assumes "accounts_ok db" and "refresh_ok (user_ids db) rs"
  shows "accounts_ok (db\<lparr>ac_refresh := rs\<rparr>)"
  using assms by (auto simp: accounts_ok_def catalog_ok_def tenant_ids_def user_ids_def)

lemma set_tokens_ok:
  assumes "accounts_ok db" and "tokens_ok (set (tenant_ids db)) (user_ids db) ts"
  shows "accounts_ok (db\<lparr>ac_tokens := ts\<rparr>)"
  using assms by (auto simp: accounts_ok_def catalog_ok_def tenant_ids_def user_ids_def)

lemma set_settings_ok:
  assumes "accounts_ok db" and "set (map fst st) \<subseteq> set (tenant_ids db)"
  shows "accounts_ok (db\<lparr>ac_settings := st\<rparr>)"
  using assms by (auto simp: accounts_ok_def catalog_ok_def tenant_ids_def user_ids_def)

lemma set_catalog_ok:
  assumes "accounts_ok db" and "catalog_ok db'" and "catalog.more db' = catalog.more db" and "ct_tenants db' = ct_tenants db"
  shows "accounts_ok db'"
proof -
  have "db' = db\<lparr>ct_packages := ct_packages db', ct_presets := ct_presets db'\<rparr>" using assms(3,4) by (cases db; cases db') simp
  then obtain ps qs where d: "db' = db\<lparr>ct_packages := ps, ct_presets := qs\<rparr>" by blast
  show ?thesis using assms(1,2) by (simp add: accounts_ok_def d tenant_ids_def user_ids_def)
qed

lemmas set_table_ok = set_members_ok set_refresh_ok set_tokens_ok set_settings_ok

lemma add_member_row_ok:
  assumes "add_member_row env m db = Inr db'" and ok: "accounts_ok db"
  shows "accounts_ok db'"
  using accounts_okD(4) [OF ok] assms(1)
  by (auto simp: add_member_row_def db_answer_Inr members_ok_def user_ids_def list_ex_iff intro!: set_members_ok [OF ok] split: if_splits) blast+

lemma update_member_role_ok:
  assumes "update_member_role env role tid uid db = Inr db'" and ok: "accounts_ok db"
  shows "accounts_ok db'"
proof -
  let ?hit = "\<lambda>m. mb_tenant m = tid \<and> mb_user m = uid"
  let ?ms = "map (\<lambda>m. if ?hit m then m\<lparr>mb_role := role\<rparr> else m) (ac_members db)"
  have d: "db' = db\<lparr>ac_members := ?ms\<rparr>" and r: "list_ex ?hit (ac_members db) \<longrightarrow> role \<in> set member_roles"
    using assms(1) by (auto simp: update_member_role_def db_answer_Inr Let_def split: if_splits)
  have m: "map (\<lambda>m. (mb_tenant m, mb_user m)) ?ms = map (\<lambda>m. (mb_tenant m, mb_user m)) (ac_members db)" by simp
  have "members_ok (set (tenant_ids db)) (user_ids db) ?ms"
    using accounts_okD(4) [OF ok] r unfolding members_ok_def m by (auto simp: list_ex_iff)
  then show ?thesis unfolding d by (rule set_members_ok [OF ok])
qed

lemma remove_member_row_ok:
  assumes "remove_member_row env tid uid db = Inr db'" and ok: "accounts_ok db"
  shows "accounts_ok db'"
  using accounts_okD(4) [OF ok] assms(1)
  by (auto simp: remove_member_row_def db_answer_Inr members_ok_def distinct_map_filter intro!: set_members_ok [OF ok])

lemma create_refresh_token_ok:
  assumes "create_refresh_token env r db = Inr db'" and ok: "accounts_ok db"
  shows "accounts_ok db'"
  using accounts_okD(5) [OF ok] assms(1)
  by (auto simp: create_refresh_token_def db_answer_Inr refresh_ok_def user_ids_def list_ex_iff intro!: set_refresh_ok [OF ok] split: if_splits) blast+

lemma delete_refresh_token_ok:
  assumes "delete_refresh_token env rid db = Inr db'" and ok: "accounts_ok db"
  shows "accounts_ok db'"
  using accounts_okD(5) [OF ok] assms(1)
  by (auto simp: delete_refresh_token_def db_answer_Inr refresh_ok_def distinct_map_filter intro!: set_refresh_ok [OF ok])

lemma create_token_row_ok:
  assumes "create_token_row env t db = Inr db'" and ok: "accounts_ok db"
  shows "accounts_ok db'"
  using accounts_okD(6) [OF ok] assms(1)
  by (auto simp: create_token_row_def db_answer_Inr tokens_ok_def user_ids_def list_ex_iff intro!: set_tokens_ok [OF ok] split: if_splits) blast+

lemma delete_token_row_ok:
  assumes "delete_token_row env tok tid db = Inr db'" and ok: "accounts_ok db"
  shows "accounts_ok db'"
  using accounts_okD(6) [OF ok] assms(1)
  by (auto simp: delete_token_row_def db_answer_Inr tokens_ok_def distinct_map_filter intro!: set_tokens_ok [OF ok])

lemma upsert_settings_ok:
  assumes "upsert_settings env tid s db = Inr db'" and ok: "accounts_ok db"
  shows "accounts_ok db'"
  using accounts_okD(7) [OF ok] assms(1)
  by (auto simp: upsert_settings_def db_answer_Inr update_keys intro!: set_settings_ok [OF ok] split: if_splits) force+

lemma catalog_more_create_package: "create_package_row env r db = Inr db' \<Longrightarrow> catalog.more db' = catalog.more db \<and> ct_tenants db' = ct_tenants db"
  by (auto elim!: create_package_row_Inr)

lemma catalog_more_create_preset: "create_preset_row env r db = Inr db' \<Longrightarrow> catalog.more db' = catalog.more db \<and> ct_tenants db' = ct_tenants db"
  by (auto elim!: create_preset_row_Inr)

lemma seed_packages_accounts: "accounts_ok db \<Longrightarrow> accounts_ok (seed_builtin_packages env t ids db)"
proof (rule set_catalog_ok [of db])
  let ?P = "\<lambda>d. catalog.more d = catalog.more db \<and> ct_tenants d = ct_tenants db"
  have "?P (seed_builtin_packages env t ids db)"
    unfolding seed_builtin_packages_def
    by (rule fold_invariant [where Q = "\<lambda>_. True" and P = ?P])
      (auto simp: or_same_def catalog_more_create_package split: sum.splits)
  then show "catalog.more (seed_builtin_packages env t ids db) = catalog.more db"
    "ct_tenants (seed_builtin_packages env t ids db) = ct_tenants db" by simp_all
qed (simp_all add: accounts_okD(1) seed_packages_ok)

lemma seed_presets_accounts: "accounts_ok db \<Longrightarrow> accounts_ok (seed_builtin_presets env codec t ids db)"
proof (rule set_catalog_ok [of db])
  let ?P = "\<lambda>d. catalog.more d = catalog.more db \<and> ct_tenants d = ct_tenants db"
  have "?P (seed_builtin_presets env codec t ids db)"
    unfolding seed_builtin_presets_def
    by (rule fold_invariant [where Q = "\<lambda>_. True" and P = ?P])
      (auto simp: or_same_def catalog_more_create_preset split: sum.splits)
  then show "catalog.more (seed_builtin_presets env codec t ids db) = catalog.more db"
    "ct_tenants (seed_builtin_presets env codec t ids db) = ct_tenants db" by simp_all
qed (simp_all add: accounts_okD(1) seed_presets_ok)

lemma or_same_accounts: "(\<And>db'. x = Inr db' \<Longrightarrow> accounts_ok db') \<Longrightarrow> accounts_ok db \<Longrightarrow> accounts_ok (or_same x db)"
  by (simp add: or_same_def split: sum.splits)

lemmas account_rows_ok = create_user_row_ok update_password_ok delete_user_row_ok create_tenant_row_ok delete_tenant_row_ok
  add_member_row_ok update_member_role_ok remove_member_row_ok create_refresh_token_ok delete_refresh_token_ok
  create_token_row_ok delete_token_row_ok upsert_settings_ok

lemma login_ok: "accounts_ok db \<Longrightarrow> accounts_ok (snd (login env cr fr body db))"
  by (auto simp: login_def dest: account_rows_ok split: option.splits sum.splits prod.splits)

lemma refresh_rotate_ok: "accounts_ok db \<Longrightarrow> accounts_ok (snd (refresh_rotate env cr fr rt db))"
  by (auto simp: refresh_rotate_def Let_def intro!: or_same_accounts dest: account_rows_ok split: option.splits sum.splits)

lemma session_ok:
  assumes "accounts_ok db"
  shows "accounts_ok (snd (refresh env cr fr cookie db))" "accounts_ok (snd (logout env cr cookie db))"
    "accounts_ok (snd (change_password env cr c cb db))"
  using assms by (auto simp: refresh_def logout_def change_password_def refresh_rotate_ok intro!: or_same_accounts
      dest: account_rows_ok split: option.splits sum.splits)

lemma create_tenant_admin_ok: "accounts_ok db \<Longrightarrow> accounts_ok (snd (create_tenant_admin env sc tc fr body db))"
  by (auto simp: create_tenant_admin_def Let_def intro!: seed_presets_accounts seed_packages_accounts or_same_accounts
      dest: account_rows_ok split: option.splits sum.splits)

lemmas handler_defs = add_member_def update_member_def remove_member_def create_api_token_def revoke_api_token_def
  delete_tenant_admin_def create_user_admin_def delete_user_admin_def reset_password_admin_def update_settings_def

lemma account_step_ok: "accounts_ok db \<Longrightarrow> accounts_ok (snd (account_step s rq db))"
  by (cases rq) (auto simp: handler_defs login_ok session_ok create_tenant_admin_ok dest: account_rows_ok
      split: option.splits sum.splits prod.splits)

lemma account_run_ok: "accounts_ok db \<Longrightarrow> accounts_ok (account_run rqs db)"
  unfolding account_run_def
  by (rule fold_invariant [where Q = "\<lambda>_. True"]) (auto intro: account_step_ok)

section \<open>Issued tokens are typed\<close>

definition jwt_sound :: "crypto \<Rightarrow> bool" where
  "jwt_sound cr \<longleftrightarrow> (\<forall>j tok. cr_sign cr j = Some tok \<longrightarrow> cr_verify cr tok = Some j)"

lemma jwt_roundtrip: "jwt_sound cr \<Longrightarrow> jwt_issue cr now c ttl = Some tok \<Longrightarrow> t < now + ttl \<Longrightarrow> jwt_parse cr t tok = Some c"
  by (simp add: jwt_sound_def jwt_issue_def jwt_parse_def)

lemma jwt_expired: "jwt_sound cr \<Longrightarrow> jwt_issue cr now c ttl = Some tok \<Longrightarrow> now + ttl \<le> t \<Longrightarrow> jwt_parse cr t tok = None"
  by (simp add: jwt_sound_def jwt_issue_def jwt_parse_def)

text \<open>The tenant and role of claims: none, those of a membership, or owner of any tenant for root.\<close>

definition role_typed :: "accounts \<Rightarrow> claims \<Rightarrow> bool" where
  "role_typed db c \<longleftrightarrow> cl_tenant c = [] \<and> cl_role c = [] \<or>
     (\<exists>m \<in> set (ac_members db). mb_tenant m = cl_tenant c \<and> mb_user m = cl_user c \<and> mb_role m = cl_role c) \<or>
     cl_root c \<and> cl_role c = ''owner'' \<and> cl_tenant c \<in> set (tenant_ids db)"

definition user_typed :: "accounts \<Rightarrow> claims \<Rightarrow> bool" where
  "user_typed db c \<longleftrightarrow> (\<exists>u \<in> set (ac_users db). us_id u = cl_user c \<and> us_name u = cl_name c \<and> us_root u = cl_root c)"

lemma user_tenants_members:
  "user_tenants env uid db = Inr ts \<Longrightarrow> (m, name) \<in> set ts \<Longrightarrow> m \<in> set (ac_members db) \<and> mb_user m = uid"
  by (auto simp: user_tenants_def db_answer_Inr)

lemma user_claims_simps [simp]:
  "cl_user (user_claims u ts) = us_id u" "cl_name (user_claims u ts) = us_name u" "cl_root (user_claims u ts) = us_root u"
  by (auto simp: user_claims_def Let_def split: list.splits)

lemma user_claims_cases:
  "cl_tenant (user_claims u ts) = [] \<and> cl_role (user_claims u ts) = [] \<or>
     (\<exists>m name. ts = [(m, name)] \<and> cl_tenant (user_claims u ts) = mb_tenant m \<and> cl_role (user_claims u ts) = mb_role m)"
  by (auto simp: user_claims_def Let_def split: list.splits)

lemma user_claims_typed:
  assumes "u \<in> set (ac_users db)" and "user_tenants env (us_id u) db = Inr ts \<or> ts = []"
  shows "role_typed db (user_claims u ts)" "user_typed db (user_claims u ts)"
proof -
  show "role_typed db (user_claims u ts)"
    using user_claims_cases [of u ts] user_tenants_members [of env "us_id u" db ts] assms(2)
    by (auto simp: role_typed_def)
  show "user_typed db (user_claims u ts)" using assms(1) by (auto simp: user_typed_def)
qed

lemma login_issues:
  assumes "login env cr fr body db = (Reply code (fs, ck), db')" and "map_of fs ''access_token'' = Some tok"
  shows "\<exists>c. jwt_issue cr (de_now env) c access_ttl = Some tok \<and> role_typed db c \<and> user_typed db c"
proof -
  obtain u ts where "u \<in> set (ac_users db)" "user_tenants env (us_id u) db = Inr ts"
    "jwt_issue cr (de_now env) (user_claims u ts) access_ttl = Some tok"
    using assms by (auto simp: login_def get_user_by_name_def db_answer_Inr dest!: one_Inr
        split: option.splits prod.splits sum.splits if_splits)
  then show ?thesis using user_claims_typed by blast
qed

lemma delete_refresh_token_keeps:
  "or_same (delete_refresh_token env rid db) db = db\<lparr>ac_refresh := ac_refresh (or_same (delete_refresh_token env rid db) db)\<rparr>"
  by (simp add: delete_refresh_token_def db_answer_def or_same_def)

lemma typed_refresh [simp]:
  "role_typed (db\<lparr>ac_refresh := rs\<rparr>) c = role_typed db c" "user_typed (db\<lparr>ac_refresh := rs\<rparr>) c = user_typed db c"
  by (simp_all add: role_typed_def user_typed_def tenant_ids_def)

lemma refresh_issues:
  assumes "refresh env cr fr cookie db = (Reply code (fs, ck), db')" and "map_of fs ''access_token'' = Some tok"
  shows "\<exists>c. jwt_issue cr (de_now env) c access_ttl = Some tok \<and> role_typed db c \<and> user_typed db c"
proof -
  obtain rt where rt: "refresh_rotate env cr fr rt db = (Reply code (fs, ck), db')"
    using assms(1) by (auto simp: refresh_def split: option.splits sum.splits)
  obtain rs where rs: "or_same (delete_refresh_token env (rf_id rt) db) db = db\<lparr>ac_refresh := rs\<rparr>"
    using delete_refresh_token_keeps by blast
  let ?db = "db\<lparr>ac_refresh := rs\<rparr>"
  obtain u where u: "get_user env (rf_user rt) ?db = Inr u" using rt by (auto simp: refresh_rotate_def rs Let_def split: sum.splits)
  define ts where "ts = (case user_tenants env (us_id u) ?db of Inl _ \<Rightarrow> [] | Inr ts \<Rightarrow> ts)"
  have "jwt_issue cr (de_now env) (user_claims u ts) access_ttl = Some tok"
    using rt assms(2) by (auto simp: refresh_rotate_def rs u Let_def ts_def split: option.splits)
  moreover have "u \<in> set (ac_users ?db)" using u by (auto simp: get_user_def db_answer_Inr dest!: one_Inr)
  moreover have "user_tenants env (us_id u) ?db = Inr ts \<or> ts = []" by (simp add: ts_def split: sum.splits)
  ultimately show ?thesis using user_claims_typed [of u ?db env ts] by auto
qed

lemma select_tenant_issues:
  assumes "select_tenant env cr claims body db = Reply code (fs, ck)" and "map_of fs ''access_token'' = Some tok"
  shows "\<exists>c0 c. claims = Some c0 \<and> jwt_issue cr (de_now env) c access_ttl = Some tok \<and> role_typed db c \<and>
    cl_tenant c \<noteq> [] \<and> cl_user c = cl_user c0 \<and> cl_root c = cl_root c0"
proof -
  obtain c0 tid where c: "claims = Some c0" "body = Some tid" "tid \<noteq> []"
    using assms(1) by (auto simp: select_tenant_def split: option.splits if_splits)
  show ?thesis
  proof (cases "cl_root c0")
    case True
    then have "jwt_issue cr (de_now env) (c0\<lparr>cl_tenant := tid, cl_role := ''owner''\<rparr>) access_ttl = Some tok \<and> tid \<in> set (tenant_ids db)"
      using assms c by (auto simp: select_tenant_def get_tenant_def db_answer_Inr tenant_ids_def dest!: one_Inr
          split: option.splits sum.splits)
    then show ?thesis using True c by (intro exI [of _ c0] exI [of _ "c0\<lparr>cl_tenant := tid, cl_role := ''owner''\<rparr>"])
        (simp add: role_typed_def)
  next
    case False
    then obtain m where "get_member env tid (cl_user c0) db = Inr m"
      "jwt_issue cr (de_now env) (c0\<lparr>cl_tenant := tid, cl_role := mb_role m\<rparr>) access_ttl = Some tok"
      using assms c by (auto simp: select_tenant_def split: option.splits sum.splits)
    then show ?thesis using False c
      by (intro exI [of _ c0] exI [of _ "c0\<lparr>cl_tenant := tid, cl_role := mb_role m\<rparr>"])
        (auto simp: role_typed_def get_member_def db_answer_Inr dest!: one_Inr)
  qed
qed

lemma other_requests:
  assumes "account_step s rq db = (Reply code (fs, ck), db')"
  shows "case rq of Login _ \<Rightarrow> True | Refresh _ \<Rightarrow> True | Select_tenant _ _ \<Rightarrow> True | _ \<Rightarrow> map_of fs ''access_token'' = None"
proof (cases rq)
  case (Create_tenant body)
  then show ?thesis using assms by (auto simp: create_tenant_admin_def Let_def split: option.splits sum.splits if_splits)
next
  case (Create_token c body)
  then show ?thesis using assms by (auto simp: create_api_token_def split: option.splits sum.splits if_splits prod.splits)
next
  case (Create_user body)
  then show ?thesis using assms by (auto simp: create_user_admin_def split: option.splits sum.splits if_splits prod.splits)
next
  case (Change_password c body)
  then show ?thesis using assms by (auto simp: change_password_def split: option.splits sum.splits if_splits prod.splits)
next
  case (Add_member c body)
  then show ?thesis using assms by (auto simp: add_member_def status_only_def split: option.splits sum.splits if_splits prod.splits)
next
  case (Update_member c uid body)
  then show ?thesis using assms by (auto simp: update_member_def status_only_def split: option.splits sum.splits if_splits)
next
  case (Reset_password uid body)
  then show ?thesis using assms by (auto simp: reset_password_admin_def status_only_def split: option.splits sum.splits if_splits)
qed (use assms in \<open>auto simp: logout_def remove_member_def revoke_api_token_def delete_tenant_admin_def
  delete_user_admin_def update_settings_def status_only_def split: sum.splits\<close>)

text \<open>
  C26. In every state of the accounts, whatever the database answers: an access token that a login, a refresh or the
  choice of a tenant returns parses, for the next fifteen minutes, to claims whose tenant and role are those of a row
  of the members (or none, or owner of an existing tenant for root); after a login or a refresh they are also those of
  a row of the users, root flag included, and the choice of a tenant keeps user and root flag of the claims it was
  asked with. No other request returns an access token.
\<close>

theorem issued_claims_typed:
  assumes "jwt_sound (sr_crypto s)"
    and "account_step s rq db = (Reply code (fs, ck), db')" and "map_of fs ''access_token'' = Some tok"
    and "t < de_now (sr_env s) + access_ttl"
  shows "\<exists>c. jwt_parse (sr_crypto s) t tok = Some c \<and> role_typed db c \<and>
    (case rq of
       Select_tenant c0 body \<Rightarrow> (\<exists>c1. c0 = Some c1 \<and> cl_user c = cl_user c1 \<and> cl_root c = cl_root c1) \<and> cl_tenant c \<noteq> []
     | Login body \<Rightarrow> user_typed db c
     | Refresh cookie \<Rightarrow> user_typed db c
     | _ \<Rightarrow> False)"
proof -
  consider (L) body where "rq = Login body" | (R) cookie where "rq = Refresh cookie" | (S) c0 body where "rq = Select_tenant c0 body"
    using other_requests [OF assms(2)] assms(3) by (cases rq) auto
  then show ?thesis
  proof cases
    case L
    then obtain c where "jwt_issue (sr_crypto s) (de_now (sr_env s)) c access_ttl = Some tok" "role_typed db c" "user_typed db c"
      using login_issues [OF _ assms(3)] assms(2) by simp blast
    then show ?thesis using jwt_roundtrip [OF assms(1) _ assms(4)] L by auto
  next
    case R
    then obtain c where "jwt_issue (sr_crypto s) (de_now (sr_env s)) c access_ttl = Some tok" "role_typed db c" "user_typed db c"
      using refresh_issues [OF _ assms(3)] assms(2) by simp blast
    then show ?thesis using jwt_roundtrip [OF assms(1) _ assms(4)] R by auto
  next
    case S
    then have "select_tenant (sr_env s) (sr_crypto s) c0 body db = Reply code (fs, ck)" using assms(2) by auto
    then obtain c1 c where "c0 = Some c1" "jwt_issue (sr_crypto s) (de_now (sr_env s)) c access_ttl = Some tok" "role_typed db c"
      "cl_tenant c \<noteq> []" "cl_user c = cl_user c1" "cl_root c = cl_root c1"
      using select_tenant_issues [OF _ assms(3)] by blast
    then show ?thesis using jwt_roundtrip [OF assms(1) _ assms(4)] S by auto
  qed
qed

definition demo_crypto :: crypto where
  "demo_crypto = \<lparr>cr_check = (=), cr_hash = Some, cr_sha = rev,
     cr_sign = (\<lambda>j. if j = \<lparr>jc_claims = \<lparr>cl_user = ''u1'', cl_name = ''ann'', cl_tenant = ''t1'', cl_role = ''owner'', cl_root = False\<rparr>,
         jc_subject = ''u1'', jc_issued = 100, jc_expires = 1000\<rparr> then Some ''jwt'' else None),
     cr_verify = (\<lambda>t. if t = ''jwt'' then Some \<lparr>jc_claims = \<lparr>cl_user = ''u1'', cl_name = ''ann'', cl_tenant = ''t1'', cl_role = ''owner'', cl_root = False\<rparr>,
         jc_subject = ''u1'', jc_issued = 100, jc_expires = 1000\<rparr> else None)\<rparr>"

definition demo_accounts :: accounts where
  "demo_accounts = \<lparr>ct_tenants = [\<lparr>tn_id = ''t1'', tn_name = ''acme'', tn_account = 1, tn_created = 0\<rparr>], ct_packages = [], ct_presets = [],
     ac_users = [\<lparr>us_id = ''u1'', us_name = ''ann'', us_hash = ''pw'', us_root = False, us_created = 0\<rparr>],
     ac_members = [\<lparr>mb_tenant = ''t1'', mb_user = ''u1'', mb_role = ''owner'', mb_created = 0\<rparr>],
     ac_refresh = [], ac_tokens = [], ac_settings = [], ac_refs = []\<rparr>"

definition demo_surroundings :: surroundings where
  "demo_surroundings = \<lparr>sr_env = \<lparr>de_up = (\<lambda>_. True), de_show = (\<lambda>_. []), de_rank = (\<lambda>_. 0), de_now = 100\<rparr>,
     sr_crypto = demo_crypto, sr_settings = \<lparr>sc_marshal = (\<lambda>_. []), sc_parse = (\<lambda>_. None)\<rparr>,
     sr_topology = \<lparr>tc_marshal = (\<lambda>_. []), tc_postgres = Inl, tc_mysql = Inl, tc_picodata = Inl, tc_ydb = Inl\<rparr>,
     sr_fresh = \<lparr>fr_id = ''r1'', fr_hex = ''abc'', fr_account = 2, fr_package_ids = [], fr_preset_ids = []\<rparr>\<rparr>"

lemma demo_crypto_sound: "jwt_sound demo_crypto"
  by (simp add: jwt_sound_def demo_crypto_def)

lemma demo_login: "\<exists>db. account_step demo_surroundings (Login (Some (''ann'', ''pw''))) demo_accounts =
    (Reply 200 ([(''access_token'', ''jwt'')], Some (''abc'', refresh_ttl)), db)"
  by (simp add: demo_surroundings_def demo_accounts_def demo_crypto_def login_def get_user_by_name_def db_answer_def query_one_def
      user_tenants_def user_claims_def jwt_issue_def access_ttl_def create_refresh_token_def new_refresh_def)

theorem issued_claims_typed_witness:
  "\<exists>c. jwt_parse demo_crypto 500 ''jwt'' = Some c \<and> role_typed demo_accounts c \<and> user_typed demo_accounts c"
proof -
  obtain db where l: "account_step demo_surroundings (Login (Some (''ann'', ''pw''))) demo_accounts =
    (Reply 200 ([(''access_token'', ''jwt'')], Some (''abc'', refresh_ttl)), db)" using demo_login by blast
  have s: "jwt_sound (sr_crypto demo_surroundings)" by (simp add: demo_surroundings_def demo_crypto_sound)
  show ?thesis
    using issued_claims_typed [OF s l, of "''jwt''" 500] by (auto simp: demo_surroundings_def access_ttl_def)
qed

section \<open>Refresh tokens are spent once\<close>

definition spent :: "string \<Rightarrow> accounts \<Rightarrow> bool" where
  "spent h db \<longleftrightarrow> h \<notin> rf_hash ` set (ac_refresh db)"

lemma spent_rows:
  "create_user_row env u db = Inr db' \<Longrightarrow> spent h db \<Longrightarrow> spent h db'"
  "update_password env hash uid db = Inr db' \<Longrightarrow> spent h db \<Longrightarrow> spent h db'"
  "create_tenant_row env t db = Inr db' \<Longrightarrow> spent h db \<Longrightarrow> spent h db'"
  "delete_tenant_row env tid db = Inr db' \<Longrightarrow> spent h db \<Longrightarrow> spent h db'"
  "add_member_row env m db = Inr db' \<Longrightarrow> spent h db \<Longrightarrow> spent h db'"
  "update_member_role env role tid uid db = Inr db' \<Longrightarrow> spent h db \<Longrightarrow> spent h db'"
  "remove_member_row env tid uid db = Inr db' \<Longrightarrow> spent h db \<Longrightarrow> spent h db'"
  "create_token_row env tok db = Inr db' \<Longrightarrow> spent h db \<Longrightarrow> spent h db'"
  "delete_token_row env i tid db = Inr db' \<Longrightarrow> spent h db \<Longrightarrow> spent h db'"
  "upsert_settings env tid st db = Inr db' \<Longrightarrow> spent h db \<Longrightarrow> spent h db'"
  by (auto simp: create_user_row_def update_password_def create_tenant_row_def delete_tenant_row_def add_member_row_def
      update_member_role_def remove_member_row_def create_token_row_def delete_token_row_def upsert_settings_def
      db_answer_Inr spent_def Let_def split: if_splits)

lemma delete_user_row_spent: "delete_user_row env uid db = Inr db' \<Longrightarrow> spent h db \<Longrightarrow> spent h db'"
  by (auto simp: delete_user_row_def db_answer_Inr spent_def split: if_splits)

lemma create_refresh_token_spent:
  "create_refresh_token env r db = Inr db' \<Longrightarrow> rf_hash r \<noteq> h \<Longrightarrow> spent h db \<Longrightarrow> spent h db'"
  by (auto simp: create_refresh_token_def db_answer_Inr spent_def split: if_splits)

lemma delete_refresh_token_spent: "delete_refresh_token env i db = Inr db' \<Longrightarrow> spent h db \<Longrightarrow> spent h db'"
  by (auto simp: delete_refresh_token_def db_answer_Inr spent_def)

lemma seed_more:
  "catalog.more (seed_builtin_packages env t ids db) = catalog.more db"
  "catalog.more (seed_builtin_presets env codec t ids db) = catalog.more db"
  unfolding seed_builtin_packages_def seed_builtin_presets_def
  by (rule fold_invariant [where Q = "\<lambda>_. True" and P = "\<lambda>d. catalog.more d = catalog.more db"];
      auto simp: or_same_def catalog_more_create_package catalog_more_create_preset split: sum.splits)+

lemma spent_more: "catalog.more db' = catalog.more db \<Longrightarrow> spent h db' = spent h db"
  by (cases db; cases db') (simp add: spent_def)

lemma seed_spent [simp]:
  "spent h (seed_builtin_packages env t ids db) = spent h db"
  "spent h (seed_builtin_presets env codec t ids db) = spent h db"
  using spent_more seed_more by blast+

lemma or_same_spent: "(\<And>db'. x = Inr db' \<Longrightarrow> spent h db') \<Longrightarrow> spent h db \<Longrightarrow> spent h (or_same x db)"
  by (simp add: or_same_def split: sum.splits)

lemma delete_spent: "spent h db \<Longrightarrow> spent h (or_same (delete_refresh_token env i db) db)"
  by (auto intro: or_same_spent delete_refresh_token_spent)

lemma new_refresh_hash [simp]: "rf_hash (new_refresh env cr fr u) = cr_sha cr (fr_hex fr)"
  by (simp add: new_refresh_def)

lemma refresh_rotate_spent:
  assumes "cr_sha cr (fr_hex fr) \<noteq> h" and "spent h (or_same (delete_refresh_token env (rf_id rt) db) db)"
  shows "spent h (snd (refresh_rotate env cr fr rt db))"
  using assms by (auto simp: refresh_rotate_def Let_def intro!: or_same_spent dest: create_refresh_token_spent
      split: option.splits sum.splits)

lemma account_step_spent:
  assumes h: "cr_sha (sr_crypto s) (fr_hex (sr_fresh s)) \<noteq> h" and "spent h db"
  shows "spent h (snd (account_step s rq db))"
proof (cases rq)
  case (Login body)
  then show ?thesis using assms
    by (auto simp: login_def split: option.splits sum.splits prod.splits dest: create_refresh_token_spent)
next
  case (Refresh cookie)
  then show ?thesis using assms
    by (auto simp: refresh_def intro!: refresh_rotate_spent delete_spent split: option.splits sum.splits)
next
  case (Logout cookie)
  then show ?thesis using assms
    by (auto simp: logout_def intro!: delete_spent split: option.splits sum.splits)
next
  case (Create_tenant body)
  then show ?thesis using assms
    by (auto simp: create_tenant_admin_def Let_def intro!: or_same_spent dest: spent_rows split: option.splits sum.splits)
next
  case (Delete_user uid)
  then show ?thesis using assms by (auto simp: delete_user_admin_def dest: delete_user_row_spent split: sum.splits)
qed (use assms in \<open>auto simp: change_password_def handler_defs dest: spent_rows split: option.splits sum.splits prod.splits\<close>)

lemma account_run_spent:
  assumes "\<forall>(s, rq) \<in> set rqs. cr_sha (sr_crypto s) (fr_hex (sr_fresh s)) \<noteq> h" and "spent h db"
  shows "spent h (account_run rqs db)"
  using assms unfolding account_run_def
  by (induction rqs arbitrary: db) (auto intro: account_step_spent)

lemma spent_refused:
  assumes "spent (cr_sha (sr_crypto s) v) db"
  shows "fst (account_step s (Refresh (Some v)) db) = Fail 401 ''invalid refresh token''"
proof -
  have "False" if "get_refresh_token (sr_env s) (cr_sha (sr_crypto s) v) db = Inr rt" for rt
  proof -
    have "rt \<in> set (ac_refresh db)" "rf_hash rt = cr_sha (sr_crypto s) v"
      using that by (auto simp: get_refresh_token_def db_answer_Inr dest!: one_Inr)
    then show False using assms unfolding spent_def by (metis imageI)
  qed
  then show ?thesis by (auto simp: refresh_def split: sum.splits)
qed

text \<open>
  C14. A refresh token works once: when a refresh has succeeded in a well-formed state, and its deletion of the token
  reached the database, then after whatever requests to the accounts a refresh with the same cookie is refused, unless
  one of them drew a token with the same hash.
\<close>

theorem refresh_once:
  assumes "accounts_ok db" and "account_step s (Refresh (Some v)) db = (Reply code body, db1)"
    and "de_up (sr_env s) ''DeleteRefreshToken''"
    and "cr_sha (sr_crypto s) (fr_hex (sr_fresh s)) \<noteq> cr_sha (sr_crypto s) v"
    and "\<forall>(s', rq) \<in> set rqs. cr_sha (sr_crypto s') (fr_hex (sr_fresh s')) \<noteq> cr_sha (sr_crypto s) v"
    and "cr_sha (sr_crypto s2) v = cr_sha (sr_crypto s) v"
  shows "fst (account_step s2 (Refresh (Some v)) (account_run rqs db1)) = Fail 401 ''invalid refresh token''"
proof -
  let ?h = "cr_sha (sr_crypto s) v"
  obtain rt where rt: "get_refresh_token (sr_env s) ?h db = Inr rt"
    and r: "refresh_rotate (sr_env s) (sr_crypto s) (sr_fresh s) rt db = (Reply code body, db1)"
    using assms(2) by (auto simp: refresh_def split: sum.splits)
  have m: "rt \<in> set (ac_refresh db)" "rf_hash rt = ?h" using rt by (auto simp: get_refresh_token_def db_answer_Inr dest!: one_Inr)
  have i: "inj_on rf_hash (set (ac_refresh db))" using accounts_okD(5) [OF assms(1)] by (simp add: refresh_ok_def distinct_map)
  have "x = rt" if "x \<in> set (ac_refresh db)" "rf_hash x = ?h" for x using that m i by (simp add: inj_on_def)
  then have "spent ?h (or_same (delete_refresh_token (sr_env s) (rf_id rt) db) db)"
    using assms(3) by (auto simp: spent_def or_same_def delete_refresh_token_def db_answer_def)
  then have "spent ?h db1" using refresh_rotate_spent [OF assms(4)] r by (metis snd_conv)
  then have "spent ?h (account_run rqs db1)" using account_run_spent assms(5) by blast
  then show ?thesis using spent_refused [of s2 v] assms(6) by simp
qed

definition demo_session :: accounts where
  "demo_session = demo_accounts\<lparr>ac_refresh := [\<lparr>rf_id = ''r0'', rf_user = ''u1'', rf_hash = ''321'', rf_expires = 1000, rf_created = 0\<rparr>]\<rparr>"

lemma demo_session_ok: "accounts_ok demo_session"
  by (simp add: accounts_ok_def demo_session_def demo_accounts_def catalog_ok_def users_ok_def tenants_ok_def members_ok_def
      refresh_ok_def tokens_ok_def unique_rows_def tenant_ids_def user_ids_def member_roles_def)

lemma demo_refresh: "account_step demo_surroundings (Refresh (Some ''123'')) demo_session =
    (Reply 200 ([(''access_token'', ''jwt'')], Some (''abc'', refresh_ttl)), demo_accounts\<lparr>ac_refresh :=
       [\<lparr>rf_id = ''r1'', rf_user = ''u1'', rf_hash = ''cba'', rf_expires = 604900, rf_created = 100\<rparr>]\<rparr>)"
  by (simp add: demo_surroundings_def demo_session_def demo_accounts_def demo_crypto_def refresh_def refresh_rotate_def
      get_refresh_token_def delete_refresh_token_def or_same_def get_user_def db_answer_def query_one_def user_tenants_def user_claims_def
      jwt_issue_def access_ttl_def create_refresh_token_def new_refresh_def refresh_ttl_def)

theorem refresh_once_witness:
  "\<exists>db. snd (account_step demo_surroundings (Refresh (Some ''123'')) demo_session) = db \<and>
     fst (account_step demo_surroundings (Refresh (Some ''123'')) db) = Fail 401 ''invalid refresh token''"
  using refresh_once [OF demo_session_ok demo_refresh, of "[]" demo_surroundings] demo_refresh
  by (auto simp: demo_surroundings_def demo_crypto_def account_run_def)

section \<open>What tokens outlive\<close>

text \<open>Nothing looks a root user up again: the choice of a tenant renews the claims of a user that was deleted.\<close>

lemma select_tenant_after_deletion:
  assumes "delete_user_row env uid db = Inr db'" and "cl_user c = uid" and "cl_root c"
    and "de_up env ''GetTenant''" and "tid \<in> set (tenant_ids db')" and "tid \<noteq> []"
    and "cr_sign cr \<lparr>jc_claims = c\<lparr>cl_tenant := tid, cl_role := ''owner''\<rparr>, jc_subject = uid, jc_issued = de_now env,
      jc_expires = de_now env + access_ttl\<rparr> = Some tok"
  shows "select_tenant env cr (Some c) (Some tid) db' = Reply 200 ([(''access_token'', tok)], None)"
proof -
  have "get_tenant env tid db' = Inl e \<Longrightarrow> False" for e
    using assms(4,5) by (auto simp: get_tenant_def db_answer_def query_one_def tenant_ids_def find_None_iff split: option.splits)
  then show ?thesis using assms by (auto simp: select_tenant_def jwt_issue_def split: sum.splits)
qed

text \<open>A new password leaves the refresh tokens of the user as they are.\<close>

lemma password_keeps_sessions:
  "update_password env h uid db = Inr db' \<Longrightarrow> ac_refresh db' = ac_refresh db"
  by (auto simp: update_password_def db_answer_Inr)

text \<open>
  Two refreshes that both find the token before either rotates it both succeed, with a new token each.
\<close>

lemma refresh_race:
  assumes "get_refresh_token env (cr_sha cr v) db = Inr rt"
    and "refresh_rotate env cr fr1 rt db = (Reply c1 b1, db1)" and "get_user env (rf_user rt) db1 = Inr u"
    and "\<And>c. jwt_issue cr (de_now env) c access_ttl \<noteq> None"
  shows "refresh env cr fr1 (Some v) db = (Reply c1 b1, db1) \<and>
    (\<exists>b2 db2. refresh_rotate env cr fr2 rt db1 = (Reply 200 b2, db2))"
proof -
  have u: "get_user env uid (or_same (delete_refresh_token env i db) db) = get_user env uid db" for uid i db
    by (simp add: get_user_def or_same_def delete_refresh_token_def db_answer_def)
  then show ?thesis using assms
    by (auto simp: refresh_def refresh_rotate_def Let_def split: option.splits sum.splits)
qed

section \<open>API tokens stay below owners\<close>

text \<open>
  With the tokens of a well-formed state, the claims of an API token never reach a handler of owners or of root,
  nor the settings.
\<close>

lemma api_token_below_owner:
  assumes "accounts_ok db" and "ae_tokens env = Some (ac_tokens db)" and "chi_match lookup"
    and "serve env lookup rq = Handled h (Some c)"
    and "ae_jwt env (trim_prefix (credential_of rq) ''Bearer '') = None"
  shows "h \<notin> handlers (owner_routes @ admin_routes)"
proof
  assume "h \<in> handlers (owner_routes @ admin_routes)"
  moreover have "handlers (as @ bs) = handlers as \<union> handlers bs" for as bs by (auto simp: handlers_def)
  ultimately have h: "h \<in> handlers owner_routes \<or> h \<in> handlers admin_routes" by blast
  obtain r where r: "r \<in> set router" "rt_handler r = h" "guards_check (rt_guards r) (Some c) = None"
    "authenticate env rq = Pass (Some c)"
    using serve_handled [OF assms(4,3)] .
  then obtain t where "t \<in> set (ac_tokens db)" "c = api_claims t"
    using authenticate_pass [OF r(4)] assms(2,5) by (auto simp: authentic_def Let_def)
  then have "cl_role c \<in> set token_roles" "\<not> cl_root c"
    using accounts_okD(6) [OF assms(1)] by (auto simp: tokens_ok_def api_claims_def)
  then have p: "\<not> cl_root c" "parse_role (cl_role c) < Owner" by (auto simp: token_roles_def parse_role_def)
  have un: "handlers (as @ bs) = handlers as \<union> handlers bs" for as bs by (auto simp: handlers_def)
  have "rt_guards r = [Tenant_required, Require_role ''owner''] \<or> rt_guards r = [Require_root]"
    using h guards_of_route [OF r(1)] handler_groups unfolding r(2) un by auto
  then show False using p r(3) by (auto simp: guards_passed split: option.splits)
qed

section \<open>The start of the server\<close>

text \<open>
  \<open>seedUsersAndTenants\<close> is one transaction: it inserts what is missing, or changes nothing. The admin's
  password is the environment variable's, or \<open>admin\<close>.
\<close>

definition ensure_admin :: "db_env \<Rightarrow> crypto \<Rightarrow> string \<Rightarrow> string \<Rightarrow> accounts \<Rightarrow> db_error + accounts" where
  "ensure_admin env cr password uid db =
     (if list_ex (\<lambda>u. us_name u = ''admin'') (ac_users db) then Inr db
      else (case cr_hash cr (str_or password ''admin'') of
              None \<Rightarrow> Inl Unavailable
            | Some h \<Rightarrow> create_user_row env \<lparr>us_id = uid, us_name = ''admin'', us_hash = h, us_root = True, us_created = 0\<rparr> db))"

definition ensure_default_tenant :: "db_env \<Rightarrow> settings_codec \<Rightarrow> fresh \<Rightarrow> accounts \<Rightarrow> db_error + accounts" where
  "ensure_default_tenant env sc fr db =
     (if list_ex (\<lambda>t. tn_name t = ''default'') (ct_tenants db) then Inr db
      else (case create_tenant_row env \<lparr>tn_id = fr_id fr, tn_name = ''default'', tn_account = fr_account fr, tn_created = 0\<rparr> db of
              Inl e \<Rightarrow> Inl e
            | Inr db \<Rightarrow> if fr_id fr \<in> set (map fst (ac_settings db)) then Inr db
                else upsert_settings env (fr_id fr) (sc_marshal sc default_server_settings) db))"

definition ensure_owner :: "db_env \<Rightarrow> accounts \<Rightarrow> db_error + accounts" where
  "ensure_owner env db =
     (let admin = (case find (\<lambda>u. us_name u = ''admin'') (ac_users db) of None \<Rightarrow> [] | Some u \<Rightarrow> us_id u);
          tenant = (case find (\<lambda>t. tn_name t = ''default'') (ct_tenants db) of None \<Rightarrow> [] | Some t \<Rightarrow> tn_id t)
      in if list_ex (\<lambda>m. mb_tenant m = tenant \<and> mb_user m = admin) (ac_members db) then Inr db
         else add_member_row env \<lparr>mb_tenant = tenant, mb_user = admin, mb_role = ''owner'', mb_created = 0\<rparr> db)"

definition seed_users_and_tenants ::
  "db_env \<Rightarrow> settings_codec \<Rightarrow> crypto \<Rightarrow> string \<Rightarrow> string \<Rightarrow> fresh \<Rightarrow> accounts \<Rightarrow> db_error + accounts" where
  "seed_users_and_tenants env sc cr password uid fr db = db_answer env ''Seed''
     (if ac_users db \<noteq> [] \<and> ct_tenants db \<noteq> [] then Inr db
      else (case ensure_admin env cr password uid db of
              Inl e \<Rightarrow> Inl e
            | Inr db1 \<Rightarrow>
                (case ensure_default_tenant env sc fr db1 of
                   Inl e \<Rightarrow> Inl e
                 | Inr db2 \<Rightarrow> ensure_owner env db2)))"

text \<open>Tenants without packages, or presets, get the built-in ones; \<open>ids\<close> are those drawn for each tenant.\<close>

definition seed_tenant :: "db_env \<Rightarrow> topology_codec \<Rightarrow> string \<times> string list \<times> string list \<Rightarrow> accounts \<Rightarrow> accounts" where
  "seed_tenant env tc x db =
     (let (t, pids, qids) = x;
          db = (if de_up env ''CountPackages'' \<and> list_ex (\<lambda>r. pw_tenant r = t) (ct_packages db) then db
                else seed_builtin_packages env t pids db)
      in if de_up env ''CountPresets'' \<and> list_ex (\<lambda>r. pt_tenant r = t) (ct_presets db) then db
         else seed_builtin_presets env tc t qids db)"

definition seed_builtins :: "db_env \<Rightarrow> topology_codec \<Rightarrow> (string list \<times> string list) list \<Rightarrow> accounts \<Rightarrow> db_error + accounts" where
  "seed_builtins env tc ids db = db_answer env ''ListTenantIds'' (Inr (fold (seed_tenant env tc) (zip (tenant_ids db) ids) db))"

text \<open>
  The two parts commit one after the other: what \<open>seedUsersAndTenants\<close> has committed stays when \<open>seedBuiltins\<close> fails.
\<close>

definition seed ::
  "db_env \<Rightarrow> settings_codec \<Rightarrow> topology_codec \<Rightarrow> crypto \<Rightarrow> string \<Rightarrow> string \<Rightarrow> fresh \<Rightarrow> (string list \<times> string list) list \<Rightarrow>
     accounts \<Rightarrow> db_error option \<times> accounts" where
  "seed env sc tc cr password uid fr ids db =
     (case seed_users_and_tenants env sc cr password uid fr db of
        Inl e \<Rightarrow> (Some e, db)
      | Inr db \<Rightarrow>
          (case seed_builtins env tc ids db of
             Inl e \<Rightarrow> (Some e, db)
           | Inr db \<Rightarrow> (None, db)))"

definition empty_accounts :: accounts where
  "empty_accounts = \<lparr>ct_tenants = [], ct_packages = [], ct_presets = [], ac_users = [], ac_members = [], ac_refresh = [],
     ac_tokens = [], ac_settings = [], ac_refs = []\<rparr>"

lemma empty_accounts_ok: "accounts_ok empty_accounts"
  by (simp add: accounts_ok_def empty_accounts_def catalog_ok_def users_ok_def tenants_ok_def members_ok_def
      refresh_ok_def tokens_ok_def unique_rows_def)

lemma ensure_ok:
  "ensure_admin env cr password uid db = Inr db' \<Longrightarrow> accounts_ok db \<Longrightarrow> accounts_ok db'"
  "ensure_default_tenant env sc fr db = Inr db' \<Longrightarrow> accounts_ok db \<Longrightarrow> accounts_ok db'"
  "ensure_owner env db = Inr db' \<Longrightarrow> accounts_ok db \<Longrightarrow> accounts_ok db'"
  by (auto simp: ensure_admin_def ensure_default_tenant_def ensure_owner_def Let_def dest: account_rows_ok
      split: if_splits option.splits sum.splits)

lemma seed_users_and_tenants_ok:
  "seed_users_and_tenants env sc cr password uid fr db = Inr db' \<Longrightarrow> accounts_ok db \<Longrightarrow> accounts_ok db'"
  by (auto simp: seed_users_and_tenants_def db_answer_Inr dest: ensure_ok split: if_splits sum.splits)

lemma seed_builtins_ok: "seed_builtins env tc ids db = Inr db' \<Longrightarrow> accounts_ok db \<Longrightarrow> accounts_ok db'"
proof -
  have "accounts_ok d \<Longrightarrow> accounts_ok (seed_tenant env tc x d)" for x d
    by (auto simp: seed_tenant_def Let_def intro!: seed_packages_accounts seed_presets_accounts split: prod.splits)
  then have "accounts_ok d \<Longrightarrow> accounts_ok (fold (seed_tenant env tc) xs d)" for xs d by (induction xs arbitrary: d) auto
  then show "seed_builtins env tc ids db = Inr db' \<Longrightarrow> accounts_ok db \<Longrightarrow> ?thesis"
    by (auto simp: seed_builtins_def db_answer_Inr)
qed

lemma seed_ok: "accounts_ok db \<Longrightarrow> accounts_ok (snd (seed env sc tc cr password uid fr ids db))"
  by (auto simp: seed_def dest: seed_users_and_tenants_ok seed_builtins_ok split: sum.splits)

lemma committed_part_stays:
  "seed_users_and_tenants env sc cr password uid fr db = Inr db' \<Longrightarrow> \<not> de_up env ''ListTenantIds'' \<Longrightarrow>
   snd (seed env sc tc cr password uid fr ids db) = db'"
  by (simp add: seed_def seed_builtins_def db_answer_def)

text \<open>
  The events of a database: starts of a server, requests to the accounts, and requests of a tenant to its catalog.
\<close>

datatype db_event =
    Started db_env settings_codec topology_codec crypto string string fresh "(string list \<times> string list) list"
  | Account surroundings account_request
  | Catalog db_env topology_codec string catalog_request

fun db_step :: "db_event \<Rightarrow> accounts \<Rightarrow> accounts" where
  "db_step (Started env sc tc cr password uid fr ids) db = snd (seed env sc tc cr password uid fr ids db)"
| "db_step (Account s rq) db = snd (account_step s rq db)"
| "db_step (Catalog env codec t rq) db = snd (catalog_step env codec t rq db)"

lemma catalog_step_accounts:
  assumes "accounts_ok db"
  shows "accounts_ok (snd (catalog_step env codec t rq db))"
proof (rule set_catalog_ok [OF assms])
  let ?P = "\<lambda>d. catalog.more d = catalog.more db \<and> ct_tenants d = ct_tenants db"
  have "?P (snd (catalog_step env codec t rq db))"
    by (cases rq) (auto simp: create_package_def update_package_def delete_package_def clone_package_def
      upload_package_deb_def create_preset_def update_preset_def delete_preset_def clone_preset_def
      catalog_more_create_package catalog_more_create_preset update_package_row_def update_preset_row_def
      delete_package_row_def delete_preset_row_def update_deb_data_def db_answer_Inr
      Let_def split: option.splits sum.splits if_splits prod.splits)
  then show "catalog.more (snd (catalog_step env codec t rq db)) = catalog.more db"
    "ct_tenants (snd (catalog_step env codec t rq db)) = ct_tenants db" by simp_all
qed (simp add: accounts_okD(1) [OF assms] catalog_step_ok)

text \<open>
  C7. From an empty database, after any starts and any requests to accounts, packages and presets, with whatever
  failures of the database in between: ids and names are unique, every membership, token, package, preset and setting
  belongs to an existing tenant and user, roles are among the three known ones, and API tokens are never owners.
\<close>

theorem accounts_invariant: "accounts_ok (fold db_step es empty_accounts)"
proof -
  have step: "accounts_ok d \<Longrightarrow> accounts_ok (db_step e d)" for e d
    by (cases e) (auto simp: account_step_ok catalog_step_accounts seed_ok)
  have "accounts_ok d \<Longrightarrow> accounts_ok (fold db_step es d)" for d by (induction es arbitrary: d) (auto intro: step)
  then show ?thesis using empty_accounts_ok by blast
qed

text \<open>
  When no tenant is left, the next start makes the user \<open>admin\<close> again if it was deleted, root and with the
  default password, although other users exist.
\<close>

lemma admin_comes_back:
  assumes "ac_users db \<noteq> []" and "ct_tenants db = []" and "\<not> list_ex (\<lambda>u. us_name u = ''admin'') (ac_users db)"
    and "seed_users_and_tenants env sc cr [] uid fr db = Inr db'"
  shows "\<exists>u \<in> set (ac_users db'). us_name u = ''admin'' \<and> us_root u \<and> Some (us_hash u) = cr_hash cr ''admin''"
proof -
  obtain db1 db2 where d: "ensure_admin env cr [] uid db = Inr db1" "ensure_default_tenant env sc fr db1 = Inr db2"
    "ensure_owner env db2 = Inr db'"
    using assms by (auto simp: seed_users_and_tenants_def db_answer_Inr split: sum.splits)
  have "ac_users db' = ac_users db2" using d(3)
    by (auto simp: ensure_owner_def add_member_row_def db_answer_Inr Let_def split: if_splits)
  moreover have "ac_users db2 = ac_users db1" using d(2)
    by (auto simp: ensure_default_tenant_def create_tenant_row_def upsert_settings_def db_answer_Inr split: if_splits sum.splits)
  ultimately show ?thesis using d(1) assms(3)
    by (auto simp: ensure_admin_def create_user_row_def db_answer_Inr str_or_def split: if_splits option.splits)
qed

end
