(* ===== verification/Metrics.thy ===== *)
theory Metrics
  imports Accounts
begin

text \<open>
  What is measured of a run: the queries of \<open>metrics/queries.go\<close>, their evaluation and summary
  (\<open>metrics/collector.go\<close>, \<open>infrastructure/victoria/client.go\<close>), the comparison of two runs
  (\<open>metrics/compare.go\<close>), and the handlers that use them (\<open>api/server.go\<close>, \<open>api/share_handlers.go\<close>).
  HTTP, the decoding of JSON and the parsing of numbers and times are arguments. A \<open>float64\<close> is a real number, and an
  operation on them is that on reals followed by \<open>rnd\<close>, the rounding to a \<open>float64\<close>, an argument too; sums that leave the
  range of \<open>float64\<close> are left out.
\<close>

section \<open>Queries\<close>

record metric_def =
  md_name :: string
  md_key :: string
  md_query :: string
  md_unit :: string

definition run_label :: string where "run_label = ''stroppy_run_id''"

definition run_filter :: "string \<Rightarrow> string" where
  "run_filter rid = (run_label @ ''=\"'' @ rid @ ''\"'')"

definition metric_prefix :: "string \<Rightarrow> string" where
  "metric_prefix rid = replace_all rid ''-'' ''_''"

definition mk_metric :: "string \<times> string \<times> string \<times> string \<Rightarrow> metric_def" where
  "mk_metric x = (case x of (name, key, query, unit) \<Rightarrow> \<lparr>md_name = name, md_key = key, md_query = query, md_unit = unit\<rparr>)"

definition postgres_metrics :: "metric_def list" where
  "postgres_metrics = map mk_metric
     [(''DB Transactions Per Second'', ''db_tps'',
       ''sum(rate(pg_stat_database_xact_commit{%s}[5m]) + rate(pg_stat_database_xact_rollback{%s}[5m]))'', ''txn/s''),
      (''DB Rows Fetched Per Second'', ''db_qps'', ''sum(rate(pg_stat_database_tup_fetched{%s}[5m]))'', ''rows/s''),
      (''DB Active Connections'', ''db_connections'', ''sum(pg_stat_activity_count{%s})'', []),
      (''DB Replication Lag'', ''db_repl_lag'', ''max(pg_replication_lag_seconds{%s})'', ''s'')]"

definition mysql_metrics :: "metric_def list" where
  "mysql_metrics = map mk_metric
     [(''DB Transactions Per Second'', ''db_tps'',
       ''sum(rate(mysql_global_status_commands_total{command=~\"commit|rollback\",%s}[5m]))'', ''txn/s''),
      (''DB Queries Per Second'', ''db_qps'', ''sum(rate(mysql_global_status_queries{%s}[5m]))'', ''q/s''),
      (''DB Active Connections'', ''db_connections'', ''sum(mysql_global_status_threads_connected{%s})'', []),
      (''DB Replication Lag'', ''db_repl_lag'', ''max(mysql_slave_status_seconds_behind_master{%s})'', ''s'')]"

definition ydb_metrics :: "metric_def list" where
  "ydb_metrics = map mk_metric
     [(''DB gRPC Requests/s'', ''db_qps'', ''sum(rate(total{%s}[5m]))'', ''req/s''),
      (''DB gRPC Errors/s'', ''db_errors'', ''sum(rate(notOkRequest{%s}[5m]))'', ''err/s''),
      (''DB gRPC Inflight'', ''db_sessions'', ''sum(infly{%s})'', []),
      (''DB gRPC Latency p99'', ''db_latency_p99'',
       ''histogram_quantile(0.99, sum by (le) (rate(LatencyMs_bucket{%s}[5m])))'', ''ms''),
      (''DB Tablet Count'', ''db_tablets'', ''sum(ydb_tablets_count{%s})'', [])]"

definition picodata_metrics :: "metric_def list" where
  "picodata_metrics = map mk_metric
     [(''DB SQL Requests/s'', ''db_qps'', ''sum(rate(picodata_sql_requests_total{%s}[5m]))'', ''q/s''),
      (''DB SQL Errors/s'', ''db_errors'', ''sum(rate(picodata_sql_errors_total{%s}[5m]))'', ''err/s''),
      (''DB Raft Commit Index'', ''db_raft_commit'', ''max(picodata_raft_commit_index{%s})'', []),
      (''DB Tables Count'', ''db_tables'', ''max(picodata_storage_tables_count{%s})'', [])]"

definition system_metrics :: "metric_def list" where
  "system_metrics = map mk_metric
     [(''CPU Usage'', ''cpu_usage'', ''clamp_min(100 - (avg(rate(node_cpu_seconds_total{mode=\"idle\",%s}[5m])) * 100), 0)'', ''%''),
      (''Memory Usage'', ''memory_usage'',
       ''avg((1 - node_memory_MemAvailable_bytes{%s} / node_memory_MemTotal_bytes) * 100)'', ''%''),
      (''Disk IO Read'', ''disk_read'', ''sum(rate(node_disk_read_bytes_total{%s}[5m]))'', ''bytes/s''),
      (''Disk IO Write'', ''disk_write'', ''sum(rate(node_disk_written_bytes_total{%s}[5m]))'', ''bytes/s''),
      (''Network Received'', ''net_rx'', ''sum(rate(node_network_receive_bytes_total{%s}[5m]))'', ''bytes/s''),
      (''Network Transmitted'', ''net_tx'', ''sum(rate(node_network_transmit_bytes_total{%s}[5m]))'', ''bytes/s''),
      (''Stroppy Active VUs'', ''stroppy_vus'', ''sum(%p_vus)'', []),
      (''Stroppy Iterations/s'', ''stroppy_ops'', ''sum(rate(%p_iterations[30s]))'', ''iter/s''),
      (''Stroppy Iteration Duration p99'', ''stroppy_iter_p99'',
       ''histogram_quantile(0.99, sum by (le) (rate(%p_iteration_duration_bucket[30s])))'', ''ms''),
      (''Stroppy Query Rate'', ''stroppy_query_rate'', ''sum(rate(%p_run_query_count[30s]))'', ''q/s''),
      (''Stroppy Query Duration p99'', ''stroppy_latency_p99'',
       ''histogram_quantile(0.99, sum by (le) (rate(%p_run_query_duration_bucket[30s])))'', ''ms''),
      (''Stroppy Error Count'', ''stroppy_errors'', ''sum(%p_run_query_error_rate)'', [])]"

definition metrics_for_db :: "string \<Rightarrow> metric_def list" where
  "metrics_for_db kind =
     (if kind = ''mysql'' then mysql_metrics else if kind = ''picodata'' then picodata_metrics
      else if kind = ''ydb'' then ydb_metrics else postgres_metrics) @ system_metrics"

definition default_metrics :: "metric_def list" where
  "default_metrics = metrics_for_db ''postgres''"

definition render_query :: "metric_def \<Rightarrow> string \<Rightarrow> string" where
  "render_query d rid = replace_all (replace_all (md_query d) ''%s'' (run_filter rid)) ''%p'' (metric_prefix rid)"

section \<open>The client of the metrics store\<close>

text \<open>A sample's value is the JSON string of its second component, if it is one.\<close>

datatype sample_value = Sample_string string | Sample_other

record query_result =
  qr_status :: string
  qr_series :: "sample_value list list"

definition sample_text :: "sample_value \<Rightarrow> string" where
  "sample_text v = (case v of Sample_string s \<Rightarrow> s | Sample_other \<Rightarrow> [])"

record victoria =
  vc_base :: string
  vc_token :: string

text \<open>
  What HTTP does with a request (its URL and authorization): an error of the request, one of reading the body, or a
  status and a body; \<open>decode\<close> decodes a result.
\<close>

datatype http_result = Http_error string | Read_error string | Http_response nat string

definition do_query ::
  "(string \<Rightarrow> string \<Rightarrow> http_result) \<Rightarrow> (string \<Rightarrow> string + query_result) \<Rightarrow> victoria \<Rightarrow> string \<Rightarrow> string \<Rightarrow> string + query_result" where
  "do_query http decode c path params =
     (case http ((vc_base c @ path @ ''?'' @ params)) (if vc_token c \<noteq> [] then (''Bearer '' @
                     vc_token c) else []) of
        Http_error e \<Rightarrow> Inl ((''victoria: query: '' @ e))
      | Read_error e \<Rightarrow> Inl ((''victoria: read response: '' @ e))
      | Http_response code body \<Rightarrow>
          if code \<noteq> 200 then Inl ((''victoria: status '' @ itoa (int code) @ '': '' @ body))
          else (case decode body of
                  Inl e \<Rightarrow> Inl ((''victoria: decode: '' @ e))
                | Inr r \<Rightarrow> if qr_status r \<noteq> ''success'' then Inl ((''victoria: query failed: '' @
                     body)) else Inr r))"

text \<open>Encoded parameters are sorted by key; \<open>escape\<close> is the escaping of a query. A step is whole seconds.\<close>

definition step_text :: "int \<Rightarrow> string" where
  "step_text d = (if d < 60 then (itoa d @ ''s'') else (itoa (d div 60) @ ''m'' @ itoa (d mod 60) @
                     ''s''))"

definition range_params :: "(string \<Rightarrow> string) \<Rightarrow> string \<Rightarrow> int \<Rightarrow> int \<Rightarrow> int \<Rightarrow> string" where
  "range_params escape query start stop step =
     (''end='' @ itoa stop @ ''&query='' @ escape query @ ''&start='' @ itoa start @ ''&step='' @
      step_text step)"

definition query_range ::
  "(string \<Rightarrow> string \<Rightarrow> http_result) \<Rightarrow> (string \<Rightarrow> string + query_result) \<Rightarrow> (string \<Rightarrow> string) \<Rightarrow> victoria \<Rightarrow> string \<Rightarrow> int \<Rightarrow> int \<Rightarrow> int \<Rightarrow>
     string + query_result" where
  "query_range http decode escape c query start stop step =
     do_query http decode c ''/api/v1/query_range'' (range_params escape query start stop step)"

section \<open>Summaries\<close>

record time_range =
  tr_start :: int
  tr_end :: int

record metric_summary =
  sm_key :: string
  sm_name :: string
  sm_unit :: string
  sm_avg :: real
  sm_min :: real
  sm_max :: real
  sm_last :: real

record run_metrics =
  rm_run :: string
  rm_range :: time_range
  rm_metrics :: "metric_summary list"

text \<open>The samples that parse to finite numbers; \<open>parse\<close> gives \<open>None\<close> for errors, infinities and NaN.\<close>

definition sample_values :: "(string \<Rightarrow> real option) \<Rightarrow> query_result \<Rightarrow> real list" where
  "sample_values parse qr = List.map_filter (\<lambda>v. parse (sample_text v)) (concat (qr_series qr))"

text \<open>The middle of the sorted samples, 5 percent (rounded down) being cut at either end.\<close>

definition trimmed :: "real list \<Rightarrow> real list" where
  "trimmed vals =
     (let lo = length vals * 5 div 100; hi = length vals - lo;
          (lo, hi) = (if hi \<le> lo then (0, length vals) else (lo, hi));
          t = take (hi - lo) (drop lo vals)
      in if t = [] then vals else t)"

definition mean :: "(real \<Rightarrow> real) \<Rightarrow> real list \<Rightarrow> real" where
  "mean rnd vals = rnd (fold (\<lambda>v sum. rnd (sum + v)) vals 0 / real (length vals))"

definition summarize :: "(real \<Rightarrow> real) \<Rightarrow> (string \<Rightarrow> real option) \<Rightarrow> metric_def \<Rightarrow> query_result \<Rightarrow> metric_summary" where
  "summarize rnd parse d qr =
     (let s = \<lparr>sm_key = md_key d, sm_name = md_name d, sm_unit = md_unit d, sm_avg = 0, sm_min = 0, sm_max = 0, sm_last = 0\<rparr>;
          vals = sort (sample_values parse qr)
      in if vals = [] then s
         else (let t = trimmed vals in
           s\<lparr>sm_min := hd t, sm_max := last t, sm_avg := mean rnd t, sm_last := last vals\<rparr>))"

definition infer_step :: "time_range \<Rightarrow> int" where
  "infer_step tr =
     (let d = tr_end tr - tr_start tr in
      if d \<le> 15 * 60 then 5 else if d \<le> 3600 then 15 else if d \<le> 6 * 3600 then 60 else 300)"

fun collect_defs :: "(metric_def \<Rightarrow> string + query_result) \<Rightarrow> (real \<Rightarrow> real) \<Rightarrow> (string \<Rightarrow> real option) \<Rightarrow> metric_def list \<Rightarrow> string + metric_summary list" where
  "collect_defs query rnd parse [] = Inr []"
| "collect_defs query rnd parse (d # ds) =
     (case query d of
        Inl e \<Rightarrow> Inl ((''metrics: query \"'' @ md_key d @ ''\": '' @ e))
      | Inr qr \<Rightarrow> map_sum id (\<lambda>ms. summarize rnd parse d qr # ms) (collect_defs query rnd parse ds))"

text \<open>The dependencies of a collector.\<close>

record metrics_env =
  me_http :: "string \<Rightarrow> string \<Rightarrow> http_result"
  me_decode :: "string \<Rightarrow> string + query_result"
  me_escape :: "string \<Rightarrow> string"
  me_parse :: "string \<Rightarrow> real option"
  me_round :: "real \<Rightarrow> real"

definition collect ::
  "metrics_env \<Rightarrow> victoria \<Rightarrow> metric_def list \<Rightarrow> string \<Rightarrow> time_range \<Rightarrow> string + run_metrics" where
  "collect me c defs rid tr =
     map_sum id (\<lambda>ms. \<lparr>rm_run = rid, rm_range = tr, rm_metrics = ms\<rparr>)
       (collect_defs (\<lambda>d. query_range (me_http me) (me_decode me) (me_escape me) c (render_query d rid)
          (tr_start tr) (tr_end tr) (infer_step tr)) (me_round me) (me_parse me) defs)"

section \<open>Comparison\<close>

record metric_diff =
  df_key :: string
  df_name :: string
  df_unit :: string
  df_avg_a :: real
  df_avg_b :: real
  df_max_a :: real
  df_max_b :: real
  df_avg_pct :: real
  df_max_pct :: real
  df_verdict :: string

record comparison =
  cp_run_a :: string
  cp_run_b :: string
  cp_start :: int
  cp_end :: int
  cp_metrics :: "metric_diff list"
  cp_better :: nat
  cp_worse :: nat
  cp_same :: nat

definition index_by_key :: "run_metrics \<Rightarrow> string \<Rightarrow> metric_summary option" where
  "index_by_key rm = fold (\<lambda>m f. f(sm_key m \<mapsto> m)) (rm_metrics rm) Map.empty"

definition zero_summary :: metric_summary where
  "zero_summary = \<lparr>sm_key = [], sm_name = [], sm_unit = [], sm_avg = 0, sm_min = 0, sm_max = 0, sm_last = 0\<rparr>"

definition higher_is_better :: "string list" where "higher_is_better = [''db_qps'', ''stroppy_ops'']"

definition lower_is_better :: "string list" where
  "lower_is_better = [''db_latency_p99'', ''db_repl_lag'', ''cpu_usage'', ''memory_usage'', ''stroppy_latency_p99'', ''stroppy_errors'']"

definition verdict_of :: "string \<Rightarrow> real \<Rightarrow> real \<Rightarrow> string" where
  "verdict_of key diff threshold =
     (if \<bar>diff\<bar> < threshold then ''same''
      else (let increased = diff > 0 in
        if key \<in> set higher_is_better then (if increased then ''better'' else ''worse'')
        else if key \<in> set lower_is_better then (if increased then ''worse'' else ''better'')
        else if increased then ''worse'' else ''better''))"

definition pct_diff :: "(real \<Rightarrow> real) \<Rightarrow> real \<Rightarrow> real \<Rightarrow> real" where
  "pct_diff rnd a b = (if a = 0 then (if b = 0 then 0 else 100) else rnd (rnd (rnd (b - a) / a) * 100))"

definition add_key :: "string \<Rightarrow> string list \<Rightarrow> string list" where
  "add_key k ks = (if k \<in> set ks then ks else ks @ [k])"

definition union_keys :: "run_metrics \<Rightarrow> run_metrics \<Rightarrow> string list" where
  "union_keys a b = fold add_key (map sm_key (rm_metrics b)) (fold add_key (map sm_key (rm_metrics a)) [])"

definition diff_of :: "(real \<Rightarrow> real) \<Rightarrow> run_metrics \<Rightarrow> run_metrics \<Rightarrow> real \<Rightarrow> string \<Rightarrow> metric_diff" where
  "diff_of rnd a b threshold key =
     (let ma = (case index_by_key a key of None \<Rightarrow> zero_summary | Some m \<Rightarrow> m);
          mb = (case index_by_key b key of None \<Rightarrow> zero_summary | Some m \<Rightarrow> m);
          pct = pct_diff rnd (sm_avg ma) (sm_avg mb)
      in \<lparr>df_key = key, df_name = (if sm_name ma = [] then sm_name mb else sm_name ma),
           df_unit = (if sm_name ma = [] then sm_unit mb else sm_unit ma), df_avg_a = sm_avg ma, df_avg_b = sm_avg mb,
           df_max_a = sm_max ma, df_max_b = sm_max mb, df_avg_pct = pct, df_max_pct = pct_diff rnd (sm_max ma) (sm_max mb),
           df_verdict = verdict_of key pct threshold\<rparr>)"

definition count_verdict :: "metric_diff \<Rightarrow> comparison \<Rightarrow> comparison" where
  "count_verdict d c =
     (let c = c\<lparr>cp_metrics := cp_metrics c @ [d]\<rparr> in
      if df_verdict d = ''better'' then c\<lparr>cp_better := Suc (cp_better c)\<rparr>
      else if df_verdict d = ''worse'' then c\<lparr>cp_worse := Suc (cp_worse c)\<rparr>
      else c\<lparr>cp_same := Suc (cp_same c)\<rparr>)"

definition compare_metrics :: "(real \<Rightarrow> real) \<Rightarrow> run_metrics \<Rightarrow> run_metrics \<Rightarrow> real \<Rightarrow> comparison" where
  "compare_metrics rnd a b threshold =
     fold count_verdict (map (diff_of rnd a b threshold) (union_keys a b))
       \<lparr>cp_run_a = rm_run a, cp_run_b = rm_run b, cp_start = 0, cp_end = 0, cp_metrics = [], cp_better = 0,
        cp_worse = 0, cp_same = 0\<rparr>"

section \<open>Handlers\<close>

text \<open>
  The monitoring of a server; times are Unix seconds, \<open>mo_parse_time\<close> parses RFC 3339 and \<open>mo_kind\<close> reads the
  database kind of a stored configuration. The collector is that of a tenant's account.
\<close>

record monitoring =
  mo_url :: string
  mo_token :: string
  mo_metrics :: metrics_env
  mo_parse_time :: "string \<Rightarrow> int option"
  mo_kind :: "string \<Rightarrow> string option"
  mo_now :: int

definition tenant_account :: "db_env \<Rightarrow> string \<Rightarrow> accounts \<Rightarrow> string + int" where
  "tenant_account env tid db =
     (case get_tenant env tid db of Inl e \<Rightarrow> Inl (''get tenant: '' @ de_show env e) | Inr t \<Rightarrow> Inr (tn_account t))"

definition metrics_collector ::
  "monitoring \<Rightarrow> int \<Rightarrow> string \<Rightarrow> string \<Rightarrow> time_range \<Rightarrow> string + run_metrics" where
  "metrics_collector mo account kind rid tr =
     collect (mo_metrics mo) \<lparr>vc_base = (mo_url mo @ ''/select/'' @ itoa account @
                     ''/prometheus''), vc_token = mo_token mo\<rparr>
       (metrics_for_db kind) rid tr"

definition parse_time_range :: "monitoring \<Rightarrow> string \<Rightarrow> string \<Rightarrow> time_range option" where
  "parse_time_range mo start stop =
     (if start = [] \<or> stop = [] then None
      else (case mo_parse_time mo start of
              None \<Rightarrow> None
            | Some a \<Rightarrow> (case mo_parse_time mo stop of None \<Rightarrow> None | Some b \<Rightarrow> Some \<lparr>tr_start = a, tr_end = b\<rparr>)))"

text \<open>A load whose error is dropped.\<close>

definition snapshot_or_none :: "string \<Rightarrow> string \<Rightarrow> run_row list \<Rightarrow> run_snapshot option" where
  "snapshot_or_none tid rid rows = (case load_run tid rid rows of Inl _ \<Rightarrow> None | Inr s \<Rightarrow> s)"

definition padded :: "int \<Rightarrow> int \<Rightarrow> time_range" where
  "padded a b = \<lparr>tr_start = a - 30, tr_end = b + 30\<rparr>"

definition run_metrics_handler ::
  "monitoring \<Rightarrow> db_env \<Rightarrow> string \<Rightarrow> string \<Rightarrow> string \<Rightarrow> string \<Rightarrow> accounts \<Rightarrow> run_row list \<Rightarrow> run_metrics reply" where
  "run_metrics_handler mo env tid rid start stop db rows =
     (if mo_url mo = [] then Fail 503 ''metrics not configured (no MONITORING_URL)''
      else (case tenant_account env tid db of
              Inl e \<Rightarrow> Fail 500 e
            | Inr account \<Rightarrow>
                (let snap = snapshot_or_none tid rid rows in
                 case (case parse_time_range mo start stop of
                         Some tr \<Rightarrow> Some tr
                       | None \<Rightarrow>
                           (case snap of
                              None \<Rightarrow> None
                            | Some s \<Rightarrow> if rs_started s = 0 then None
                                else Some (padded (rs_started s) (if rs_finished s = 0 then mo_now mo else rs_finished s)))) of
                   None \<Rightarrow> Fail 400 ''no time range provided and run has no timestamps''
                 | Some tr \<Rightarrow>
                     (case metrics_collector mo account (extract_db_kind (mo_kind mo) snap) rid tr of
                        Inl e \<Rightarrow> Fail 500 e | Inr m \<Rightarrow> Reply 200 m))))"

text \<open>The range of two runs: from the earlier start to the later end, where they have them.\<close>

definition joint_range :: "run_snapshot \<Rightarrow> run_snapshot \<Rightarrow> time_range option" where
  "joint_range a b =
     (let start = (if rs_started b \<noteq> 0 \<and> rs_started b < rs_started a then rs_started b else rs_started a);
          stop = (if rs_finished b \<noteq> 0 \<and> rs_finished b > rs_finished a then rs_finished b else rs_finished a)
      in if start = 0 \<or> stop = 0 then None else Some (padded start stop))"

record compare_request =
  cq_a :: string
  cq_b :: string
  cq_start :: string
  cq_end :: string
  cq_threshold :: string

definition compare_threshold :: "monitoring \<Rightarrow> string \<Rightarrow> real" where
  "compare_threshold mo t =
     (if t = [] then 5 else (case me_parse (mo_metrics mo) t of None \<Rightarrow> 5 | Some v \<Rightarrow> if v > 0 then v else 5))"

definition run_config_of :: "string \<Rightarrow> string \<Rightarrow> run_row list \<Rightarrow> string" where
  "run_config_of tid rid rows =
     (case Option.bind (snapshot_or_none tid rid rows) rs_state of None \<Rightarrow> [] | Some st \<Rightarrow> sv_run_config st)"

definition compare_runs ::
  "monitoring \<Rightarrow> db_env \<Rightarrow> string \<Rightarrow> compare_request \<Rightarrow> accounts \<Rightarrow> run_row list \<Rightarrow>
     (comparison \<times> string \<times> string) reply" where
  "compare_runs mo env tid rq db rows =
     (if mo_url mo = [] then Fail 503 ''metrics not configured (no MONITORING_URL)''
      else (case tenant_account env tid db of
              Inl e \<Rightarrow> Fail 500 e
            | Inr account \<Rightarrow>
                if cq_a rq = [] \<or> cq_b rq = [] then Fail 400 ''query params 'a' and 'b' (run IDs) are required''
                else (case (case parse_time_range mo (cq_start rq) (cq_end rq) of
                              Some tr \<Rightarrow> Inr tr
                            | None \<Rightarrow>
                                (case (snapshot_or_none tid (cq_a rq) rows, snapshot_or_none tid (cq_b rq) rows) of
                                   (Some a, Some b) \<Rightarrow>
                                     (case joint_range a b of
                                        None \<Rightarrow> Inl ''runs have no timestamps and no explicit time range provided''
                                      | Some tr \<Rightarrow> Inr tr)
                                 | _ \<Rightarrow> Inl ''runs not found and no explicit time range provided'')) of
                        Inl e \<Rightarrow> Fail 400 e
                      | Inr tr \<Rightarrow>
                          (let kind = extract_db_kind (mo_kind mo) (snapshot_or_none tid (cq_a rq) rows) in
                           case metrics_collector mo account kind (cq_a rq) tr of
                             Inl e \<Rightarrow> Fail 500 (''run A: '' @ e)
                           | Inr a \<Rightarrow>
                               (case metrics_collector mo account kind (cq_b rq) tr of
                                  Inl e \<Rightarrow> Fail 500 (''run B: '' @ e)
                                | Inr b \<Rightarrow>
                                    Reply 200 ((compare_metrics (me_round (mo_metrics mo)) a b (compare_threshold mo (cq_threshold rq)))
                                        \<lparr>cp_start := tr_start tr, cp_end := tr_end tr\<rparr>,
                                      run_config_of tid (cq_a rq) rows, run_config_of tid (cq_b rq) rows))))))"

subsection \<open>Shared runs\<close>

record shared_run =
  sh_token :: string
  sh_run :: string
  sh_tenant :: string
  sh_snapshot :: string
  sh_metrics :: string
  sh_by :: string
  sh_created :: int

text \<open>A shared run freezes the JSON of its snapshot and metrics; \<open>show\<close> and \<open>show_metrics\<close> marshal them.\<close>

definition create_shared_run :: "db_env \<Rightarrow> shared_run \<Rightarrow> shared_run list \<Rightarrow> db_error + shared_run list" where
  "create_shared_run env r rows = db_answer env ''CreateSharedRun''
     (if list_ex (\<lambda>x. sh_token x = sh_token r) rows then Inl Violation
      else Inr (rows @ [r\<lparr>sh_created := de_now env\<rparr>]))"

definition get_shared_run :: "db_env \<Rightarrow> string \<Rightarrow> shared_run list \<Rightarrow> (string \<times> string \<times> string \<times> int) reply" where
  "get_shared_run env tok rows =
     (case db_answer env ''GetSharedRun'' (query_one (\<lambda>r. sh_token r = tok) rows) of
        Inl _ \<Rightarrow> Fail 404 ''share not found''
      | Inr r \<Rightarrow> Reply 200 (sh_run r, sh_snapshot r, sh_metrics r, sh_created r))"

definition share_range :: "int \<Rightarrow> run_snapshot \<Rightarrow> time_range" where
  "share_range now s =
     (let start = rs_started s - 30; stop = rs_finished s + 30
      in \<lparr>tr_start = start, tr_end = (if stop < start then now else stop)\<rparr>)"

definition create_share_link ::
  "monitoring \<Rightarrow> db_env \<Rightarrow> (run_snapshot \<Rightarrow> string) \<Rightarrow> (run_metrics option \<Rightarrow> string) \<Rightarrow> claims \<Rightarrow> string \<Rightarrow> string \<Rightarrow>
     accounts \<Rightarrow> run_row list \<Rightarrow> shared_run list \<Rightarrow> fields reply \<times> shared_run list" where
  "create_share_link mo env show_snap show_metrics c tok rid db rows shared =
     (case load_run (cl_tenant c) rid rows of
        Inr (Some snap) \<Rightarrow>
          (let account = (case tenant_account env (cl_tenant c) db of Inl _ \<Rightarrow> 0 | Inr a \<Rightarrow> a);
               m = (case metrics_collector mo account (extract_db_kind (mo_kind mo) (Some snap)) rid (share_range (mo_now mo) snap) of
                      Inl _ \<Rightarrow> None | Inr m \<Rightarrow> Some m)
           in case create_shared_run env \<lparr>sh_token = tok, sh_run = rid, sh_tenant = cl_tenant c, sh_snapshot = show_snap snap,
                     sh_metrics = show_metrics m, sh_by = cl_user c, sh_created = 0\<rparr> shared of
                Inl e \<Rightarrow> (Fail 500 (''failed to create share: '' @ de_show env e), shared)
              | Inr shared' \<Rightarrow> (Reply 200 [(''token'', tok), (''url'', (''/share/'' @
                     tok))], shared'))
      | _ \<Rightarrow> (Fail 404 ''run not found'', shared))"

subsection \<open>Log queries\<close>

record log_request =
  lq_start :: string
  lq_end :: string
  lq_limit :: string
  lq_search :: string
  lq_actions :: "string list"
  lq_dir :: string

definition quote_escape :: "string \<Rightarrow> string" where
  "quote_escape s = replace_all s ''\"'' ([CHR 0x5C] @ ''\"'')"

definition log_query :: "string \<Rightarrow> log_request \<Rightarrow> string" where
  "log_query rid rq =
     (let q = (''run_id:\"'' @ rid @ ''\"'');
          q = (if lq_search rq \<noteq> [] then q @ ('' _msg:\"'' @ quote_escape (lq_search rq) @
                     ''\"'') else q);
          parts = map (\<lambda>a. (''action:\"'' @ quote_escape a @ ''\"'')) (lq_actions rq);
          q = (case parts of [] \<Rightarrow> q | [p] \<Rightarrow> q @ ('' '' @ p) | _ \<Rightarrow> q @ '' ('' @ join '' OR '' parts @ '')'');
          q = q @ (if lq_dir rq = ''desc'' then '' | sort by (_time) desc'' else '' | sort by (_time)'')
      in if lq_limit rq \<noteq> [] then q @ ('' | limit '' @ lq_limit rq) else q)"

definition log_url :: "(string \<Rightarrow> string) \<Rightarrow> string \<Rightarrow> string \<Rightarrow> log_request \<Rightarrow> string" where
  "log_url escape base rid rq =
     (base @ ''/select/logsql/query?query='' @ escape (log_query rid rq)) @
     (if lq_start rq \<noteq> [] then (''&start='' @ escape (lq_start rq)) else []) @
     (if lq_end rq \<noteq> [] then (''&end='' @ escape (lq_end rq)) else [])"

text \<open>The request to the log store: its URL and headers; the answer is passed on.\<close>

definition run_logs ::
  "monitoring \<Rightarrow> db_env \<Rightarrow> string \<Rightarrow> string \<Rightarrow> log_request \<Rightarrow> accounts \<Rightarrow> (string \<times> fields) reply" where
  "run_logs mo env tid rid rq db =
     (if mo_url mo = [] then Fail 503 ''log storage not configured (no MONITORING_URL)''
      else (case tenant_account env tid db of
              Inl e \<Rightarrow> Fail 500 e
            | Inr account \<Rightarrow> Reply 200 (log_url (me_escape (mo_metrics mo)) (mo_url mo) rid rq,
                (if mo_token mo \<noteq> [] then [(''Authorization'', (''Bearer '' @ mo_token mo))] else []) @
                (if account > 0 then [(''AccountID'', itoa account)] else []))))"


section \<open>What a summary says\<close>

lemma trimmed_simp:
  "vals \<noteq> [] \<Longrightarrow> trimmed vals = take (length vals - 2 * (length vals * 5 div 100)) (drop (length vals * 5 div 100) vals)"
proof -
  assume "vals \<noteq> []"
  then have "length vals * 5 div 100 < length vals - length vals * 5 div 100" by (cases vals) auto
  then show ?thesis by (auto simp: trimmed_def Let_def numeral_2_eq_2)
qed

lemma trimmed_length: "length (trimmed vals) = length vals - 2 * (length vals * 5 div 100)"
proof (cases "vals = []")
  case True
  then show ?thesis by (simp add: trimmed_def)
next
  case False
  then show ?thesis by (simp add: trimmed_simp)
qed

lemma trimmed_nonempty: "vals \<noteq> [] \<Longrightarrow> trimmed vals \<noteq> []"
proof -
  assume "vals \<noteq> []"
  then have "0 < length vals" by simp
  then have "0 < length (trimmed vals)" unfolding trimmed_length by linarith
  then show ?thesis by auto
qed

lemma trimmed_sorted:
  assumes "sorted vals" and "vals \<noteq> []"
  shows "sorted (trimmed vals)" "set (trimmed vals) \<subseteq> set vals"
  using assms by (auto simp: trimmed_simp sorted_wrt_take sorted_wrt_drop dest: in_set_takeD in_set_dropD)

lemma sorted_hd_last: "sorted xs \<Longrightarrow> x \<in> set xs \<Longrightarrow> hd xs \<le> x \<and> x \<le> last xs" for xs :: "real list"
  by (induction xs) (auto split: if_splits)

text \<open>
  Minimum, maximum and \<open>Last\<close> never decrease in this order, and the first two are taken over a middle part of the sorted
  samples that holds at least nine tenths of them. The average need not lie between them, because sums are rounded.
\<close>

lemma summary_extremes:
  "sm_min (summarize rnd parse d qr) \<le> sm_max (summarize rnd parse d qr) \<and>
   sm_max (summarize rnd parse d qr) \<le> sm_last (summarize rnd parse d qr) \<and>
   9 * length (sample_values parse qr) \<le> 10 * length (trimmed (sort (sample_values parse qr)))"
proof -
  let ?v = "sort (sample_values parse qr)"
  have len: "9 * length (sample_values parse qr) \<le> 10 * length (trimmed ?v)" unfolding trimmed_length by simp
  show ?thesis
  proof (cases "?v = []")
    case True
    then show ?thesis using len by (simp add: summarize_def)
  next
    case False
    note t = trimmed_nonempty [OF False] trimmed_sorted [OF sorted_sort False]
    have "hd (trimmed ?v) \<le> last (trimmed ?v)" using sorted_hd_last [OF t(2), of "hd (trimmed ?v)"] t(1) by simp
    moreover have "last (trimmed ?v) \<le> last ?v" using t(1,3) sorted_hd_last [OF sorted_sort, of "last (trimmed ?v)"]
      by (metis last_in_set subsetD)
    ultimately show ?thesis using False len by (simp add: summarize_def Let_def)
  qed
qed

text \<open>\<open>Last\<close> is not the last sample but the greatest.\<close>

lemma last_is_greatest:
  assumes "v \<in> set (sample_values parse qr)"
  shows "v \<le> sm_last (summarize rnd parse d qr)"
proof -
  have v: "v \<in> set (sort (sample_values parse qr))" using assms by simp
  then have "sort (sample_values parse qr) \<noteq> []" by (metis list.distinct(1) list.set_cases)
  then show ?thesis using sorted_hd_last [OF sorted_sort v] by (simp add: summarize_def Let_def)
qed

section \<open>What a comparison says\<close>

lemma fold_add_key: "distinct ks \<Longrightarrow> distinct (fold add_key xs ks) \<and> set (fold add_key xs ks) = set ks \<union> set xs"
  by (induction xs arbitrary: ks) (auto simp: add_key_def)

lemma union_keys_spec:
  "distinct (union_keys a b) \<and> set (union_keys a b) = sm_key ` set (rm_metrics a) \<union> sm_key ` set (rm_metrics b)"
  using fold_add_key [of "[]" "map sm_key (rm_metrics a)"]
    fold_add_key [of "fold add_key (map sm_key (rm_metrics a)) []" "map sm_key (rm_metrics b)"]
  by (simp add: union_keys_def)

definition verdicts :: "string \<Rightarrow> metric_diff list \<Rightarrow> nat" where
  "verdicts v ds = length (filter (\<lambda>d. df_verdict d = v) ds)"

lemma verdict_values: "df_verdict (diff_of rnd a b t k) \<in> {''better'', ''worse'', ''same''}"
  by (simp add: diff_of_def verdict_of_def Let_def)

lemma verdicts_sum:
  "verdicts ''better'' (map (diff_of rnd a b t) ks) + verdicts ''worse'' (map (diff_of rnd a b t) ks) +
     verdicts ''same'' (map (diff_of rnd a b t) ks) = length ks"
proof (induction ks)
  case (Cons k ks)
  then show ?case using verdict_values [of rnd a b t k] by (auto simp: verdicts_def)
qed (simp add: verdicts_def)

lemma fold_count:
  "(\<And>d. d \<in> set ds \<Longrightarrow> df_verdict d \<in> {''better'', ''worse'', ''same''}) \<Longrightarrow>
   fold count_verdict ds c = c\<lparr>cp_metrics := cp_metrics c @ ds, cp_better := cp_better c + verdicts ''better'' ds,
     cp_worse := cp_worse c + verdicts ''worse'' ds, cp_same := cp_same c + verdicts ''same'' ds\<rparr>"
  by (induction ds arbitrary: c) (auto simp: count_verdict_def verdicts_def)

lemma compare_metrics_eq:
  "compare_metrics rnd a b t = \<lparr>cp_run_a = rm_run a, cp_run_b = rm_run b, cp_start = 0, cp_end = 0,
     cp_metrics = map (diff_of rnd a b t) (union_keys a b), cp_better = verdicts ''better'' (map (diff_of rnd a b t) (union_keys a b)),
     cp_worse = verdicts ''worse'' (map (diff_of rnd a b t) (union_keys a b)),
     cp_same = verdicts ''same'' (map (diff_of rnd a b t) (union_keys a b))\<rparr>"
proof -
  let ?ds = "map (diff_of rnd a b t) (union_keys a b)"
  have v: "df_verdict d \<in> {''better'', ''worse'', ''same''}" if d: "d \<in> set ?ds" for d
  proof -
    obtain k where "d = diff_of rnd a b t k" using d by auto
    then show ?thesis using verdict_values [of rnd a b t k] by simp
  qed
  show ?thesis unfolding compare_metrics_def by (subst fold_count [OF v]) simp_all
qed

text \<open>
  A comparison has exactly one entry for every key that either run has, in the order of the first run, and
  its three counts are the numbers of entries with these verdicts; they add up to the number of entries.
\<close>

theorem compare_counts:
  "cp_metrics (compare_metrics rnd a b t) = map (diff_of rnd a b t) (union_keys a b) \<and>
   distinct (map df_key (cp_metrics (compare_metrics rnd a b t))) \<and>
   set (map df_key (cp_metrics (compare_metrics rnd a b t))) = sm_key ` set (rm_metrics a) \<union> sm_key ` set (rm_metrics b) \<and>
   cp_better (compare_metrics rnd a b t) = verdicts ''better'' (cp_metrics (compare_metrics rnd a b t)) \<and>
   cp_worse (compare_metrics rnd a b t) = verdicts ''worse'' (cp_metrics (compare_metrics rnd a b t)) \<and>
   cp_better (compare_metrics rnd a b t) + cp_worse (compare_metrics rnd a b t) + cp_same (compare_metrics rnd a b t) =
     length (cp_metrics (compare_metrics rnd a b t))"
proof -
  have "map df_key (map (diff_of rnd a b t) (union_keys a b)) = union_keys a b" by (simp add: diff_of_def Let_def comp_def)
  then show ?thesis using union_keys_spec [of a b] verdicts_sum [of rnd a b t "union_keys a b"]
    by (simp add: compare_metrics_eq del: map_map)
qed

text \<open>A run compared with itself is the same throughout, for a positive threshold.\<close>

lemma compare_self:
  assumes "0 < t" and "rnd 0 = 0"
  shows "cp_better (compare_metrics rnd a a t) = 0 \<and> cp_worse (compare_metrics rnd a a t) = 0"
proof -
  have "df_verdict (diff_of rnd a a t k) = ''same''" for k
    using assms by (simp add: diff_of_def Let_def pct_diff_def verdict_of_def)
  then show ?thesis by (simp add: compare_metrics_eq verdicts_def)
qed

end
