(* ===== verification/PollClient.thy ===== *)
theory PollClient
  imports Tasks
begin

text \<open>
  The server's side of the command protocol (\<open>agent/client_poll.go\<close>): a queue of commands for each
  machine, the channels on which the reports come back, and the calls of \<open>Send\<close> that are under way.
  The operations that hold the lock are definitions on \<open>poll_client\<close>; \<open>poll_step\<close> interleaves the
  calls of \<open>Send\<close> with the polls and the reports of the agents, one step for each point where a
  goroutine may wait. Time and cancellation may strike at any such point. Queues have room for eight
  commands. The ids of commands are counted without wrap-around.
\<close>

section \<open>Operations under the lock\<close>

text \<open>\<open>pl_results\<close> holds the channel of each waiting call, \<open>Some None\<close> when it is empty.\<close>

record poll_client =
  pl_queues :: "string \<rightharpoonup> agent_command list"
  pl_results :: "string \<rightharpoonup> report option"
  pl_healthy :: "string \<rightharpoonup> bool"
  pl_seq :: nat

definition new_poll_client :: poll_client where
  "new_poll_client = \<lparr>pl_queues = Map.empty, pl_results = Map.empty, pl_healthy = Map.empty, pl_seq = 0\<rparr>"

definition command_id :: "string \<Rightarrow> nat \<Rightarrow> string" where
  "command_id mid k = (''cmd-'' @ mid @ ''-'' @ itoa (int k))"

definition with_command_id :: "string \<Rightarrow> agent_command \<Rightarrow> poll_client \<Rightarrow> agent_command \<times> poll_client" where
  "with_command_id mid cmd c =
     (if ac_id cmd = [] then (cmd\<lparr>ac_id := command_id mid (Suc (pl_seq c))\<rparr>, c\<lparr>pl_seq := Suc (pl_seq c)\<rparr>)
      else (cmd, c))"

definition mark_agent_ready :: "string \<Rightarrow> poll_client \<Rightarrow> poll_client" where
  "mark_agent_ready mid c =
     (if pl_healthy c mid = None then c\<lparr>pl_healthy := (pl_healthy c)(mid \<mapsto> False)\<rparr> else c)"

definition queue_of :: "string \<Rightarrow> poll_client \<Rightarrow> agent_command list" where
  "queue_of mid c = (case pl_queues c mid of None \<Rightarrow> [] | Some q \<Rightarrow> q)"

definition get_queue :: "string \<Rightarrow> poll_client \<Rightarrow> poll_client" where
  "get_queue mid c = c\<lparr>pl_queues := (pl_queues c)(mid \<mapsto> queue_of mid c)\<rparr>"

definition agent_seen :: "string \<Rightarrow> poll_client \<Rightarrow> poll_client" where
  "agent_seen mid c =
     (if pl_healthy c mid = None then c else c\<lparr>pl_healthy := (pl_healthy c)(mid \<mapsto> True)\<rparr>)"

definition enqueue :: "string \<Rightarrow> agent_command \<Rightarrow> poll_client \<Rightarrow> poll_client option" where
  "enqueue mid cmd c =
     (if length (queue_of mid c) < 8
      then Some (c\<lparr>pl_queues := (pl_queues c)(mid \<mapsto> queue_of mid c @ [cmd])\<rparr>) else None)"

definition poll_take :: "string \<Rightarrow> poll_client \<Rightarrow> (agent_command \<times> poll_client) option" where
  "poll_take mid c =
     (case queue_of mid c of
        [] \<Rightarrow> None
      | cmd # q \<Rightarrow> Some (cmd, c\<lparr>pl_queues := (pl_queues c)(mid \<mapsto> q)\<rparr>))"

definition register_result :: "string \<Rightarrow> poll_client \<Rightarrow> poll_client" where
  "register_result cid c = c\<lparr>pl_results := (pl_results c)(cid \<mapsto> None)\<rparr>"

definition delete_result :: "string \<Rightarrow> poll_client \<Rightarrow> poll_client" where
  "delete_result cid c = c\<lparr>pl_results := (pl_results c)(cid := None)\<rparr>"

text \<open>A report without a waiting call, or for a channel that is full, is dropped.\<close>

definition deliver_report :: "report \<Rightarrow> poll_client \<Rightarrow> poll_client" where
  "deliver_report r c =
     (if pl_results c (rp_command_id r) = Some None
      then c\<lparr>pl_results := (pl_results c)(rp_command_id r \<mapsto> Some r)\<rparr> else c)"

section \<open>Calls and agents interleaved\<close>

text \<open>
  Where a call of \<open>Send\<close> stands: waiting for the agent's first poll, about to enqueue, waiting for the
  report, or back with its result.
\<close>

datatype send_phase = Connecting | Connected | Enqueued | Returned "string option"

record send_call =
  sc_machine :: string
  sc_cmd :: agent_command
  sc_phase :: send_phase

definition no_agent_error :: "string \<Rightarrow> string" where
  "no_agent_error mid = (''agent '' @ mid @ '' did not connect: agent '' @ mid @
                     '' did not poll within 120s'')"

definition report_result :: "string \<Rightarrow> agent_command \<Rightarrow> report \<Rightarrow> string option" where
  "report_result mid cmd r =
     (if rp_status r = Report_failed then Some (''agent '' @ mid @ '': command '' @ ac_id cmd @
                     '' failed: '' @ rp_error r) else None)"

text \<open>
  The client with the calls, the polls that wait, and a record of what was enqueued, handed out and
  reported.
\<close>

record poll_world =
  pw_client :: poll_client
  pw_sends :: "send_call list"
  pw_polls :: "string list"
  pw_enqueued :: "(string \<times> agent_command) list"
  pw_taken :: "(string \<times> agent_command) list"
  pw_reports :: "report list"

definition poll_init :: poll_world where
  "poll_init = \<lparr>pw_client = new_poll_client, pw_sends = [], pw_polls = [], pw_enqueued = [], pw_taken = [],
     pw_reports = []\<rparr>"

datatype poll_event =
    Call string payload
  | Sees_agent nat
  | No_agent nat
  | Enqueues nat
  | Answered nat
  | Cancelled nat string
  | Poll_arrives string
  | Poll_takes string
  | Poll_times_out string
  | Report_arrives report
  | Registers string

definition set_phase :: "nat \<Rightarrow> send_phase \<Rightarrow> poll_world \<Rightarrow> poll_world" where
  "set_phase i p w = w\<lparr>pw_sends := (pw_sends w)[i := (pw_sends w ! i)\<lparr>sc_phase := p\<rparr>]\<rparr>"

abbreviation on_client :: "(poll_client \<Rightarrow> poll_client) \<Rightarrow> poll_world \<Rightarrow> poll_world" where
  "on_client f w \<equiv> w\<lparr>pw_client := f (pw_client w)\<rparr>"

definition call_at :: "poll_world \<Rightarrow> nat \<Rightarrow> send_phase \<Rightarrow> send_call \<Rightarrow> bool" where
  "call_at w i p s \<longleftrightarrow> i < length (pw_sends w) \<and> pw_sends w ! i = s \<and> sc_phase s = p"

inductive poll_step :: "poll_world \<Rightarrow> poll_event \<Rightarrow> poll_world \<Rightarrow> bool" where
  call: "with_command_id mid \<lparr>ac_id = [], ac_payload = p\<rparr> (pw_client w) = (cmd, c) \<Longrightarrow>
    poll_step w (Call mid p) (w\<lparr>pw_client := mark_agent_ready mid c,
      pw_sends := pw_sends w @ [\<lparr>sc_machine = mid, sc_cmd = cmd, sc_phase = Connecting\<rparr>]\<rparr>)"
| sees_agent: "call_at w i Connecting s \<Longrightarrow> pl_healthy (pw_client w) (sc_machine s) = Some True \<Longrightarrow>
    poll_step w (Sees_agent i) (on_client (register_result (ac_id (sc_cmd s))) (set_phase i Connected w))"
| no_agent: "call_at w i Connecting s \<Longrightarrow>
    poll_step w (No_agent i) (set_phase i (Returned (Some (no_agent_error (sc_machine s)))) w)"
| enqueues: "call_at w i Connected s \<Longrightarrow> enqueue (sc_machine s) (sc_cmd s) (pw_client w) = Some c \<Longrightarrow>
    poll_step w (Enqueues i) (set_phase i Enqueued (w\<lparr>pw_client := c,
      pw_enqueued := pw_enqueued w @ [(sc_machine s, sc_cmd s)]\<rparr>))"
| answered: "call_at w i Enqueued s \<Longrightarrow> pl_results (pw_client w) (ac_id (sc_cmd s)) = Some (Some r) \<Longrightarrow>
    poll_step w (Answered i) (on_client (delete_result (ac_id (sc_cmd s)))
      (set_phase i (Returned (report_result (sc_machine s) (sc_cmd s) r)) w))"
| cancelled: "call_at w i p s \<Longrightarrow> \<forall>r. p \<noteq> Returned r \<Longrightarrow>
    poll_step w (Cancelled i e) (on_client (delete_result (ac_id (sc_cmd s))) (set_phase i (Returned (Some e)) w))"
| poll_arrives: "poll_step w (Poll_arrives mid)
    (on_client (get_queue mid \<circ> agent_seen mid) (w\<lparr>pw_polls := mid # pw_polls w\<rparr>))"
| poll_takes: "mid \<in> set (pw_polls w) \<Longrightarrow> poll_take mid (pw_client w) = Some (cmd, c) \<Longrightarrow>
    poll_step w (Poll_takes mid) (w\<lparr>pw_client := c, pw_polls := remove1 mid (pw_polls w),
      pw_taken := pw_taken w @ [(mid, cmd)]\<rparr>)"
| poll_times_out: "mid \<in> set (pw_polls w) \<Longrightarrow>
    poll_step w (Poll_times_out mid) (w\<lparr>pw_polls := remove1 mid (pw_polls w)\<rparr>)"
| report_arrives: "poll_step w (Report_arrives r)
    (on_client (deliver_report r) (w\<lparr>pw_reports := pw_reports w @ [r]\<rparr>))"
| registers: "poll_step w (Registers mid) (on_client (mark_agent_ready mid) w)"

inductive_cases call_cases [elim!]: "poll_step w (Call mid p) w'"
inductive_cases takes_cases [elim!]: "poll_step w (Poll_takes mid) w'"
inductive_cases report_cases [elim!]: "poll_step w (Report_arrives r) w'"

inductive poll_run :: "poll_world \<Rightarrow> poll_event list \<Rightarrow> poll_world \<Rightarrow> bool" where
  run_nil: "poll_run w [] w"
| run_cons: "poll_step w e w1 \<Longrightarrow> poll_run w1 es w2 \<Longrightarrow> poll_run w (e # es) w2"

lemma poll_run_snoc: "poll_run w es w1 \<Longrightarrow> poll_step w1 e w2 \<Longrightarrow> poll_run w (es @ [e]) w2"
  by (induction rule: poll_run.induct) (auto intro: poll_run.intros)

lemma poll_run_append: "poll_run w es w1 \<Longrightarrow> poll_run w1 fs w2 \<Longrightarrow> poll_run w (es @ fs) w2"
  by (induction rule: poll_run.induct) (auto intro: poll_run.intros)

section \<open>Command ids\<close>

lemma last_digits:
  assumes "a @ CHR ''-'' # digits_of m = b @ CHR ''-'' # digits_of n"
  shows "m = n"
proof -
  have "takeWhile is_digit (rev (x @ CHR ''-'' # digits_of k)) = rev (digits_of k)" for x k
    using digits_of_digits [of _ k] by (simp add: takeWhile_tail is_digit_def list_all_iff)
  with assms have "rev (digits_of m) = rev (digits_of n)" by metis
  then show ?thesis by (simp add: digits_of_inj)
qed

lemma command_id_inj: "command_id mid m = command_id mid' n \<Longrightarrow> m = n"
  using last_digits [of "''cmd-'' @ mid" m "''cmd-'' @ mid'" n] by (simp add: command_id_def itoa_nat)

section \<open>What holds in every state\<close>

definition call_id :: "poll_world \<Rightarrow> nat \<Rightarrow> string" where
  "call_id w i = ac_id (sc_cmd (pw_sends w ! i))"

definition call_ids :: "send_call list \<Rightarrow> string set" where
  "call_ids ss = set (map (ac_id \<circ> sc_cmd) ss)"

definition ids_ok :: "poll_world \<Rightarrow> bool" where
  "ids_ok w \<longleftrightarrow>
     (\<forall>i < length (pw_sends w). \<exists>k \<le> pl_seq (pw_client w). call_id w i = command_id (sc_machine (pw_sends w ! i)) k) \<and>
     (\<forall>i < length (pw_sends w). \<forall>j < length (pw_sends w). call_id w i = call_id w j \<longrightarrow> i = j)"

text \<open>A call has a channel while it waits; a channel holds a report of its own command.\<close>

definition results_ok :: "poll_world \<Rightarrow> bool" where
  "results_ok w \<longleftrightarrow>
     (\<forall>i < length (pw_sends w). pl_results (pw_client w) (call_id w i) \<noteq> None \<longleftrightarrow>
        sc_phase (pw_sends w ! i) \<in> {Connected, Enqueued}) \<and>
     dom (pl_results (pw_client w)) \<subseteq> call_ids (pw_sends w) \<and>
     (\<forall>cid r. pl_results (pw_client w) cid = Some (Some r) \<longrightarrow> rp_command_id r = cid \<and> r \<in> set (pw_reports w)) \<and>
     (\<forall>i < length (pw_sends w). sc_phase (pw_sends w ! i) = Returned None \<longrightarrow>
        (\<exists>r \<in> set (pw_reports w). rp_command_id r = call_id w i \<and> rp_status r \<noteq> Report_failed)) \<and>
     (\<forall>i < length (pw_sends w). sc_phase (pw_sends w ! i) = Connecting \<longrightarrow> pl_healthy (pw_client w) (sc_machine (pw_sends w ! i)) \<noteq> None)"

definition of_machine :: "string \<Rightarrow> (string \<times> agent_command) list \<Rightarrow> agent_command list" where
  "of_machine mid xs = map snd (filter (\<lambda>x. fst x = mid) xs)"

definition fifo_ok :: "poll_world \<Rightarrow> bool" where
  "fifo_ok w \<longleftrightarrow>
     (\<forall>mid. of_machine mid (pw_enqueued w) = of_machine mid (pw_taken w) @ queue_of mid (pw_client w) \<and>
        length (queue_of mid (pw_client w)) \<le> 8) \<and>
     distinct (map (ac_id \<circ> snd) (pw_enqueued w)) \<and>
     (\<forall>x \<in> set (pw_enqueued w). \<exists>i < length (pw_sends w). sc_machine (pw_sends w ! i) = fst x \<and>
        sc_cmd (pw_sends w ! i) = snd x \<and> sc_phase (pw_sends w ! i) \<notin> {Connecting, Connected})"

lemma set_phase_fields [simp]:
  "length (pw_sends (set_phase i p w)) = length (pw_sends w)"
  "pw_client (set_phase i p w) = pw_client w" "pw_reports (set_phase i p w) = pw_reports w"
  "pw_enqueued (set_phase i p w) = pw_enqueued w" "pw_taken (set_phase i p w) = pw_taken w"
  "pw_polls (set_phase i p w) = pw_polls w"
  by (simp_all add: set_phase_def)

lemma call_ids_iff: "cid \<in> call_ids (pw_sends w) \<longleftrightarrow> (\<exists>i < length (pw_sends w). call_id w i = cid)"
  by (force simp: call_ids_def call_id_def in_set_conv_nth)

lemma call_ids_append [simp]: "call_ids (ss @ [s]) = insert (ac_id (sc_cmd s)) (call_ids ss)"
  by (auto simp: call_ids_def)

lemma call_ids_phase [simp]: "call_ids (pw_sends (set_phase i p w)) = call_ids (pw_sends w)"
proof -
  have "map (ac_id \<circ> sc_cmd) (pw_sends (set_phase i p w)) = map (ac_id \<circ> sc_cmd) (pw_sends w)"
    by (cases "i < length (pw_sends w)")
      (auto simp: set_phase_def map_update list_update_beyond intro!: list_update_same_conv [THEN iffD2])
  then show ?thesis unfolding call_ids_def by simp
qed

lemma set_phase_nth [simp]:
  "j < length (pw_sends w) \<Longrightarrow> pw_sends (set_phase i p w) ! j =
     (if j = i then (pw_sends w ! j)\<lparr>sc_phase := p\<rparr> else pw_sends w ! j)"
  by (simp add: set_phase_def)

lemma call_id_phase [simp]: "j < length (pw_sends w) \<Longrightarrow> call_id (set_phase i p w) j = call_id w j"
  by (simp add: call_id_def)

lemma call_id_client [simp]:
  "call_id (w\<lparr>pw_client := c\<rparr>) i = call_id w i" "call_id (w\<lparr>pw_reports := rs\<rparr>) i = call_id w i"
  "call_id (w\<lparr>pw_polls := ps\<rparr>) i = call_id w i" "call_id (w\<lparr>pw_taken := ts\<rparr>) i = call_id w i"
  "call_id (w\<lparr>pw_enqueued := es\<rparr>) i = call_id w i"
  by (simp_all add: call_id_def)

lemmas client_ops = mark_agent_ready_def get_queue_def agent_seen_def register_result_def delete_result_def
  deliver_report_def

lemma client_fields [simp]:
  "pl_results (mark_agent_ready mid c) = pl_results c" "pl_seq (mark_agent_ready mid c) = pl_seq c"
  "pl_results (get_queue mid c) = pl_results c" "pl_results (agent_seen mid c) = pl_results c"
  "pl_seq (get_queue mid c) = pl_seq c" "pl_seq (agent_seen mid c) = pl_seq c"
  "pl_seq (register_result cid c) = pl_seq c" "pl_seq (delete_result cid c) = pl_seq c"
  "pl_seq (deliver_report r c) = pl_seq c" "pl_healthy (get_queue mid c) = pl_healthy c"
  "pl_healthy (register_result cid c) = pl_healthy c" "pl_healthy (delete_result cid c) = pl_healthy c"
  "pl_healthy (deliver_report r c) = pl_healthy c"
  by (simp_all add: client_ops)

lemma queue_fields [simp]:
  "queue_of m (mark_agent_ready mid c) = queue_of m c" "queue_of m (get_queue mid c) = queue_of m c"
  "queue_of m (agent_seen mid c) = queue_of m c" "queue_of m (register_result cid c) = queue_of m c"
  "queue_of m (delete_result cid c) = queue_of m c" "queue_of m (deliver_report r c) = queue_of m c"
  by (simp_all add: client_ops queue_of_def)

lemma enqueue_Some:
  "enqueue mid cmd c = Some c' \<Longrightarrow> queue_of m c' = (if m = mid then queue_of m c @ [cmd] else queue_of m c) \<and>
     length (queue_of mid c) < 8 \<and> pl_results c' = pl_results c \<and> pl_seq c' = pl_seq c \<and> pl_healthy c' = pl_healthy c"
  by (auto simp: enqueue_def queue_of_def split: if_splits)

lemma poll_take_Some:
  "poll_take mid c = Some (cmd, c') \<Longrightarrow> queue_of mid c = cmd # queue_of mid c' \<and>
     (m \<noteq> mid \<longrightarrow> queue_of m c' = queue_of m c) \<and> pl_results c' = pl_results c \<and> pl_seq c' = pl_seq c \<and>
     pl_healthy c' = pl_healthy c"
  by (auto simp: poll_take_def queue_of_def split: list.splits)

lemma new_command:
  "with_command_id mid \<lparr>ac_id = [], ac_payload = p\<rparr> c = (cmd, c') \<Longrightarrow>
     cmd = \<lparr>ac_id = command_id mid (Suc (pl_seq c)), ac_payload = p\<rparr> \<and> c' = c\<lparr>pl_seq := Suc (pl_seq c)\<rparr>"
  by (auto simp: with_command_id_def)

lemma healthy_ready: "pl_healthy (mark_agent_ready mid c) m \<noteq> None \<longleftrightarrow> m = mid \<or> pl_healthy c m \<noteq> None"
  "pl_healthy (agent_seen mid c) m \<noteq> None \<longleftrightarrow> pl_healthy c m \<noteq> None"
  by (auto simp: mark_agent_ready_def agent_seen_def)

lemma fresh_id:
  assumes "ids_ok w" and "i < length (pw_sends w)"
  shows "call_id w i \<noteq> command_id mid (Suc (pl_seq (pw_client w)))"
proof
  assume "call_id w i = command_id mid (Suc (pl_seq (pw_client w)))"
  moreover obtain k where "k \<le> pl_seq (pw_client w)" "call_id w i = command_id (sc_machine (pw_sends w ! i)) k"
    using assms by (auto simp: ids_ok_def)
  ultimately have "k = Suc (pl_seq (pw_client w))" using command_id_inj by metis
  with \<open>k \<le> pl_seq (pw_client w)\<close> show False by simp
qed

lemma step_ids: "poll_step w e w' \<Longrightarrow> ids_ok w \<Longrightarrow> ids_ok w'"
proof (induction rule: poll_step.induct)
  case (call mid p w cmd c)
  from new_command [OF call(1)] have c: "ac_id cmd = command_id mid (Suc (pl_seq (pw_client w)))"
    "pl_seq c = Suc (pl_seq (pw_client w))" by simp_all
  have fresh: "call_id w i \<noteq> ac_id cmd" if "i < length (pw_sends w)" for i
    using fresh_id [OF call(2) that] c(1) by simp
  show ?case
    using call(2) c fresh
    by (auto simp: ids_ok_def call_id_def nth_append less_Suc_eq le_Suc_eq) 
qed (auto simp: ids_ok_def dest: enqueue_Some poll_take_Some)

lemma call_atD: "call_at w i p s \<Longrightarrow> i < length (pw_sends w) \<and> pw_sends w ! i = s \<and> sc_phase (pw_sends w ! i) = p"
  by (auto simp: call_at_def)

lemma call_id_added [simp]:
  "call_id (w\<lparr>pw_client := c, pw_sends := pw_sends w @ [s]\<rparr>) i =
     (if i < length (pw_sends w) then call_id w i else if i = length (pw_sends w) then ac_id (sc_cmd s) else call_id (w\<lparr>pw_sends := pw_sends w @ [s]\<rparr>) i)"
  by (simp add: call_id_def nth_append)

lemma results_returned:
  assumes "ids_ok w" and "results_ok w" and i: "i < length (pw_sends w)"
    and ok: "res = None \<Longrightarrow> \<exists>r \<in> set (pw_reports w). rp_command_id r = call_id w i \<and> rp_status r \<noteq> Report_failed"
    and cid: "cid = call_id w i"
  shows "results_ok (on_client (delete_result cid) (set_phase i (Returned res) w))"
proof -
  have other: "call_id w j \<noteq> cid" if "j < length (pw_sends w)" "j \<noteq> i" for j
    using assms(1) i that unfolding ids_ok_def cid by blast
  show ?thesis
    using assms(2) i ok other cid
    unfolding results_ok_def delete_result_def by (auto split: if_splits)
qed

lemma results_called:
  assumes "results_ok w" and fresh: "pl_results (pw_client w) (ac_id cmd) = None"
  shows "results_ok (w\<lparr>pw_client := mark_agent_ready mid ((pw_client w)\<lparr>pl_seq := n\<rparr>),
      pw_sends := pw_sends w @ [\<lparr>sc_machine = mid, sc_cmd = cmd, sc_phase = Connecting\<rparr>]\<rparr>)"
    (is "results_ok ?w")
proof -
  have id: "call_id ?w i = (if i < length (pw_sends w) then call_id w i else ac_id cmd)"
    if "i < length (pw_sends ?w)" for i using that by (simp add: call_id_def nth_append)
  have old: "i < length (pw_sends w) \<or> i = length (pw_sends w)" if "i < length (pw_sends ?w)" for i
    using that by auto
  have h: "pl_healthy (pw_client ?w) m \<noteq> None \<longleftrightarrow> m = mid \<or> pl_healthy (pw_client w) m \<noteq> None" for m
    using healthy_ready(1) [of mid "(pw_client w)\<lparr>pl_seq := n\<rparr>" m] by simp
  note r = assms(1) [unfolded results_ok_def]
  show ?thesis
    unfolding results_ok_def
  proof (intro conjI allI impI)
    fix i assume "i < length (pw_sends ?w)"
    then show "(pl_results (pw_client ?w) (call_id ?w i) \<noteq> None) \<longleftrightarrow> sc_phase (pw_sends ?w ! i) \<in> {Connected, Enqueued}"
      using r fresh old [of i] by (auto simp: id nth_append)
  next
    show "dom (pl_results (pw_client ?w)) \<subseteq> call_ids (pw_sends ?w)" using r by auto
  next
    fix i assume "i < length (pw_sends ?w)" "sc_phase (pw_sends ?w ! i) = Connecting"
    then show "pl_healthy (pw_client ?w) (sc_machine (pw_sends ?w ! i)) \<noteq> None"
      unfolding h using r old [of i] by (auto simp: nth_append)
  next
    fix i assume "i < length (pw_sends ?w)" "sc_phase (pw_sends ?w ! i) = Returned None"
    then show "\<exists>r \<in> set (pw_reports ?w). rp_command_id r = call_id ?w i \<and> rp_status r \<noteq> Report_failed"
      using r old [of i] by (auto simp: id nth_append)
  qed (use r in auto)
qed

lemma results_connected:
  assumes "ids_ok w" and "results_ok w" and i: "i < length (pw_sends w)" and "sc_phase (pw_sends w ! i) = Connecting"
    and cid: "cid = call_id w i"
  shows "results_ok (on_client (register_result cid) (set_phase i Connected w))"
proof -
  have other: "call_id w j \<noteq> cid" if "j < length (pw_sends w)" "j \<noteq> i" for j
    using assms(1) i that unfolding ids_ok_def cid by blast
  have "cid \<in> call_ids (pw_sends w)" unfolding call_ids_iff using i cid by auto
  then show ?thesis
    using assms(2) i other cid
    unfolding results_ok_def register_result_def by (auto split: if_splits)
qed

lemma results_enqueued:
  assumes "results_ok w" and "i < length (pw_sends w)" and "sc_phase (pw_sends w ! i) = Connected"
    and "pl_results c = pl_results (pw_client w)" and "pl_healthy c = pl_healthy (pw_client w)"
  shows "results_ok (set_phase i Enqueued (w\<lparr>pw_client := c, pw_enqueued := es\<rparr>))"
proof -
  let ?w = "w\<lparr>pw_client := c, pw_enqueued := es\<rparr>"
  have n: "pw_sends (set_phase i Enqueued ?w) ! j = (if j = i then (pw_sends w ! j)\<lparr>sc_phase := Enqueued\<rparr> else pw_sends w ! j)"
    "call_id (set_phase i Enqueued ?w) j = call_id w j" if "j < length (pw_sends w)" for j
    using that by simp_all
  show ?thesis
    using assms n unfolding results_ok_def by (simp cong: conj_cong)
qed

lemma step_results: "poll_step w e w' \<Longrightarrow> ids_ok w \<Longrightarrow> results_ok w \<Longrightarrow> results_ok w'"
proof (induction rule: poll_step.induct)
  case (call mid p w cmd c)
  from new_command [OF call(1)] have c: "ac_id cmd = command_id mid (Suc (pl_seq (pw_client w)))"
    "c = (pw_client w)\<lparr>pl_seq := Suc (pl_seq (pw_client w))\<rparr>" by simp_all
  have fresh: "pl_results (pw_client w) (ac_id cmd) = None"
  proof (rule ccontr)
    assume "pl_results (pw_client w) (ac_id cmd) \<noteq> None"
    with call(3) obtain i where "i < length (pw_sends w)" "call_id w i = ac_id cmd"
      unfolding results_ok_def using call_ids_iff by blast
    with fresh_id [OF call(2)] c(1) show False by simp
  qed
  show ?case unfolding c(2) by (rule results_called [OF call(3) fresh])
next
  case (sees_agent w i s)
  then show ?case by (intro results_connected) (auto simp: call_at_def call_id_def)
next
  case (no_agent w i s)
  then show ?case by (auto simp: results_ok_def call_at_def)
next
  case (enqueues w i s c)
  then show ?case
    using enqueue_Some [OF enqueues(2)] by (intro results_enqueued) (auto simp: call_at_def)
next
  case (answered w i s r)
  then have i: "i < length (pw_sends w)" "call_id w i = ac_id (sc_cmd s)" "sc_phase (pw_sends w ! i) = Enqueued"
    by (auto simp: call_at_def call_id_def)
  have r: "rp_command_id r = call_id w i" "r \<in> set (pw_reports w)"
    using answered(2,4) i(2) unfolding results_ok_def by metis+
  have ok: "rp_status r \<noteq> Report_failed" if "report_result (sc_machine s) (sc_cmd s) r = None"
    using that by (auto simp: report_result_def split: if_splits)
  show ?case
    by (rule results_returned [OF answered(3,4) i(1) _ i(2) [symmetric]]) (use r ok in blast)
next
  case (cancelled w i p s e)
  then have i: "i < length (pw_sends w)" "call_id w i = ac_id (sc_cmd s)"
    by (auto simp: call_at_def call_id_def)
  show ?case
    by (rule results_returned [OF cancelled(3,4) i(1) _ i(2) [symmetric]]) simp
next
  case (report_arrives w r)
  then show ?case
    by (auto simp: results_ok_def deliver_report_def) 
next
  case (poll_takes mid w cmd c)
  then show ?case using poll_take_Some [OF poll_takes(2)] by (simp add: results_ok_def)
next
  case (poll_arrives w mid)
  then show ?case using healthy_ready(2) [of mid "pw_client w"] by (auto simp: results_ok_def simp del: not_None_eq)
next
  case (registers w mid)
  then show ?case using healthy_ready(1) [of mid "pw_client w"] by (auto simp: results_ok_def simp del: not_None_eq)
qed (simp add: results_ok_def)

lemma of_machine_snoc [simp]:
  "of_machine m (xs @ [(mid, cmd)]) = of_machine m xs @ (if m = mid then [cmd] else [])"
  by (simp add: of_machine_def)

text \<open>Which enqueued commands come from a call that got past its enqueueing.\<close>

definition sent_by :: "poll_world \<Rightarrow> string \<times> agent_command \<Rightarrow> bool" where
  "sent_by w x \<longleftrightarrow> (\<exists>i < length (pw_sends w). sc_machine (pw_sends w ! i) = fst x \<and>
     sc_cmd (pw_sends w ! i) = snd x \<and> sc_phase (pw_sends w ! i) \<notin> {Connecting, Connected})"

lemma sent_by_phase:
  assumes "sent_by w x" and "p \<notin> {Connecting, Connected}"
  shows "sent_by (set_phase j p w) x"
proof -
  obtain i where i: "i < length (pw_sends w)" "sc_machine (pw_sends w ! i) = fst x"
    "sc_cmd (pw_sends w ! i) = snd x" "sc_phase (pw_sends w ! i) \<notin> {Connecting, Connected}"
    using assms(1) by (auto simp: sent_by_def)
  then have "pw_sends (set_phase j p w) ! i = (if i = j then (pw_sends w ! i)\<lparr>sc_phase := p\<rparr> else pw_sends w ! i)"
    by simp
  then show ?thesis unfolding sent_by_def using i assms(2) by (intro exI [of _ i]) auto
qed

lemma sent_by_other:
  assumes "sent_by w x" and "sc_phase (pw_sends w ! j) \<in> {Connecting, Connected}"
  shows "sent_by (set_phase j p w) x"
proof -
  obtain i where i: "i < length (pw_sends w)" "sc_machine (pw_sends w ! i) = fst x"
    "sc_cmd (pw_sends w ! i) = snd x" "sc_phase (pw_sends w ! i) \<notin> {Connecting, Connected}"
    using assms(1) by (auto simp: sent_by_def)
  then have "i \<noteq> j" using assms(2) by auto
  then have "pw_sends (set_phase j p w) ! i = pw_sends w ! i" using i(1) by simp
  then show ?thesis unfolding sent_by_def using i by (intro exI [of _ i]) auto
qed

lemma sent_by_append:
  assumes "sent_by w x"
  shows "sent_by (w\<lparr>pw_client := c, pw_sends := pw_sends w @ ss\<rparr>) x"
proof -
  obtain i where i: "i < length (pw_sends w)" "sc_machine (pw_sends w ! i) = fst x"
    "sc_cmd (pw_sends w ! i) = snd x" "sc_phase (pw_sends w ! i) \<notin> {Connecting, Connected}"
    using assms by (auto simp: sent_by_def)
  then show ?thesis unfolding sent_by_def by (intro exI [of _ i]) (simp add: nth_append)
qed

lemma sent_by_fields [simp]:
  "sent_by (w\<lparr>pw_client := c\<rparr>) x = sent_by w x" "sent_by (w\<lparr>pw_polls := ps\<rparr>) x = sent_by w x"
  "sent_by (w\<lparr>pw_taken := ts\<rparr>) x = sent_by w x" "sent_by (w\<lparr>pw_reports := rs\<rparr>) x = sent_by w x"
  "sent_by (w\<lparr>pw_enqueued := es\<rparr>) x = sent_by w x"
  by (simp_all add: sent_by_def)

lemma fifo_iff: "fifo_ok w \<longleftrightarrow>
     (\<forall>mid. of_machine mid (pw_enqueued w) = of_machine mid (pw_taken w) @ queue_of mid (pw_client w) \<and>
        length (queue_of mid (pw_client w)) \<le> 8) \<and>
     distinct (map (ac_id \<circ> snd) (pw_enqueued w)) \<and> (\<forall>x \<in> set (pw_enqueued w). sent_by w x)"
  by (simp only: fifo_ok_def sent_by_def)

lemma step_fifo: "poll_step w e w' \<Longrightarrow> ids_ok w \<Longrightarrow> fifo_ok w \<Longrightarrow> fifo_ok w'"
proof (induction rule: poll_step.induct)
  case (call mid p w cmd c)
  from new_command [OF call(1)] have "c = (pw_client w)\<lparr>pl_seq := Suc (pl_seq (pw_client w))\<rparr>" by simp
  then have "queue_of m (mark_agent_ready mid c) = queue_of m (pw_client w)" for m
    by simp (simp add: queue_of_def)
  then show ?case using call(3) sent_by_append unfolding fifo_iff by simp
next
  case (sees_agent w i s)
  then have "sc_phase (pw_sends w ! i) \<in> {Connecting, Connected}" by (auto simp: call_at_def)
  then show ?case using sees_agent(4) sent_by_other unfolding fifo_iff by simp
next
  case (no_agent w i s)
  then show ?case using sent_by_phase unfolding fifo_iff by simp
next
  case (enqueues w i s c)
  have i: "i < length (pw_sends w)" "pw_sends w ! i = s" "sc_phase (pw_sends w ! i) = Connected"
    using enqueues(1) by (auto simp: call_at_def)
  let ?w = "w\<lparr>pw_client := c, pw_enqueued := pw_enqueued w @ [(sc_machine s, sc_cmd s)]\<rparr>"
  have "ac_id (sc_cmd s) \<noteq> ac_id (snd x)" if "x \<in> set (pw_enqueued w)" for x
  proof
    assume eq: "ac_id (sc_cmd s) = ac_id (snd x)"
    obtain j where "j < length (pw_sends w)" "sc_cmd (pw_sends w ! j) = snd x"
      "sc_phase (pw_sends w ! j) \<notin> {Connecting, Connected}"
      using enqueues(4) \<open>x \<in> set (pw_enqueued w)\<close> by (auto simp: fifo_ok_def)
    with eq i enqueues(3) have "j = i" by (auto simp: ids_ok_def call_id_def)
    with i \<open>sc_phase (pw_sends w ! j) \<notin> _\<close> show False by simp
  qed
  then have "distinct (map (ac_id \<circ> snd) (pw_enqueued ?w))"
    using enqueues(4) by (auto simp: fifo_ok_def)
  moreover have "sent_by (set_phase i Enqueued ?w) x" if "x \<in> set (pw_enqueued ?w)" for x
  proof (cases "x = (sc_machine s, sc_cmd s)")
    case True
    then show ?thesis unfolding sent_by_def using i by (intro exI [of _ i]) simp
  next
    case False
    then have "sent_by ?w x" using that enqueues(4) by (simp add: fifo_iff)
    then show ?thesis by (rule sent_by_phase) simp
  qed
  moreover have "of_machine m (pw_enqueued ?w) = of_machine m (pw_taken ?w) @ queue_of m c \<and> length (queue_of m c) \<le> 8" for m
    using enqueues(4) enqueue_Some [OF enqueues(2), of m] by (auto simp: fifo_ok_def)
  ultimately show ?case unfolding fifo_iff by simp
next
  case (answered w i s r)
  then show ?case using sent_by_phase unfolding fifo_iff by simp
next
  case (cancelled w i p s e)
  then show ?case using sent_by_phase unfolding fifo_iff by simp
next
  case (poll_takes mid w cmd c)
  from poll_take_Some [OF poll_takes(2)] have q: "queue_of mid (pw_client w) = cmd # queue_of mid c"
    "m \<noteq> mid \<Longrightarrow> queue_of m c = queue_of m (pw_client w)" for m by auto
  have "of_machine m (pw_enqueued w) = of_machine m (pw_taken w @ [(mid, cmd)]) @ queue_of m c \<and> length (queue_of m c) \<le> 8" for m
  proof (cases "m = mid")
    case True
    have "length (queue_of mid (pw_client w)) \<le> 8"
      "of_machine mid (pw_enqueued w) = of_machine mid (pw_taken w) @ queue_of mid (pw_client w)"
      using poll_takes(4) by (simp_all add: fifo_ok_def)
    then show ?thesis using True q(1) by simp
  next
    case False
    then show ?thesis using poll_takes(4) q(2) [of m] by (simp add: fifo_ok_def)
  qed
  then show ?case using poll_takes(4) unfolding fifo_iff by simp
qed (auto simp: fifo_iff)

definition poll_inv :: "poll_world \<Rightarrow> bool" where
  "poll_inv w \<longleftrightarrow> ids_ok w \<and> results_ok w \<and> fifo_ok w"

lemma poll_inv_init: "poll_inv poll_init"
  by (simp add: poll_inv_def poll_init_def new_poll_client_def ids_ok_def results_ok_def fifo_ok_def
      of_machine_def queue_of_def)

lemma poll_inv_step: "poll_step w e w' \<Longrightarrow> poll_inv w \<Longrightarrow> poll_inv w'"
  using step_ids step_results step_fifo by (auto simp: poll_inv_def)

lemma poll_inv_run: "poll_run w es w' \<Longrightarrow> poll_inv w \<Longrightarrow> poll_inv w'"
  by (induction rule: poll_run.induct) (auto intro: poll_inv_step)


section \<open>Progress\<close>

text \<open>The channel of a call that waits for its report: empty, or filled.\<close>

definition awaits :: "poll_world \<Rightarrow> nat \<Rightarrow> report option \<Rightarrow> bool" where
  "awaits w i r \<longleftrightarrow> i < length (pw_sends w) \<and> sc_phase (pw_sends w ! i) = Enqueued \<and>
     pl_results (pw_client w) (call_id w i) = Some r"

definition done_with :: "poll_world \<Rightarrow> nat \<Rightarrow> bool" where
  "done_with w i \<longleftrightarrow> i < length (pw_sends w) \<and> (\<exists>e. sc_phase (pw_sends w ! i) = Returned e)"

lemma call_at_iff: "call_at w i p s \<longleftrightarrow> i < length (pw_sends w) \<and> s = pw_sends w ! i \<and> sc_phase s = p"
  by (auto simp: call_at_def)

lemma step_id: "poll_step w e w' \<Longrightarrow> i < length (pw_sends w) \<Longrightarrow> i < length (pw_sends w') \<and> call_id w' i = call_id w i"
  by (induction rule: poll_step.induct) (auto simp: call_id_def nth_append)

lemma ids_distinct: "ids_ok w \<Longrightarrow> i < length (pw_sends w) \<Longrightarrow> j < length (pw_sends w) \<Longrightarrow> i \<noteq> j \<Longrightarrow>
    ac_id (sc_cmd (pw_sends w ! i)) \<noteq> ac_id (sc_cmd (pw_sends w ! j))"
  by (auto simp: ids_ok_def call_id_def)

lemma awaits_step:
  assumes "poll_step w e w'" and "ids_ok w" and "awaits w i ch" and "\<forall>x. e \<noteq> Cancelled i x"
  shows "(case ch of
      None \<Rightarrow> (case e of Report_arrives r \<Rightarrow> if rp_command_id r = call_id w i then awaits w' i (Some r) else awaits w' i None
                | _ \<Rightarrow> awaits w' i None)
    | Some r \<Rightarrow> awaits w' i (Some r) \<or> done_with w' i)"
  using assms
proof (induction rule: poll_step.induct)
  case (call mid p w cmd c)
  then show ?case using new_command [OF call(1)]
    by (auto simp: awaits_def call_id_def nth_append split: option.splits)
next
  case (sees_agent w j s)
  then show ?case using ids_distinct [of w i j]
    by (cases "i = j") (auto simp: awaits_def call_at_iff register_result_def call_id_def split: option.splits)
next
  case (no_agent w j s)
  then show ?case by (cases "i = j") (auto simp: awaits_def call_at_iff split: option.splits)
next
  case (enqueues w j s c)
  then show ?case using enqueue_Some [OF enqueues(2)]
    by (cases "i = j") (auto simp: awaits_def call_at_iff split: option.splits)
next
  case (answered w j s r)
  then show ?case using ids_distinct [of w i j]
    by (cases "i = j")
      (auto simp: awaits_def done_with_def call_at_iff delete_result_def call_id_def split: option.splits)
next
  case (cancelled w j p s e)
  then show ?case using ids_distinct [of w i j]
    by (cases "i = j")
      (auto simp: awaits_def done_with_def call_at_iff delete_result_def call_id_def split: option.splits)
next
  case (poll_takes mid w cmd c)
  then show ?case using poll_take_Some [OF poll_takes(2)] by (auto simp: awaits_def split: option.splits)
next
  case (report_arrives w r)
  then show ?case by (auto simp: awaits_def deliver_report_def split: option.splits)
qed (auto simp: awaits_def split: option.splits)

lemma done_step: "poll_step w e w' \<Longrightarrow> done_with w i \<Longrightarrow> done_with w' i"
  by (induction rule: poll_step.induct) (auto simp: done_with_def nth_append call_at_iff)

text \<open>A report of a command counts for its call, whichever arrives first.\<close>

definition reported :: "string \<Rightarrow> poll_event list \<Rightarrow> bool" where
  "reported cid es \<longleftrightarrow> (\<exists>r. Report_arrives r \<in> set es \<and> rp_command_id r = cid)"

lemma done_run: "poll_run w es w' \<Longrightarrow> done_with w i \<Longrightarrow> done_with w' i"
  by (induction rule: poll_run.induct) (auto intro: done_step)

lemma answered_run:
  "poll_run w es w' \<Longrightarrow> poll_inv w \<Longrightarrow> awaits w i (Some r) \<Longrightarrow> \<forall>x. Cancelled i x \<notin> set es \<Longrightarrow>
     awaits w' i (Some r) \<or> done_with w' i"
proof (induction rule: poll_run.induct)
  case (run_cons w e w1 es w2)
  have "awaits w1 i (Some r) \<or> done_with w1 i"
    using awaits_step [OF run_cons(1), of i "Some r"] run_cons by (auto simp: poll_inv_def)
  then show ?case
    using run_cons(3) [OF poll_inv_step [OF run_cons(1,4)]] run_cons(6) done_run [OF run_cons(2)] by auto
qed simp

lemma awaits_run:
  "poll_run w es w' \<Longrightarrow> poll_inv w \<Longrightarrow> awaits w i None \<Longrightarrow> \<forall>x. Cancelled i x \<notin> set es \<Longrightarrow>
     (if reported (call_id w i) es then (\<exists>r. awaits w' i (Some r)) \<or> done_with w' i else awaits w' i None)"
proof (induction rule: poll_run.induct)
  case (run_nil w)
  then show ?case by (simp add: reported_def)
next
  case (run_cons w e w1 es w2)
  have inv: "poll_inv w1" by (rule poll_inv_step [OF run_cons(1,4)])
  have id: "call_id w1 i = call_id w i"
    using step_id [OF run_cons(1), of i] run_cons(5) by (simp add: awaits_def)
  have no: "\<forall>x. e \<noteq> Cancelled i x" using run_cons(6) by auto
  have step: "case e of Report_arrives r \<Rightarrow> if rp_command_id r = call_id w i then awaits w1 i (Some r) else awaits w1 i None
      | _ \<Rightarrow> awaits w1 i None"
    using awaits_step [OF run_cons(1) _ run_cons(5) no] run_cons(4) by (simp add: poll_inv_def)
  show ?case
  proof (cases "\<exists>r. e = Report_arrives r \<and> rp_command_id r = call_id w i")
    case True
    then obtain r where r: "e = Report_arrives r" "rp_command_id r = call_id w i" by auto
    then have "awaits w1 i (Some r)" using step by simp
    then have "awaits w2 i (Some r) \<or> done_with w2 i"
      using answered_run [OF run_cons(2) inv] run_cons(6) by simp
    moreover have "reported (call_id w i) (e # es)" using r by (auto simp: reported_def)
    ultimately show ?thesis by auto
  next
    case False
    then have "awaits w1 i None" using step by (cases e) auto
    moreover have "reported (call_id w i) (e # es) \<longleftrightarrow> reported (call_id w1 i) es"
      using False id by (auto simp: reported_def)
    ultimately show ?thesis using run_cons(3) [OF inv] run_cons(6) by simp
  qed
qed

lemma awaits_can_answer: "awaits w i (Some r) \<Longrightarrow> \<exists>w'. poll_step w (Answered i) w'"
  unfolding awaits_def call_id_def by (auto intro!: exI poll_step.answered simp: call_at_iff)

inductive_cases answered_cases: "poll_step w (Answered i) w'"

lemma reported_call_returns:
  assumes "poll_inv w" and "awaits w i None" and "poll_run w es w'" and "\<forall>x. Cancelled i x \<notin> set es"
  shows "reported (call_id w i) es \<longleftrightarrow> (\<exists>w''. poll_step w' (Answered i) w'') \<or> done_with w' i"
proof (cases "reported (call_id w i) es")
  case True
  then show ?thesis using awaits_run [OF assms(3,1,2,4)] awaits_can_answer by auto
next
  case False
  then have w: "awaits w' i None" using awaits_run [OF assms(3,1,2,4)] by simp
  have "\<not> poll_step w' (Answered i) w''" for w''
    using w by (auto simp: awaits_def call_at_iff call_id_def elim!: answered_cases)
  then show ?thesis using w False by (auto simp: awaits_def done_with_def)
qed

text \<open>The queues are first in, first out: each poll that takes a command takes the oldest.\<close>

definition takes :: "string \<Rightarrow> poll_event list \<Rightarrow> nat" where
  "takes mid es = length (filter (\<lambda>e. e = Poll_takes mid) es)"

lemma taken_step: "poll_step w e w' \<Longrightarrow>
    length (of_machine mid (pw_taken w')) = length (of_machine mid (pw_taken w)) + takes mid [e] \<and>
    (\<exists>x. of_machine mid (pw_enqueued w') = of_machine mid (pw_enqueued w) @ x)"
  by (induction rule: poll_step.induct) (auto simp: takes_def)

lemma taken_run: "poll_run w es w' \<Longrightarrow>
    length (of_machine mid (pw_taken w')) = length (of_machine mid (pw_taken w)) + takes mid es \<and>
    (\<exists>x. of_machine mid (pw_enqueued w') = of_machine mid (pw_enqueued w) @ x)"
proof (induction rule: poll_run.induct)
  case (run_cons w e w1 es w2)
  then show ?case using taken_step [OF run_cons(1), of mid] by (auto simp: takes_def)
qed (simp add: takes_def)

lemma queue_drains:
  assumes "poll_inv w" and "poll_run w es w'" and "cmd \<in> set (queue_of mid (pw_client w))" and "8 \<le> takes mid es"
  shows "cmd \<in> set (of_machine mid (pw_taken w'))"
proof -
  let ?E = "of_machine mid (pw_enqueued w)" and ?T = "of_machine mid (pw_taken w)"
  let ?E' = "of_machine mid (pw_enqueued w')" and ?T' = "of_machine mid (pw_taken w')"
  have inv': "poll_inv w'" by (rule poll_inv_run [OF assms(2,1)])
  have q: "?E = ?T @ queue_of mid (pw_client w)" "length (queue_of mid (pw_client w)) \<le> 8"
    using assms(1) by (auto simp: poll_inv_def fifo_ok_def)
  obtain x where x: "?E' = ?E @ x" "length ?T' = length ?T + takes mid es"
    using taken_run [OF assms(2), of mid] by auto
  have "?E' = ?T' @ queue_of mid (pw_client w')" using inv' by (auto simp: poll_inv_def fifo_ok_def)
  then have "?T' = take (length ?T') (?E @ x)" using x(1) by (metis append_eq_conv_conj)
  moreover have "length ?E \<le> length ?T'" using q x(2) assms(4) by (simp only: q(1) length_append)
  ultimately have "set ?E \<subseteq> set ?T'" by (metis set_append sup_ge1 take_all_iff take_append)
  then show ?thesis using assms(3) q(1) by auto
qed

section \<open>The step relation as a function\<close>

definition call_in :: "poll_world \<Rightarrow> nat \<Rightarrow> send_phase \<Rightarrow> send_call option" where
  "call_in w i p =
     (if i < length (pw_sends w) \<and> sc_phase (pw_sends w ! i) = p then Some (pw_sends w ! i) else None)"

definition running :: "send_phase \<Rightarrow> bool" where
  "running p = (case p of Returned _ \<Rightarrow> False | _ \<Rightarrow> True)"

fun poll_exec :: "poll_event \<Rightarrow> poll_world \<Rightarrow> poll_world option" where
  "poll_exec (Call mid p) w =
     (let (cmd, c) = with_command_id mid \<lparr>ac_id = [], ac_payload = p\<rparr> (pw_client w)
      in Some (w\<lparr>pw_client := mark_agent_ready mid c,
           pw_sends := pw_sends w @ [\<lparr>sc_machine = mid, sc_cmd = cmd, sc_phase = Connecting\<rparr>]\<rparr>))"
| "poll_exec (Sees_agent i) w =
     (case call_in w i Connecting of None \<Rightarrow> None
      | Some s \<Rightarrow>
          if pl_healthy (pw_client w) (sc_machine s) = Some True
          then Some (on_client (register_result (ac_id (sc_cmd s))) (set_phase i Connected w)) else None)"
| "poll_exec (No_agent i) w =
     map_option (\<lambda>s. set_phase i (Returned (Some (no_agent_error (sc_machine s)))) w) (call_in w i Connecting)"
| "poll_exec (Enqueues i) w =
     (case call_in w i Connected of None \<Rightarrow> None
      | Some s \<Rightarrow> map_option (\<lambda>c. set_phase i Enqueued (w\<lparr>pw_client := c,
          pw_enqueued := pw_enqueued w @ [(sc_machine s, sc_cmd s)]\<rparr>)) (enqueue (sc_machine s) (sc_cmd s) (pw_client w)))"
| "poll_exec (Answered i) w =
     (case call_in w i Enqueued of None \<Rightarrow> None
      | Some s \<Rightarrow>
          (case pl_results (pw_client w) (ac_id (sc_cmd s)) of
             Some (Some r) \<Rightarrow> Some (on_client (delete_result (ac_id (sc_cmd s)))
               (set_phase i (Returned (report_result (sc_machine s) (sc_cmd s) r)) w))
           | _ \<Rightarrow> None))"
| "poll_exec (Cancelled i e) w =
     (if i < length (pw_sends w) \<and> running (sc_phase (pw_sends w ! i))
      then Some (on_client (delete_result (ac_id (sc_cmd (pw_sends w ! i)))) (set_phase i (Returned (Some e)) w))
      else None)"
| "poll_exec (Poll_arrives mid) w = Some (on_client (get_queue mid \<circ> agent_seen mid) (w\<lparr>pw_polls := mid # pw_polls w\<rparr>))"
| "poll_exec (Poll_takes mid) w =
     (if mid \<in> set (pw_polls w)
      then map_option (\<lambda>(cmd, c). w\<lparr>pw_client := c, pw_polls := remove1 mid (pw_polls w),
        pw_taken := pw_taken w @ [(mid, cmd)]\<rparr>) (poll_take mid (pw_client w)) else None)"
| "poll_exec (Poll_times_out mid) w =
     (if mid \<in> set (pw_polls w) then Some (w\<lparr>pw_polls := remove1 mid (pw_polls w)\<rparr>) else None)"
| "poll_exec (Report_arrives r) w = Some (on_client (deliver_report r) (w\<lparr>pw_reports := pw_reports w @ [r]\<rparr>))"
| "poll_exec (Registers mid) w = Some (on_client (mark_agent_ready mid) w)"

lemma call_in_Some: "call_in w i p = Some s \<longleftrightarrow> call_at w i p s"
  by (auto simp: call_in_def call_at_def)

lemma running_iff: "running p \<longleftrightarrow> (\<forall>r. p \<noteq> Returned r)"
  by (cases p) (auto simp: running_def)

lemma poll_exec_step: "poll_exec e w = Some w' \<Longrightarrow> poll_step w e w'"
  by (cases e)
    (auto simp: call_in_Some running_iff call_at_iff split: option.splits if_splits prod.splits
      intro!: poll_step.intros [simplified])

lemma poll_step_exec: "poll_step w e w' \<Longrightarrow> poll_exec e w = Some w'"
proof (induction rule: poll_step.induct)
  case (cancelled w i p s e)
  then show ?case by (auto simp: call_at_def running_iff)
qed (auto simp: call_in_Some [symmetric])

fun poll_exec_run :: "poll_event list \<Rightarrow> poll_world \<Rightarrow> poll_world option" where
  "poll_exec_run [] w = Some w"
| "poll_exec_run (e # es) w = Option.bind (poll_exec e w) (poll_exec_run es)"

lemma poll_exec_iff: "poll_exec e w = Some w' \<longleftrightarrow> poll_step w e w'"
  using poll_exec_step poll_step_exec by blast

lemma poll_run_simps:
  "poll_run w [] w' \<longleftrightarrow> w' = w" "poll_run w (e # es) w' \<longleftrightarrow> (\<exists>w1. poll_step w e w1 \<and> poll_run w1 es w')"
  by (subst poll_run.simps; blast)+

lemma poll_exec_run: "poll_exec_run es w = Some w' \<longleftrightarrow> poll_run w es w'"
proof (induction es arbitrary: w)
  case Nil
  show ?case by (simp only: poll_exec_run.simps poll_run_simps option.inject) blast
next
  case (Cons e es)
  show ?case by (simp only: poll_exec_run.simps poll_run_simps bind_eq_Some_conv poll_exec_iff Cons)
qed

lemma reports_step: "poll_step w e w' \<Longrightarrow> set (pw_reports w') = set (pw_reports w) \<union> {r. e = Report_arrives r}"
  by (induction rule: poll_step.induct) auto

lemma reports_run: "poll_run w es w' \<Longrightarrow> set (pw_reports w') = set (pw_reports w) \<union> {r. Report_arrives r \<in> set es}"
proof (induction rule: poll_run.induct)
  case (run_cons w e w1 es w2)
  then show ?case using reports_step [OF run_cons(1)] by auto
qed simp

lemma sends_run: "poll_run w es w' \<Longrightarrow> length (pw_sends w) \<le> length (pw_sends w')"
proof (induction rule: poll_run.induct)
  case (run_cons w e w1 es w2)
  have "length (pw_sends w) \<le> length (pw_sends w1)" using run_cons(1) by (induction rule: poll_step.induct) auto
  then show ?case using run_cons(3) by simp
qed simp

section \<open>Properties\<close>

text \<open>
  C15. A successful \<open>Send\<close> was reported: whatever the order of calls, polls, reports, timeouts and
  cancellations, a call that returned without an error has a report of its own command id that is not
  a failure; a call that still waits holds no other command's report in its channel; and no two calls have the
  same command id.
\<close>

theorem send_success_reported:
  assumes "poll_run poll_init es w" and "i < length (pw_sends w)"
  shows "(sc_phase (pw_sends w ! i) = Returned None \<longrightarrow>
      (\<exists>r. Report_arrives r \<in> set es \<and> rp_command_id r = call_id w i \<and> rp_status r \<noteq> Report_failed)) \<and>
    (\<forall>r. pl_results (pw_client w) (call_id w i) = Some (Some r) \<longrightarrow> rp_command_id r = call_id w i) \<and>
    (\<forall>j < length (pw_sends w). call_id w j = call_id w i \<longrightarrow> j = i)"
proof -
  have inv: "poll_inv w" by (rule poll_inv_run [OF assms(1) poll_inv_init])
  have "set (pw_reports w) = {r. Report_arrives r \<in> set es}"
    using reports_run [OF assms(1)] by (simp add: poll_init_def)
  then show ?thesis using inv assms(2)
    by (auto simp: poll_inv_def ids_ok_def results_ok_def)
qed

text \<open>A run that stops where call 0 waits, and goes on to its report.\<close>

definition demo_install :: payload where
  "demo_install = Install_patroni"

definition demo_events :: "poll_event list" where
  "demo_events = [Poll_arrives ''m1'', Call ''m1'' demo_install, Poll_times_out ''m1'', Poll_arrives ''m1'', Sees_agent 0, Enqueues 0]"

definition demo_answers :: "poll_event list" where
  "demo_answers = [Poll_takes ''m1'', Report_arrives \<lparr>rp_command_id = ''cmd-m1-1'', rp_status = Report_completed, rp_error = []\<rparr>, Answered 0]"

definition demo_world :: poll_world where
  "demo_world = \<lparr>pw_client = \<lparr>pl_queues = Map.empty(''m1'' \<mapsto> [\<lparr>ac_id = ''cmd-m1-1'', ac_payload = demo_install\<rparr>]),
      pl_results = Map.empty(''cmd-m1-1'' \<mapsto> None), pl_healthy = Map.empty(''m1'' \<mapsto> True), pl_seq = 1\<rparr>,
     pw_sends = [\<lparr>sc_machine = ''m1'', sc_cmd = \<lparr>ac_id = ''cmd-m1-1'', ac_payload = demo_install\<rparr>, sc_phase = Enqueued\<rparr>],
     pw_polls = [''m1''], pw_enqueued = [(''m1'', \<lparr>ac_id = ''cmd-m1-1'', ac_payload = demo_install\<rparr>)],
     pw_taken = [], pw_reports = []\<rparr>"

lemma demo_id: "command_id ''m1'' (Suc 0) = ''cmd-m1-1''" by code_simp

lemma demo_run: "poll_exec_run demo_events poll_init = Some demo_world"
  by (simp add: demo_events_def poll_init_def new_poll_client_def demo_world_def with_command_id_def
      demo_id client_ops queue_of_def call_in_def set_phase_def enqueue_def fun_eq_iff)

lemma demo_answered: "\<exists>w. poll_exec_run demo_answers demo_world = Some w \<and> sc_phase (pw_sends w ! 0) = Returned None
    \<and> length (pw_sends w) = 1"
  by (simp add: demo_answers_def demo_world_def queue_of_def poll_take_def client_ops call_in_def set_phase_def report_result_def)

lemma demo_reach: "poll_run poll_init demo_events demo_world"
  using demo_run by (simp only: poll_exec_run)

lemma demo_reach_end: "\<exists>w. poll_run poll_init (demo_events @ demo_answers) w \<and>
    length (pw_sends w) = 1 \<and> sc_phase (pw_sends w ! 0) = Returned None"
  using demo_reach demo_answered poll_run_append by (auto simp: poll_exec_run) blast

theorem send_success_reported_witness:
  "\<exists>w r. poll_run poll_init (demo_events @ demo_answers) w \<and> sc_phase (pw_sends w ! 0) = Returned None \<and>
     Report_arrives r \<in> set (demo_events @ demo_answers) \<and> rp_command_id r = call_id w 0 \<and> rp_status r \<noteq> Report_failed"
proof -
  obtain w where w: "poll_run poll_init (demo_events @ demo_answers) w" "length (pw_sends w) = 1"
    "sc_phase (pw_sends w ! 0) = Returned None" using demo_reach_end by blast
  then show ?thesis using send_success_reported [OF w(1), of 0] by auto
qed

text \<open>
  C8. \<open>Send\<close> returns exactly on a report: from any reachable state in which a call waits for its report,
  and as long as the call is not cancelled, the call can return (or has returned) if and only if a report of its
  command id has arrived since. No interleaving loses a report that was sent, and without one the call
  waits for ever: there is no timeout of its own.
\<close>

theorem send_returns_iff_reported:
  assumes "poll_run poll_init es w" and "awaits w i None" and "poll_run w fs w'" and "\<forall>x. Cancelled i x \<notin> set fs"
  shows "(\<exists>r. Report_arrives r \<in> set fs \<and> rp_command_id r = call_id w i) \<longleftrightarrow>
    (\<exists>w''. poll_step w' (Answered i) w'') \<or> (\<exists>e. sc_phase (pw_sends w' ! i) = Returned e)"
proof -
  have inv: "poll_inv w" by (rule poll_inv_run [OF assms(1) poll_inv_init])
  have "done_with w' i \<longleftrightarrow> (\<exists>e. sc_phase (pw_sends w' ! i) = Returned e)"
    using assms(2) sends_run [OF assms(3)] by (auto simp: done_with_def awaits_def)
  then show ?thesis using reported_call_returns [OF inv assms(2-4)] by (simp add: reported_def)
qed

theorem send_returns_iff_reported_witness:
  "\<exists>w'. poll_run demo_world demo_answers w' \<and> ((\<exists>w''. poll_step w' (Answered 0) w'') \<or> (\<exists>e. sc_phase (pw_sends w' ! 0) = Returned e))"
proof -
  obtain w' where w': "poll_run demo_world demo_answers w'" using demo_answered by (auto simp: poll_exec_run)
  have a: "awaits demo_world 0 None" by (simp add: awaits_def demo_world_def call_id_def)
  have c: "\<forall>x. Cancelled 0 x \<notin> set demo_answers" by (simp add: demo_answers_def)
  have "\<exists>r. Report_arrives r \<in> set demo_answers \<and> rp_command_id r = call_id demo_world 0"
    by (simp add: demo_answers_def demo_world_def call_id_def)
  then show ?thesis using send_returns_iff_reported [OF demo_reach a w' c] w' by blast
qed

text \<open>
  C38. First in, first out: in every reachable state the commands handed out to a machine are an initial
  part, in order, of those enqueued for it, no command is handed out twice, at most eight wait, and
  each one that waits is handed out by the eighth poll that takes a command.
\<close>

theorem commands_in_order:
  assumes "poll_run poll_init es w"
  shows "of_machine mid (pw_enqueued w) = of_machine mid (pw_taken w) @ queue_of mid (pw_client w) \<and>
    distinct (map ac_id (of_machine mid (pw_taken w))) \<and> length (queue_of mid (pw_client w)) \<le> 8 \<and>
    (\<forall>fs w' cmd. poll_run w fs w' \<and> cmd \<in> set (queue_of mid (pw_client w)) \<and> 8 \<le> takes mid fs \<longrightarrow>
       cmd \<in> set (of_machine mid (pw_taken w')))"
proof -
  have inv: "poll_inv w" by (rule poll_inv_run [OF assms poll_inv_init])
  have q: "of_machine mid (pw_enqueued w) = of_machine mid (pw_taken w) @ queue_of mid (pw_client w)"
    "length (queue_of mid (pw_client w)) \<le> 8" using inv by (simp_all add: poll_inv_def fifo_ok_def)
  have "distinct (map (ac_id \<circ> snd) (pw_enqueued w))" using inv by (simp add: poll_inv_def fifo_ok_def)
  then have "distinct (map ac_id (of_machine mid (pw_enqueued w)))"
    unfolding of_machine_def map_map by (rule distinct_map_filter)
  then have "distinct (map ac_id (of_machine mid (pw_taken w)))" unfolding q(1) by simp
  then show ?thesis using q queue_drains [OF inv] by auto
qed

theorem commands_in_order_witness:
  "poll_run poll_init demo_events demo_world \<and> length (queue_of ''m1'' (pw_client demo_world)) = 1 \<and>
   of_machine ''m1'' (pw_enqueued demo_world) = queue_of ''m1'' (pw_client demo_world)"
  using commands_in_order [OF demo_reach, of "''m1''"] demo_reach by (simp add: demo_world_def queue_of_def of_machine_def)

end
