(* ===== verification/AgentServer.thy ===== *)
theory AgentServer
  imports AgentRun
begin

text \<open>
  The agent's side of the command protocol (\<open>agent/agent_server.go\<close>): the loop that polls the server,
  runs the command and posts the report, and the buffer that batches log lines and counts repeated ones.
  What the server answers to a poll, and how JSON is decoded, are arguments. The lines and the ticks of the flusher
  are a sequence of events, since \<open>logMu\<close> is held during each.
\<close>

section \<open>Log lines\<close>

record log_line =
  ll_command :: string
  ll_machine :: string
  ll_action :: string
  ll_line :: string
  ll_stream :: string

record log_buffer =
  lb_server :: string
  lb_machine :: string
  lb_buf :: "log_line list"
  lb_last :: string
  lb_repeat :: nat
  lb_action :: string
  lb_command :: string

definition new_log_buffer :: "string \<Rightarrow> string \<Rightarrow> log_buffer" where
  "new_log_buffer server mid = \<lparr>lb_server = server, lb_machine = mid, lb_buf = [], lb_last = [], lb_repeat = 0,
     lb_action = [], lb_command = []\<rparr>"

definition repeated_text :: "nat \<Rightarrow> string \<Rightarrow> string" where
  "repeated_text n line = (''[repeated '' @ itoa (int n) @ '' times] '' @ line)"

definition repeat_line :: "string \<Rightarrow> log_buffer \<Rightarrow> log_line" where
  "repeat_line stream b = \<lparr>ll_command = lb_command b, ll_machine = lb_machine b, ll_action = lb_action b,
     ll_line = repeated_text (lb_repeat b) (lb_last b), ll_stream = stream\<rparr>"

definition flush_repeat :: "string \<Rightarrow> log_buffer \<Rightarrow> log_buffer" where
  "flush_repeat stream b =
     (if lb_repeat b > 0 then b\<lparr>lb_buf := lb_buf b @ [repeat_line stream b], lb_repeat := 0\<rparr> else b)"

fun buffer_log_line :: "log_call \<Rightarrow> log_buffer \<Rightarrow> log_buffer" where
  "buffer_log_line (cid, action, line, stream) b =
     (if line = lb_last b \<and> action = lb_action b then b\<lparr>lb_repeat := Suc (lb_repeat b)\<rparr>
      else (let b = flush_repeat stream b in
        b\<lparr>lb_last := line, lb_action := action, lb_command := cid, lb_repeat := 0,
          lb_buf := lb_buf b @ [\<lparr>ll_command = cid, ll_machine = lb_machine b, ll_action = action, ll_line = line,
            ll_stream = stream\<rparr>]\<rparr>))"

text \<open>The batch that is posted, if one is, and the buffer afterwards.\<close>

definition flush_logs :: "log_buffer \<Rightarrow> log_line list option \<times> log_buffer" where
  "flush_logs b =
     (if lb_buf b = [] \<and> lb_repeat b = 0 then (None, b)
      else (let b = flush_repeat ''stdout'' b
            in (if lb_server b = [] \<or> lb_buf b = [] then None else Some (lb_buf b), b\<lparr>lb_buf := []\<rparr>)))"

datatype log_event = Logged log_call | Tick

fun log_events :: "log_event list \<Rightarrow> log_buffer \<Rightarrow> log_line list list \<times> log_buffer" where
  "log_events [] b = ([], b)"
| "log_events (Logged l # es) b = log_events es (buffer_log_line l b)"
| "log_events (Tick # es) b =
     (let (batch, b) = flush_logs b; (batches, b) = log_events es b
      in (case batch of None \<Rightarrow> batches | Some x \<Rightarrow> x # batches, b))"

text \<open>The last tick is the flush after \<open>StopLogFlusher\<close>.\<close>

definition posted_logs :: "string \<Rightarrow> string \<Rightarrow> log_event list \<Rightarrow> log_line list list" where
  "posted_logs server mid es = fst (log_events (es @ [Tick]) (new_log_buffer server mid))"

section \<open>The poll loop\<close>

datatype answer = No_answer string | Answer nat string

definition poll :: "(string \<Rightarrow> string + agent_command) \<Rightarrow> answer \<Rightarrow> string + agent_command option" where
  "poll decode a =
     (case a of
        No_answer e \<Rightarrow> Inl e
      | Answer code body \<Rightarrow>
          if code = 204 then Inr None
          else if code \<noteq> 200 then Inl (''poll: server returned '' @ itoa (int code) @
                     '': '' @ body)
          else (case decode body of Inl e \<Rightarrow> Inl (''poll: decode command: '' @ e) | Inr c \<Rightarrow> Inr (Some c)))"

text \<open>
  What the loop does after each answer: wait two seconds, poll again at once, or run the command and post the report.
  The post may fail, which is only logged: the report is not sent again.
\<close>

datatype loop_action = Retry_in_2s string | Poll_again | Posted report | Post_failed report string

definition report_posted :: "report \<Rightarrow> string option \<Rightarrow> loop_action" where
  "report_posted r err = (case err of None \<Rightarrow> Posted r | Some e \<Rightarrow> Post_failed r e)"

text \<open>Each round has the answer to its poll and the error of its post, if there is a command and the post fails.\<close>

fun agent_loop ::
  "'w host \<Rightarrow> (string \<Rightarrow> string + agent_command) \<Rightarrow> (answer \<times> string option) list \<Rightarrow> 'w agent \<Rightarrow>
     (loop_action list \<times> 'w agent) option" where
  "agent_loop h decode [] ex = Some ([], ex)"
| "agent_loop h decode ((a, err) # as) ex =
     (case poll decode a of
        Inl e \<Rightarrow> map_option (apfst (Cons (Retry_in_2s e))) (agent_loop h decode as ex)
      | Inr None \<Rightarrow> map_option (apfst (Cons Poll_again)) (agent_loop h decode as ex)
      | Inr (Some cmd) \<Rightarrow>
          (case agent_run h cmd ex of
             None \<Rightarrow> None
           | Some (r, ex) \<Rightarrow>
               map_option (apfst (Cons (report_posted (r\<lparr>rp_command_id := ac_id cmd\<rparr>) err))) (agent_loop h decode as ex)))"

section \<open>What the server receives\<close>

text \<open>Log lines with their meaning: one line, or a count of further copies of the line before.\<close>

datatype log_entry = Plain log_call | Repeats nat log_call

fun entry_line :: "string \<Rightarrow> log_entry \<Rightarrow> log_line" where
  "entry_line mid (Plain (c, a, l, s)) =
     \<lparr>ll_command = c, ll_machine = mid, ll_action = a, ll_line = l, ll_stream = s\<rparr>"
| "entry_line mid (Repeats n (c, a, l, s)) =
     \<lparr>ll_command = c, ll_machine = mid, ll_action = a, ll_line = repeated_text n l, ll_stream = s\<rparr>"

fun entry_lines :: "log_entry \<Rightarrow> (string \<times> string) list" where
  "entry_lines (Plain (c, a, l, s)) = [(a, l)]"
| "entry_lines (Repeats n (c, a, l, s)) = replicate n (a, l)"

definition logged :: "log_event list \<Rightarrow> (string \<times> string) list" where
  "logged es = concat (map (\<lambda>e. case e of Logged (c, a, l, s) \<Rightarrow> [(a, l)] | Tick \<Rightarrow> []) es)"

definition entries_of :: "log_entry list \<Rightarrow> (string \<times> string) list" where
  "entries_of ts = concat (map entry_lines ts)"

text \<open>A buffer holds the lines \<open>ts\<close> and the repetitions that are counted but not yet written.\<close>

definition holds :: "log_buffer \<Rightarrow> log_entry list \<Rightarrow> (string \<times> string) list \<Rightarrow> bool" where
  "holds b ts xs \<longleftrightarrow> lb_buf b = map (entry_line (lb_machine b)) ts \<and>
     xs = entries_of ts @ replicate (lb_repeat b) (lb_action b, lb_last b)"

lemma logged_simps [simp]:
  "logged [] = []" "logged (Logged (c, a, l, s) # es) = (a, l) # logged es" "logged (Tick # es) = logged es"
  "logged (es @ es') = logged es @ logged es'"
  by (simp_all add: logged_def)

lemma entries_simps [simp]:
  "entries_of [] = []" "entries_of (ts @ ts') = entries_of ts @ entries_of ts'"
  "entries_of (t # ts) = entry_lines t @ entries_of ts"
  by (simp_all add: entries_of_def)

lemma flush_repeat_fields [simp]:
  "lb_machine (flush_repeat s b) = lb_machine b" "lb_server (flush_repeat s b) = lb_server b"
  "lb_last (flush_repeat s b) = lb_last b" "lb_action (flush_repeat s b) = lb_action b"
  "lb_repeat (flush_repeat s b) = 0"
  by (simp_all add: flush_repeat_def)

lemma flush_repeat_holds:
  assumes "holds b ts xs" shows "\<exists>ts'. holds (flush_repeat s b) ts' xs"
proof (cases "lb_repeat b > 0")
  case True
  let ?t = "Repeats (lb_repeat b) (lb_command b, lb_action b, lb_last b, s)"
  have "holds (flush_repeat s b) (ts @ [?t]) xs"
    using assms True by (simp add: holds_def flush_repeat_def repeat_line_def)
  then show ?thesis ..
next
  case False
  then show ?thesis using assms by (auto simp: flush_repeat_def)
qed

lemma buffer_line_holds:
  assumes "holds b ts xs" shows "\<exists>ts'. holds (buffer_log_line (c, a, l, s) b) ts' (xs @ [(a, l)])"
proof (cases "l = lb_last b \<and> a = lb_action b")
  case True
  then have "holds (buffer_log_line (c, a, l, s) b) ts (xs @ [(a, l)])"
    using assms by (simp add: holds_def replicate_append_same flip: replicate_Suc)
  then show ?thesis ..
next
  case False
  obtain ts' where "holds (flush_repeat s b) ts' xs" using flush_repeat_holds [OF assms] by auto
  then have "holds (buffer_log_line (c, a, l, s) b) (ts' @ [Plain (c, a, l, s)]) (xs @ [(a, l)])"
    using False by (auto simp: holds_def Let_def)
  then show ?thesis ..
qed

lemma buffer_line_fields [simp]:
  "lb_machine (buffer_log_line x b) = lb_machine b" "lb_server (buffer_log_line x b) = lb_server b"
  by (cases x; simp add: Let_def)+

lemma flush_logs_holds:
  assumes "holds b ts xs" and "lb_server b \<noteq> []" and "flush_logs b = (batch, b')"
  shows "\<exists>ts'. concat (case batch of None \<Rightarrow> [] | Some x \<Rightarrow> [x]) = map (entry_line (lb_machine b)) ts' \<and>
    xs = entries_of ts' \<and> holds b' [] [] \<and> lb_machine b' = lb_machine b \<and> lb_server b' = lb_server b"
proof (cases "lb_buf b = [] \<and> lb_repeat b = 0")
  case True
  then show ?thesis using assms by (auto simp: flush_logs_def holds_def)
next
  case False
  obtain ts' where ts': "holds (flush_repeat ''stdout'' b) ts' xs" using flush_repeat_holds [OF assms(1)] by auto
  then show ?thesis using False assms(2,3)
    by (intro exI [of _ ts']) (auto simp: flush_logs_def holds_def Let_def)
qed

lemma log_events_hold:
  "holds b ts xs \<Longrightarrow> lb_server b \<noteq> [] \<Longrightarrow> lb_machine b = mid \<Longrightarrow> log_events es b = (batches, b') \<Longrightarrow>
     \<exists>us vs. map (entry_line mid) us = concat batches \<and> holds b' vs (drop (length (entries_of us)) (xs @ logged es)) \<and>
       take (length (entries_of us)) (xs @ logged es) = entries_of us \<and> lb_server b' \<noteq> [] \<and> lb_machine b' = mid"
proof (induction es b arbitrary: ts xs batches b' rule: log_events.induct)
  case (1 b)
  then show ?case by (intro exI [of _ "[]"] exI [of _ ts]) simp
next
  case (2 l es b)
  obtain c a x s where l: "l = (c, a, x, s)" by (cases l)
  obtain ts' where "holds (buffer_log_line l b) ts' (xs @ [(a, x)])" 
    using buffer_line_holds [OF 2(2), of c a x s] l by blast
  from 2(1) [OF this, of batches b'] have "\<exists>us vs. map (entry_line mid) us = concat batches \<and>
      holds b' vs (drop (length (entries_of us)) ((xs @ [(a, x)]) @ logged es)) \<and>
      take (length (entries_of us)) ((xs @ [(a, x)]) @ logged es) = entries_of us \<and> lb_server b' \<noteq> [] \<and> lb_machine b' = mid"
    using 2(3-5) by (simp del: buffer_log_line.simps append_assoc)
  moreover have "(xs @ [(a, x)]) @ logged es = xs @ logged (Logged l # es)" using l by simp
  ultimately show ?case by (simp only:)
next
  case (3 es b)
  obtain batch b1 where f: "flush_logs b = (batch, b1)" by (cases "flush_logs b")
  obtain rest b2 where r: "log_events es b1 = (rest, b2)" by (cases "log_events es b1")
  obtain ws where ws: "concat (case batch of None \<Rightarrow> [] | Some x \<Rightarrow> [x]) = map (entry_line mid) ws"
    "xs = entries_of ws" "holds b1 [] []" "lb_machine b1 = mid" "lb_server b1 \<noteq> []"
    using flush_logs_holds [OF 3(2,3) f] 3(3,4) by auto
  obtain us vs where "map (entry_line mid) us = concat rest" "holds b2 vs (drop (length (entries_of us)) (logged es))"
    "take (length (entries_of us)) (logged es) = entries_of us" "lb_server b2 \<noteq> []" "lb_machine b2 = mid"
    using 3(1) [OF f [symmetric] refl ws(3,5,4) r] by auto
  moreover have "b' = b2" "concat batches = concat (case batch of None \<Rightarrow> [] | Some x \<Rightarrow> [x]) @ concat rest"
    using 3(5) f r by (auto split: option.splits)
  ultimately show ?case using ws by (intro exI [of _ "ws @ us"] exI [of _ vs]) simp
qed

lemma log_events_snoc: "log_events (es @ [Tick]) b =
    (let (batches, b) = log_events es b; (batch, b) = flush_logs b
     in (batches @ (case batch of None \<Rightarrow> [] | Some x \<Rightarrow> [x]), b))"
  by (induction es b rule: log_events.induct) (auto simp: Let_def split: prod.splits option.splits)

lemma log_events_flushed: "log_events (es @ [Tick]) b = (batches, b') \<Longrightarrow> lb_buf b' = [] \<and> lb_repeat b' = 0"
  by (auto simp: log_events_snoc flush_logs_def Let_def split: prod.splits if_splits)

text \<open>
  C29. No log line is lost or made up: however the flusher's ticks fall between the lines, the batches
  posted up to the final flush are the rendering of entries that spell out, with the repeat counts
  expanded, the actions and texts of exactly the lines logged, in order.
\<close>

theorem logs_complete:
  assumes "server \<noteq> []"
  shows "\<exists>ts. concat (posted_logs server mid es) = map (entry_line mid) ts \<and> entries_of ts = logged es"
proof -
  let ?b = "new_log_buffer server mid"
  obtain batches b where r: "log_events (es @ [Tick]) ?b = (batches, b)" by (cases "log_events (es @ [Tick]) ?b")
  have b: "lb_buf b = [] \<and> lb_repeat b = 0" by (rule log_events_flushed [OF r])
  have "holds ?b [] []" "lb_server ?b \<noteq> []" "lb_machine ?b = mid"
    using assms by (simp_all add: holds_def new_log_buffer_def)
  from log_events_hold [OF this r] obtain us vs where
    u: "map (entry_line mid) us = concat batches" "holds b vs (drop (length (entries_of us)) (logged es))"
      "take (length (entries_of us)) (logged es) = entries_of us" by auto
  then have "drop (length (entries_of us)) (logged es) = []" using b by (auto simp: holds_def)
  then have "logged es = entries_of us" using u(3) by simp
  then show ?thesis using u(1) r by (intro exI [of _ us]) (simp add: posted_logs_def)
qed

theorem logs_complete_witness:
  "\<exists>ts. concat (posted_logs ''srv'' ''m'' [Logged (''c1'', ''a'', ''x'', ''stdout''), Logged (''c1'', ''a'', ''x'', ''stdout''), Tick])
     = map (entry_line ''m'') ts \<and> entries_of ts = [(''a'', ''x''), (''a'', ''x'')]"
  using logs_complete [of "''srv''" "''m''" "[Logged (''c1'', ''a'', ''x'', ''stdout''), Logged (''c1'', ''a'', ''x'', ''stdout''), Tick]"]
  by simp

section \<open>The loop is the executor on the commands\<close>

text \<open>The command that an answer brings: one with status 200 and a body that decodes.\<close>

definition command_in :: "(string \<Rightarrow> string + agent_command) \<Rightarrow> answer \<Rightarrow> agent_command option" where
  "command_in decode a =
     (case a of
        No_answer e \<Rightarrow> None
      | Answer code body \<Rightarrow> if code = 200 then (case decode body of Inl e \<Rightarrow> None | Inr c \<Rightarrow> Some c) else None)"

definition reports_in :: "loop_action list \<Rightarrow> report list" where
  "reports_in xs = concat (map (\<lambda>x. case x of Posted r \<Rightarrow> [r] | Post_failed r e \<Rightarrow> [r] | _ \<Rightarrow> []) xs)"

lemma reports_in_simps [simp]:
  "reports_in [] = []" "reports_in (report_posted r err # xs) = r # reports_in xs" "reports_in (Poll_again # xs) = reports_in xs"
  "reports_in (Retry_in_2s e # xs) = reports_in xs"
  by (simp_all add: reports_in_def report_posted_def split: option.splits)

text \<open>What the loop may do in a round.\<close>

definition answered_with :: "(string \<Rightarrow> string + agent_command) \<Rightarrow> answer \<times> string option \<Rightarrow> loop_action \<Rightarrow> bool" where
  "answered_with decode x act \<longleftrightarrow>
     (case act of
        Retry_in_2s e \<Rightarrow> command_in decode (fst x) = None \<and> (\<forall>body. fst x \<noteq> Answer 204 body)
      | Poll_again \<Rightarrow> (\<exists>body. fst x = Answer 204 body)
      | Posted r \<Rightarrow> snd x = None \<and> (\<exists>c. command_in decode (fst x) = Some c \<and> rp_command_id r = ac_id c)
      | Post_failed r e \<Rightarrow> snd x = Some e \<and> (\<exists>c. command_in decode (fst x) = Some c \<and> rp_command_id r = ac_id c))"

lemma agent_run_id: "agent_run h c ex = Some (r, ex') \<Longrightarrow> rp_command_id r = ac_id c"
  by (auto simp: agent_run_def report_of_def split: prod.splits option.splits)

lemma poll_commands:
  "poll decode a = Inr (Some c) \<longleftrightarrow> command_in decode a = Some c"
  "poll decode a = Inr None \<longleftrightarrow> (\<exists>body. a = Answer 204 body)"
  by (auto simp: poll_def command_in_def split: answer.splits sum.splits)

text \<open>
  C30. While its context lives, the poll loop takes as commands exactly the answers with status 200 whose body decodes. Its
  reports, posted or not, and the state it leaves are those of the executor run on these commands one after the other,
  and only a panic of a handler stops it. In a round without a command it polls again at once on status 204 and after
  two seconds on any other answer or failure; in one with a command its report, with that command's id, is posted or,
  when the post fails, given up.
\<close>

theorem poll_loop_runs_commands:
  "map_option (apfst reports_in) (agent_loop h decode as ex) = agent_runs h (List.map_filter (\<lambda>x. command_in decode (fst x)) as) ex \<and>
   (\<forall>xs ex'. agent_loop h decode as ex = Some (xs, ex') \<longrightarrow> list_all2 (answered_with decode) as xs)"
proof (induction as arbitrary: ex)
  case (Cons x as)
  obtain a err where x: "x = (a, err)" by fastforce
  show ?case
  proof (cases "poll decode a")
    case (Inl e)
    then have "command_in decode a = None" "\<forall>body. a \<noteq> Answer 204 body" using poll_commands [of decode a]
      by (metis option.exhaust sum.distinct(1))+
    then show ?thesis using Cons [of ex] Inl x
      by (cases "agent_loop h decode as ex") (auto simp: map_filter_simps answered_with_def)
  next
    case (Inr c)
    show ?thesis
    proof (cases c)
      case None
      then obtain body where "a = Answer 204 body" using Inr poll_commands(2) by blast
      then show ?thesis using Cons [of ex] Inr None x
        by (cases "agent_loop h decode as ex") (auto simp: map_filter_simps answered_with_def command_in_def)
    next
      case (Some cmd)
      then have c: "command_in decode a = Some cmd" using Inr poll_commands(1) by blast
      show ?thesis
      proof (cases "agent_run h cmd ex")
        case None
        then show ?thesis using Inr Some c x by (simp add: map_filter_simps)
      next
        case run: (Some rex)
        obtain r ex1 where rex: "rex = (r, ex1)" by (cases rex)
        have "r\<lparr>rp_command_id := ac_id cmd\<rparr> = r" using agent_run_id run rex by fastforce
        moreover have "answered_with decode (a, err) (report_posted r err)"
          using c agent_run_id run rex by (auto simp: answered_with_def report_posted_def split: option.splits)
        ultimately show ?thesis using Inr Some run c x rex Cons [of ex1]
          by (cases "agent_loop h decode as ex1"; cases "agent_runs h (List.map_filter (\<lambda>x. command_in decode (fst x)) as) ex1")
            (auto simp: map_filter_simps)
      qed
    qed
  qed
qed (simp add: map_filter_simps)

definition demo_decode :: "string \<Rightarrow> string + agent_command" where
  "demo_decode body = (if body = ''run'' then Inr \<lparr>ac_id = ''c1'', ac_payload = Unknown_action ''x''\<rparr> else Inl ''bad'')"

definition demo_rounds :: "(answer \<times> string option) list" where
  "demo_rounds = [(Answer 204 [], None), (Answer 500 ''run'', None), (Answer 200 ''run'', Some ''lost'')]"

theorem poll_loop_runs_commands_witness:
  "\<exists>xs ex'. agent_loop (counting_host (\<lambda>_. False)) demo_decode demo_rounds (new_agent []) = Some (xs, ex') \<and>
     list_all2 (answered_with demo_decode) demo_rounds xs"
proof -
  have "agent_loop (counting_host (\<lambda>_. False)) demo_decode demo_rounds (new_agent []) \<noteq> None"
    by (simp add: demo_rounds_def demo_decode_def poll_def agent_run_def split: prod.splits option.splits)
  then show ?thesis
    using poll_loop_runs_commands [of "counting_host (\<lambda>_. False)" demo_decode demo_rounds "new_agent []"] by auto
qed

end
