(* ===== verification/Hub.thy ===== *)
theory Hub
  imports Metrics PollClient AgentServer
begin

text \<open>
  What flows between agents, the server and its watchers: the hub of WebSocket clients (\<open>api/ws_hub.go\<close>), the
  handlers of agents (\<open>api/server.go\<close>), the ingestion of log lines (\<open>victoria/logs_client.go\<close>), webhooks
  (\<open>webhook/webhook.go\<close>), the lists of load-generator releases (\<open>api/server.go\<close>) and the script that
  starts an agent on a machine (\<open>agent/cloudinit.go\<close>).
\<close>

section \<open>The hub\<close>

datatype hub_payload = Log_payload fields | Report_payload report | Line_payload log_line

record hub_message =
  hm_type :: string
  hm_run :: string
  hm_node :: string
  hm_tenant :: string
  hm_payload :: hub_payload

record hub_client =
  hc_id :: nat
  hc_run :: string
  hc_tenant :: string

definition add_client :: "nat \<Rightarrow> string \<Rightarrow> string \<Rightarrow> hub_client list \<Rightarrow> hub_client list" where
  "add_client cid rid tenant hub = hub @ [\<lparr>hc_id = cid, hc_run = rid, hc_tenant = tenant\<rparr>]"

fun remove_client :: "nat \<Rightarrow> hub_client list \<Rightarrow> hub_client list" where
  "remove_client cid [] = []"
| "remove_client cid (c # cs) = (if hc_id c = cid then cs else c # remove_client cid cs)"

definition skipped :: "hub_message \<Rightarrow> hub_client \<Rightarrow> bool" where
  "skipped m c \<longleftrightarrow> hc_tenant c \<noteq> [] \<and> hm_tenant m \<noteq> [] \<and> hc_tenant c \<noteq> hm_tenant m \<or>
     hc_run c \<noteq> [] \<and> hm_run m \<noteq> [] \<and> hc_run c \<noteq> hm_run m"

text \<open>The clients that a message is sent to, in order.\<close>

definition broadcast :: "hub_message \<Rightarrow> hub_client list \<Rightarrow> hub_client list" where
  "broadcast m hub = filter (\<lambda>c. \<not> skipped m c) hub"

text \<open>A WebSocket request becomes a client with the tenant of its claims.\<close>

definition handle_ws :: "nat \<Rightarrow> string \<Rightarrow> claims option \<Rightarrow> hub_client list \<Rightarrow> hub_client list" where
  "handle_ws cid rid claims hub = add_client cid rid (tenant_of claims) hub"

text \<open>
  The tenant of a run id: that of a row with this id, the first in the order of the table. The error of the query is
  dropped, so that a query that fails gives no tenant, as an unknown run does.
\<close>

definition tenant_of_run :: "db_env \<Rightarrow> string \<Rightarrow> run_row list \<Rightarrow> string" where
  "tenant_of_run env rid rows =
     (if de_up env ''TenantOfRun'' then (case find (\<lambda>r. rr_id r = rid) rows of None \<Rightarrow> [] | Some r \<Rightarrow> rr_tenant r)
      else [])"

definition account_of_run :: "db_env \<Rightarrow> string \<Rightarrow> run_row list \<Rightarrow> accounts \<Rightarrow> int" where
  "account_of_run env rid rows db =
     (let t = tenant_of_run env rid rows in
      if t = [] then 0 else (case tenant_account env t db of Inl _ \<Rightarrow> 0 | Inr a \<Rightarrow> a))"

section \<open>Log lines that are kept\<close>

record log_record =
  lr_account :: int
  lr_machine :: string
  lr_command :: string
  lr_action :: string
  lr_run :: string
  lr_stream :: string
  lr_line :: string

text \<open>The headers of an ingestion, and what its response means.\<close>

definition ingest_headers :: "string \<Rightarrow> int \<Rightarrow> fields" where
  "ingest_headers tok account =
     (''Content-Type'', ''application/stream+json'') #
     (if account > 0 then [(''AccountID'', itoa account)] else []) @
     (if tok \<noteq> [] then [(''Authorization'', (''Bearer '' @ tok))] else [])"

definition ingest_result :: "http_result \<Rightarrow> string option" where
  "ingest_result r =
     (case r of
        Http_error e \<Rightarrow> Some ((''vlogs post: '' @ e))
      | Read_error e \<Rightarrow> Some ((''vlogs post: '' @ e))
      | Http_response code body \<Rightarrow> if code \<ge> 300 then Some ((''vlogs: status '' @
                     itoa (int code))) else None)"

section \<open>Events of a server\<close>

text \<open>
  \<open>ho_sent\<close> records the messages with the clients they went to, \<open>ho_kept\<close> what was handed to the log store;
  \<open>ho_agents\<close> are the machines that registered.
\<close>

record hub_world =
  ho_hub :: "hub_client list"
  ho_sent :: "(hub_message \<times> hub_client list) list"
  ho_kept :: "log_record list"
  ho_agents :: "string list"
  ho_poll :: poll_client

definition send_message :: "hub_message \<Rightarrow> hub_world \<Rightarrow> hub_world" where
  "send_message m w = w\<lparr>ho_sent := ho_sent w @ [(m, broadcast m (ho_hub w))]\<rparr>"

definition keep_line :: "bool \<Rightarrow> log_record \<Rightarrow> hub_world \<Rightarrow> hub_world" where
  "keep_line monitored r w = (if monitored then w\<lparr>ho_kept := ho_kept w @ [r]\<rparr> else w)"

text \<open>
  A log entry of the executor; \<open>payload\<close> are its level, message, time and fields, \<open>line\<close> their text
  (the fields of a Go map come in any order, so they are given as a list).
\<close>

definition format_log_line :: "string \<Rightarrow> string \<Rightarrow> string \<Rightarrow> fields \<Rightarrow> string" where
  "format_log_line level node msg fs =
     (''['' @ level @ ''] ['' @ node @ ''] '' @ msg) @ concat (map (\<lambda>(k, v). (''  '' @ k @
                     ''='' @ v)) (filter (\<lambda>(k, v). k \<noteq> ''node_id'') fs))"

definition write_log ::
  "bool \<Rightarrow> db_env \<Rightarrow> run_row list \<Rightarrow> accounts \<Rightarrow> string \<Rightarrow> string \<Rightarrow> string \<Rightarrow> string \<Rightarrow> string \<Rightarrow> fields \<Rightarrow> hub_world \<Rightarrow> hub_world" where
  "write_log monitored env rows db rid node level capital msg fs w =
     keep_line monitored \<lparr>lr_account = account_of_run env rid rows db, lr_machine = ''server'', lr_command = [],
         lr_action = node, lr_run = rid, lr_stream = ''server'', lr_line = format_log_line capital node msg fs\<rparr>
       (send_message \<lparr>hm_type = ''log'', hm_run = rid, hm_node = node, hm_tenant = tenant_of_run env rid rows,
         hm_payload = Log_payload ([(''level'', level), (''message'', msg)] @ fs)\<rparr> w)"

definition agent_register :: "string + string \<Rightarrow> hub_world \<Rightarrow> fields reply \<times> hub_world" where
  "agent_register body w =
     (case body of
        Inl e \<Rightarrow> (Fail 400 e, w)
      | Inr mid \<Rightarrow> (Reply 200 [(''status'', ''ok'')],
          w\<lparr>ho_poll := mark_agent_ready mid (ho_poll w), ho_agents := List.insert mid (ho_agents w)\<rparr>))"

definition agent_report :: "string + report \<Rightarrow> hub_world \<Rightarrow> fields reply \<times> hub_world" where
  "agent_report body w =
     (case body of
        Inl e \<Rightarrow> (Fail 400 e, w)
      | Inr r \<Rightarrow> (Reply 200 [(''status'', ''ok'')],
          send_message \<lparr>hm_type = ''report'', hm_run = [], hm_node = [], hm_tenant = [], hm_payload = Report_payload r\<rparr>
            (w\<lparr>ho_poll := deliver_report r (ho_poll w)\<rparr>)))"

definition take_line :: "bool \<Rightarrow> db_env \<Rightarrow> run_row list \<Rightarrow> accounts \<Rightarrow> log_line \<Rightarrow> hub_world \<Rightarrow> hub_world" where
  "take_line monitored env rows db l w =
     (let rid = extract_run_id (ll_machine l) in
      keep_line monitored \<lparr>lr_account = account_of_run env rid rows db, lr_machine = ll_machine l, lr_command = ll_command l,
         lr_action = ll_action l, lr_run = rid, lr_stream = ll_stream l, lr_line = ll_line l\<rparr>
       (send_message \<lparr>hm_type = ''agent_log'', hm_run = rid, hm_node = [], hm_tenant = tenant_of_run env rid rows,
         hm_payload = Line_payload l\<rparr> w))"

definition agent_log_batch :: "bool \<Rightarrow> db_env \<Rightarrow> run_row list \<Rightarrow> accounts \<Rightarrow> string + log_line list \<Rightarrow> hub_world \<Rightarrow> fields reply \<times> hub_world" where
  "agent_log_batch monitored env rows db body w =
     (case body of
        Inl e \<Rightarrow> (Fail 400 e, w)
      | Inr ls \<Rightarrow> (Reply 204 [], fold (take_line monitored env rows db) ls w))"

section \<open>Webhooks\<close>

record webhook_payload =
  wp_event :: string
  wp_run :: string
  wp_node :: string
  wp_error :: string
  wp_data :: string

definition webhook_timeout :: "webhook_config \<Rightarrow> int" where
  "webhook_timeout c = (if wh_timeout c \<le> 0 then 10 else wh_timeout c)"

text \<open>The posts of a call: one for each URL when the event is wanted and its payload marshals.\<close>

definition webhook_send :: "webhook_config \<Rightarrow> (webhook_payload \<Rightarrow> string option) \<Rightarrow> webhook_payload \<Rightarrow> (string \<times> string) list" where
  "webhook_send c marshal p =
     (case webhook_targets c (wp_event p) of
        [] \<Rightarrow> []
      | urls \<Rightarrow> (case marshal p of None \<Rightarrow> [] | Some body \<Rightarrow> map (\<lambda>u. (u, body)) urls))"

definition webhook_event :: "string \<Rightarrow> string \<Rightarrow> webhook_payload" where
  "webhook_event event rid = \<lparr>wp_event = event, wp_run = rid, wp_node = [], wp_error = [], wp_data = []\<rparr>"

definition run_started_hook :: "string \<Rightarrow> webhook_payload" where
  "run_started_hook rid = webhook_event ''run.started'' rid"

definition run_completed_hook :: "string \<Rightarrow> string \<Rightarrow> webhook_payload" where
  "run_completed_hook rid data = (webhook_event ''run.completed'' rid)\<lparr>wp_data := data\<rparr>"

definition run_failed_hook :: "string \<Rightarrow> string option \<Rightarrow> webhook_payload" where
  "run_failed_hook rid e = (webhook_event ''run.failed'' rid)\<lparr>wp_error := (case e of None \<Rightarrow> [] | Some e \<Rightarrow> e)\<rparr>"

definition node_done_hook :: "string \<Rightarrow> string \<Rightarrow> webhook_payload" where
  "node_done_hook rid node = (webhook_event ''node.done'' rid)\<lparr>wp_node := node\<rparr>"

definition node_failed_hook :: "string \<Rightarrow> string \<Rightarrow> string option \<Rightarrow> webhook_payload" where
  "node_failed_hook rid node e =
     (webhook_event ''node.failed'' rid)\<lparr>wp_node := node, wp_error := (case e of None \<Rightarrow> [] | Some e \<Rightarrow> e)\<rparr>"

section \<open>Releases of the load generator\<close>

definition version_part :: "string list \<Rightarrow> nat \<Rightarrow> int" where
  "version_part ps i = (if i < length ps then (case sscanf_d (ps ! i) of None \<Rightarrow> 0 | Some v \<Rightarrow> v) else 0)"

fun compare_parts :: "string list \<Rightarrow> string list \<Rightarrow> nat list \<Rightarrow> int" where
  "compare_parts ps qs [] = 0"
| "compare_parts ps qs (i # is) =
     (if version_part ps i < version_part qs i then - 1
      else if version_part ps i > version_part qs i then 1
      else compare_parts ps qs is)"

definition compare_versions :: "string \<Rightarrow> string \<Rightarrow> int" where
  "compare_versions a b = compare_parts (split_on CHR ''.'' a) (split_on CHR ''.'' b) [0..<3]"

text \<open>A cached list with the time it was fetched; \<open>fresh_cache\<close> is the five-minute test.\<close>

definition fresh_cache :: "int \<Rightarrow> 'a list \<times> int \<Rightarrow> bool" where
  "fresh_cache now c \<longleftrightarrow> now - snd c < 300 \<and> fst c \<noteq> []"

text \<open>A release is its tag and whether it is a draft.\<close>

definition release_versions :: "(string \<times> bool) list \<Rightarrow> string list" where
  "release_versions rels = filter (\<lambda>v. compare_versions v ''4.1.0'' \<ge> 0)
     (map (\<lambda>(tag, draft). trim_prefix tag ''v'') (filter (\<lambda>(tag, draft). \<not> draft) rels))"

definition stroppy_versions ::
  "int \<Rightarrow> string + (string \<times> bool) list \<Rightarrow> string list \<times> int \<Rightarrow> string list reply \<times> (string list \<times> int)" where
  "stroppy_versions now fetched cache =
     (if fresh_cache now cache then (Reply 200 (fst cache), cache)
      else (case fetched of
              Inl e \<Rightarrow> (Fail 502 e, cache)
            | Inr rels \<Rightarrow> (Reply 200 (release_versions rels), (release_versions rels, now))))"

record commit_release =
  cr_tag :: string
  cr_name :: string
  cr_draft :: bool
  cr_prerelease :: bool
  cr_published :: int
  cr_assets :: "(string \<times> string) list"

record stroppy_commit =
  sc_short :: string
  sc_tag :: string
  sc_name :: string
  sc_url :: string
  sc_published :: int

definition commit_of :: "commit_release \<Rightarrow> stroppy_commit list" where
  "commit_of r =
     (if cr_draft r \<or> \<not> cr_prerelease r \<or> \<not> has_prefix (cr_tag r) ''nightly-'' then []
      else (let url = (case map_of (cr_assets r) ''stroppy'' of None \<Rightarrow> [] | Some u \<Rightarrow> u) in
        if url = [] then []
        else [\<lparr>sc_short = trim_prefix (cr_tag r) ''nightly-'', sc_tag = cr_tag r, sc_name = cr_name r, sc_url = url,
               sc_published = cr_published r\<rparr>]))"

definition fetch_commits :: "http_result \<Rightarrow> (string \<Rightarrow> string + commit_release list) \<Rightarrow> string + stroppy_commit list" where
  "fetch_commits resp decode =
     (case resp of
        Http_error e \<Rightarrow> Inl ((''github releases: '' @ e))
      | Read_error e \<Rightarrow> Inl ((''github releases parse: '' @ e))
      | Http_response code body \<Rightarrow>
          if code \<noteq> 200 then Inl ((''github releases '' @ itoa (int code) @ '': '' @ body))
          else (case decode body of
                  Inl e \<Rightarrow> Inl ((''github releases parse: '' @ e))
                | Inr rels \<Rightarrow> Inr (concat (map commit_of rels))))"

definition stroppy_commits ::
  "int \<Rightarrow> string + stroppy_commit list \<Rightarrow> stroppy_commit list \<times> int \<Rightarrow> stroppy_commit list reply \<times> (stroppy_commit list \<times> int)" where
  "stroppy_commits now fetched cache =
     (if fresh_cache now cache then (Reply 200 (fst cache), cache)
      else (case fetched of Inl e \<Rightarrow> (Fail 502 e, cache) | Inr cs \<Rightarrow> (Reply 200 cs, (cs, now))))"

section \<open>The script of a machine\<close>

record cloud_init_params =
  ci_binary_url :: string
  ci_server_addr :: string
  ci_port :: int
  ci_machine :: string
  ci_token :: string
  ci_user :: string
  ci_key :: string
  ci_env :: options

definition remote_bin_path :: string where "remote_bin_path = ''/usr/local/bin/stroppy-agent''"

text \<open>The lines of \<open>/etc/stroppy/agent.env\<close>; \<open>ci_env\<close> is the map in the order of its keys, in which the template
  iterates over it.\<close>

definition agent_env_lines :: "cloud_init_params \<Rightarrow> string list" where
  "agent_env_lines p =
     [(''STROPPY_SERVER_ADDR='' @ ci_server_addr p), (''STROPPY_AGENT_PORT='' @ itoa (ci_port p)), (''STROPPY_MACHINE_ID='' @
                     ci_machine p)] @
     (if ci_token p \<noteq> [] then [(''STROPPY_AGENT_TOKEN='' @ ci_token p)] else []) @
     map (\<lambda>(k, v). (k @ ''='' @ v)) (ci_env p)"

definition cloud_init_lines :: "cloud_init_params \<Rightarrow> string list" where
  "cloud_init_lines p =
     [''#cloud-config'', ''users:'', (''  - name: '' @ ci_user p), ''    groups: sudo'', ''    shell: /bin/bash'',
      ''    sudo: ALL=(ALL) NOPASSWD:ALL''] @
     (if ci_key p \<noteq> [] then [''    ssh_authorized_keys:'', (''      - '' @ ci_key p)] else []) @
     [[], ''write_files:'', ''  - path: /etc/stroppy/agent.env'', ''    content: |''] @
     map (\<lambda>l. (''      '' @ l)) (agent_env_lines p) @
     [[], ''  - path: /etc/systemd/system/stroppy-agent.service'', ''    content: |'', ''      [Unit]'',
      ''      Description=Stroppy Agent'', ''      After=network-online.target'', ''      Wants=network-online.target'',
      [], ''      [Service]'', ''      Type=simple'', ''      EnvironmentFile=/etc/stroppy/agent.env'',
      (''      ExecStart='' @ remote_bin_path @ '' agent''), ''      Restart=on-failure'', ''      RestartSec=5'', [],
      ''      [Install]'', ''      WantedBy=multi-user.target'', [], ''runcmd:'', ''  - mkdir -p /etc/stroppy'',
      (''  - curl -fsSL -o '' @ remote_bin_path @ '' \"'' @ ci_binary_url p @ ''\"''), (''  - chmod +x '' @
                     remote_bin_path),
      ''  - systemctl daemon-reload'', ''  - systemctl enable --now stroppy-agent'']"

definition with_defaults :: "cloud_init_params \<Rightarrow> cloud_init_params" where
  "with_defaults p =
     (let p = (if ci_port p = 0 then p\<lparr>ci_port := 9090\<rparr> else p) in
      if ci_user p = [] then p\<lparr>ci_user := ''stroppy''\<rparr> else p)"

definition generate_cloud_init :: "cloud_init_params \<Rightarrow> string" where
  "generate_cloud_init p = unlines (cloud_init_lines (with_defaults p))"


section \<open>Who sees what\<close>

lemma recipients: "c \<in> set (broadcast m hub) \<longleftrightarrow> c \<in> set hub \<and> \<not> skipped m c"
  by (auto simp: broadcast_def)

lemma removed_client: "distinct (map hc_id hub) \<Longrightarrow> remove_client cid hub = filter (\<lambda>c. hc_id c \<noteq> cid) hub"
proof (induction hub)
  case (Cons c hub)
  show ?case
  proof (cases "hc_id c = cid")
    case True
    then have "\<forall>x \<in> set hub. hc_id x \<noteq> cid" using Cons.prems by (auto simp: image_iff)
    then show ?thesis using True by (simp add: filter_id_conv)
  next
    case False
    then show ?thesis using Cons by simp
  qed
qed simp

text \<open>Run ids that belong to one tenant each.\<close>

definition one_tenant :: "run_row list \<Rightarrow> bool" where
  "one_tenant rows \<longleftrightarrow> (\<forall>r \<in> set rows. \<forall>r' \<in> set rows. rr_id r = rr_id r' \<longrightarrow> rr_tenant r = rr_tenant r')"

lemma tenant_of_run_row:
  assumes "one_tenant rows" and "de_up env ''TenantOfRun''" and "r \<in> set rows"
  shows "tenant_of_run env (rr_id r) rows = rr_tenant r"
proof (cases "find (\<lambda>x. rr_id x = rr_id r) rows")
  case None
  then show ?thesis using assms(3) by (auto simp only: find_None_iff)
next
  case (Some r')
  then have "r' \<in> set rows" and "rr_id r' = rr_id r" by (auto simp only: find_Some_iff nth_mem)
  then have "rr_tenant r' = rr_tenant r" using assms unfolding one_tenant_def by blast
  then show ?thesis using Some assms(2) by (simp add: tenant_of_run_def)
qed

text \<open>A message about a run in the table goes to clients of its tenant, or without tenant, that watch it, or all.\<close>

definition stays :: "run_row list \<Rightarrow> hub_message \<times> hub_client list \<Rightarrow> bool" where
  "stays rows x \<longleftrightarrow> (\<forall>r \<in> set rows. rr_id r = hm_run (fst x) \<and> rr_id r \<noteq> [] \<longrightarrow> (\<forall>c \<in> set (snd x).
     (rr_tenant r \<noteq> [] \<longrightarrow> hc_tenant c \<in> {[], rr_tenant r}) \<and> hc_run c \<in> {[], rr_id r}))"

lemma broadcast_stays:
  assumes "one_tenant rows" and "de_up env ''TenantOfRun''" and "hm_tenant m = tenant_of_run env (hm_run m) rows"
  shows "stays rows (m, broadcast m hub)"
proof -
  have t: "hm_tenant m = rr_tenant r" if "r \<in> set rows" "rr_id r = hm_run m" for r
    using tenant_of_run_row [OF assms(1,2) that(1)] that(2) assms(3) by simp
  show ?thesis unfolding stays_def fst_conv snd_conv
  proof (intro ballI impI conjI; elim conjE)
    fix r c assume rc: "r \<in> set rows" "c \<in> set (broadcast m hub)" and e: "rr_id r = hm_run m" "rr_id r \<noteq> []"
    note s = rc(2) [unfolded recipients skipped_def]
    show "hc_tenant c \<in> {[], rr_tenant r}" if "rr_tenant r \<noteq> []" using s t [OF rc(1) e(1)] that by fastforce
    show "hc_run c \<in> {[], rr_id r}" using s e by fastforce
  qed
qed

lemma take_line_sent:
  "ho_sent (take_line mon env rows db l w) = ho_sent w @
     [(\<lparr>hm_type = ''agent_log'', hm_run = extract_run_id (ll_machine l), hm_node = [],
        hm_tenant = tenant_of_run env (extract_run_id (ll_machine l)) rows, hm_payload = Line_payload l\<rparr>,
       broadcast \<lparr>hm_type = ''agent_log'', hm_run = extract_run_id (ll_machine l), hm_node = [],
        hm_tenant = tenant_of_run env (extract_run_id (ll_machine l)) rows, hm_payload = Line_payload l\<rparr> (ho_hub w))]"
  "ho_hub (take_line mon env rows db l w) = ho_hub w"
  by (simp_all add: take_line_def Let_def keep_line_def send_message_def)

lemma batch_sent:
  assumes "one_tenant rows" and "de_up env ''TenantOfRun''"
  shows "\<exists>news. ho_sent (fold (take_line mon env rows db) ls w) = ho_sent w @ news \<and>
    map (\<lambda>x. hm_payload (fst x)) news = map Line_payload ls \<and> (\<forall>x \<in> set news. stays rows x)"
proof (induction ls arbitrary: w)
  case (Cons l ls)
  let ?m = "\<lparr>hm_type = ''agent_log'', hm_run = extract_run_id (ll_machine l), hm_node = [],
        hm_tenant = tenant_of_run env (extract_run_id (ll_machine l)) rows, hm_payload = Line_payload l\<rparr>"
  obtain news where n: "ho_sent (fold (take_line mon env rows db) ls (take_line mon env rows db l w)) =
      ho_sent (take_line mon env rows db l w) @ news" "map (\<lambda>x. hm_payload (fst x)) news = map Line_payload ls"
    "\<forall>x \<in> set news. stays rows x" using Cons.IH by blast
  have "stays rows (?m, broadcast ?m (ho_hub w))" by (rule broadcast_stays [OF assms]) simp
  then show ?case
    by (intro exI [of _ "(?m, broadcast ?m (ho_hub w)) # news"]) (simp add: n take_line_sent del: map_eq_Cons_conv)
qed simp

text \<open>
  C25. Log lines of agents and of the executor about a run in the table are sent, one message each and in order, only to
  watchers of the run's tenant or without a chosen tenant, and of those only to the ones that watch that run or all,
  provided that no two tenants share a run id and that the query for the tenant of the run answers (its error is
  dropped: \<open>failed_lookup_goes_to_all\<close>).
\<close>

theorem logs_stay_with_tenant:
  assumes "one_tenant rows" and "de_up env ''TenantOfRun''"
  shows "(\<exists>news. ho_sent (snd (agent_log_batch mon env rows db (Inr ls) w)) = ho_sent w @ news \<and>
      map (\<lambda>x. hm_payload (fst x)) news = map Line_payload ls \<and> (\<forall>x \<in> set news. stays rows x)) \<and>
    (\<exists>x. ho_sent (write_log mon env rows db rid node level capital msg fs w) = ho_sent w @ [x] \<and>
      hm_run (fst x) = rid \<and> stays rows x)"
proof
  show "\<exists>news. ho_sent (snd (agent_log_batch mon env rows db (Inr ls) w)) = ho_sent w @ news \<and>
      map (\<lambda>x. hm_payload (fst x)) news = map Line_payload ls \<and> (\<forall>x \<in> set news. stays rows x)"
    using batch_sent [OF assms] by (simp add: agent_log_batch_def)
  let ?m = "\<lparr>hm_type = ''log'', hm_run = rid, hm_node = node, hm_tenant = tenant_of_run env rid rows,
         hm_payload = Log_payload ([(''level'', level), (''message'', msg)] @ fs)\<rparr>"
  have "stays rows (?m, broadcast ?m (ho_hub w))" by (rule broadcast_stays [OF assms]) simp
  then show "\<exists>x. ho_sent (write_log mon env rows db rid node level capital msg fs w) = ho_sent w @ [x] \<and>
      hm_run (fst x) = rid \<and> stays rows x"
    by (intro exI [of _ "(?m, broadcast ?m (ho_hub w))"]) (simp add: write_log_def keep_line_def send_message_def)
qed

definition demo_rows :: "run_row list" where
  "demo_rows = [\<lparr>rr_id = ''run-1'', rr_tenant = ''t1'', rr_snap = Inl []\<rparr>]"

definition demo_hub :: hub_world where
  "demo_hub = \<lparr>ho_hub = [\<lparr>hc_id = 0, hc_run = [], hc_tenant = ''t1''\<rparr>, \<lparr>hc_id = 1, hc_run = [], hc_tenant = ''t2''\<rparr>],
     ho_sent = [], ho_kept = [], ho_agents = [], ho_poll = new_poll_client\<rparr>"

definition demo_line :: log_line where
  "demo_line = \<lparr>ll_command = ''c'', ll_machine = ''run-1-database-0'', ll_action = ''a'', ll_line = ''hi'', ll_stream = ''stdout''\<rparr>"

theorem logs_stay_with_tenant_witness:
  "\<exists>news. ho_sent (snd (agent_log_batch False (sr_env demo_surroundings) demo_rows demo_accounts (Inr [demo_line]) demo_hub)) = news \<and>
     news \<noteq> [] \<and> (\<forall>x \<in> set news. stays demo_rows x)"
proof -
  have "one_tenant demo_rows" by (simp add: one_tenant_def demo_rows_def)
  moreover have "de_up (sr_env demo_surroundings) ''TenantOfRun''" by (simp add: demo_surroundings_def)
  ultimately show ?thesis using logs_stay_with_tenant [of demo_rows "sr_env demo_surroundings" False demo_accounts "[demo_line]" demo_hub]
    by (auto simp: demo_hub_def)
qed

text \<open>
  Reports of agents, lines about runs that are not in the table, and lines whose query for the tenant fails go to every
  watcher of whatever tenant.
\<close>

lemma reports_go_to_all: "ho_sent (snd (agent_report (Inr r) w)) =
  ho_sent w @ [(\<lparr>hm_type = ''report'', hm_run = [], hm_node = [], hm_tenant = [], hm_payload = Report_payload r\<rparr>, ho_hub w)]"
  by (simp add: agent_report_def send_message_def broadcast_def skipped_def)

lemma no_tenant_goes_to_all:
  assumes "tenant_of_run env (extract_run_id (ll_machine l)) rows = []"
    and "\<forall>c \<in> set (ho_hub w). hc_run c \<in> {[], extract_run_id (ll_machine l)}"
  shows "snd (last (ho_sent (take_line mon env rows db l w))) = ho_hub w"
  using assms by (auto simp: take_line_sent broadcast_def skipped_def filter_id_conv)

lemma failed_lookup_goes_to_all:
  assumes "\<not> de_up env ''TenantOfRun''" and "\<forall>c \<in> set (ho_hub w). hc_run c \<in> {[], extract_run_id (ll_machine l)}"
  shows "snd (last (ho_sent (take_line mon env rows db l w))) = ho_hub w"
  by (rule no_tenant_goes_to_all [OF _ assms(2)]) (simp add: tenant_of_run_def assms(1))

lemma unknown_run_goes_to_all:
  assumes "\<not> list_ex (\<lambda>r. rr_id r = extract_run_id (ll_machine l)) rows" and "\<forall>c \<in> set (ho_hub w). hc_run c = []"
  shows "snd (last (ho_sent (take_line mon env rows db l w))) = ho_hub w"
proof -
  have "find (\<lambda>r. rr_id r = extract_run_id (ll_machine l)) rows = None"
    using assms(1) by (simp only: find_None_iff list_ex_iff) blast
  then show ?thesis using assms(2) by (intro no_tenant_goes_to_all) (auto simp: tenant_of_run_def)
qed

text \<open>Version comparison is antisymmetric.\<close>

lemma compare_versions_swap: "compare_versions b a = - compare_versions a b"
proof -
  have "compare_parts qs ps is = - compare_parts ps qs is" for ps qs "is"
  proof (induction "is")
    case (Cons i js)
    consider "version_part ps i < version_part qs i" | "version_part qs i < version_part ps i"
      | "version_part ps i = version_part qs i" by (rule linorder_cases)
    then show ?case by cases (simp_all only: compare_parts.simps less_irrefl order_less_not_sym if_True if_False not_less_iff_gr_or_eq simp_thms minus_minus Cons.IH)
  qed simp
  then show ?thesis unfolding compare_versions_def by blast
qed

end
