(* ===== verification/Deploy.thy ===== *)
theory Deploy
  imports Hub
begin

text \<open>
  The Docker deployer (\<open>domain/agent/deploy_docker.go\<close>): the containers that stand for machines. The Docker daemon is an
  argument; the laws below say what its calls do to the containers by name.
\<close>

section \<open>Containers\<close>

abbreviation docker_base_image :: string where
  "docker_base_image \<equiv> ''stroppy-agent:latest''"

abbreviation fallback_image :: string where
  "fallback_image \<equiv> ''ubuntu:22.04''"

record container_config =
  co_image :: string
  co_entrypoint :: "string list"
  co_env :: "string list"
  co_hostname :: string

record host_config =
  hf_dns :: "string list"
  hf_privileged :: bool
  hf_tmpfs :: "(string \<times> string) list"
  hf_cgroupns :: string
  hf_binds :: "string list"

text \<open>The calls on the daemon, each with its error or none.\<close>

record 'w daemon =
  da_inspect :: "string \<Rightarrow> 'w \<Rightarrow> bool"
  da_pull :: "string \<Rightarrow> 'w \<Rightarrow> string option \<times> 'w"
  da_remove :: "string \<Rightarrow> bool \<Rightarrow> 'w \<Rightarrow> string option \<times> 'w"
  da_stop :: "string \<Rightarrow> int \<Rightarrow> 'w \<Rightarrow> string option \<times> 'w"
  da_create :: "container_config \<Rightarrow> host_config \<Rightarrow> string option \<Rightarrow> string \<Rightarrow> 'w \<Rightarrow> (string + string) \<times> 'w"
  da_copy :: "string \<Rightarrow> string \<Rightarrow> string \<Rightarrow> 'w \<Rightarrow> string option \<times> 'w"
  da_start :: "string \<Rightarrow> 'w \<Rightarrow> string option \<times> 'w"

definition pull_if_missing :: "'w daemon \<Rightarrow> string \<Rightarrow> 'w \<Rightarrow> string option \<times> 'w" where
  "pull_if_missing d img w =
     (if da_inspect d img w then (None, w)
      else (case da_pull d img w of
              (Some e, w) \<Rightarrow> (Some ((''agent: docker pull '' @ img @ '': '' @ e)), w)
            | (None, w) \<Rightarrow> (None, w)))"

text \<open>The image with systemd if it can be had, else plain ubuntu.\<close>

definition choose_image :: "'w daemon \<Rightarrow> 'w \<Rightarrow> (string + string) \<times> 'w" where
  "choose_image d w =
     (case pull_if_missing d docker_base_image w of
        (None, w) \<Rightarrow> (Inr docker_base_image, w)
      | (Some _, w) \<Rightarrow>
          (case pull_if_missing d fallback_image w of
             (Some e, w) \<Rightarrow> (Inl e, w)
           | (None, w) \<Rightarrow> (Inr fallback_image, w)))"

definition agent_env :: "string \<Rightarrow> string \<Rightarrow> string \<Rightarrow> string list" where
  "agent_env server mid tok = [(''STROPPY_SERVER_ADDR='' @ server), (''STROPPY_MACHINE_ID='' @ mid), (''STROPPY_AGENT_TOKEN='' @
                     tok)]"

definition bootstrap_script :: "string \<Rightarrow> string" where
  "bootstrap_script server =
     (''set -ex && apt-get update && apt-get install -y curl && curl -fL --retry 5 --retry-delay 2 '' @
      server @ ''/agent/binary -o '' @ remote_bin_path @ '' && chmod +x '' @ remote_bin_path @
      '' && exec '' @ remote_bin_path @ '' agent'')"

definition container_name :: "string \<Rightarrow> string" where
  "container_name mid = (''stroppy-agent-'' @ mid)"

definition container_config_of :: "bool \<Rightarrow> string \<Rightarrow> string \<Rightarrow> string \<Rightarrow> container_config" where
  "container_config_of systemd server mid tok =
     \<lparr>co_image = (if systemd then docker_base_image else fallback_image),
      co_entrypoint = (if systemd then [] else [''sh'', ''-c'', bootstrap_script server]),
      co_env = agent_env server mid tok, co_hostname = container_name mid\<rparr>"

definition host_config_of :: "bool \<Rightarrow> host_config" where
  "host_config_of systemd =
     \<lparr>hf_dns = [''8.8.8.8'', ''1.1.1.1''], hf_privileged = systemd,
      hf_tmpfs = (if systemd then [(''/run'', ''exec,mode=755''), (''/run/lock'', [])] else []),
      hf_cgroupns = (if systemd then ''host'' else []),
      hf_binds = (if systemd then [''/sys/fs/cgroup:/sys/fs/cgroup:rw''] else [])\<rparr>"

definition env_file :: "string \<Rightarrow> string \<Rightarrow> string \<Rightarrow> string" where
  "env_file server mid tok = (''STROPPY_SERVER_ADDR='' @ server @ nl @ ''STROPPY_MACHINE_ID='' @
                     mid @ nl @ ''STROPPY_AGENT_TOKEN='' @ tok @ nl)"

text \<open>The env file goes into the container before it starts, for systemd.\<close>

definition start_container ::
  "'w daemon \<Rightarrow> bool \<Rightarrow> string \<Rightarrow> string \<Rightarrow> string \<Rightarrow> string \<Rightarrow> 'w \<Rightarrow> string option \<times> 'w" where
  "start_container d systemd server mid tok cid w =
     (case (if systemd then da_copy d cid ''/etc/stroppy-agent.env'' (env_file server mid tok) w else (None, w)) of
        (Some e, w) \<Rightarrow> (Some ((''agent: write env file '' @ container_name mid @
                     '': '' @ e)), w)
      | (None, w) \<Rightarrow>
          (case da_start d cid w of
             (Some e, w) \<Rightarrow> (Some ((''agent: docker start '' @ container_name mid @
                     '': '' @ e)), w)
           | (None, w) \<Rightarrow> (None, w)))"

text \<open>The id and the name of the new container.\<close>

definition deploy_agent ::
  "'w daemon \<Rightarrow> string \<Rightarrow> string \<Rightarrow> string \<Rightarrow> string \<Rightarrow> 'w \<Rightarrow> (string + string \<times> string) \<times> 'w" where
  "deploy_agent d net mid server tok w =
     (case choose_image d w of
        (Inl e, w) \<Rightarrow> (Inl e, w)
      | (Inr img, w) \<Rightarrow>
          (let systemd = (img = docker_base_image);
               name = container_name mid;
               w = snd (da_remove d name True w)
           in case da_create d (container_config_of systemd server mid tok) (host_config_of systemd)
                     (if net = [] then None else Some net) name w of
                (Inl e, w) \<Rightarrow> (Inl ((''agent: docker create '' @ name @ '': '' @ e)), w)
              | (Inr cid, w) \<Rightarrow>
                  (case start_container d systemd server mid tok cid w of
                     (Some e, w) \<Rightarrow> (Inl e, w)
                   | (None, w) \<Rightarrow> (Inr (cid, name), w))))"

definition stop_container :: "'w daemon \<Rightarrow> string \<Rightarrow> 'w \<Rightarrow> string option \<times> 'w" where
  "stop_container d cid w = da_remove d cid True w"

definition stop_graceful :: "'w daemon \<Rightarrow> string \<Rightarrow> int \<Rightarrow> 'w \<Rightarrow> string option \<times> 'w" where
  "stop_graceful d cid secs w = da_remove d cid False (snd (da_stop d cid secs w))"


section \<open>What the calls do\<close>

text \<open>
  \<open>names\<close> gives the container of a name. A removal that succeeds frees the name, a creation takes a free name, a
  creation that fails takes none, and no other call changes names.
\<close>

definition lawful_daemon :: "'w daemon \<Rightarrow> ('w \<Rightarrow> string \<rightharpoonup> string) \<Rightarrow> bool" where
  "lawful_daemon d names \<longleftrightarrow>
     (\<forall>i w. names (snd (da_pull d i w)) = names w) \<and>
     (\<forall>n f w e w'. da_remove d n f w = (e, w') \<longrightarrow> names w' = (if e = None then (names w)(n := None) else names w)) \<and>
     (\<forall>c h net n w r w'. da_create d c h net n w = (r, w') \<longrightarrow>
        (case r of Inl _ \<Rightarrow> names w' = names w | Inr cid \<Rightarrow> names w n = None \<and> names w' = (names w)(n \<mapsto> cid))) \<and>
     (\<forall>i p t w. names (snd (da_copy d i p t w)) = names w) \<and>
     (\<forall>i w. names (snd (da_start d i w)) = names w)"

lemma pull_names: "lawful_daemon d names \<Longrightarrow> pull_if_missing d img w = (e, w') \<Longrightarrow> names w' = names w"
  unfolding lawful_daemon_def pull_if_missing_def by (auto split: if_splits prod.splits option.splits) (metis snd_conv)+

lemma choose_image_names:
  assumes "lawful_daemon d names" and "choose_image d w = (r, w')"
  shows "names w' = names w"
proof -
  obtain e1 w1 where a: "pull_if_missing d docker_base_image w = (e1, w1)" by fastforce
  obtain e2 w2 where b: "pull_if_missing d fallback_image w1 = (e2, w2)" by fastforce
  show ?thesis using assms(2) pull_names [OF assms(1) a] pull_names [OF assms(1) b]
    by (cases e1; cases e2) (auto simp: choose_image_def a b)
qed

lemma start_container_names:
  assumes "lawful_daemon d names" and "start_container d systemd server mid tok cid w = (e, w')"
  shows "names w' = names w"
proof -
  obtain e1 w1 where a: "(if systemd then da_copy d cid ''/etc/stroppy-agent.env'' (env_file server mid tok) w else (None, w)) = (e1, w1)"
    by fastforce
  obtain e2 w2 where b: "da_start d cid w1 = (e2, w2)" by fastforce
  have "names w1 = names w" using assms(1) a by (cases systemd) (auto simp: lawful_daemon_def, metis snd_conv)
  moreover have "names w2 = names w1" using assms(1) b unfolding lawful_daemon_def by (metis snd_conv)
  ultimately show ?thesis using assms(2) by (cases e1; cases e2) (auto simp: start_container_def a b)
qed

text \<open>
  Deploying a machine touches no container of another name; when it succeeds the machine's name is the new
  container's, and when it fails after the creation the container is there all the same, though its id is not reported.
\<close>

lemma deploy_names:
  assumes "lawful_daemon d names" and "deploy_agent d net mid server tok w = (r, w')"
  shows "\<forall>n. n \<noteq> container_name mid \<longrightarrow> names w' n = names w n"
    "r = Inr (cid, name) \<Longrightarrow> name = container_name mid \<and> names w' name = Some cid"
proof -
  obtain x w1 where c: "choose_image d w = (x, w1)" by fastforce
  note n1 = choose_image_names [OF assms(1) c]
  obtain e2 w2 where rm: "da_remove d (container_name mid) True w1 = (e2, w2)" by fastforce
  have n2: "names w2 = (if e2 = None then (names w1)(container_name mid := None) else names w1)"
    using assms(1) rm unfolding lawful_daemon_def by blast
  have "(\<forall>n. n \<noteq> container_name mid \<longrightarrow> names w' n = names w n) \<and>
    (\<forall>cid name. r = Inr (cid, name) \<longrightarrow> name = container_name mid \<and> names w' name = Some cid)"
  proof (cases x)
    case (Inl e)
    then show ?thesis using assms(2) n1 by (auto simp: deploy_agent_def c)
  next
    case (Inr img)
    let ?s = "img = docker_base_image"
    obtain y w3 where cr: "da_create d (container_config_of ?s server mid tok) (host_config_of ?s)
        (if net = [] then None else Some net) (container_name mid) w2 = (y, w3)" by fastforce
    have n3: "case y of Inl _ \<Rightarrow> names w3 = names w2 | Inr cid \<Rightarrow> names w3 = (names w2)(container_name mid \<mapsto> cid)"
      using assms(1) cr unfolding lawful_daemon_def by (fastforce split: sum.splits)
    show ?thesis
    proof (cases y)
      case (Inl e)
      then have "w' = w3" "\<exists>e. r = Inl e" using assms(2) Inr by (auto simp: deploy_agent_def c Let_def rm cr)
      then show ?thesis using n1 n2 n3 Inl by auto
    next
      case y: (Inr k)
      obtain e4 w4 where st: "start_container d ?s server mid tok k w3 = (e4, w4)" by fastforce
      note n4 = start_container_names [OF assms(1) st]
      have "w' = w4 \<and> r = (case e4 of None \<Rightarrow> Inr (k, container_name mid) | Some e \<Rightarrow> Inl e)"
        using assms(2) Inr y by (cases e4) (auto simp: deploy_agent_def c Let_def rm cr st)
      then show ?thesis using n1 n2 n3 n4 y by (cases e4) auto
    qed
  qed
  then show "\<forall>n. n \<noteq> container_name mid \<longrightarrow> names w' n = names w n"
    "r = Inr (cid, name) \<Longrightarrow> name = container_name mid \<and> names w' name = Some cid" by blast+
qed

lemma failed_deploy_leaves_container:
  assumes "lawful_daemon d names" and "choose_image d w = (Inr img, w1)"
    and "da_create d (container_config_of (img = docker_base_image) server mid tok) (host_config_of (img = docker_base_image))
      (if net = [] then None else Some net) (container_name mid) (snd (da_remove d (container_name mid) True w1)) = (Inr cid, w2)"
    and "start_container d (img = docker_base_image) server mid tok cid w2 = (Some e, w3)"
  shows "deploy_agent d net mid server tok w = (Inl e, w3)" "names w3 (container_name mid) = Some cid"
proof -
  show "deploy_agent d net mid server tok w = (Inl e, w3)" using assms(2-4) by (simp add: deploy_agent_def Let_def)
  have "names w2 (container_name mid) = Some cid" using assms(1,3) unfolding lawful_daemon_def by (fastforce split: sum.splits)
  then show "names w3 (container_name mid) = Some cid" using start_container_names [OF assms(1,4)] by simp
qed

text \<open>A daemon that knows only names satisfies the laws.\<close>

definition named_daemon :: "(string \<rightharpoonup> string) daemon" where
  "named_daemon = \<lparr>da_inspect = \<lambda>_ _. True, da_pull = \<lambda>_ w. (None, w),
     da_remove = \<lambda>n _ w. (None, w(n := None)), da_stop = \<lambda>_ _ w. (None, w),
     da_create = \<lambda>_ _ _ n w. (if w n = None then (Inr ((''id of '' @ n)), w(n \<mapsto> (''id of '' @
                     n))) else (Inl ''in use'', w)),
     da_copy = \<lambda>_ _ _ w. (None, w), da_start = \<lambda>_ w. (None, w)\<rparr>"

lemma named_daemon_lawful: "lawful_daemon named_daemon (\<lambda>w. w)"
  by (auto simp: lawful_daemon_def named_daemon_def split: if_splits sum.splits)

end
