(* ===== verification/AgentClient.thy ===== *)
theory AgentClient
  imports PollClient AgentServer
begin

text \<open>
  What a task relies on when it sends its commands. The locale \<open>agent_client\<close> is the contract of the Go
  interface \<open>agent.Client\<close>: a call that returns no error was answered after it was made, and what was
  confirmed stays so. Under it a task that returns no error has had every command of its plan
  confirmed. The contract is proved for both clients: the queue of \<open>client_poll.go\<close> and the direct
  requests of \<open>client_http.go\<close>, whose wait for a healthy agent is modelled here too. Times are in
  milliseconds.
\<close>

section \<open>The contract\<close>

text \<open>
  \<open>reach\<close> is the passing of time; \<open>sent t p w res w'\<close> says that a call made at some time between \<open>w\<close> and
  \<open>w'\<close> has returned \<open>res\<close> by \<open>w'\<close>, and \<open>confirmed t p w w'\<close> that one made then was answered then.
\<close>

locale agent_client =
  fixes ok :: "'w \<Rightarrow> bool"
    and reach :: "'w \<Rightarrow> 'w \<Rightarrow> bool"
    and sent :: "target \<Rightarrow> payload \<Rightarrow> 'w \<Rightarrow> string option \<Rightarrow> 'w \<Rightarrow> bool"
    and confirmed :: "target \<Rightarrow> payload \<Rightarrow> 'w \<Rightarrow> 'w \<Rightarrow> bool"
  assumes reach_refl: "reach w w"
    and reach_trans: "reach w w1 \<Longrightarrow> reach w1 w2 \<Longrightarrow> reach w w2"
    and sent_reach: "sent t p w res w' \<Longrightarrow> reach w w'"
    and reach_ok: "ok w \<Longrightarrow> reach w w' \<Longrightarrow> ok w'"
    and success_confirmed: "ok w \<Longrightarrow> sent t p w None w' \<Longrightarrow> confirmed t p w w'"
    and confirmed_reach: "reach w0 w \<Longrightarrow> confirmed t p w w1 \<Longrightarrow> reach w1 w2 \<Longrightarrow> confirmed t p w0 w2"

text \<open>
  The sends of a plan. One after the other, the first error ends the task; at once, the call waits for
  all of them and returns one of their errors, if there is one.
\<close>

inductive sends_in_order ::
  "(target \<Rightarrow> payload \<Rightarrow> 'w \<Rightarrow> string option \<Rightarrow> 'w \<Rightarrow> bool) \<Rightarrow> (target \<times> payload) list \<Rightarrow> 'w \<Rightarrow> string option \<Rightarrow> 'w \<Rightarrow> bool"
  for sent where
  sends_nil: "sends_in_order sent [] w None w"
| sends_stop: "sent t p w (Some e) w' \<Longrightarrow> sends_in_order sent ((t, p) # xs) w (Some e) w'"
| sends_go_on: "sent t p w None w1 \<Longrightarrow> sends_in_order sent xs w1 res w' \<Longrightarrow> sends_in_order sent ((t, p) # xs) w res w'"

inductive_cases in_order_Cons: "sends_in_order sent (x # xs) w res w'"

definition send_all ::
  "(target \<Rightarrow> payload \<Rightarrow> 'w \<Rightarrow> string option \<Rightarrow> 'w \<Rightarrow> bool) \<Rightarrow> (target \<times> payload) list \<Rightarrow> 'w \<Rightarrow> string option \<Rightarrow> 'w \<Rightarrow> bool" where
  "send_all sent xs w res w' \<longleftrightarrow>
     (if xs = [] then res = None \<and> w' = w
      else (\<exists>rs. list_all2 (\<lambda>(t, p) r. sent t p w r w') xs rs \<and>
        (if list_all (\<lambda>r. r = None) rs then res = None else res \<noteq> None \<and> res \<in> set rs)))"

fun runs_plan ::
  "(target \<Rightarrow> payload \<Rightarrow> 'w \<Rightarrow> string option \<Rightarrow> 'w \<Rightarrow> bool) \<Rightarrow> plan \<Rightarrow> 'w \<Rightarrow> string option \<Rightarrow> 'w \<Rightarrow> bool" where
  "runs_plan sent (Plan (In_order xs) _) w res w' \<longleftrightarrow> sends_in_order sent xs w res w'"
| "runs_plan sent (Plan (At_once xs) _) w res w' \<longleftrightarrow> send_all sent xs w res w'"
| "runs_plan sent (Task_error e) w res w' \<longleftrightarrow> res = Some e \<and> w' = w"
| "runs_plan sent Task_panic w res w' \<longleftrightarrow> False"

context agent_client
begin

lemma sent_ok: "ok w \<Longrightarrow> sent t p w res w' \<Longrightarrow> ok w'"
  using reach_ok sent_reach by blast

lemma in_order_reach: "sends_in_order sent xs w res w' \<Longrightarrow> reach w w'"
  by (induction rule: sends_in_order.induct) (auto intro: reach_refl reach_trans sent_reach)

lemma in_order_confirmed:
  "sends_in_order sent xs w res w' \<Longrightarrow> ok w \<Longrightarrow> res = None \<Longrightarrow> (t, p) \<in> set xs \<Longrightarrow> confirmed t p w w'"
proof (induction rule: sends_in_order.induct)
  case (sends_go_on u q w w1 xs res w')
  have ok: "ok w1" by (rule sent_ok [OF sends_go_on(4,1)])
  show ?case
  proof (cases "(t, p) \<in> set xs")
    case True
    then show ?thesis
      using confirmed_reach [OF sent_reach [OF sends_go_on(1)] sends_go_on(3) [OF ok sends_go_on(5)] reach_refl] by simp
  next
    case False
    then have "(t, p) = (u, q)" using sends_go_on(6) by simp
    then have "confirmed t p w w1" using success_confirmed [OF sends_go_on(4)] sends_go_on(1) by simp
    then show ?thesis by (rule confirmed_reach [OF reach_refl _ in_order_reach [OF sends_go_on(2)]])
  qed
qed auto

lemma all_confirmed:
  assumes "send_all sent xs w None w'" and "ok w" and "(t, p) \<in> set xs"
  shows "confirmed t p w w'"
proof -
  obtain rs where rs: "list_all2 (\<lambda>(t, p) r. sent t p w r w') xs rs" "list_all (\<lambda>r. r = None) rs"
    using assms by (auto simp: send_all_def split: if_splits)
  obtain i where i: "i < length xs" "xs ! i = (t, p)" using assms(3) by (auto simp: in_set_conv_nth)
  have "sent t p w (rs ! i) w'" using list_all2_nthD [OF rs(1) i(1)] i(2) by simp
  moreover have "rs ! i = None" using rs i(1) by (simp add: list_all_length list_all2_lengthD)
  ultimately show ?thesis using success_confirmed [OF assms(2)] by simp
qed

lemma all_ok: "send_all sent xs w res w' \<Longrightarrow> ok w \<Longrightarrow> ok w'"
  by (cases xs) (auto simp: send_all_def list_all2_Cons1 intro: sent_ok)

lemma plan_ok: "runs_plan sent pl w res w' \<Longrightarrow> ok w \<Longrightarrow> ok w'"
  by (cases pl rule: sends_of.cases) (auto intro: all_ok reach_ok in_order_reach)

lemma plan_confirmed:
  assumes "runs_plan sent pl w None w'" and "ok w" and "(t, p) \<in> set (sends_of pl)"
  shows "confirmed t p w w'"
  using assms in_order_confirmed all_confirmed by (cases pl rule: sends_of.cases) auto

end

section \<open>The queue of commands\<close>

definition poll_sent :: "target \<Rightarrow> payload \<Rightarrow> poll_world \<Rightarrow> string option \<Rightarrow> poll_world \<Rightarrow> bool" where
  "poll_sent t p w res w' \<longleftrightarrow> (\<exists>es fs w1. poll_run w (es @ Call (tg_id t) p # fs) w' \<and> poll_run w es w1 \<and>
     length (pw_sends w1) < length (pw_sends w') \<and> sc_phase (pw_sends w' ! length (pw_sends w1)) = Returned res)"

text \<open>
  A call made after \<open>w\<close> for this machine with this payload: its command was put into the queue of the machine, and
  after \<open>w\<close> a report of its id came that is not a failure.
\<close>

definition poll_confirmed :: "target \<Rightarrow> payload \<Rightarrow> poll_world \<Rightarrow> poll_world \<Rightarrow> bool" where
  "poll_confirmed t p w w' \<longleftrightarrow> (\<exists>i. length (pw_sends w) \<le> i \<and> i < length (pw_sends w') \<and>
     sc_machine (pw_sends w' ! i) = tg_id t \<and> ac_payload (sc_cmd (pw_sends w' ! i)) = p \<and>
     (tg_id t, sc_cmd (pw_sends w' ! i)) \<in> set (pw_enqueued w') \<and>
     (\<exists>r \<in> set (drop (length (pw_reports w)) (pw_reports w')). rp_command_id r = call_id w' i \<and> rp_status r \<noteq> Report_failed))"

lemma poll_run_splits: "poll_run w (es @ fs) w' \<Longrightarrow> \<exists>w1. poll_run w es w1 \<and> poll_run w1 fs w'"
proof (induction es arbitrary: w)
  case Nil
  then show ?case by (auto intro: run_nil)
next
  case (Cons e es)
  then obtain w2 where w2: "poll_step w e w2" "poll_run w2 (es @ fs) w'" by (simp add: poll_run_simps) blast
  then show ?case using Cons(1) [OF w2(2)] by (auto intro: run_cons)
qed

lemma poll_run_det: "poll_run w es w1 \<Longrightarrow> poll_run w es w2 \<Longrightarrow> w1 = w2"
  unfolding poll_exec_run [symmetric] by simp

text \<open>A call keeps its machine and its command.\<close>

definition call_of :: "poll_world \<Rightarrow> nat \<Rightarrow> string \<times> agent_command" where
  "call_of w i = (sc_machine (pw_sends w ! i), sc_cmd (pw_sends w ! i))"

lemma call_of_step: "poll_step w e w' \<Longrightarrow> i < length (pw_sends w) \<Longrightarrow> call_of w' i = call_of w i"
  by (induction rule: poll_step.induct) (auto simp: call_of_def nth_append)

lemma call_of_run: "poll_run w es w' \<Longrightarrow> i < length (pw_sends w) \<Longrightarrow> call_of w' i = call_of w i"
proof (induction rule: poll_run.induct)
  case (run_cons w e w1 es w2)
  have "i < length (pw_sends w1)" using step_id [OF run_cons(1,4)] by simp
  then show ?case using run_cons(3) call_of_step [OF run_cons(1,4)] by simp
qed simp

lemma new_call: "poll_step w (Call mid p) w' \<Longrightarrow> length (pw_sends w') = Suc (length (pw_sends w)) \<and>
    fst (call_of w' (length (pw_sends w))) = mid \<and> ac_payload (snd (call_of w' (length (pw_sends w)))) = p"
  by (erule call_cases) (auto simp: call_of_def dest: new_command)

lemma poll_sent_call:
  assumes "poll_sent t p w res w'"
  obtains i es where "poll_run w es w'" "length (pw_sends w) \<le> i" "i < length (pw_sends w')" "sc_machine (pw_sends w' ! i) = tg_id t"
    "ac_payload (sc_cmd (pw_sends w' ! i)) = p" "sc_phase (pw_sends w' ! i) = Returned res"
proof -
  obtain es fs w1 where r: "poll_run w (es @ Call (tg_id t) p # fs) w'" "poll_run w es w1"
    and i: "length (pw_sends w1) < length (pw_sends w')" "sc_phase (pw_sends w' ! length (pw_sends w1)) = Returned res"
    using assms unfolding poll_sent_def by blast
  obtain w3 where "poll_run w es w3" "poll_run w3 (Call (tg_id t) p # fs) w'" using poll_run_splits [OF r(1)] by blast
  then have "poll_run w1 (Call (tg_id t) p # fs) w'" using poll_run_det [OF r(2)] by simp
  then obtain w2 where w2: "poll_step w1 (Call (tg_id t) p) w2" "poll_run w2 fs w'"
    using poll_run_simps(2) by metis
  have "call_of w' (length (pw_sends w1)) = call_of w2 (length (pw_sends w1))"
    using call_of_run [OF w2(2)] new_call [OF w2(1)] by simp
  then show ?thesis using that [OF r(1) sends_run [OF r(2)] i(1)] i(2) new_call [OF w2(1)] by (simp add: call_of_def)
qed

definition poll_reach :: "poll_world \<Rightarrow> poll_world \<Rightarrow> bool" where
  "poll_reach w w' \<longleftrightarrow> (\<exists>es. poll_run w es w')"

lemma reports_grow: "poll_run w es w' \<Longrightarrow> \<exists>rs. pw_reports w' = pw_reports w @ rs"
proof (induction rule: poll_run.induct)
  case (run_cons w e w1 es w2)
  have "\<exists>rs. pw_reports w1 = pw_reports w @ rs" using run_cons(1) by (induction rule: poll_step.induct) auto
  then show ?case using run_cons(3) by auto
qed simp

lemma enqueued_grow: "poll_run w es w' \<Longrightarrow> set (pw_enqueued w) \<subseteq> set (pw_enqueued w')"
proof (induction rule: poll_run.induct)
  case (run_cons w e w1 es w2)
  have "set (pw_enqueued w) \<subseteq> set (pw_enqueued w1)" using run_cons(1) by (induction rule: poll_step.induct) auto
  then show ?case using run_cons(3) by auto
qed simp

text \<open>
  What the calls with numbers from \<open>n\<close> on hold: their channels only reports that came after the first \<open>m\<close>, and
  those past the queue were in it.
\<close>

definition answered_since :: "nat \<Rightarrow> nat \<Rightarrow> poll_world \<Rightarrow> bool" where
  "answered_since n m w \<longleftrightarrow> m \<le> length (pw_reports w) \<and> (\<forall>i. n \<le> i \<and> i < length (pw_sends w) \<longrightarrow>
     (\<forall>r. pl_results (pw_client w) (call_id w i) = Some (Some r) \<longrightarrow> rp_command_id r = call_id w i \<and> r \<in> set (drop m (pw_reports w))) \<and>
     (sc_phase (pw_sends w ! i) \<in> {Enqueued, Returned None} \<longrightarrow> call_of w i \<in> set (pw_enqueued w)) \<and>
     (sc_phase (pw_sends w ! i) = Returned None \<longrightarrow>
        (\<exists>r \<in> set (drop m (pw_reports w)). rp_command_id r = call_id w i \<and> rp_status r \<noteq> Report_failed)))"

lemma answered_since_step: "poll_step w e w' \<Longrightarrow> poll_inv w \<Longrightarrow> answered_since n m w \<Longrightarrow> answered_since n m w'"
proof (induction rule: poll_step.induct)
  case (call mid p w cmd c)
  note new = new_command [OF call(1)]
  have none: "pl_results (pw_client w) (ac_id cmd) = None"
  proof (rule ccontr)
    assume "pl_results (pw_client w) (ac_id cmd) \<noteq> None"
    with call(2) obtain i where "i < length (pw_sends w)" "call_id w i = ac_id cmd"
      unfolding poll_inv_def results_ok_def using call_ids_iff by blast
    then show False using fresh_id [of w i mid] call(2) new by (simp add: poll_inv_def)
  qed
  show ?case using call(3) new none
    by (auto simp: answered_since_def call_id_def call_of_def nth_append less_Suc_eq)
next
  case (answered w i s r)
  have other: "call_id w j \<noteq> call_id w i" if "j < length (pw_sends w)" "j \<noteq> i" for j
    using ids_distinct [of w j i] answered(1,3) that by (auto simp: poll_inv_def call_at_iff call_id_def)
  show ?case using answered other
    by (auto simp: answered_since_def call_at_iff delete_result_def call_of_def call_id_def report_result_def split: if_splits)
next
  case (sees_agent w i s)
  then show ?case
    by (auto simp: answered_since_def call_at_iff register_result_def call_of_def call_id_def)
next
  case (enqueues w i s c)
  then show ?case using enqueue_Some [OF enqueues(2)]
    by (auto simp: answered_since_def call_at_iff call_of_def call_id_def)
next
  case (poll_takes mid w cmd c)
  then show ?case using poll_take_Some [OF poll_takes(2)] by (auto simp: answered_since_def call_of_def call_id_def)
next
  case (report_arrives w r)
  then show ?case
    by (auto simp: answered_since_def deliver_report_def call_of_def call_id_def split: option.splits if_splits)
qed (auto simp: answered_since_def call_at_iff delete_result_def call_of_def call_id_def)

lemma answered_since_run: "poll_run w es w' \<Longrightarrow> poll_inv w \<Longrightarrow> answered_since n m w \<Longrightarrow> answered_since n m w'"
  by (induction rule: poll_run.induct) (auto intro: answered_since_step poll_inv_step)

lemma poll_confirmed_run:
  assumes "poll_run w0 es w" and "poll_run w1 fs w2" and "poll_confirmed t p w w1"
  shows "poll_confirmed t p w0 w2"
proof -
  obtain i r where i: "length (pw_sends w) \<le> i" "i < length (pw_sends w1)" "sc_machine (pw_sends w1 ! i) = tg_id t"
    "ac_payload (sc_cmd (pw_sends w1 ! i)) = p" "(tg_id t, sc_cmd (pw_sends w1 ! i)) \<in> set (pw_enqueued w1)"
    and r: "r \<in> set (drop (length (pw_reports w)) (pw_reports w1))" "rp_command_id r = call_id w1 i" "rp_status r \<noteq> Report_failed"
    using assms(3) unfolding poll_confirmed_def by blast
  obtain rs ss where rs: "pw_reports w = pw_reports w0 @ rs" "pw_reports w2 = pw_reports w1 @ ss"
    using reports_grow [OF assms(1)] reports_grow [OF assms(2)] by blast
  have "drop (length (pw_reports w)) (pw_reports w1) = drop (length rs) (drop (length (pw_reports w0)) (pw_reports w1))"
    using rs(1) by (simp add: add.commute)
  then have "r \<in> set (drop (length (pw_reports w0)) (pw_reports w1))" using r(1) in_set_dropD by metis
  then have "r \<in> set (drop (length (pw_reports w0)) (pw_reports w2))" using rs(2) by simp
  moreover have "call_of w2 i = call_of w1 i" by (rule call_of_run [OF assms(2) i(2)])
  ultimately show ?thesis unfolding poll_confirmed_def
    using i r(2,3) sends_run [OF assms(1)] sends_run [OF assms(2)] enqueued_grow [OF assms(2)]
    by (intro exI [of _ i]) (auto simp: call_of_def call_id_def)
qed

interpretation poll_client: agent_client poll_inv poll_reach poll_sent poll_confirmed
proof
  fix w show "poll_reach w w" using run_nil by (auto simp: poll_reach_def)
next
  fix w w1 w2 assume "poll_reach w w1" "poll_reach w1 w2"
  then show "poll_reach w w2" unfolding poll_reach_def by (blast intro: poll_run_append)
next
  fix t p w res w' assume "poll_sent t p w res w'"
  then show "poll_reach w w'" by (rule poll_sent_call) (auto simp: poll_reach_def)
next
  fix w w' assume "poll_inv w" "poll_reach w w'"
  then show "poll_inv w'" using poll_inv_run by (auto simp: poll_reach_def)
next
  fix t p w w' assume inv: "poll_inv w" and "poll_sent t p w None w'"
  then obtain i es where i: "poll_run w es w'" "length (pw_sends w) \<le> i" "i < length (pw_sends w')"
    "sc_machine (pw_sends w' ! i) = tg_id t"
    "ac_payload (sc_cmd (pw_sends w' ! i)) = p" "sc_phase (pw_sends w' ! i) = Returned None"
    using poll_sent_call by metis
  have "answered_since (length (pw_sends w)) (length (pw_reports w)) w'"
    by (rule answered_since_run [OF i(1) inv]) (auto simp: answered_since_def)
  then show "poll_confirmed t p w w'" unfolding poll_confirmed_def answered_since_def
    using i(2-6) by (intro exI [of _ i]) (auto simp: call_of_def)
next
  fix t p w0 w w1 w2 assume "poll_reach w0 w" "poll_confirmed t p w w1" "poll_reach w1 w2"
  then show "poll_confirmed t p w0 w2" using poll_confirmed_run by (auto simp: poll_reach_def)
qed

section \<open>Direct requests\<close>

fun health_backoff :: "nat \<Rightarrow> nat" where
  "health_backoff 0 = 2000"
| "health_backoff (Suc k) = min (2 * health_backoff k) 16000"

text \<open>A probe that takes more than five seconds is given up.\<close>

type_synonym health = "nat \<Rightarrow> nat \<times> bool"

definition timed :: "nat \<times> bool \<Rightarrow> nat \<times> bool" where
  "timed x = (if fst x > 5000 then (5000, False) else x)"

definition healthy_error :: "target \<Rightarrow> string" where
  "healthy_error t = (''agent '' @ tg_id t @ '' did not become healthy within 1m0s'')"

lemma backoff_pos [simp]: "0 < health_backoff k"
  by (induction k) auto

text \<open>
  The loop of \<open>waitForAgent\<close>, with the time at which the context is cancelled, if it is, and the error
  then; the result with the time and the number of probes.
\<close>

function wait_healthy ::
  "health \<Rightarrow> (nat \<times> string) option \<Rightarrow> target \<Rightarrow> nat \<Rightarrow> nat \<Rightarrow> nat \<Rightarrow> string option \<times> nat \<times> nat" where
  "wait_healthy probe cancel t deadline k now =
     (if now > deadline then (Some (healthy_error t), now, k)
      else (let (d, up) = timed (probe now); now' = now + d
        in if up then (None, now', Suc k)
           else (case cancel of
               Some (tc, e) \<Rightarrow>
                 if tc \<le> now' + health_backoff k then (Some e, max tc now', Suc k)
                 else wait_healthy probe cancel t deadline (Suc k) (now' + health_backoff k)
             | None \<Rightarrow> wait_healthy probe cancel t deadline (Suc k) (now' + health_backoff k))))"
  by pat_completeness auto
termination
  by (relation "measure (\<lambda>(_, _, _, deadline, _, now). Suc deadline - now)") (auto simp: diff_less_mono2 less_Suc_eq_le trans_less_add1)

declare wait_healthy.simps [simp del]

lemma timed_le: "fst (timed x) \<le> 5000"
  by (simp add: timed_def)

lemma backoff_le: "health_backoff k \<le> 16000"
  by (induction k) auto

text \<open>Probe \<open>k\<close> is made at the earliest after the waits before it; the seventh would be after 62 seconds.\<close>

definition waited :: "nat \<Rightarrow> nat" where
  "waited k = sum_list (map health_backoff [0..<k])"

lemma waited_simps [simp]: "waited 0 = 0" "waited (Suc k) = waited k + health_backoff k"
  by (simp_all add: waited_def)

lemma waited_mono: "j \<le> k \<Longrightarrow> waited j \<le> waited k"
  by (induction k) (auto simp: le_Suc_eq)

lemma waited_six: "waited 6 = 62000"
proof -
  have six: "6 = Suc (Suc (Suc (Suc (Suc (Suc 0)))))" by simp
  show ?thesis unfolding six by simp
qed

lemma few_probes: "start + waited k \<le> now \<Longrightarrow> now \<le> start + 60000 \<Longrightarrow> k < 6"
  using waited_mono [of 6 k] waited_six by (cases "k < 6") auto

definition wait_result :: "(nat \<times> string) option \<Rightarrow> target \<Rightarrow> nat \<Rightarrow> string option \<times> nat \<times> nat \<Rightarrow> bool" where
  "wait_result cancel t start r \<longleftrightarrow> (case r of (res, finish, n) \<Rightarrow> n \<le> 6 \<and> finish \<le> start + 81000 \<and>
     (res = None \<or> res = Some (healthy_error t) \<and> start + 60000 < finish \<or> (\<exists>tc e. cancel = Some (tc, e) \<and> res = Some e)))"

lemma wait_healthy_bounds:
  "deadline = start + 60000 \<Longrightarrow> start + waited k \<le> now \<Longrightarrow> now \<le> start + 81000 \<Longrightarrow> k \<le> 6 \<Longrightarrow>
     wait_result cancel t start (wait_healthy probe cancel t deadline k now)"
proof (induction probe cancel t deadline k now rule: wait_healthy.induct)
  case (1 probe cancel t deadline k now)
  show ?case
  proof (cases "now > deadline")
    case True
    then show ?thesis using 1(3-6) by (simp add: wait_healthy.simps [of _ _ _ _ _ now] wait_result_def)
  next
    case False
    then have k: "k < 6" using few_probes [of start k now] 1(3,4) by simp
    obtain d up where d: "timed (probe now) = (d, up)" by (cases "timed (probe now)")
    have d5: "d \<le> 5000" using timed_le [of "probe now"] d by simp
    let ?next = "now + d + health_backoff k"
    have nxt: "start + waited (Suc k) \<le> ?next" "?next \<le> start + 81000" "Suc k \<le> 6" "now + d \<le> start + 81000"
      using 1(3,4) False d5 k backoff_le [of k] by simp_all
    show ?thesis
    proof (cases up)
      case True
      then show ?thesis using False d d5 k nxt
        by (simp add: wait_healthy.simps [of _ _ _ _ _ now] wait_result_def)
    next
      case down: False
      show ?thesis
      proof (cases cancel)
        case None
        have "wait_result cancel t start (wait_healthy probe cancel t deadline (Suc k) ?next)"
          using 1(1) [OF False d [symmetric] refl refl down None 1(3) nxt(1-3)] by simp
        then show ?thesis using False d down None by (simp add: wait_healthy.simps [of _ _ _ _ _ now])
      next
        case (Some ce)
        obtain tc e where ce: "cancel = Some (tc, e)" using Some by (cases ce) auto
        show ?thesis
        proof (cases "tc \<le> ?next")
          case True
          then show ?thesis using False d down ce nxt
            by (simp add: wait_healthy.simps [of _ _ _ _ _ now] wait_result_def)
        next
          case later: False
          have "wait_result cancel t start (wait_healthy probe cancel t deadline (Suc k) ?next)"
            using 1(2) [OF False d [symmetric] refl refl down ce _ later 1(3) nxt(1-3)] by simp
          then show ?thesis using False d down ce later by (simp add: wait_healthy.simps [of _ _ _ _ _ now])
        qed
      qed
    qed
  qed
qed

datatype exchange = Do_fails string | Read_fails string | Exchanged nat string

definition tg_addr :: "target \<Rightarrow> string" where
  "tg_addr t = (''http://'' @ tg_host t @ '':'' @ itoa (tg_agent_port t))"

fun exchange_result ::
  "(string \<Rightarrow> string + report) \<Rightarrow> target \<Rightarrow> agent_command \<Rightarrow> exchange \<Rightarrow> string option" where
  "exchange_result decode t cmd (Do_fails e) = Some (''agent: POST '' @ tg_addr t @
                     ''/execute: '' @ e)"
| "exchange_result decode t cmd (Read_fails e) = Some (''agent: read response from '' @ tg_id t @
                     '': '' @ e)"
| "exchange_result decode t cmd (Exchanged code body) =
     (if code \<noteq> 200 then Some (''agent '' @ tg_id t @ '' returned HTTP '' @
                     itoa (int code) @ '': '' @ body)
      else (case decode body of
          Inl e \<Rightarrow> Some (''agent: decode report from '' @ tg_id t @ '': '' @ e)
        | Inr r \<Rightarrow> report_result (tg_id t) cmd r))"

text \<open>The result of a call, and whether it got as far as the request.\<close>

definition http_send :: "(string \<Rightarrow> string + report) \<Rightarrow> health \<Rightarrow> (nat \<times> string) option \<Rightarrow> nat \<Rightarrow> exchange \<Rightarrow>
    target \<Rightarrow> agent_command \<Rightarrow> string option \<times> bool" where
  "http_send decode probe cancel start x t cmd =
     (case wait_healthy probe cancel t (start + 60000) 0 start of
        (Some e, _) \<Rightarrow> (Some (''agent '' @ tg_id t @ '' not healthy: '' @ e), False)
      | (None, _) \<Rightarrow> (exchange_result decode t cmd x, True))"

text \<open>The world is the list of the requests made so far, by this call or by others, with their outcomes.\<close>

type_synonym exchanges = "(target \<times> payload \<times> exchange) list"

definition http_sent ::
  "(string \<Rightarrow> string + report) \<Rightarrow> target \<Rightarrow> payload \<Rightarrow> exchanges \<Rightarrow> string option \<Rightarrow> exchanges \<Rightarrow> bool" where
  "http_sent decode t p w res w' \<longleftrightarrow> (\<exists>probe cancel start x posted us vs.
     http_send decode probe cancel start x t \<lparr>ac_id = [], ac_payload = p\<rparr> = (res, posted) \<and>
     w' = w @ us @ (if posted then [(t, p, x)] else []) @ vs)"

definition http_reach :: "exchanges \<Rightarrow> exchanges \<Rightarrow> bool" where
  "http_reach w w' \<longleftrightarrow> (\<exists>us. w' = w @ us)"

definition http_confirmed :: "(string \<Rightarrow> string + report) \<Rightarrow> target \<Rightarrow> payload \<Rightarrow> exchanges \<Rightarrow> exchanges \<Rightarrow> bool" where
  "http_confirmed decode t p w w' \<longleftrightarrow> (\<exists>us body r. w' = w @ us \<and> (t, p, Exchanged 200 body) \<in> set us \<and> decode body = Inr r \<and>
     rp_status r \<noteq> Report_failed)"

lemma exchange_success:
  "exchange_result decode t cmd x = None \<Longrightarrow>
     \<exists>body r. x = Exchanged 200 body \<and> decode body = Inr r \<and> rp_status r \<noteq> Report_failed"
  by (cases x) (auto simp: report_result_def split: if_splits sum.splits)

lemma http_send_success:
  "http_send decode probe cancel start x t cmd = (None, posted) \<Longrightarrow> posted \<and> exchange_result decode t cmd x = None"
  by (auto simp: http_send_def split: prod.splits option.splits)

interpretation http_client: agent_client "\<lambda>_. True" http_reach "http_sent decode" "http_confirmed decode" for decode
proof
  fix t p w w' assume "http_sent decode t p w None w'"
  then show "http_confirmed decode t p w w'"
    by (fastforce simp: http_sent_def http_confirmed_def dest!: http_send_success exchange_success)
next
  fix t p w0 w w1 w2 assume "http_reach w0 w" "http_confirmed decode t p w w1" "http_reach w1 w2"
  then show "http_confirmed decode t p w0 w2" by (fastforce simp: http_reach_def http_confirmed_def)
qed (auto simp: http_sent_def http_reach_def)

section \<open>Properties\<close>

text \<open>
  C16. A task that returns no error has had its whole plan confirmed: whatever else happens on the server, if the sends
  of a plan, made through the command queue in order or all at once between \<open>w\<close> and \<open>w'\<close>, return no error, then for
  each of them a call was made in this time for that machine with exactly that payload, its command, with an id
  of no other call before or since, was put into the machine's queue, and in this time a report of that id arrived
  that is not a failure. Who reports is not checked by the server (any token of an agent will do), and reports and
  calls of earlier attempts do not count.
\<close>

theorem plan_success_confirmed:
  assumes "poll_run poll_init es w" and "runs_plan poll_sent pl w None w'" and "(t, p) \<in> set (sends_of pl)"
  shows "\<exists>i. length (pw_sends w) \<le> i \<and> i < length (pw_sends w') \<and>
    sc_machine (pw_sends w' ! i) = tg_id t \<and> ac_payload (sc_cmd (pw_sends w' ! i)) = p \<and>
    (\<forall>j < length (pw_sends w'). j \<noteq> i \<longrightarrow> call_id w' j \<noteq> call_id w' i) \<and>
    (tg_id t, sc_cmd (pw_sends w' ! i)) \<in> set (pw_enqueued w') \<and>
    (\<exists>r \<in> set (drop (length (pw_reports w)) (pw_reports w')). rp_command_id r = call_id w' i \<and> rp_status r \<noteq> Report_failed)"
proof -
  have inv: "poll_inv w" by (rule poll_inv_run [OF assms(1) poll_inv_init])
  then have "poll_inv w'" using poll_client.plan_ok [OF assms(2)] by blast
  then have "\<forall>j < length (pw_sends w'). j \<noteq> i \<longrightarrow> call_id w' j \<noteq> call_id w' i" if "i < length (pw_sends w')" for i
    using that unfolding poll_inv_def ids_ok_def by blast
  then show ?thesis using poll_client.plan_confirmed [OF assms(2) inv assms(3)] unfolding poll_confirmed_def by blast
qed

definition demo_target :: target where
  "demo_target = \<lparr>tg_id = ''m1'', tg_host = ''h'', tg_internal = ''i'', tg_agent_port = 9090\<rparr>"

lemma demo_sent: "\<exists>w. poll_sent demo_target demo_install poll_init None w"
proof -
  obtain w where w: "poll_run poll_init (demo_events @ demo_answers) w" "length (pw_sends w) = 1"
    "sc_phase (pw_sends w ! 0) = Returned None" using demo_reach_end by blast
  have split: "demo_events @ demo_answers =
      [Poll_arrives ''m1''] @ Call (tg_id demo_target) demo_install # (drop 2 demo_events @ demo_answers)"
    by (simp add: demo_events_def demo_target_def)
  obtain w1 where w1: "poll_run poll_init [Poll_arrives ''m1''] w1" "length (pw_sends w1) = 0"
    by (simp add: poll_exec_run [symmetric] poll_init_def)
  show ?thesis unfolding poll_sent_def
    using w w1 unfolding split by (metis less_one)
qed

theorem plan_success_confirmed_witness:
  "\<exists>w. \<exists>i < length (pw_sends w). sc_machine (pw_sends w ! i) = ''m1'' \<and> ac_payload (sc_cmd (pw_sends w ! i)) = demo_install \<and>
     (\<exists>r \<in> set (pw_reports w). rp_command_id r = call_id w i \<and> rp_status r \<noteq> Report_failed)"
proof -
  obtain w where w: "poll_sent demo_target demo_install poll_init None w" using demo_sent by blast
  have plan: "runs_plan poll_sent (Plan (In_order [(demo_target, demo_install)]) None) poll_init None w"
    using sends_go_on [of poll_sent, OF w sends_nil] by simp
  have mem: "(demo_target, demo_install) \<in> set (sends_of (Plan (In_order [(demo_target, demo_install)]) None))" by simp
  from plan_success_confirmed [OF run_nil plan mem] show ?thesis
    by (auto simp: demo_target_def poll_init_def intro!: exI [of _ w])
qed

text \<open>
  The wait for a healthy agent ends: whatever the probes answer and however long they take, the loop
  makes at most six of them and is over within 81 seconds, with no error, with the deadline's error after more
  than sixty seconds, or with the error of a cancelled context.
\<close>

theorem wait_healthy_bounded:
  "\<exists>res finish n. wait_healthy probe cancel t (start + 60000) 0 start = (res, finish, n) \<and>
     n \<le> 6 \<and> finish \<le> start + 81000 \<and>
     (res = None \<or> res = Some (healthy_error t) \<and> start + 60000 < finish \<or> (\<exists>tc e. cancel = Some (tc, e) \<and> res = Some e))"
proof -
  obtain res finish n where w: "wait_healthy probe cancel t (start + 60000) 0 start = (res, finish, n)"
    by (cases "wait_healthy probe cancel t (start + 60000) 0 start") auto
  moreover have "wait_result cancel t start (res, finish, n)"
    using wait_healthy_bounds [of "start + 60000" start 0 start cancel t probe] w by simp
  ultimately show ?thesis by (simp add: wait_result_def)
qed

end
