(* ===== verification/Session.thy ===== *)
theory Session
  imports Hub
begin

text \<open>
  The sessions of the command line (\<open>cmd/cli/credentials.go\<close>, \<open>cloud.go\<close>, \<open>cloud_auth.go\<close>): the file of
  credentials, the renewal of an expired token before every request, logging in and out, choosing a tenant or a profile.
  The other side of each exchange is an argument; it is then taken to be the server of theory Accounts, and
  a session that was opened by a login is shown to last as long as the refresh tokens do.
\<close>

section \<open>Credentials\<close>

record profile =
  pf_server :: string
  pf_tenant :: string
  pf_access :: string
  pf_refresh :: string

record credentials =
  cd_profiles :: "(string \<times> profile) list"
  cd_current :: string

text \<open>The file: absent, unreadable, or with text that decodes or not.\<close>

datatype credentials_file = No_file | Unreadable string | Content "string + credentials"

definition load_credentials :: "credentials_file \<Rightarrow> string + credentials" where
  "load_credentials f =
     (case f of
        No_file \<Rightarrow> Inr \<lparr>cd_profiles = [], cd_current = ''default''\<rparr>
      | Unreadable e \<Rightarrow> Inl e
      | Content (Inl e) \<Rightarrow> Inl ((''parse credentials: '' @ e))
      | Content (Inr c) \<Rightarrow> Inr c)"

text \<open>Flags and environment of a command; \<open>ce_disk\<close> is the error of writing the file, if there is one.\<close>

record cli_env =
  ce_server :: string
  ce_token :: string
  ce_profile :: string
  ce_env_server :: string
  ce_env_token :: string
  ce_env_profile :: string
  ce_disk :: "string option"

definition save_credentials :: "cli_env \<Rightarrow> credentials \<Rightarrow> credentials_file \<Rightarrow> string option \<times> credentials_file" where
  "save_credentials ce c f = (case ce_disk ce of Some e \<Rightarrow> (Some e, f) | None \<Rightarrow> (None, Content (Inr c)))"

definition current_profile :: "credentials \<Rightarrow> profile option" where
  "current_profile c = map_of (cd_profiles c) (cd_current c)"

definition resolve_profile :: "cli_env \<Rightarrow> credentials \<Rightarrow> string" where
  "resolve_profile ce c = str_or (ce_profile ce) (str_or (ce_env_profile ce) (cd_current c))"

definition put_profile :: "string \<Rightarrow> profile \<Rightarrow> credentials \<Rightarrow> credentials" where
  "put_profile name p c = c\<lparr>cd_profiles := AList.update name p (cd_profiles c)\<rparr>"

section \<open>The client\<close>

definition trim_slashes :: "string \<Rightarrow> string" where
  "trim_slashes s = rev (dropWhile (\<lambda>c. c = CHR ''/'') (rev s))"

record cloud_client =
  cc_server :: string
  cc_token :: string
  cc_creds :: credentials
  cc_profile :: string
  cc_file :: credentials_file

definition cc_prof :: "cloud_client \<Rightarrow> profile option" where
  "cc_prof c = map_of (cd_profiles (cc_creds c)) (cc_profile c)"

definition new_cloud_client :: "cli_env \<Rightarrow> credentials_file \<Rightarrow> string + cloud_client" where
  "new_cloud_client ce f =
     (case load_credentials f of
        Inl e \<Rightarrow> Inl ((''load credentials: '' @ e))
      | Inr creds \<Rightarrow>
          (let name = resolve_profile ce creds;
               prof = map_of (cd_profiles creds) name;
               server = str_or (ce_server ce) (str_or (ce_env_server ce)
                 (str_or (case prof of None \<Rightarrow> [] | Some p \<Rightarrow> pf_server p) ''http://localhost:8080''));
               tok = str_or (ce_token ce) (str_or (ce_env_token ce) (case prof of None \<Rightarrow> [] | Some p \<Rightarrow> pf_access p))
           in Inr \<lparr>cc_server = trim_slashes server, cc_token = tok, cc_creds = creds, cc_profile = name, cc_file = f\<rparr>))"

text \<open>
  \<open>decode\<close> reads the expiry of the middle part of a token (\<open>None\<close>: not base64 or not JSON; 0 when it has none).
\<close>

definition is_jwt_expired :: "(string \<Rightarrow> int option) \<Rightarrow> int \<Rightarrow> string \<Rightarrow> bool" where
  "is_jwt_expired decode now tok =
     (let parts = split_on CHR ''.'' tok in
      if length parts \<noteq> 3 then False
      else (case decode (parts ! 1) of None \<Rightarrow> True | Some e \<Rightarrow> now > e - 30))"

text \<open>What comes back from the server: nothing, or a status with a body that decodes or not.\<close>

datatype 'a http_exchange = No_answer string | Answered nat "string + 'a"

text \<open>A renewal answers with an access token and perhaps a cookie with a new refresh token.\<close>

type_synonym 'w renewal = "string \<Rightarrow> 'w \<Rightarrow> (string \<times> string option) http_exchange \<times> 'w"

definition renewed :: "cli_env \<Rightarrow> profile \<Rightarrow> string \<times> string option \<Rightarrow> cloud_client \<Rightarrow> cloud_client" where
  "renewed ce p r c =
     (let creds = put_profile (cc_profile c)
            (p\<lparr>pf_refresh := (case snd r of None \<Rightarrow> pf_refresh p | Some v \<Rightarrow> v), pf_access := fst r\<rparr>) (cc_creds c)
      in c\<lparr>cc_token := fst r, cc_creds := creds, cc_file := snd (save_credentials ce creds (cc_file c))\<rparr>)"

definition ensure_valid_token ::
  "cli_env \<Rightarrow> (string \<Rightarrow> bool) \<Rightarrow> 'w renewal \<Rightarrow> cloud_client \<Rightarrow> 'w \<Rightarrow> string option \<times> cloud_client \<times> 'w" where
  "ensure_valid_token ce expired post c w =
     (if ce_token ce \<noteq> [] \<or> ce_env_token ce \<noteq> [] then (None, c, w)
      else (case cc_prof c of
              None \<Rightarrow> (None, c, w)
            | Some p \<Rightarrow>
                if pf_refresh p = [] \<or> \<not> expired (cc_token c) then (None, c, w)
                else (case post (pf_refresh p) w of
                        (No_answer e, w') \<Rightarrow> (Some ((''refresh request failed: '' @ e)), c, w')
                      | (Answered code body, w') \<Rightarrow>
                          if code \<noteq> 200 then (Some ''session expired, please run: stroppy-cloud cloud login'', c, w')
                          else (case body of
                                  Inl e \<Rightarrow> (Some ((''parse refresh response: '' @ e)), c, w')
                                | Inr r \<Rightarrow> (None, renewed ce p r c, w')))))"

text \<open>A request with the client's token; \<open>send\<close> takes the authorization header.\<close>

definition authorization :: "string \<Rightarrow> string" where
  "authorization tok = (if tok = [] then [] else (''Bearer '' @ tok))"

definition do_request ::
  "cli_env \<Rightarrow> (string \<Rightarrow> bool) \<Rightarrow> 'w renewal \<Rightarrow> (string \<Rightarrow> 'w \<Rightarrow> 'a \<times> 'w) \<Rightarrow> cloud_client \<Rightarrow> 'w \<Rightarrow> (string + 'a) \<times> cloud_client \<times> 'w" where
  "do_request ce expired post send c w =
     (case ensure_valid_token ce expired post c w of
        (Some e, c, w) \<Rightarrow> (Inl e, c, w)
      | (None, c, w) \<Rightarrow> (case send (authorization (cc_token c)) w of (r, w) \<Rightarrow> (Inr r, c, w)))"

text \<open>A command that makes one request: its result, the file it leaves and the world.\<close>

definition cli_command ::
  "cli_env \<Rightarrow> (string \<Rightarrow> bool) \<Rightarrow> 'w renewal \<Rightarrow> (string \<Rightarrow> 'w \<Rightarrow> 'a \<times> 'w) \<Rightarrow> credentials_file \<Rightarrow> 'w \<Rightarrow> (string + 'a) \<times> credentials_file \<times> 'w" where
  "cli_command ce expired post send f w =
     (case new_cloud_client ce f of
        Inl e \<Rightarrow> (Inl e, f, w)
      | Inr c \<Rightarrow> (case do_request ce expired post send c w of (r, c, w) \<Rightarrow> (r, cc_file c, w)))"

section \<open>Logging in and out\<close>

record me_response =
  me_user :: string
  me_name :: string
  me_root :: bool
  me_tenant :: string
  me_role :: string
  me_tenants :: "(string \<times> string \<times> string) list"

definition atoi :: "string \<Rightarrow> int option" where
  "atoi s =
     (let (neg, ds) = (case s of [] \<Rightarrow> (False, [])
            | c # cs \<Rightarrow> if c = CHR ''-'' then (True, cs) else if c = CHR ''+'' then (False, cs) else (False, s))
      in if ds \<noteq> [] \<and> list_all is_digit ds then Some (if neg then - digits_val ds else digits_val ds) else None)"

text \<open>The tenant of a login: its id, name and role; \<open>choice\<close> is what was typed at the prompt.\<close>

definition chosen_index :: "string \<Rightarrow> nat \<Rightarrow> nat option" where
  "chosen_index choice n =
     (if choice = [] then Some 0
      else (case atoi choice of None \<Rightarrow> None | Some i \<Rightarrow> if i < 1 \<or> i > int n then None else Some (nat (i - 1))))"

definition named_tenant :: "me_response \<Rightarrow> string \<times> string \<times> string \<Rightarrow> string \<times> string \<times> string" where
  "named_tenant me x =
     (let (tid, name, role) = x;
          (name, role) = (if name = [] \<and> tid \<noteq> [] then
              (case find (\<lambda>t. fst t = tid) (me_tenants me) of None \<Rightarrow> (name, role) | Some t \<Rightarrow> snd t)
            else (name, role))
      in case me_tenants me of
           [t] \<Rightarrow> if name = [] then t else (tid, name, role)
         | _ \<Rightarrow> (tid, name, role))"

definition choose_tenant :: "me_response \<Rightarrow> string \<Rightarrow> string + (string \<times> string \<times> string)" where
  "choose_tenant me choice =
     (if length (me_tenants me) > 1 \<and> me_tenant me = [] then
        (case chosen_index choice (length (me_tenants me)) of
           None \<Rightarrow> Inl ((''invalid tenant selection: '' @ choice))
         | Some i \<Rightarrow> Inr (named_tenant me (me_tenants me ! i)))
      else Inr (named_tenant me (me_tenant me, [], me_role me)))"

record login_input =
  li_server :: string
  li_user :: string
  li_password :: string
  li_choice :: string

definition login_server :: "cli_env \<Rightarrow> login_input \<Rightarrow> string" where
  "login_server ce li =
     trim_slashes (str_or (ce_server ce) (str_or (ce_env_server ce) (str_or (li_server li) ''http://localhost:8080'')))"

text \<open>The exchanges of a login: \<open>login\<close>, \<open>me\<close> and \<open>select-tenant\<close>, each on the state of the server.\<close>

definition save_login ::
  "cli_env \<Rightarrow> string \<Rightarrow> string \<Rightarrow> string \<Rightarrow> string \<Rightarrow> credentials_file \<Rightarrow> string option \<times> credentials_file" where
  "save_login ce server tenant tok rtok f =
     (case load_credentials f of
        Inl e \<Rightarrow> (Some ((''load credentials: '' @ e)), f)
      | Inr creds \<Rightarrow>
          (let name = resolve_profile ce creds;
               creds = (put_profile name \<lparr>pf_server = server, pf_tenant = tenant, pf_access = tok, pf_refresh = rtok\<rparr> creds)
                 \<lparr>cd_current := name\<rparr>
           in case save_credentials ce creds f of
                (Some e, f) \<Rightarrow> (Some ((''save credentials: '' @ e)), f)
              | (None, f) \<Rightarrow> (None, f)))"

definition login_tenant ::
  "me_response \<Rightarrow> string \<Rightarrow> (string \<Rightarrow> string \<Rightarrow> 'w \<Rightarrow> string http_exchange \<times> 'w) \<Rightarrow> string \<Rightarrow> 'w \<Rightarrow> (string + string) \<times> 'w" where
  "login_tenant me tid select tok w =
     (if tid \<noteq> [] \<and> tid \<noteq> me_tenant me then
        (case select ((''Bearer '' @ tok)) tid w of
           (No_answer e, w) \<Rightarrow> (Inl ((''select-tenant request failed: '' @ e)), w)
         | (Answered code body, w) \<Rightarrow>
             if code \<noteq> 200 then (Inl ((''select-tenant failed (HTTP '' @ itoa (int code) @
                     '')'')), w)
             else (case body of
                     Inl e \<Rightarrow> (Inl ((''parse select-tenant response: '' @ e)), w)
                   | Inr tok \<Rightarrow> (Inr tok, w)))
      else (Inr tok, w))"

definition cloud_login ::
  "cli_env \<Rightarrow> login_input \<Rightarrow> (string \<Rightarrow> string \<Rightarrow> 'w \<Rightarrow> (string \<times> string option) http_exchange \<times> 'w) \<Rightarrow>
     (string \<Rightarrow> 'w \<Rightarrow> me_response http_exchange \<times> 'w) \<Rightarrow> (string \<Rightarrow> string \<Rightarrow> 'w \<Rightarrow> string http_exchange \<times> 'w) \<Rightarrow>
     credentials_file \<Rightarrow> 'w \<Rightarrow> string option \<times> credentials_file \<times> 'w" where
  "cloud_login ce li sign_in me select f w =
     (case sign_in (li_user li) (li_password li) w of
        (No_answer e, w) \<Rightarrow> (Some ((''login request failed: '' @ e)), f, w)
      | (Answered code body, w) \<Rightarrow>
          if code \<noteq> 200 then (Some ((''login failed (HTTP '' @ itoa (int code) @ '')'')), f, w)
          else (case body of
                  Inl e \<Rightarrow> (Some ((''parse login response: '' @ e)), f, w)
                | Inr (tok, cookie) \<Rightarrow>
                    (case me ((''Bearer '' @ tok)) w of
                       (No_answer e, w) \<Rightarrow> (Some ((''me request failed: '' @ e)), f, w)
                     | (Answered code body, w) \<Rightarrow>
                         if code \<noteq> 200 then (Some ((''me request failed (HTTP '' @
                     itoa (int code) @ '')'')), f, w)
                         else (case body of
                                 Inl e \<Rightarrow> (Some ((''parse me response: '' @ e)), f, w)
                               | Inr m \<Rightarrow>
                                   (case choose_tenant m (li_choice li) of
                                      Inl e \<Rightarrow> (Some e, f, w)
                                    | Inr (tid, name, role) \<Rightarrow>
                                        (case login_tenant m tid select tok w of
                                           (Inl e, w) \<Rightarrow> (Some e, f, w)
                                         | (Inr tok, w) \<Rightarrow>
                                             (case save_login ce (login_server ce li) name tok
                                                     (case cookie of None \<Rightarrow> [] | Some v \<Rightarrow> v) f of
                                                (e, f) \<Rightarrow> (e, f, w))))))))"

definition cloud_logout ::
  "cli_env \<Rightarrow> (string \<Rightarrow> string \<Rightarrow> 'w \<Rightarrow> 'w) \<Rightarrow> credentials_file \<Rightarrow> 'w \<Rightarrow> string option \<times> credentials_file \<times> 'w" where
  "cloud_logout ce post f w =
     (case load_credentials f of
        Inl e \<Rightarrow> (Some e, f, w)
      | Inr creds \<Rightarrow>
          (let name = resolve_profile ce creds;
               w = (case map_of (cd_profiles creds) name of
                      None \<Rightarrow> w
                    | Some p \<Rightarrow> if pf_refresh p = [] then w
                        else post (str_or (pf_server p) ''http://localhost:8080'') (pf_refresh p) w);
               creds = creds\<lparr>cd_profiles := AList.delete name (cd_profiles creds),
                 cd_current := (if cd_current creds = name then ''default'' else cd_current creds)\<rparr>
           in case save_credentials ce creds f of
                (Some e, f) \<Rightarrow> (Some ((''save credentials: '' @ e)), f, w)
              | (None, f) \<Rightarrow> (None, f, w)))"

definition token_status :: "(string \<Rightarrow> bool) \<Rightarrow> profile \<Rightarrow> string" where
  "token_status expired p =
     (if pf_access p = [] then ''none'' else if expired (pf_access p) then ''expired (will auto-refresh)'' else ''valid'')"

definition cloud_status :: "cli_env \<Rightarrow> (string \<Rightarrow> bool) \<Rightarrow> credentials_file \<Rightarrow> string + string list" where
  "cloud_status ce expired f =
     (case load_credentials f of
        Inl e \<Rightarrow> Inl e
      | Inr creds \<Rightarrow>
          (let name = resolve_profile ce creds in
           case map_of (cd_profiles creds) name of
             None \<Rightarrow> Inr [(''Not logged in (profile: '' @ name @
                     ''). Run: stroppy-cloud cloud login'')]
           | Some p \<Rightarrow> Inr [(''Profile:  '' @ name), (''Server:   '' @ pf_server p), (''Tenant:   '' @
                     pf_tenant p),
               (''Token:    '' @ token_status expired p)]))"

text \<open>The tenants of the user, the chosen one marked.\<close>

definition tenant_line :: "credentials \<Rightarrow> me_response \<Rightarrow> string \<times> string \<times> string \<Rightarrow> string" where
  "tenant_line creds me t =
     (let current = (case current_profile creds of None \<Rightarrow> [] | Some p \<Rightarrow> pf_tenant p);
          (tid, name, role) = t
      in ''  '' @ (if name = current \<or> tid = me_tenant me then ''*'' else '' '') @ ('' '' @
                     name @
                     '' ('' @
                     role @
                     '')''))"

definition cloud_use ::
  "cli_env \<Rightarrow> (string \<Rightarrow> bool) \<Rightarrow> 'w renewal \<Rightarrow> (string \<Rightarrow> 'w \<Rightarrow> me_response http_exchange \<times> 'w) \<Rightarrow>
     (string \<Rightarrow> string \<Rightarrow> 'w \<Rightarrow> string http_exchange \<times> 'w) \<Rightarrow> string \<Rightarrow> cloud_client \<Rightarrow> 'w \<Rightarrow> string option \<times> cloud_client \<times> 'w" where
  "cloud_use ce expired post me select tenant c w =
     (case do_request ce expired post me c w of
        (Inl e, c, w) \<Rightarrow> (Some e, c, w)
      | (Inr (No_answer e), c, w) \<Rightarrow> (Some e, c, w)
      | (Inr (Answered code body), c, w) \<Rightarrow>
          if code \<noteq> 200 then (Some ((''request failed (HTTP '' @ itoa (int code) @ '')'')), c, w)
          else (case body of
                  Inl e \<Rightarrow> (Some ((''parse response: '' @ e)), c, w)
                | Inr m \<Rightarrow>
                    (case find (\<lambda>(tid, name, role). name = tenant \<or> tid = tenant) (me_tenants m) of
                       None \<Rightarrow> (Some ((''tenant not found: '' @ tenant)), c, w)
                     | Some (tid, name, role) \<Rightarrow>
                         if tid = [] then (Some ((''tenant not found: '' @ tenant)), c, w)
                         else (case do_request ce expired post (\<lambda>auth. select auth tid) c w of
                                 (Inl e, c, w) \<Rightarrow> (Some e, c, w)
                               | (Inr (No_answer e), c, w) \<Rightarrow> (Some e, c, w)
                               | (Inr (Answered code body), c, w) \<Rightarrow>
                                   if code \<noteq> 200 then (Some ((''select-tenant failed (HTTP '' @
                     itoa (int code) @ '')'')), c, w)
                                   else (case body of
                                           Inl e \<Rightarrow> (Some ((''parse response: '' @ e)), c, w)
                                         | Inr tok \<Rightarrow>
                                             (case cc_prof c of
                                                None \<Rightarrow> (Some ''no current profile; please run: stroppy-cloud cloud login'', c, w)
                                              | Some p \<Rightarrow>
                                                  (let creds = put_profile (cc_profile c)
                                                         (p\<lparr>pf_access := tok, pf_tenant := name\<rparr>) (cc_creds c)
                                                   in case save_credentials ce creds (cc_file c) of
                                                        (Some e, f) \<Rightarrow> (Some ((''save credentials: '' @
                     e)), c\<lparr>cc_creds := creds, cc_file := f\<rparr>, w)
                                                      | (None, f) \<Rightarrow> (None, c\<lparr>cc_creds := creds, cc_file := f\<rparr>, w))))))))"

definition use_profile :: "cli_env \<Rightarrow> string \<Rightarrow> credentials_file \<Rightarrow> string option \<times> credentials_file" where
  "use_profile ce name f =
     (case load_credentials f of
        Inl e \<Rightarrow> (Some e, f)
      | Inr creds \<Rightarrow>
          if name \<notin> fst ` set (cd_profiles creds) then (Some ((''profile \"'' @ name @
                     ''\" not found'')), f)
          else (case save_credentials ce (creds\<lparr>cd_current := name\<rparr>) f of
                  (Some e, f) \<Rightarrow> (Some ((''save credentials: '' @ e)), f)
                | (None, f) \<Rightarrow> (None, f)))"


section \<open>Against the server\<close>

definition server_auth :: "db_env \<Rightarrow> crypto \<Rightarrow> accounts \<Rightarrow> auth_env" where
  "server_auth env cr db = \<lparr>ae_jwt = jwt_parse cr (de_now env), ae_sha = cr_sha cr, ae_tokens = Some (ac_tokens db),
     ae_now = de_now env\<rparr>"

definition server_check :: "db_env \<Rightarrow> crypto \<Rightarrow> string \<Rightarrow> string \<Rightarrow> string \<Rightarrow> accounts \<Rightarrow> verdict \<times> accounts" where
  "server_check env cr meth path auth db =
     (authenticate (server_auth env cr db) \<lparr>rq_method = meth, rq_path = path, rq_authorization = auth, rq_token = []\<rparr>, db)"

text \<open>Replies as exchanges: a missing field of the body decodes to the empty string.\<close>

definition session_exchange :: "session_reply \<Rightarrow> (string \<times> string option) http_exchange" where
  "session_exchange r =
     (case r of
        Fail code e \<Rightarrow> Answered code (Inr ([], None))
      | Reply code (fs, ck) \<Rightarrow>
          Answered code (Inr ((case map_of fs ''access_token'' of None \<Rightarrow> [] | Some t \<Rightarrow> t), map_option fst ck)))"

definition server_renewal :: "db_env \<Rightarrow> crypto \<Rightarrow> fresh \<Rightarrow> accounts renewal" where
  "server_renewal env cr fr v db = (case refresh env cr fr (Some v) db of (r, db') \<Rightarrow> (session_exchange r, db'))"

definition server_login :: "db_env \<Rightarrow> crypto \<Rightarrow> fresh \<Rightarrow> string \<Rightarrow> string \<Rightarrow> accounts \<Rightarrow> (string \<times> string option) http_exchange \<times> accounts" where
  "server_login env cr fr name pw db = (case login env cr fr (Some (name, pw)) db of (r, db') \<Rightarrow> (session_exchange r, db'))"

definition server_me :: "db_env \<Rightarrow> crypto \<Rightarrow> string \<Rightarrow> accounts \<Rightarrow> me_response http_exchange \<times> accounts" where
  "server_me env cr auth db =
     (case server_check env cr ''GET'' ''/api/v1/auth/me'' auth db of
        (Reject code e, _) \<Rightarrow> (Answered code (Inl e), db)
      | (Pass c, _) \<Rightarrow>
          (case auth_me env c db of
             Fail code e \<Rightarrow> (Answered code (Inl e), db)
           | Reply code (c, ts) \<Rightarrow> (Answered code (Inr \<lparr>me_user = cl_user c, me_name = cl_name c, me_root = cl_root c,
               me_tenant = cl_tenant c, me_role = cl_role c, me_tenants = ts\<rparr>), db)))"

definition server_select :: "db_env \<Rightarrow> crypto \<Rightarrow> string \<Rightarrow> string \<Rightarrow> accounts \<Rightarrow> string http_exchange \<times> accounts" where
  "server_select env cr auth tid db =
     (case server_check env cr ''POST'' ''/api/v1/auth/select-tenant'' auth db of
        (Reject code e, _) \<Rightarrow> (Answered code (Inl e), db)
      | (Pass c, _) \<Rightarrow>
          (case session_exchange (select_tenant env cr c (Some tid) db) of
             Answered code (Inr (tok, _)) \<Rightarrow> (Answered code (Inr tok), db)
           | _ \<Rightarrow> (No_answer [], db)))"

text \<open>Tokens have three parts, of which the middle one tells the expiry.\<close>

definition reads_expiry :: "crypto \<Rightarrow> (string \<Rightarrow> int option) \<Rightarrow> bool" where
  "reads_expiry cr decode \<longleftrightarrow> jwt_sound cr \<and> (\<forall>j tok. cr_sign cr j = Some tok \<longrightarrow>
     length (split_on CHR ''.'' tok) = 3 \<and> decode (split_on CHR ''.'' tok ! 1) = Some (jc_expires j))"

text \<open>What others may do meanwhile: anything but taking users or refresh tokens away.\<close>

definition calm :: "(accounts \<Rightarrow> accounts) \<Rightarrow> bool" where
  "calm g \<longleftrightarrow> (\<forall>db. accounts_ok db \<longrightarrow> accounts_ok (g db) \<and> set (ac_refresh db) \<subseteq> set (ac_refresh (g db)) \<and>
     user_ids db \<subseteq> user_ids (g db))"

definition tenants_or_none :: "db_env \<Rightarrow> string \<Rightarrow> accounts \<Rightarrow> (member \<times> string) list" where
  "tenants_or_none env uid db = (case user_tenants env uid db of Inl _ \<Rightarrow> [] | Inr ts \<Rightarrow> ts)"

text \<open>A renewal can be made: the database answers, the random values are new and the token can be signed.\<close>

definition renews :: "db_env \<Rightarrow> crypto \<Rightarrow> fresh \<Rightarrow> string \<Rightarrow> accounts \<Rightarrow> bool" where
  "renews env cr fr uid db \<longleftrightarrow> (\<forall>q. de_up env q) \<and> fr_hex fr \<noteq> [] \<and>
     fr_id fr \<notin> rf_id ` set (ac_refresh db) \<and> cr_sha cr (fr_hex fr) \<notin> rf_hash ` set (ac_refresh db) \<and>
     (\<exists>u tok. get_user env uid db = Inr u \<and>
        jwt_issue cr (de_now env) (user_claims u (tenants_or_none env uid db)) access_ttl = Some tok)"

definition plain_env :: "cli_env \<Rightarrow> bool" where
  "plain_env ce \<longleftrightarrow> ce_token ce = [] \<and> ce_env_token ce = [] \<and> ce_disk ce = None"

text \<open>
  A session: a login, and then commands, each at most \<open>refresh_ttl - access_ttl\<close> (seven days less a quarter of an
  hour) after the one before. The state is the time of the last command, the file and the tables.
\<close>

definition command_at ::
  "cli_env \<Rightarrow> crypto \<Rightarrow> (string \<Rightarrow> int option) \<Rightarrow> db_env \<Rightarrow> fresh \<Rightarrow> string \<Rightarrow> string \<Rightarrow> credentials_file \<Rightarrow> accounts \<Rightarrow>
     (string + verdict) \<times> credentials_file \<times> accounts" where
  "command_at ce cr decode env fr meth path f db =
     cli_command ce (is_jwt_expired decode (de_now env)) (server_renewal env cr fr) (server_check env cr meth path) f db"

inductive session :: "cli_env \<Rightarrow> crypto \<Rightarrow> (string \<Rightarrow> int option) \<Rightarrow> string \<Rightarrow> int \<Rightarrow> credentials_file \<Rightarrow> accounts \<Rightarrow> bool"
  for ce cr decode uid where
  Opened: "accounts_ok db \<Longrightarrow> fr_hex fr \<noteq> [] \<Longrightarrow> get_user_by_name env (li_user li) db = Inr u \<Longrightarrow> us_id u = uid \<Longrightarrow>
    cloud_login ce li (server_login env cr fr) (server_me env cr) (server_select env cr) f db = (None, f', db') \<Longrightarrow>
    session ce cr decode uid (de_now env) f' db'"
| Command: "session ce cr decode uid now f db \<Longrightarrow> now \<le> de_now env \<Longrightarrow> de_now env \<le> now + (refresh_ttl - access_ttl) \<Longrightarrow>
    calm g \<Longrightarrow> renews env cr fr uid (g db) \<Longrightarrow> command_at ce cr decode env fr meth path f (g db) = (r, f', db') \<Longrightarrow>
    session ce cr decode uid (de_now env) f' db'"

section \<open>Sessions last\<close>

definition open_at :: "cli_env \<Rightarrow> crypto \<Rightarrow> string \<Rightarrow> int \<Rightarrow> credentials_file \<Rightarrow> accounts \<Rightarrow> bool" where
  "open_at ce cr uid now f db \<longleftrightarrow> accounts_ok db \<and> (\<exists>creds p j rt. f = Content (Inr creds) \<and>
     map_of (cd_profiles creds) (resolve_profile ce creds) = Some p \<and> pf_refresh p \<noteq> [] \<and>
     cr_sign cr j = Some (pf_access p) \<and> cl_user (jc_claims j) = uid \<and> now \<le> jc_expires j - 30 \<and>
     rt \<in> set (ac_refresh db) \<and> rf_hash rt = cr_sha cr (pf_refresh p) \<and> rf_user rt = uid \<and>
     jc_expires j + (refresh_ttl - access_ttl) \<le> rf_expires rt)"

lemma open_atI:
  assumes "accounts_ok db" and "map_of (cd_profiles creds) (resolve_profile ce creds) = Some p" and "pf_refresh p \<noteq> []"
    and "cr_sign cr j = Some (pf_access p)" and "cl_user (jc_claims j) = uid" and "now \<le> jc_expires j - 30"
    and "rt \<in> set (ac_refresh db)" and "rf_hash rt = cr_sha cr (pf_refresh p)" and "rf_user rt = uid"
    and "jc_expires j + (refresh_ttl - access_ttl) \<le> rf_expires rt"
  shows "open_at ce cr uid now (Content (Inr creds)) db"
  using assms unfolding open_at_def by blast

lemma open_calm: "open_at ce cr uid now f db \<Longrightarrow> calm g \<Longrightarrow> open_at ce cr uid now f (g db)"
  unfolding open_at_def calm_def by blast

text \<open>A signed token is accepted until it expires.\<close>

lemma signed_accepted:
  assumes "reads_expiry cr decode" and "cr_sign cr j = Some tok" and "de_now env < jc_expires j" and "\<not> is_public_path path"
  shows "server_check env cr meth path (authorization tok) db = (Pass (Some (jc_claims j)), db)"
    "authorization tok = (''Bearer '' @ tok)" "is_jwt_expired decode t tok \<longleftrightarrow> t > jc_expires j - 30"
proof -
  have v: "cr_verify cr tok = Some j" "length (split_on CHR ''.'' tok) = 3" "decode (split_on CHR ''.'' tok ! 1) = Some (jc_expires j)"
    using assms(1,2) by (auto simp: reads_expiry_def jwt_sound_def)
  have "tok \<noteq> []" using v(2) by auto
  then show a: "authorization tok = (''Bearer '' @ tok)" by (simp add: authorization_def)
  have "trim_prefix ((''Bearer '' @ tok)) ''Bearer '' = tok" by (simp add: trim_prefix_def)
  moreover have "credential_of \<lparr>rq_method = meth, rq_path = path, rq_authorization = (''Bearer '' @
                     tok), rq_token = []\<rparr> = (''Bearer '' @ tok)"
    by (simp add: credential_of_def)
  ultimately show "server_check env cr meth path (authorization tok) db = (Pass (Some (jc_claims j)), db)"
    using assms(3,4) v(1) by (simp add: server_check_def a authenticate_def server_auth_def jwt_parse_def Let_def)
  show "is_jwt_expired decode t tok \<longleftrightarrow> t > jc_expires j - 30"
    using v(2,3) by (simp add: is_jwt_expired_def Let_def)
qed

lemma jwt_issue_signs: "jwt_issue cr now c ttl = Some tok \<Longrightarrow>
    \<exists>j. cr_sign cr j = Some tok \<and> jc_claims j = c \<and> jc_expires j = now + ttl"
  unfolding jwt_issue_def by force

text \<open>A live refresh token is exchanged for a new session.\<close>

lemma renewal_works:
  assumes ok: "accounts_ok db" and rt: "rt \<in> set (ac_refresh db)" "rf_hash rt = cr_sha cr v" "rf_user rt = uid" "de_now env < rf_expires rt"
    and r: "renews env cr fr uid db"
  shows "\<exists>u tok db' rt'. server_renewal env cr fr v db = (Answered 200 (Inr (tok, Some (fr_hex fr))), db') \<and> us_id u = uid \<and>
    jwt_issue cr (de_now env) (user_claims u (tenants_or_none env uid db)) access_ttl = Some tok \<and>
    rt' \<in> set (ac_refresh db') \<and> rf_hash rt' = cr_sha cr (fr_hex fr) \<and> rf_user rt' = uid \<and>
    rf_expires rt' = de_now env + refresh_ttl \<and> accounts_ok db'"
proof -
  have up: "de_up env q" for q using r by (simp add: renews_def)
  obtain u tok where u: "get_user env uid db = Inr u" "jwt_issue cr (de_now env) (user_claims u (tenants_or_none env uid db)) access_ttl = Some tok"
    using r by (auto simp: renews_def)
  have uid: "us_id u = uid" "u \<in> set (ac_users db)" using u(1) by (auto simp: get_user_def db_answer_Inr dest!: one_Inr)
  have i: "inj_on rf_hash (set (ac_refresh db))" using accounts_okD(5) [OF ok] by (simp add: refresh_ok_def distinct_map)
  have "find (\<lambda>r. rf_hash r = cr_sha cr v \<and> de_now env < rf_expires r) (ac_refresh db) = Some rt"
  proof (cases "find (\<lambda>r. rf_hash r = cr_sha cr v \<and> de_now env < rf_expires r) (ac_refresh db)")
    case None
    then show ?thesis using rt by (auto simp only: find_None_iff)
  next
    case (Some x)
    then have "x \<in> set (ac_refresh db)" "rf_hash x = cr_sha cr v" by (auto simp only: find_Some_iff nth_mem)
    then have "x = rt" using i rt(1,2) unfolding inj_on_def by metis
    then show ?thesis using Some by simp
  qed
  then have g: "get_refresh_token env (cr_sha cr v) db = Inr rt" by (simp add: get_refresh_token_def db_answer_def up query_one_def)
  let ?rs = "filter (\<lambda>r. rf_id r \<noteq> rf_id rt) (ac_refresh db)"
  let ?db = "db\<lparr>ac_refresh := ?rs\<rparr>"
  have d: "or_same (delete_refresh_token env (rf_id rt) db) db = ?db"
    by (simp add: or_same_def delete_refresh_token_def db_answer_def up)
  have gu: "get_user env uid ?db = Inr u" using u(1) by (simp add: get_user_def)
  have ut: "user_tenants env uid ?db = user_tenants env uid db" by (simp add: user_tenants_def)
  then have ut': "tenants_or_none env uid ?db = tenants_or_none env uid db" by (simp add: tenants_or_none_def)
  let ?new = "(new_refresh env cr fr u)\<lparr>rf_created := de_now env\<rparr>"
  let ?db' = "?db\<lparr>ac_refresh := ?rs @ [?new]\<rparr>"
  have c: "create_refresh_token env (new_refresh env cr fr u) ?db = Inr ?db'"
    using r uid by (auto simp: create_refresh_token_def db_answer_def up new_refresh_def list_ex_iff renews_def image_iff)
  have rot: "refresh_rotate env cr fr rt db = (Reply 200 ([(''access_token'', tok)], Some (fr_hex fr, refresh_ttl)), ?db')"
    using u(2) unfolding refresh_rotate_def d Let_def rt(3) gu sum.case uid(1) ut tenants_or_none_def [symmetric]
    by (simp add: ut' c or_same_def)
  have "refresh env cr fr (Some v) db = (Reply 200 ([(''access_token'', tok)], Some (fr_hex fr, refresh_ttl)), ?db')"
    by (simp add: refresh_def g rot)
  moreover from this have "accounts_ok ?db'" using refresh_rotate_ok [OF ok, of env cr fr rt] rot by (metis snd_conv)
  ultimately show ?thesis using u(2) uid
    by (intro exI [of _ u] exI [of _ tok] exI [of _ ?db'] exI [of _ ?new])
      (simp add: server_renewal_def session_exchange_def new_refresh_def)
qed

lemma client_of_file:
  assumes "plain_env ce" and "map_of (cd_profiles creds) (resolve_profile ce creds) = Some p"
  obtains c where "new_cloud_client ce (Content (Inr creds)) = Inr c" "cc_token c = pf_access p" "cc_creds c = creds"
    "cc_profile c = resolve_profile ce creds" "cc_file c = Content (Inr creds)"
  using assms by (simp add: new_cloud_client_def load_credentials_def Let_def plain_env_def str_or_def)

lemma token_ensured:
  assumes ce: "plain_env ce" and cr: "reads_expiry cr decode" and o: "open_at ce cr uid now f db"
    and t: "now \<le> de_now env" "de_now env \<le> now + (refresh_ttl - access_ttl)" and r: "renews env cr fr uid db"
  shows "\<exists>c c' db' j. new_cloud_client ce f = Inr c \<and>
    ensure_valid_token ce (is_jwt_expired decode (de_now env)) (server_renewal env cr fr) c db = (None, c', db') \<and>
    cr_sign cr j = Some (cc_token c') \<and> cl_user (jc_claims j) = uid \<and> de_now env \<le> jc_expires j - 30 \<and>
    open_at ce cr uid (de_now env) (cc_file c') db'"
proof -
  obtain creds p j rt where f: "f = Content (Inr creds)" and p: "map_of (cd_profiles creds) (resolve_profile ce creds) = Some p"
      "pf_refresh p \<noteq> []" and j: "cr_sign cr j = Some (pf_access p)" "cl_user (jc_claims j) = uid" "now \<le> jc_expires j - 30"
    and rt: "rt \<in> set (ac_refresh db)" "rf_hash rt = cr_sha cr (pf_refresh p)" "rf_user rt = uid"
      "jc_expires j + (refresh_ttl - access_ttl) \<le> rf_expires rt" and ok: "accounts_ok db"
    using o unfolding open_at_def by blast
  obtain c where c: "new_cloud_client ce f = Inr c" "cc_token c = pf_access p" "cc_creds c = creds"
    "cc_profile c = resolve_profile ce creds" "cc_file c = f" using client_of_file [OF ce p(1)] f by metis
  have flags: "\<not> (ce_token ce \<noteq> [] \<or> ce_env_token ce \<noteq> [])" "ce_disk ce = None" using ce by (simp_all add: plain_env_def)
  have cp: "cc_prof c = Some p" by (simp add: cc_prof_def c p(1))
  have ex: "is_jwt_expired decode (de_now env) (cc_token c) \<longleftrightarrow> de_now env > jc_expires j - 30"
  proof -
    have "length (split_on CHR ''.'' (pf_access p)) = 3" "decode (split_on CHR ''.'' (pf_access p) ! 1) = Some (jc_expires j)"
      using cr j(1) by (auto simp: reads_expiry_def)
    then show ?thesis by (simp add: is_jwt_expired_def Let_def c)
  qed
  show ?thesis
  proof (cases "de_now env > jc_expires j - 30")
    case False
    then have "ensure_valid_token ce (is_jwt_expired decode (de_now env)) (server_renewal env cr fr) c db = (None, c, db)"
      using flags ex by (simp add: ensure_valid_token_def cp)
    moreover have "open_at ce cr uid (de_now env) (cc_file c) db" unfolding c f
      by (rule open_atI [OF ok p j(1,2) _ rt]) (use False in simp)
    ultimately show ?thesis using c j False by (intro exI [of _ c] exI [of _ db] exI [of _ j]) simp
  next
    case True
    have live: "de_now env < rf_expires rt" using t j(3) rt(4) by linarith
    obtain u tok db' rt' where w: "server_renewal env cr fr (pf_refresh p) db = (Answered 200 (Inr (tok, Some (fr_hex fr))), db')"
        "us_id u = uid" "jwt_issue cr (de_now env) (user_claims u (tenants_or_none env uid db)) access_ttl = Some tok"
      and rt': "rt' \<in> set (ac_refresh db')" "rf_hash rt' = cr_sha cr (fr_hex fr)" "rf_user rt' = uid"
        "rf_expires rt' = de_now env + refresh_ttl" "accounts_ok db'"
      using renewal_works [OF ok rt(1-3) live r] by blast
    obtain j' where j': "cr_sign cr j' = Some tok" "jc_claims j' = user_claims u (tenants_or_none env uid db)"
      "jc_expires j' = de_now env + access_ttl" using jwt_issue_signs [OF w(3)] by blast
    let ?c = "renewed ce p (tok, Some (fr_hex fr)) c"
    let ?p = "p\<lparr>pf_refresh := fr_hex fr, pf_access := tok\<rparr>"
    let ?creds = "put_profile (resolve_profile ce creds) ?p creds"
    have e: "ensure_valid_token ce (is_jwt_expired decode (de_now env)) (server_renewal env cr fr) c db = (None, ?c, db')"
      using flags ex True p(2) by (simp add: ensure_valid_token_def cp w(1))
    have kept: "cc_file ?c = Content (Inr ?creds)" "cc_token ?c = tok"
      by (simp_all add: renewed_def Let_def c save_credentials_def flags)
    have rp: "resolve_profile ce ?creds = resolve_profile ce creds" by (simp add: resolve_profile_def put_profile_def)
    have m: "map_of (cd_profiles ?creds) (resolve_profile ce ?creds) = Some ?p"
      unfolding rp by (simp add: put_profile_def update_conv')
    have "open_at ce cr uid (de_now env) (cc_file ?c) db'" unfolding kept
      by (rule open_atI [OF rt'(5) m, of cr j' uid _ rt'])
        (use r rt' j' w(2) in \<open>simp_all add: renews_def access_ttl_def refresh_ttl_def\<close>)
    then show ?thesis using c(1) e j' w(2) kept(2)
      by (intro exI [of _ c] exI [of _ ?c] exI [of _ db'] exI [of _ j']) (simp add: access_ttl_def)
  qed
qed

lemma command_kept:
  assumes ce: "plain_env ce" and cr: "reads_expiry cr decode" and o: "open_at ce cr uid now f db"
    and t: "now \<le> de_now env" "de_now env \<le> now + (refresh_ttl - access_ttl)" and r: "renews env cr fr uid db"
    and c: "command_at ce cr decode env fr meth path f db = (res, f', db')"
  shows "open_at ce cr uid (de_now env) f' db'"
    "\<not> is_public_path path \<Longrightarrow> \<exists>cl. res = Inr (Pass (Some cl)) \<and> cl_user cl = uid"
proof -
  obtain cl cl' d j where e: "new_cloud_client ce f = Inr cl"
      "ensure_valid_token ce (is_jwt_expired decode (de_now env)) (server_renewal env cr fr) cl db = (None, cl', d)"
    and j: "cr_sign cr j = Some (cc_token cl')" "cl_user (jc_claims j) = uid" "de_now env \<le> jc_expires j - 30"
    and o': "open_at ce cr uid (de_now env) (cc_file cl') d"
    using token_ensured [OF ce cr o t r] by blast
  have same: "snd (server_check env cr meth path a x) = x" for a x by (simp add: server_check_def)
  have res: "res = Inr (fst (server_check env cr meth path (authorization (cc_token cl')) d))" "f' = cc_file cl'" "db' = d"
    using c same [of "authorization (cc_token cl')" d]
    by (auto simp: command_at_def cli_command_def do_request_def e split: prod.splits)
  show "open_at ce cr uid (de_now env) f' db'" using o' res by simp
  show "\<exists>cl. res = Inr (Pass (Some cl)) \<and> cl_user cl = uid" if "\<not> is_public_path path"
    using signed_accepted(1) [OF cr j(1) _ that, of env meth d] j by (simp add: res)
qed

section \<open>After a login\<close>

lemma login_session:
  assumes "server_login env cr fr name pw db = (Answered 200 (Inr (tok, cookie)), db')"
    and "get_user_by_name env name db = Inr u" and "accounts_ok db"
  shows "\<exists>j rt. cr_sign cr j = Some tok \<and> cl_user (jc_claims j) = us_id u \<and> jc_expires j = de_now env + access_ttl \<and>
    cookie = Some (fr_hex fr) \<and> rt \<in> set (ac_refresh db') \<and> rf_hash rt = cr_sha cr (fr_hex fr) \<and> rf_user rt = us_id u \<and>
    rf_expires rt = de_now env + refresh_ttl \<and> accounts_ok db'"
proof -
  obtain ts where ts: "jwt_issue cr (de_now env) (user_claims u ts) access_ttl = Some tok"
    and c: "create_refresh_token env (new_refresh env cr fr u) db = Inr db'" and k: "cookie = Some (fr_hex fr)"
    using assms(1,2) by (auto simp: server_login_def login_def session_exchange_def split: option.splits sum.splits if_splits)
  obtain j where j: "cr_sign cr j = Some tok" "jc_claims j = user_claims u ts" "jc_expires j = de_now env + access_ttl"
    using jwt_issue_signs [OF ts] by blast
  let ?new = "(new_refresh env cr fr u)\<lparr>rf_created := de_now env\<rparr>"
  have "db' = db\<lparr>ac_refresh := ac_refresh db @ [?new]\<rparr>"
    using c by (auto simp: create_refresh_token_def db_answer_Inr split: if_splits)
  then have "?new \<in> set (ac_refresh db')" by simp
  then show ?thesis using j k create_refresh_token_ok [OF c assms(3)]
    by (intro exI [of _ j] exI [of _ ?new]) (simp add: new_refresh_def)
qed

lemma selected_token:
  assumes "reads_expiry cr decode" and "cr_sign cr j = Some tok" and "de_now env < jc_expires j"
    and "server_select env cr ((''Bearer '' @ tok)) tid db = (Answered 200 (Inr tok'), db')"
  shows "\<exists>j'. cr_sign cr j' = Some tok' \<and> cl_user (jc_claims j') = cl_user (jc_claims j) \<and>
    jc_expires j' = de_now env + access_ttl \<and> db' = db"
proof -
  have np: "\<not> is_public_path ''/api/v1/auth/select-tenant''" by code_simp
  note a = signed_accepted(1) [OF assms(1,2,3) np, where meth = "''POST''" and db = db] signed_accepted(2) [OF assms(1,2,3) np]
  have "\<exists>c. jwt_issue cr (de_now env) c access_ttl = Some tok' \<and> cl_user c = cl_user (jc_claims j) \<and> db' = db"
    using assms(4) a by (auto simp: server_select_def session_exchange_def select_tenant_def
        split: option.splits sum.splits if_splits)
  then show ?thesis using jwt_issue_signs by metis
qed

lemma me_keeps: "server_me env cr a db = (x, db') \<Longrightarrow> db' = db"
  by (auto simp: server_me_def split: prod.splits verdict.splits reply.splits)

lemma login_opens:
  assumes ce: "plain_env ce" and cr: "reads_expiry cr decode" and ok: "accounts_ok db" and hex: "fr_hex fr \<noteq> []"
    and u: "get_user_by_name env (li_user li) db = Inr u"
    and l: "cloud_login ce li (server_login env cr fr) (server_me env cr) (server_select env cr) f db = (None, f', db')"
  shows "open_at ce cr (us_id u) (de_now env) f' db'"
proof -
  obtain tok cookie d where a: "server_login env cr fr (li_user li) (li_password li) db = (Answered 200 (Inr (tok, cookie)), d)"
    using l by (auto simp: cloud_login_def split: prod.splits http_exchange.splits sum.splits if_splits)
  obtain j rt where j: "cr_sign cr j = Some tok" "cl_user (jc_claims j) = us_id u" "jc_expires j = de_now env + access_ttl"
    and k: "cookie = Some (fr_hex fr)" and rt: "rt \<in> set (ac_refresh d)" "rf_hash rt = cr_sha cr (fr_hex fr)" "rf_user rt = us_id u"
      "rf_expires rt = de_now env + refresh_ttl" and okd: "accounts_ok d"
    using login_session [OF a u ok] by blast
  obtain m tid name role tok' d' where t: "login_tenant m tid (server_select env cr) tok d = (Inr tok', d')" "db' = d'"
    and s: "save_login ce (login_server ce li) name tok' (fr_hex fr) f = (None, f')"
    using l by (auto simp: cloud_login_def a k dest!: me_keeps split: prod.splits http_exchange.splits sum.splits if_splits)
  have now: "de_now env < jc_expires j" by (simp add: j access_ttl_def)
  obtain j' where j': "cr_sign cr j' = Some tok'" "cl_user (jc_claims j') = us_id u" "jc_expires j' = de_now env + access_ttl" "d' = d"
  proof (cases "tid \<noteq> [] \<and> tid \<noteq> me_tenant m")
    case True
    then have "server_select env cr ((''Bearer '' @ tok)) tid d = (Answered 200 (Inr tok'), d')"
      using t(1) by (auto simp: login_tenant_def split: prod.splits http_exchange.splits sum.splits if_splits)
    from selected_token [OF cr j(1) now this] show ?thesis using that j by metis
  next
    case False
    then show ?thesis using that [of j] t(1) j by (auto simp: login_tenant_def)
  qed
  obtain creds where creds: "f' = Content (Inr creds)"
    "map_of (cd_profiles creds) (resolve_profile ce creds) =
       Some \<lparr>pf_server = login_server ce li, pf_tenant = name, pf_access = tok', pf_refresh = fr_hex fr\<rparr>"
  proof -
    obtain c0 where c0: "load_credentials f = Inr c0" using s by (auto simp: save_login_def split: sum.splits)
    let ?n = "resolve_profile ce c0"
    let ?p = "\<lparr>pf_server = login_server ce li, pf_tenant = name, pf_access = tok', pf_refresh = fr_hex fr\<rparr>"
    let ?c = "(put_profile ?n ?p c0)\<lparr>cd_current := ?n\<rparr>"
    have "f' = Content (Inr ?c)" using s ce by (simp add: save_login_def c0 Let_def save_credentials_def plain_env_def)
    moreover have "resolve_profile ce ?c = ?n" by (simp add: resolve_profile_def put_profile_def str_or_def)
    ultimately show ?thesis using that [of ?c] by (simp add: put_profile_def update_conv')
  qed
  show ?thesis unfolding creds(1) t(2) j'(4)
    by (rule open_atI [OF okd creds(2), of cr j' _ _ rt]) (simp_all add: hex j' rt access_ttl_def refresh_ttl_def)
qed

lemma session_open: "session ce cr decode uid now f db \<Longrightarrow> plain_env ce \<Longrightarrow> reads_expiry cr decode \<Longrightarrow> open_at ce cr uid now f db"
proof (induction rule: session.induct)
  case (Opened db fr env li u f f' db')
  then show ?case using login_opens by metis
next
  case (Command now f db env g fr meth path r f' db')
  then show ?case using command_kept(1) open_calm by metis
qed


definition session_claims :: "int \<Rightarrow> jwt_claims" where
  "session_claims t = \<lparr>jc_claims = \<lparr>cl_user = ''u1'', cl_name = ''ann'', cl_tenant = ''t1'', cl_role = ''owner'', cl_root = False\<rparr>,
     jc_subject = ''u1'', jc_issued = t, jc_expires = t + 900\<rparr>"

definition session_crypto :: crypto where
  "session_crypto = demo_crypto\<lparr>
     cr_sign := (\<lambda>j. if j = session_claims 100 then Some ''h.x.s'' else if j = session_claims 5000 then Some ''h.y.s'' else None),
     cr_verify := (\<lambda>t. if t = ''h.x.s'' then Some (session_claims 100) else if t = ''h.y.s'' then Some (session_claims 5000) else None)\<rparr>"

definition session_expiry :: "string \<Rightarrow> int option" where
  "session_expiry s = (if s = ''x'' then Some 1000 else if s = ''y'' then Some 5900 else None)"

definition session_env :: "int \<Rightarrow> db_env" where
  "session_env t = \<lparr>de_up = (\<lambda>_. True), de_show = (\<lambda>_. []), de_rank = (\<lambda>_. 0), de_now = t\<rparr>"

definition session_fresh :: "string \<Rightarrow> string \<Rightarrow> fresh" where
  "session_fresh rid hex = \<lparr>fr_id = rid, fr_hex = hex, fr_account = 2, fr_package_ids = [], fr_preset_ids = []\<rparr>"

definition no_flags :: cli_env where
  "no_flags = \<lparr>ce_server = [], ce_token = [], ce_profile = [], ce_env_server = [], ce_env_token = [], ce_env_profile = [], ce_disk = None\<rparr>"

definition session_input :: login_input where
  "session_input = \<lparr>li_server = ''http://h/'', li_user = ''ann'', li_password = ''pw'', li_choice = []\<rparr>"

definition session_file :: credentials_file where
  "session_file = Content (Inr \<lparr>cd_profiles = [(''default'', \<lparr>pf_server = ''http://h'', pf_tenant = ''acme'', pf_access = ''h.x.s'', pf_refresh = ''abc''\<rparr>)],
     cd_current = ''default''\<rparr>)"

definition session_db :: accounts where
  "session_db = demo_accounts\<lparr>ac_refresh := [\<lparr>rf_id = ''r1'', rf_user = ''u1'', rf_hash = ''cba'', rf_expires = 100 + refresh_ttl, rf_created = 100\<rparr>]\<rparr>"

lemma session_crypto_reads: "reads_expiry session_crypto session_expiry"
  by (auto simp: reads_expiry_def jwt_sound_def session_crypto_def session_claims_def session_expiry_def)

lemma session_login: "server_login (session_env 100) session_crypto (session_fresh ''r1'' ''abc'') ''ann'' ''pw'' demo_accounts =
    (Answered 200 (Inr (''h.x.s'', Some ''abc'')), session_db)"
  by (simp add: server_login_def login_def session_env_def session_fresh_def session_crypto_def session_claims_def session_db_def
      demo_accounts_def demo_crypto_def get_user_by_name_def db_answer_def query_one_def user_tenants_def user_claims_def jwt_issue_def
      access_ttl_def create_refresh_token_def new_refresh_def session_exchange_def)

lemma session_me: "server_me (session_env 100) session_crypto ''Bearer h.x.s'' session_db = (Answered 200 (Inr
    \<lparr>me_user = ''u1'', me_name = ''ann'', me_root = False, me_tenant = ''t1'', me_role = ''owner'', me_tenants = [(''t1'', ''acme'', ''owner'')]\<rparr>), session_db)"
proof -
  have np: "\<not> is_public_path ''/api/v1/auth/me''" by code_simp
  have "cr_sign session_crypto (session_claims 100) = Some ''h.x.s''" by (simp add: session_crypto_def)
  from signed_accepted(1) [OF session_crypto_reads this _ np, where env = "session_env 100" and meth = "''GET''" and db = session_db]
    signed_accepted(2) [OF session_crypto_reads this _ np, where env = "session_env 100"]
  have "server_check (session_env 100) session_crypto ''GET'' ''/api/v1/auth/me'' ''Bearer h.x.s'' session_db =
      (Pass (Some (jc_claims (session_claims 100))), session_db)"
    by (simp add: session_claims_def session_env_def)
  then show ?thesis
    by (simp add: server_me_def auth_me_def session_claims_def session_env_def session_db_def demo_accounts_def
        user_tenants_def db_answer_def)
qed

lemma session_opened: "session no_flags session_crypto session_expiry ''u1'' (de_now (session_env 100)) session_file session_db"
proof (rule session.Opened)
  show "accounts_ok demo_accounts"
    by (simp add: accounts_ok_def demo_accounts_def catalog_ok_def users_ok_def tenants_ok_def members_ok_def
        refresh_ok_def tokens_ok_def user_ids_def tenant_ids_def unique_rows_def member_roles_def)
  show "fr_hex (session_fresh ''r1'' ''abc'') \<noteq> []" by (simp add: session_fresh_def)
  show "get_user_by_name (session_env 100) (li_user session_input) demo_accounts = Inr (hd (ac_users demo_accounts))"
    by (simp add: get_user_by_name_def session_env_def session_input_def demo_accounts_def db_answer_def query_one_def)
  show "us_id (hd (ac_users demo_accounts)) = ''u1''" by (simp add: demo_accounts_def)
  have i: "li_user session_input = ''ann''" "li_password session_input = ''pw''" by (simp_all add: session_input_def)
  show "cloud_login no_flags session_input (server_login (session_env 100) session_crypto (session_fresh ''r1'' ''abc''))
      (server_me (session_env 100) session_crypto) (server_select (session_env 100) session_crypto) No_file demo_accounts =
      (None, session_file, session_db)"
    unfolding cloud_login_def i session_login
    by (simp add: session_me choose_tenant_def named_tenant_def login_tenant_def save_login_def load_credentials_def no_flags_def
        session_input_def login_server_def trim_slashes_def str_or_def resolve_profile_def put_profile_def save_credentials_def session_file_def Let_def)
qed


text \<open>
  The chosen tenant does not last as long: a renewal gives a user with no or several memberships a token without a
  tenant, which the routes behind \<open>TenantRequired\<close> refuse. The client neither sees this nor selects the tenant again.
\<close>

lemma renewal_forgets_tenant:
  assumes "jwt_sound cr" and "server_renewal env cr fr v db = (Answered 200 (Inr (tok, ck)), db')"
    and "get_refresh_token env (cr_sha cr v) db = Inr rt" and "length (tenants_or_none env (rf_user rt) db) \<noteq> 1"
    and "t < de_now env + access_ttl"
  shows "\<exists>c. jwt_parse cr t tok = Some c \<and> tenant_required (Some c) = Some (403, ''tenant selection required'')"
proof -
  have ut: "tenants_or_none env x (db\<lparr>ac_refresh := rs\<rparr>) = tenants_or_none env x db" for x rs
    by (simp add: tenants_or_none_def user_tenants_def)
  obtain rs where d: "or_same (delete_refresh_token env (rf_id rt) db) db = db\<lparr>ac_refresh := rs\<rparr>"
  proof (cases "delete_refresh_token env (rf_id rt) db")
    case (Inl e)
    then show ?thesis using that [of "ac_refresh db"] by (simp add: or_same_def)
  next
    case (Inr x)
    then show ?thesis using that by (auto simp: or_same_def delete_refresh_token_def db_answer_def split: if_splits)
  qed
  have rot: "refresh env cr fr (Some v) db = refresh_rotate env cr fr rt db" by (simp add: refresh_def assms(3))
  obtain u where u: "get_user env (rf_user rt) (db\<lparr>ac_refresh := rs\<rparr>) = Inr u"
    and i: "jwt_issue cr (de_now env) (user_claims u (tenants_or_none env (us_id u) db)) access_ttl = Some tok"
    using assms(2) unfolding server_renewal_def rot
    by (auto simp: refresh_rotate_def d Let_def session_exchange_def ut tenants_or_none_def [symmetric] split: option.splits sum.splits)
  have "us_id u = rf_user rt" using u by (auto simp: get_user_def db_answer_Inr dest!: one_Inr)
  then have "cl_tenant (user_claims u (tenants_or_none env (us_id u) db)) = []"
    using assms(4) by (auto simp: user_claims_def Let_def split: list.splits)
  then show ?thesis using jwt_roundtrip [OF assms(1) i assms(5)] by (auto simp: tenant_required_def)
qed

end
