(* ===== verification/Ips.thy ===== *)
theory Ips
  imports Text "HOL-Library.Word"
begin

unbundle bit_operations_syntax

text \<open>
  Arithmetic on subnets (\<open>core/ips/ips.go\<close>), which nothing else of the program uses yet: free and random addresses
  of a network, and the next free subnet. An address is Go's \<open>net.IP\<close>, its bytes; \<open>uint32\<close> is \<open>32 word\<close>. The parsing of
  IPv6 addresses is the argument \<open>p6\<close>; the functions of package net that the file calls are defined below.
\<close>

section \<open>Addresses and networks\<close>

type_synonym ip = "8 word list"

record ip_net =
  in_ip :: ip
  in_mask :: ip

definition v4_prefix :: ip where
  "v4_prefix = replicate 10 0 @ [255, 255]"

definition to4 :: "ip \<Rightarrow> ip option" where
  "to4 a = (if length a = 4 then Some a
            else if length a = 16 \<and> take 12 a = v4_prefix then Some (drop 12 a) else None)"

text \<open>What identifies an address, as \<open>IP.String\<close> and \<open>IP.Equal\<close> do: IPv4 has two forms.\<close>

definition ip_key :: "ip \<Rightarrow> ip" where
  "ip_key a = (case to4 a of Some b \<Rightarrow> b | None \<Rightarrow> a)"

text \<open>The masks with \<open>n\<close> leading ones, in \<open>l\<close> bytes, and how many ones and bits a mask has (\<open>IPMask.Size\<close>).\<close>

fun cidr_mask :: "nat \<Rightarrow> nat \<Rightarrow> ip" where
  "cidr_mask n 0 = []"
| "cidr_mask n (Suc l) = (if 8 \<le> n then 255 # cidr_mask (n - 8) l else NOT (drop_bit n 255) # cidr_mask 0 l)"

fun leading_ones :: "nat \<Rightarrow> 8 word \<Rightarrow> nat" where
  "leading_ones 0 b = 0"
| "leading_ones (Suc k) b = (if bit b k then Suc (leading_ones k b) else 0)"

fun mask_length :: "ip \<Rightarrow> nat option" where
  "mask_length [] = Some 0"
| "mask_length (b # bs) =
     (if b = 255 then map_option (\<lambda>n. n + 8) (mask_length bs)
      else let n = leading_ones 8 b
           in if b = NOT (drop_bit n 255) \<and> list_all (\<lambda>x. x = 0) bs then Some n else None)"

definition mask_size :: "ip \<Rightarrow> nat \<times> nat" where
  "mask_size m = (case mask_length m of None \<Rightarrow> (0, 0) | Some n \<Rightarrow> (n, 8 * length m))"

definition ip_mask :: "ip \<Rightarrow> ip \<Rightarrow> ip" where
  "ip_mask a m =
     (let m = (if length m = 16 \<and> length a = 4 \<and> take 12 m = replicate 12 255 then drop 12 m else m);
          a = (if length m = 4 \<and> length a = 16 \<and> take 12 a = v4_prefix then drop 12 a else a)
      in if length a = length m then map2 (AND) a m else [])"

definition net_contains :: "ip_net \<Rightarrow> ip \<Rightarrow> bool" where
  "net_contains n a =
     (let i = ip_key (in_ip n);
          m = (if length (in_mask n) = 16 \<and> length i = 4 then drop 12 (in_mask n) else in_mask n);
          x = ip_key a
      in (length i = 4 \<or> length i = 16) \<and> length m = length i \<and> length x = length i \<and> map2 (AND) i m = map2 (AND) x m)"

section \<open>Parsing\<close>

text \<open>A part of a dotted address: one to three digits without a leading zero, at most 255.\<close>

definition parse_octet :: "string \<Rightarrow> 8 word option" where
  "parse_octet s =
     (if s \<noteq> [] \<and> list_all is_digit s \<and> (hd s = CHR ''0'' \<longrightarrow> length s = 1) \<and> digits_val s \<le> 255
      then Some (word_of_int (digits_val s)) else None)"

definition parse_ipv4 :: "string \<Rightarrow> ip option" where
  "parse_ipv4 s =
     (let os = map parse_octet (split_on CHR ''.'' s)
      in if length os = 4 \<and> None \<notin> set os then Some (map the os) else None)"

text \<open>The first dot or colon decides, as in \<open>netip.ParseAddr\<close>.\<close>

fun parse_addr_from :: "(string \<Rightarrow> ip option) \<Rightarrow> string \<Rightarrow> string \<Rightarrow> ip option" where
  "parse_addr_from p6 s [] = None"
| "parse_addr_from p6 s (c # cs) =
     (if c = CHR ''.'' then parse_ipv4 s
      else if c = CHR '':'' then p6 s
      else if c = CHR ''%'' then None
      else parse_addr_from p6 s cs)"

definition parse_addr :: "(string \<Rightarrow> ip option) \<Rightarrow> string \<Rightarrow> ip option" where
  "parse_addr p6 s = parse_addr_from p6 s s"

definition as16 :: "ip \<Rightarrow> ip" where
  "as16 a = (if length a = 4 then v4_prefix @ a else a)"

definition parse_ip :: "(string \<Rightarrow> ip option) \<Rightarrow> string \<Rightarrow> ip option" where
  "parse_ip p6 s = map_option as16 (parse_addr p6 s)"

definition parse_cidr :: "(string \<Rightarrow> ip option) \<Rightarrow> string \<Rightarrow> (ip \<times> ip_net) option" where
  "parse_cidr p6 s =
     (let addr = takeWhile (\<lambda>c. c \<noteq> CHR ''/'') s; rest = dropWhile (\<lambda>c. c \<noteq> CHR ''/'') s
      in if rest = [] then None
         else (case parse_addr p6 addr of
                 None \<Rightarrow> None
               | Some a \<Rightarrow>
                   (let p = tl rest; bits = 8 * length a
                    in if p \<noteq> [] \<and> list_all is_digit p \<and> digits_val p \<le> int bits
                       then let m = cidr_mask (nat (digits_val p)) (length a)
                            in Some (as16 a, \<lparr>in_ip = ip_mask (as16 a) m, in_mask = m\<rparr>)
                       else None)))"

section \<open>Steps through a network\<close>

definition padding :: nat where
  "padding = 3"

text \<open>One more, with the carry out of the first byte.\<close>

fun inc_carry :: "ip \<Rightarrow> ip \<times> bool" where
  "inc_carry [] = ([], True)"
| "inc_carry (b # bs) =
     (case inc_carry bs of (bs, c) \<Rightarrow> if c then ((b + 1) # bs, b + 1 = 0) else (b # bs, False))"

definition inc_ip :: "ip \<Rightarrow> ip" where
  "inc_ip a = fst (inc_carry a)"

text \<open>A mask shorter than the address is an index out of range.\<close>

definition last_ip :: "ip_net \<Rightarrow> ip option" where
  "last_ip n =
     (if length (in_mask n) < length (in_ip n) then None
      else Some (map2 (\<lambda>x y. x OR NOT y) (in_ip n) (in_mask n)))"

definition normalize_ip_family :: "ip \<Rightarrow> ip \<Rightarrow> ip" where
  "normalize_ip_family a base =
     (case (to4 a, to4 base) of (Some x, Some _) \<Rightarrow> x | _ \<Rightarrow> a)"

fun bytes_ge :: "ip \<Rightarrow> ip \<Rightarrow> bool" where
  "bytes_ge (x # xs) (y # ys) = (if x > y then True else if x < y then False else bytes_ge xs ys)"
| "bytes_ge _ _ = True"

definition is_greater_or_equal :: "ip \<Rightarrow> ip \<Rightarrow> bool" where
  "is_greater_or_equal a b =
     (if length a \<noteq> length b then
        (case (to4 a, to4 b) of (Some x, Some y) \<Rightarrow> bytes_ge x y | _ \<Rightarrow> bytes_ge a b)
      else bytes_ge a b)"

datatype ip_error =
    No_free_ips
  | Invalid_mask
  | No_available_ips
  | No_random
  | Invalid_parent
  | Only_ipv4
  | Only_32_bits
  | Bad_prefix nat
  | Negative_count
  | No_more_subnets
  | Overflow_parent
  | No_subnet
  | Not_enough_ips
  | Invalid_ip
  | Invalid_cidr

definition past_end :: "ip_net \<Rightarrow> ip \<Rightarrow> ip \<Rightarrow> bool" where
  "past_end n a broadcast \<longleftrightarrow>
     \<not> net_contains n a \<or> ip_key a = ip_key broadcast \<or> is_greater_or_equal a broadcast"

definition pad_start :: "ip \<Rightarrow> ip" where
  "pad_start a = (inc_ip ^^ (padding + 1)) a"

text \<open>The used addresses of the network, those that parse.\<close>

definition used_ips :: "(string \<Rightarrow> ip option) \<Rightarrow> ip_net \<Rightarrow> string list \<Rightarrow> ip list" where
  "used_ips p6 n used =
     map ip_key (filter (net_contains n) (map (\<lambda>a. normalize_ip_family a (in_ip n)) (List.map_filter (parse_ip p6) used)))"

partial_function (option) first_free_from :: "ip list \<Rightarrow> ip \<Rightarrow> ip \<Rightarrow> ip option option" where
  "first_free_from used broadcast a =
     (if ip_key a = ip_key broadcast then Some None
      else if ip_key a \<notin> set used then Some (Some a)
      else first_free_from used broadcast (inc_ip a))"

text \<open>\<open>None\<close> is a panic or a loop without end.\<close>

definition first_free_ip ::
  "(string \<Rightarrow> ip option) \<Rightarrow> ip_net \<Rightarrow> string list \<Rightarrow> (ip_error + ip) option" where
  "first_free_ip p6 n used =
     (case last_ip n of
        None \<Rightarrow> None
      | Some broadcast \<Rightarrow>
          (let start = pad_start (ip_mask (in_ip n) (in_mask n))
           in if past_end n start broadcast then Some (Inl No_free_ips)
              else (case first_free_from (used_ips p6 n used) broadcast start of
                      None \<Rightarrow> None
                    | Some None \<Rightarrow> Some (Inl No_free_ips)
                    | Some (Some a) \<Rightarrow> Some (Inr a))))"

fun num :: "ip \<Rightarrow> nat" where
  "num [] = 0"
| "num (b # bs) = unat b * 256 ^ length bs + num bs"

fun bytes_of :: "nat \<Rightarrow> nat \<Rightarrow> ip" where
  "bytes_of 0 x = []"
| "bytes_of (Suc l) x = word_of_nat (x div 256 ^ l) # bytes_of l (x mod 256 ^ l)"

text \<open>A sum that needs more bytes than the address has is an index out of range.\<close>

definition add_big_int_to_ip :: "ip \<Rightarrow> nat \<Rightarrow> ip option" where
  "add_big_int_to_ip a off =
     (let s = num a + off in if s < 256 ^ length a then Some (bytes_of (length a) s) else None)"

definition random_ip :: "(nat \<Rightarrow> nat option) \<Rightarrow> ip_net \<Rightarrow> (ip_error + ip) option" where
  "random_ip rnd n =
     (case mask_size (in_mask n) of (ones, bits) \<Rightarrow>
        if bits = 0 then Some (Inl Invalid_mask)
        else if 2 ^ (bits - ones) \<le> (2 :: nat) then Some (Inl No_available_ips)
        else (case rnd (2 ^ (bits - ones) - 2) of
                None \<Rightarrow> Some (Inl No_random)
              | Some r \<Rightarrow> map_option Inr (add_big_int_to_ip (ip_mask (in_ip n) (in_mask n)) (r + 1))))"

section \<open>Subnets\<close>

definition ip_to_uint32 :: "ip \<Rightarrow> 32 word" where
  "ip_to_uint32 a =
     (case to4 a of
        None \<Rightarrow> 0
      | Some b \<Rightarrow> push_bit 24 (ucast (b ! 0)) OR push_bit 16 (ucast (b ! 1)) OR push_bit 8 (ucast (b ! 2)) OR ucast (b ! 3))"

definition uint32_to_ip :: "32 word \<Rightarrow> ip" where
  "uint32_to_ip n = map (\<lambda>k. ucast (drop_bit k n)) [24, 16, 8, 0]"

text \<open>\<open>uint32(1) << uint32(k)\<close>: zero when all bits are shifted out.\<close>

definition block_size :: "int \<Rightarrow> 32 word" where
  "block_size k = (let s = unat (word_of_int k :: 32 word) in if s < 32 then push_bit s 1 else 0)"

definition next_subnet_by_count ::
  "(string \<Rightarrow> ip option) \<Rightarrow> string \<Rightarrow> int \<Rightarrow> int \<Rightarrow> (ip_error + ip_net) option" where
  "next_subnet_by_count p6 parent prefix created =
     (case parse_cidr p6 parent of
        None \<Rightarrow> Some (Inl Invalid_parent)
      | Some (a, net) \<Rightarrow>
          (case to4 a of
             None \<Rightarrow> Some (Inl Only_ipv4)
           | Some a4 \<Rightarrow>
               (case mask_size (in_mask net) of (ones, bits) \<Rightarrow>
                  if bits \<noteq> 32 then Some (Inl Only_32_bits)
                  else if prefix < int ones \<or> prefix > 32 then Some (Inl (Bad_prefix ones))
                  else if created < 0 then Some (Inl Negative_count)
                  else let parent_start = ip_to_uint32 a4; parent_size = block_size (32 - int ones);
                           parent_end = parent_start + parent_size - 1; subnet_size = block_size (32 - prefix)
                       in if subnet_size = 0 then None
                          else if (word_of_int created :: 32 word) \<ge> parent_size div subnet_size
                          then Some (Inl No_more_subnets)
                          else let start = parent_start + word_of_int created * subnet_size
                               in if start + subnet_size - 1 > parent_end then Some (Inl Overflow_parent)
                                  else Some (Inr \<lparr>in_ip = uint32_to_ip start, in_mask = cidr_mask (nat prefix) 4\<rparr>))))"

definition used_ranges :: "(string \<Rightarrow> ip option) \<Rightarrow> string list \<Rightarrow> (32 word \<times> 32 word) list" where
  "used_ranges p6 existing =
     List.map_filter (\<lambda>s.
       case parse_cidr p6 s of
         None \<Rightarrow> None
       | Some (_, n) \<Rightarrow>
           if to4 (in_ip n) = None then None
           else let start = ip_to_uint32 (in_ip n);
                    sz = block_size (32 - int (fst (mask_size (in_mask n))))
                in Some (start, start + sz - 1)) existing"

definition collides :: "(32 word \<times> 32 word) list \<Rightarrow> 32 word \<Rightarrow> 32 word \<Rightarrow> bool" where
  "collides ranges s e = list_ex (\<lambda>(r0, r1). s \<le> r1 \<and> r0 \<le> e) ranges"

function find_subnet ::
  "(32 word \<times> 32 word) list \<Rightarrow> 32 word \<Rightarrow> 32 word \<Rightarrow> nat \<Rightarrow> nat \<Rightarrow> 32 word option" where
  "find_subnet ranges parent_start sz count i =
     (if i < count then
        let s = parent_start + word_of_nat i * sz
        in if collides ranges s (s + sz - 1) then find_subnet ranges parent_start sz count (i + 1) else Some s
      else None)"
  by auto
termination by (relation "measure (\<lambda>(_, _, _, n, i). n - i)") auto

declare find_subnet.simps [simp del]

fun take_ips :: "ip_net \<Rightarrow> ip \<Rightarrow> ip \<Rightarrow> nat \<Rightarrow> ip list option" where
  "take_ips n broadcast a 0 = Some []"
| "take_ips n broadcast a (Suc k) =
     (if past_end n a broadcast then None
      else map_option ((#) a) (take_ips n broadcast (inc_ip a) k))"

definition next_subnet_with_ips ::
  "(string \<Rightarrow> ip option) \<Rightarrow> string \<Rightarrow> int \<Rightarrow> string list \<Rightarrow> int \<Rightarrow> (ip_error + ip_net \<times> ip list) option" where
  "next_subnet_with_ips p6 parent prefix existing count =
     (case parse_cidr p6 parent of
        None \<Rightarrow> Some (Inl Invalid_parent)
      | Some (_, net) \<Rightarrow>
          if to4 (in_ip net) = None then Some (Inl Only_ipv4)
          else (case mask_size (in_mask net) of (ones, bits) \<Rightarrow>
            if bits \<noteq> 32 then Some (Inl Only_32_bits)
            else if prefix < int ones \<or> prefix > 32 then Some (Inl (Bad_prefix ones))
            else let parent_start = ip_to_uint32 (in_ip net); sz = block_size (32 - prefix);
                     parent_size = block_size (32 - int ones)
                 in if sz = 0 then None
                    else (case find_subnet (used_ranges p6 existing) parent_start sz (unat (parent_size div sz)) 0 of
                            None \<Rightarrow> Some (Inl No_subnet)
                          | Some s \<Rightarrow>
                              (let found = \<lparr>in_ip = uint32_to_ip s, in_mask = cidr_mask (nat prefix) 4\<rparr>
                               in case last_ip found of
                                    None \<Rightarrow> None
                                  | Some broadcast \<Rightarrow>
                                      (case take_ips found broadcast (pad_start (in_ip found)) (nat count) of
                                         None \<Rightarrow> Some (Inl Not_enough_ips)
                                       | Some ips \<Rightarrow> Some (Inr (found, ips)))))))"

definition is_ip_in_cidr :: "(string \<Rightarrow> ip option) \<Rightarrow> string \<Rightarrow> string \<Rightarrow> ip_error + bool" where
  "is_ip_in_cidr p6 ip cidr =
     (case parse_ip p6 ip of
        None \<Rightarrow> Inl Invalid_ip
      | Some a \<Rightarrow> (case parse_cidr p6 cidr of None \<Rightarrow> Inl Invalid_cidr | Some (_, n) \<Rightarrow> Inr (net_contains n a)))"


section \<open>Addresses as numbers\<close>

lemma unat_byte_less [simp]: "unat (b :: 8 word) < 256"
  using unsigned_less [of b] by simp

lemma unat_byte_le [simp]: "unat (b :: 8 word) \<le> 255"
  using unat_byte_less [of b] by linarith

lemma num_less: "num a < 256 ^ length a"
proof (induction a)
  case (Cons b bs)
  have "unat b * 256 ^ length bs + num bs < (unat b + 1) * 256 ^ length bs" using Cons by simp
  also have "\<dots> \<le> 256 * 256 ^ length bs" using unat_byte_le [of b] by (intro mult_right_mono) auto
  finally show ?case by simp
qed simp

lemma num_div [simp]: "num (b # bs) div 256 ^ length bs = unat b"
  using num_less [of bs] by simp

lemma num_mod [simp]: "num (b # bs) mod 256 ^ length bs = num bs"
  using num_less [of bs] by simp

lemma num_inj: "length a = length b \<Longrightarrow> num a = num b \<longleftrightarrow> a = b"
proof (induction a b rule: list_induct2)
  case (Cons x xs y ys)
  show ?case
  proof
    assume e: "num (x # xs) = num (y # ys)"
    have "unat x = unat y" using arg_cong [OF e, of "\<lambda>n. n div 256 ^ length xs"] Cons.hyps num_div [of x xs] num_div [of y ys] by simp
    moreover have "num xs = num ys" using arg_cong [OF e, of "\<lambda>n. n mod 256 ^ length xs"] Cons.hyps num_mod [of x xs] num_mod [of y ys] by simp
    ultimately show "x # xs = y # ys" using Cons.IH by (simp add: word_unat_eq_iff)
  qed simp
qed simp

lemma length_bytes_of [simp]: "length (bytes_of l x) = l"
  by (induction l x rule: bytes_of.induct) simp_all

lemma num_bytes_of: "x < 256 ^ l \<Longrightarrow> num (bytes_of l x) = x"
proof (induction l x rule: bytes_of.induct)
  case (2 l x)
  then have "x div 256 ^ l < 256" by (simp add: less_mult_imp_div_less)
  then have "unat (word_of_nat (x div 256 ^ l) :: 8 word) = x div 256 ^ l" by (simp add: unat_of_nat)
  then show ?case using 2 by (simp add: div_mult_mod_eq del: unsigned_of_nat)
qed simp

lemma inc_carry_num:
  "inc_carry a = (a', c) \<Longrightarrow> length a' = length a \<and>
     (if num a + 1 = 256 ^ length a then c \<and> num a' = 0 else \<not> c \<and> num a' = num a + 1)"
proof (induction a arbitrary: a' c)
  case (Cons b bs)
  obtain bs' d where r: "inc_carry bs = (bs', d)" by fastforce
  note ih = Cons.IH [OF r]
  show ?case
  proof (cases "num bs + 1 = 256 ^ length bs")
    case False
    have "num (b # bs) + 1 \<noteq> 256 ^ length (b # bs)"
    proof
      assume "num (b # bs) + 1 = 256 ^ length (b # bs)"
      then have "num (b # bs) + 1 = 256 * 256 ^ length bs" by simp
      moreover have "num bs + 1 < 256 ^ length bs" using num_less [of bs] False by simp
      moreover have "unat b * 256 ^ length bs \<le> 255 * 256 ^ length bs" by (intro mult_right_mono) auto
      ultimately show False by simp
    qed
    then show ?thesis using ih False Cons.prems r by auto
  next
    case True
    have b: "unat (b + 1) = (if unat b = 255 then 0 else unat b + 1)" using unat_byte_le [of b] by (auto simp: unat_word_ariths le_less)
    have z: "b + 1 = 0 \<longleftrightarrow> unat b = 255" using b unat_eq_0 [of "b + 1"] by (auto split: if_splits)
    have n: "num (b # bs) + 1 = (unat b + 1) * 256 ^ length bs" using True by simp
    have f: "num (b # bs) + 1 = 256 ^ length (b # bs) \<longleftrightarrow> unat b = 255"
    proof -
      have "num (b # bs) + 1 = 256 ^ length (b # bs) \<longleftrightarrow> (unat b + 1) * 256 ^ length bs = 256 * 256 ^ length bs"
        unfolding n by simp
      also have "\<dots> \<longleftrightarrow> unat b = 255" by (subst mult_cancel2) auto
      finally show ?thesis .
    qed
    show ?thesis
    proof (cases "unat b = 255")
      case True
      then show ?thesis using ih \<open>num bs + 1 = _\<close> Cons.prems r b z f by auto
    next
      case False
      then have "a' = (b + 1) # bs'" "\<not> c" using ih \<open>num bs + 1 = _\<close> Cons.prems r z by auto
      then show ?thesis using ih True b n False f by simp
    qed
  qed
qed simp

lemma length_inc_ip [simp]: "length (inc_ip a) = length a"
  using inc_carry_num [of a] by (cases "inc_carry a") (auto simp: inc_ip_def)

lemma num_inc_ip: "num (inc_ip a) = (num a + 1) mod 256 ^ length a"
  using inc_carry_num [of a] num_less [of a] by (cases "inc_carry a") (auto simp: inc_ip_def split: if_splits)

lemma inc_ip_pow: "length ((inc_ip ^^ k) a) = length a \<and> num ((inc_ip ^^ k) a) = (num a + k) mod 256 ^ length a"
  using num_less [of a] by (induction k) (auto simp: num_inc_ip mod_simps)

lemma bytes_ge_num: "length a = length b \<Longrightarrow> bytes_ge a b \<longleftrightarrow> num b \<le> num a"
proof (induction a b rule: list_induct2)
  case (Cons x xs y ys)
  let ?k = "256 ^ length xs :: nat"
  have l: "num xs < ?k" "num ys < ?k" using num_less [of xs] num_less [of ys] Cons.hyps by simp_all
  have step: "u * ?k + num xs < v * ?k + num ys" "u * ?k + num ys < v * ?k + num xs" if "u < v" for u v :: nat
  proof -
    have "(u + 1) * ?k \<le> v * ?k" using that by (intro mult_right_mono) auto
    then show "u * ?k + num xs < v * ?k + num ys" "u * ?k + num ys < v * ?k + num xs" using l by simp_all
  qed
  consider "unat x < unat y" | "unat y < unat x" | "x = y" by (metis linorder_neqE_nat word_unat_eq_iff)
  then show ?case
  proof cases
    case 1
    then show ?thesis using step(1) [OF 1] Cons.hyps by (simp add: word_less_nat_alt)
  next
    case 2
    then show ?thesis using step(2) [OF 2] Cons.hyps by (simp add: word_less_nat_alt)
  next
    case 3
    then show ?thesis using Cons by simp
  qed
qed simp

section \<open>Masks\<close>

lemma drop_bit_255: "k \<le> 8 \<Longrightarrow> drop_bit k (255 :: 8 word) = mask (8 - k)"
proof -
  assume k: "k \<le> 8"
  have "(255 :: 8 word) = mask 8" by (simp add: mask_eq_exp_minus_1)
  moreover have "drop_bit k (mask 8 :: 8 word) = mask (8 - k)"
    by (rule bit_eqI) (use k in \<open>auto simp: bit_simps\<close>)
  ultimately show ?thesis by simp
qed

lemma and_not_mask: "(b :: 8 word) AND NOT (mask k) = push_bit k (drop_bit k b)"
  by (rule bit_eqI) (auto simp: bit_simps)

lemma unat_and_not_mask: "unat ((b :: 8 word) AND NOT (mask k)) = unat b div 2 ^ k * 2 ^ k"
proof -
  have "unat b div 2 ^ k * 2 ^ k < 256" using unat_byte_less [of b] div_times_less_eq_dividend [of "unat b" "2 ^ k"] by linarith
  moreover have "unat (b AND NOT (mask k)) = take_bit 8 (push_bit k (drop_bit k (unat b)))"
    by (simp add: and_not_mask unsigned_push_bit_eq unat_drop_bit_eq)
  ultimately show ?thesis by (simp add: drop_bit_eq_div [of k "unat b"] push_bit_eq_mult [of k "_ :: nat"] take_bit_eq_mod [of 8 "_ :: nat"])
qed

lemma unat_mask_8: "k \<le> 8 \<Longrightarrow> unat (mask k :: 8 word) = 2 ^ k - 1"
proof -
  assume "k \<le> 8"
  then have "k = 0 \<or> k = 1 \<or> k = 2 \<or> k = 3 \<or> k = 4 \<or> k = 5 \<or> k = 6 \<or> k = 7 \<or> k = 8" by arith
  then show ?thesis by (elim disjE) (simp_all add: mask_eq_exp_minus_1)
qed

lemma dvd_add_less: "(d :: nat) dvd m \<Longrightarrow> d dvd x \<Longrightarrow> x < m \<Longrightarrow> y < d \<Longrightarrow> x + y < m"
proof -
  assume "d dvd m" "d dvd x" "x < m" "y < d"
  then obtain p q where "m = d * p" "x = d * q" by (auto elim!: dvdE)
  moreover have "q < p" using calculation \<open>x < m\<close> by (cases "d = 0") auto
  moreover have "d * (q + 1) \<le> d * p" using \<open>q < p\<close> by (intro mult_left_mono) auto
  ultimately show "x + y < m" using \<open>y < d\<close> by simp
qed

lemma unat_or_mask: "k \<le> 8 \<Longrightarrow> unat ((b :: 8 word) OR mask k) = unat b div 2 ^ k * 2 ^ k + (2 ^ k - 1)"
proof -
  assume k: "k \<le> 8"
  have "b OR mask k = (b AND NOT (mask k)) OR mask k" by (rule bit_eqI) (auto simp: bit_simps)
  also have "\<dots> = (b AND NOT (mask k)) + mask k" by (rule disjunctive_add_eq_or [symmetric]) (rule bit_eqI, auto simp: bit_simps)
  finally have e: "b OR mask k = (b AND NOT (mask k)) + mask k" .
  have "unat b div 2 ^ k * 2 ^ k < 256" using unat_byte_less [of b] div_times_less_eq_dividend [of "unat b" "2 ^ k"] by linarith
  then have "unat b div 2 ^ k * 2 ^ k + (2 ^ k - 1) < 256"
    using dvd_add_less [of "2 ^ k" 256 "unat b div 2 ^ k * 2 ^ k" "2 ^ k - 1"] k le_imp_power_dvd [of k 8 "2 :: nat"] by simp
  then show ?thesis unfolding e by (simp add: unat_word_ariths unat_and_not_mask unat_mask_8 k)
qed

lemma length_cidr_mask [simp]: "length (cidr_mask n l) = l"
  by (induction n l rule: cidr_mask.induct) simp_all

lemma cidr_mask_0: "cidr_mask 0 l = replicate l 0"
  by (induction l) simp_all

lemma block_div:
  fixes x y :: nat
  assumes "y < 256 ^ l"
  shows "(x * 256 ^ l + y) div (2 ^ k * 256 ^ l) = x div 2 ^ k"
proof -
  have "(x * 256 ^ l + y) div (256 ^ l * 2 ^ k) = (x * 256 ^ l + y) div 256 ^ l div 2 ^ k" by (rule div_mult2_eq)
  also have "(x * 256 ^ l + y) div 256 ^ l = x" using assms by simp
  finally show ?thesis by (simp add: mult.commute)
qed

lemma pow_256: "(256 :: nat) ^ l = 2 ^ (8 * l)"
  by (simp add: power_mult)

lemma block_low:
  fixes x y :: nat
  assumes "h \<le> 8 * l"
  shows "(x * 256 ^ l + y) div 2 ^ h * 2 ^ h = x * 256 ^ l + y div 2 ^ h * 2 ^ h"
proof -
  have "(256 :: nat) ^ l = 2 ^ (8 * l - h) * 2 ^ h" using assms by (simp add: pow_256 flip: power_add)
  then obtain q :: nat where q: "256 ^ l = q * 2 ^ h" by blast
  have "(x * q * 2 ^ h + y) div 2 ^ h = x * q + y div 2 ^ h" by simp
  then show ?thesis by (simp only: q mult.assoc [symmetric] distrib_right)
qed

lemma num_replicate_0 [simp]: "num (replicate l 0) = 0"
  by (induction l) simp_all

lemma map2_and_0: "length bs = l \<Longrightarrow> map2 (AND) bs (replicate l 0) = replicate l (0 :: 8 word)"
  by (induction bs arbitrary: l) auto

lemma map2_or_0: "length bs = l \<Longrightarrow> map2 (\<lambda>x y. x OR NOT y) bs (replicate l 0) = replicate l (- 1 :: 8 word)"
  by (induction bs arbitrary: l) auto

lemma num_replicate_max: "num (replicate l (- 1)) = 256 ^ l - 1"
  by (induction l) (auto simp: unsigned_minus_1_eq_mask mask_eq_exp_minus_1)

lemma num_and_mask:
  "n \<le> 8 * l \<Longrightarrow> length a = l \<Longrightarrow>
   num (map2 (AND) a (cidr_mask n l)) = num a div 2 ^ (8 * l - n) * 2 ^ (8 * l - n)"
proof (induction n l arbitrary: a rule: cidr_mask.induct)
  case (2 n l)
  then obtain b bs where a: "a = b # bs" "length bs = l" by (cases a) auto
  show ?case
  proof (cases "8 \<le> n")
    case True
    have m: "255 = (- 1 :: 8 word)" by simp
    have h: "8 * Suc l - n = 8 * l - (n - 8)" using True by simp
    have "num (map2 (AND) bs (cidr_mask (n - 8) l)) = num bs div 2 ^ (8 * l - (n - 8)) * 2 ^ (8 * l - (n - 8))"
      using "2.IH"(1) [OF True, of bs] "2.prems" a by simp
    then show ?thesis using True a block_low [of "8 * l - (n - 8)" l "unat b" "num bs"] unfolding h by (simp add: m del: word_of_int_numeral)
  next
    case False
    have h: "8 * Suc l - n = (8 - n) + 8 * l" using False by simp
    have "num (map2 (AND) a (cidr_mask n (Suc l))) = unat b div 2 ^ (8 - n) * 2 ^ (8 - n) * 256 ^ l"
      using False a by (simp add: cidr_mask_0 map2_and_0 drop_bit_255 unat_and_not_mask)
    moreover have "num a div (2 ^ (8 - n) * 256 ^ l) = unat b div 2 ^ (8 - n)"
      using block_div [of "num bs" l "unat b" "8 - n"] num_less [of bs] a by simp
    ultimately show ?thesis unfolding h by (simp add: power_add pow_256 mult.assoc)
  qed
qed simp

lemma fill_low: "0 < p \<Longrightarrow> 0 < m \<Longrightarrow> (u * p + (p - 1)) * m + (m - 1) = u * (p * m) + (p * m - 1)" for p m u :: nat
  by (cases p; cases m) (simp_all add: algebra_simps)

lemma num_or_mask:
  "n \<le> 8 * l \<Longrightarrow> length a = l \<Longrightarrow>
   num (map2 (\<lambda>x y. x OR NOT y) a (cidr_mask n l)) = num a div 2 ^ (8 * l - n) * 2 ^ (8 * l - n) + (2 ^ (8 * l - n) - 1)"
proof (induction n l arbitrary: a rule: cidr_mask.induct)
  case (2 n l)
  then obtain b bs where a: "a = b # bs" "length bs = l" by (cases a) auto
  show ?case
  proof (cases "8 \<le> n")
    case True
    have m: "255 = (- 1 :: 8 word)" by simp
    have h: "8 * Suc l - n = 8 * l - (n - 8)" using True by simp
    have "num (map2 (\<lambda>x y. x OR NOT y) bs (cidr_mask (n - 8) l)) =
      num bs div 2 ^ (8 * l - (n - 8)) * 2 ^ (8 * l - (n - 8)) + (2 ^ (8 * l - (n - 8)) - 1)"
      using "2.IH"(1) [OF True, of bs] "2.prems" a by simp
    moreover have "num (map2 (\<lambda>x y. x OR NOT y) a (cidr_mask n (Suc l))) =
        unat b * 256 ^ l + num (map2 (\<lambda>x y. x OR NOT y) bs (cidr_mask (n - 8) l))" using True a by (simp add: m)
    moreover have "num a div 2 ^ (8 * l - (n - 8)) * 2 ^ (8 * l - (n - 8)) =
        unat b * 256 ^ l + num bs div 2 ^ (8 * l - (n - 8)) * 2 ^ (8 * l - (n - 8))"
      using True a block_low [of "8 * l - (n - 8)" l "unat b" "num bs"] by simp
    ultimately show ?thesis unfolding h by (simp only: add.assoc)
  next
    case False
    have h: "8 * Suc l - n = (8 - n) + 8 * l" using False by simp
    have "num (map2 (\<lambda>x y. x OR NOT y) a (cidr_mask n (Suc l))) =
        (unat b div 2 ^ (8 - n) * 2 ^ (8 - n) + (2 ^ (8 - n) - 1)) * 256 ^ l + (256 ^ l - 1)"
      using False a by (simp add: cidr_mask_0 map2_or_0 drop_bit_255 unat_or_mask num_replicate_max)
    moreover have "num a div (2 ^ (8 - n) * 256 ^ l) = unat b div 2 ^ (8 - n)"
      using block_div [of "num bs" l "unat b" "8 - n"] num_less [of bs] a by simp
    ultimately show ?thesis unfolding h using fill_low [of "2 ^ (8 - n)" "256 ^ l" "unat b div 2 ^ (8 - n)"]
      by (simp only: power_add pow_256 [symmetric]) simp
  qed
qed simp

section \<open>IPv4 networks\<close>

definition net4 :: "ip_net \<Rightarrow> nat \<Rightarrow> bool" where
  "net4 N n \<longleftrightarrow> length (in_ip N) = 4 \<and> n \<le> 32 \<and> in_mask N = cidr_mask n 4"

text \<open>The number of the first address.\<close>

definition low :: "ip_net \<Rightarrow> nat \<Rightarrow> nat" where
  "low N n = num (in_ip N) div 2 ^ (32 - n) * 2 ^ (32 - n)"

lemma ip_key_4 [simp]: "length a = 4 \<Longrightarrow> ip_key a = a" "length a = 4 \<Longrightarrow> to4 a = Some a"
  by (simp_all add: ip_key_def to4_def)

lemma to4_length: "to4 a = Some b \<Longrightarrow> length b = 4"
  by (auto simp: to4_def split: if_splits)

lemma length_ip_key: "length (ip_key a) = 4 \<longleftrightarrow> to4 a = Some (ip_key a)"
  by (auto simp: ip_key_def to4_def split: if_splits)

lemma low_bound:
  assumes "net4 N n"
  shows "low N n + 2 ^ (32 - n) \<le> 2 ^ 32"
proof -
  have "num (in_ip N) < 2 ^ 32" using num_less [of "in_ip N"] assms by (simp add: net4_def)
  then have "low N n < 2 ^ 32" unfolding low_def using div_times_less_eq_dividend [of "num (in_ip N)" "2 ^ (32 - n)"] by linarith
  moreover have "(2 :: nat) ^ (32 - n) dvd 2 ^ 32" by (rule le_imp_power_dvd) simp
  ultimately have "low N n + (2 ^ (32 - n) - 1) < 2 ^ 32"
    using dvd_add_less [of "2 ^ (32 - n)" "2 ^ 32" "low N n" "2 ^ (32 - n) - 1"] by (simp add: low_def)
  moreover have "(1 :: nat) \<le> 2 ^ (32 - n)" by simp
  ultimately show ?thesis by linarith
qed

lemma same_block:
  fixes x y :: nat
  shows "x div 2 ^ h = y div 2 ^ h \<longleftrightarrow> y div 2 ^ h * 2 ^ h \<le> x \<and> x < y div 2 ^ h * 2 ^ h + 2 ^ h"
proof -
  have "x div 2 ^ h = q \<longleftrightarrow> q * 2 ^ h \<le> x \<and> x < q * 2 ^ h + 2 ^ h" for q :: nat
    by (metis add.commute div_nat_eqI div_times_less_eq_dividend dividend_less_div_times mult.commute mult_Suc zero_less_numeral zero_less_power)
  then show ?thesis by simp
qed

lemma net_contains_4:
  assumes "net4 N n" and "length a = 4"
  shows "net_contains N a \<longleftrightarrow> low N n \<le> num a \<and> num a < low N n + 2 ^ (32 - n)"
proof -
  have "net_contains N a \<longleftrightarrow> map2 (AND) (in_ip N) (cidr_mask n 4) = map2 (AND) a (cidr_mask n 4)"
    using assms by (simp add: net_contains_def net4_def Let_def)
  also have "\<dots> \<longleftrightarrow> num (in_ip N) div 2 ^ (32 - n) * 2 ^ (32 - n) = num a div 2 ^ (32 - n) * 2 ^ (32 - n)"
    using assms num_and_mask [of n 4 a] num_and_mask [of n 4 "in_ip N"]
      num_inj [of "map2 (AND) (in_ip N) (cidr_mask n 4)" "map2 (AND) a (cidr_mask n 4)"] by (simp add: net4_def)
  also have "\<dots> \<longleftrightarrow> num a div 2 ^ (32 - n) = num (in_ip N) div 2 ^ (32 - n)" by auto
  finally show ?thesis unfolding low_def using same_block [of "num a" "32 - n" "num (in_ip N)"] by blast
qed

lemma net_contains_key: "net4 N n \<Longrightarrow> net_contains N a \<longleftrightarrow> length (ip_key a) = 4 \<and> net_contains N (ip_key a)"
  by (auto simp: net_contains_def net4_def Let_def)

lemma last_ip_4:
  assumes "net4 N n"
  obtains b where "last_ip N = Some b" "length b = 4" "num b = low N n + 2 ^ (32 - n) - 1"
proof
  show "last_ip N = Some (map2 (\<lambda>x y. x OR NOT y) (in_ip N) (cidr_mask n 4))" using assms by (simp add: last_ip_def net4_def)
  show "length (map2 (\<lambda>x y. x OR NOT y) (in_ip N) (cidr_mask n 4)) = 4" using assms by (simp add: net4_def)
  show "num (map2 (\<lambda>x y. x OR NOT y) (in_ip N) (cidr_mask n 4)) = low N n + 2 ^ (32 - n) - 1"
    using assms num_or_mask [of n 4 "in_ip N"] by (simp add: net4_def low_def)
qed

lemma first_ip_4:
  assumes "net4 N n"
  shows "length (ip_mask (in_ip N) (in_mask N)) = 4" "num (ip_mask (in_ip N) (in_mask N)) = low N n"
  using assms num_and_mask [of n 4 "in_ip N"] by (simp_all add: ip_mask_def net4_def low_def)

lemma past_end_4:
  assumes "net4 N n" and "length a = 4" and "last_ip N = Some b"
  shows "past_end N a b \<longleftrightarrow> \<not> (low N n \<le> num a \<and> num a < num b)"
proof -
  obtain b' where b: "last_ip N = Some b'" "length b' = 4" "num b' = low N n + 2 ^ (32 - n) - 1"
    using last_ip_4 [OF assms(1)] by blast
  then have b': "b' = b" using assms(3) by simp
  have "(1 :: nat) \<le> 2 ^ (32 - n)" by simp
  then show ?thesis using b b' assms net_contains_4 [OF assms(1,2)] bytes_ge_num [of a b]
    by (auto simp: past_end_def is_greater_or_equal_def)
qed

lemma pad_start_4: "length a = 4 \<Longrightarrow> length (pad_start a) = 4 \<and> num (pad_start a) = (num a + 4) mod 2 ^ 32"
  using inc_ip_pow [of 4 a] by (simp add: pad_start_def padding_def del: funpow.simps)

lemma inc_ip_4: "length a = 4 \<Longrightarrow> num a < num b \<Longrightarrow> length b = 4 \<Longrightarrow> num (inc_ip a) = num a + 1"
  using num_less [of b] by (simp add: num_inc_ip)


section \<open>Free and random addresses\<close>

definition is_first :: "(ip \<Rightarrow> bool) \<Rightarrow> nat \<Rightarrow> nat \<Rightarrow> ip option \<Rightarrow> bool" where
  "is_first taken lo hi r \<longleftrightarrow>
     (case r of
        None \<Rightarrow> \<forall>x. length x = 4 \<and> lo \<le> num x \<and> num x < hi \<longrightarrow> taken x
      | Some y \<Rightarrow> length y = 4 \<and> lo \<le> num y \<and> num y < hi \<and> \<not> taken y \<and>
          (\<forall>x. length x = 4 \<and> lo \<le> num x \<and> num x < num y \<longrightarrow> taken x))"

lemma is_first_step:
  assumes "length a = 4" "taken a" "is_first taken (num a + 1) hi r"
  shows "is_first taken (num a) hi r"
proof -
  have "taken x" if "length x = 4" "num a \<le> num x" "num a + 1 \<le> num x \<longrightarrow> taken x" for x
  proof (cases "num x = num a")
    case True
    then have "x = a" using num_inj [of x a] that assms(1) by simp
    then show ?thesis using assms(2) by simp
  qed (use that in auto)
  then show ?thesis using assms(3) by (auto simp: is_first_def split: option.splits)
qed

lemma first_free_from_4:
  "length a = 4 \<Longrightarrow> length b = 4 \<Longrightarrow> num a \<le> num b \<Longrightarrow>
   \<exists>r. first_free_from used b a = Some r \<and> is_first (\<lambda>x. x \<in> set used) (num a) (num b) r"
proof (induction "num b - num a" arbitrary: a)
  case 0
  then have "a = b" using num_inj [of a b] by simp
  then show ?case using 0 by (intro exI [of _ None]) (auto simp: first_free_from.simps is_first_def)
next
  case (Suc k)
  then have lt: "num a < num b" and ne: "a \<noteq> b" by auto
  note n = inc_ip_4 [OF Suc.prems(1) lt Suc.prems(2)]
  show ?case
  proof (cases "a \<in> set used")
    case False
    then show ?thesis using ne lt Suc.prems by (intro exI [of _ "Some a"]) (auto simp: first_free_from.simps is_first_def)
  next
    case True
    have "k = num b - num (inc_ip a)" "length (inc_ip a) = 4" "num (inc_ip a) \<le> num b"
      using Suc.hyps(2) Suc.prems lt n by simp_all
    then obtain r where r: "first_free_from used b (inc_ip a) = Some r"
      "is_first (\<lambda>x. x \<in> set used) (num (inc_ip a)) (num b) r"
      using Suc.hyps(1) [of "inc_ip a"] Suc.prems(2) by blast
    have "first_free_from used b a = Some r" using r(1) True ne Suc.prems(1,2) by (simp add: first_free_from.simps)
    moreover have "is_first (\<lambda>x. x \<in> set used) (num a) (num b) r"
      using is_first_step [OF Suc.prems(1), of "\<lambda>x. x \<in> set used"] True r(2) n by simp
    ultimately show ?thesis by blast
  qed
qed

text \<open>The addresses that may be given out: all but the first four and the last.\<close>

definition usable :: "ip_net \<Rightarrow> ip \<Rightarrow> bool" where
  "usable N x \<longleftrightarrow> length x = 4 \<and> net_contains N x \<and>
     num (ip_mask (in_ip N) (in_mask N)) + padding < num x \<and> last_ip N \<noteq> Some x"

definition is_taken :: "(string \<Rightarrow> ip option) \<Rightarrow> string list \<Rightarrow> ip \<Rightarrow> bool" where
  "is_taken p6 used x \<longleftrightarrow> (\<exists>s\<in>set used. \<exists>a. parse_ip p6 s = Some a \<and> ip_key a = x)"

lemma usable_num:
  assumes "net4 N n" and "last_ip N = Some b"
  shows "usable N x \<longleftrightarrow> length x = 4 \<and> low N n + 4 \<le> num x \<and> num x < num b"
proof -
  obtain b' where b: "last_ip N = Some b'" "length b' = 4" "num b' = low N n + 2 ^ (32 - n) - 1"
    using last_ip_4 [OF assms(1)] by blast
  then have b': "b' = b" using assms(2) by simp
  have "(1 :: nat) \<le> 2 ^ (32 - n)" by simp
  then show ?thesis using b b' first_ip_4 [OF assms(1)] net_contains_4 [OF assms(1), of x] num_inj [of x b]
    by (auto simp: usable_def padding_def)
qed

lemma map_filter_set: "x \<in> set (List.map_filter f xs) \<longleftrightarrow> (\<exists>y\<in>set xs. f y = Some x)"
  by (force simp: List.map_filter_def)

lemma ex_map_filter: "(\<exists>a\<in>set (List.map_filter f xs). Q a) \<longleftrightarrow> (\<exists>s\<in>set xs. \<exists>a. f s = Some a \<and> Q a)"
  unfolding Bex_def map_filter_set by blast

lemma used_ips_4:
  assumes "net4 N n" and "length x = 4" and "net_contains N x"
  shows "x \<in> set (used_ips p6 N used) \<longleftrightarrow> is_taken p6 used x"
proof -
  have k: "ip_key (normalize_ip_family a (in_ip N)) = ip_key a" for a
    using assms(1) to4_length [of a] by (auto simp: normalize_ip_family_def net4_def ip_key_def split: option.splits)
  have "net_contains N (normalize_ip_family a (in_ip N)) \<longleftrightarrow> net_contains N (ip_key a) \<and> length (ip_key a) = 4" for a
    using net_contains_key [OF assms(1), of "normalize_ip_family a (in_ip N)"] k [of a] by auto
  then have "x \<in> set (used_ips p6 N used) \<longleftrightarrow>
      (\<exists>a\<in>set (List.map_filter (parse_ip p6) used). ip_key a = x \<and> net_contains N (ip_key a) \<and> length (ip_key a) = 4)"
    using k by (force simp: used_ips_def image_iff)
  also have "\<dots> \<longleftrightarrow> is_taken p6 used x" unfolding ex_map_filter is_taken_def using assms(2,3) by blast
  finally show ?thesis .
qed

lemma pad_num:
  assumes "net4 N n" and "last_ip N = Some b" and "length s = 4" "num s = low N n" and "\<not> past_end N (pad_start s) b"
  shows "num (pad_start s) = low N n + 4"
proof -
  note a = pad_start_4 [OF assms(3)]
  then have lo: "low N n \<le> num (pad_start s)" using past_end_4 [OF assms(1) _ assms(2)] assms(5) by blast
  show ?thesis
  proof (cases "low N n + 4 < 2 ^ 32")
    case False
    have "low N n < 2 ^ 32" using num_less [of s] assms(3,4) by simp
    then have "(low N n + 4) mod 2 ^ 32 = low N n + 4 - 2 ^ 32" using False by (simp add: mod_if)
    then have "num (pad_start s) < 4" using a assms(4) \<open>low N n < 2 ^ 32\<close> by simp
    then show ?thesis using lo False by simp
  qed (use a assms(4) in simp)
qed

lemma first_free_correct:
  assumes "net4 N n"
  obtains r where "first_free_ip p6 N used = Some r"
    "case r of
       Inl e \<Rightarrow> e = No_free_ips \<and> (\<forall>x. usable N x \<longrightarrow> is_taken p6 used x)
     | Inr y \<Rightarrow> usable N y \<and> \<not> is_taken p6 used y \<and>
         (\<forall>x. usable N x \<and> num x < num y \<longrightarrow> is_taken p6 used x)"
proof -
  obtain b where b: "last_ip N = Some b" "length b = 4" "num b = low N n + 2 ^ (32 - n) - 1"
    using last_ip_4 [OF assms] by blast
  define a where "a = pad_start (ip_mask (in_ip N) (in_mask N))"
  have a: "length a = 4" "num a = (low N n + 4) mod 2 ^ 32"
    using pad_start_4 [of "ip_mask (in_ip N) (in_mask N)"] first_ip_4 [OF assms] by (simp_all add: a_def)
  note u = usable_num [OF assms b(1)]
  have used: "x \<in> set (used_ips p6 N used) \<longleftrightarrow> is_taken p6 used x" if "usable N x" for x
    using used_ips_4 [OF assms] that by (simp add: usable_def)
  have bb: "num b < 2 ^ 32" using num_less [of b] b by simp
  show thesis
  proof (cases "past_end N a b")
    case True
    have "\<not> usable N x" for x
    proof
      assume "usable N x"
      then have "low N n + 4 < 2 ^ 32" "low N n + 4 < num b" using u bb by auto
      then show False using True past_end_4 [OF assms a(1) b(1)] a(2) by simp
    qed
    then show thesis using True b(1) by (intro that [of "Inl No_free_ips"]) (auto simp: first_free_ip_def Let_def a_def)
  next
    case False
    then have lo: "low N n \<le> num a" "num a < num b" using past_end_4 [OF assms a(1) b(1)] by auto
    have na: "num a = low N n + 4"
      using pad_num [OF assms b(1) first_ip_4 [OF assms]] False by (simp add: a_def)
    obtain r where r: "first_free_from (used_ips p6 N used) b a = Some r"
      "is_first (\<lambda>x. x \<in> set (used_ips p6 N used)) (num a) (num b) r"
      using first_free_from_4 [OF a(1) b(2), of "used_ips p6 N used"] lo by auto
    have t: "usable N x \<longleftrightarrow> length x = 4 \<and> num a \<le> num x \<and> num x < num b" for x using u na by simp
    show thesis
    proof (cases r)
      case None
      then have "\<forall>x. usable N x \<longrightarrow> is_taken p6 used x" using r(2) t used by (simp add: is_first_def)
      then show thesis using None r(1) False b(1)
        by (intro that [of "Inl No_free_ips"]) (auto simp: first_free_ip_def Let_def a_def [symmetric])
    next
      case (Some y)
      then have "usable N y" "y \<notin> set (used_ips p6 N used)" using r(2) t by (simp_all add: is_first_def)
      moreover have "is_taken p6 used x" if "usable N x \<and> num x < num y" for x
        using Some r(2) t [of x] used [of x] that by (simp add: is_first_def)
      ultimately show thesis using Some r(1) False b(1) used
        by (intro that [of "Inr y"]) (auto simp: first_free_ip_def Let_def a_def [symmetric])
    qed
  qed
qed


lemma leading_ones_8:
  "leading_ones 8 b = (if bit b 7 then 1 + (if bit b 6 then 1 + (if bit b 5 then 1 + (if bit b 4 then 1 +
     (if bit b 3 then 1 + (if bit b 2 then 1 + (if bit b 1 then 1 + (if bit b 0 then 1 else 0) else 0) else 0) else 0) else 0) else 0) else 0) else 0)"
  by (simp add: numeral_eq_Suc)

lemma leading_ones_byte: "n < 8 \<Longrightarrow> leading_ones 8 (NOT (drop_bit n 255)) = n \<and> NOT (drop_bit n 255) \<noteq> (255 :: 8 word)"
proof -
  assume n: "n < 8"
  have b: "bit (NOT (drop_bit n (255 :: 8 word))) j \<longleftrightarrow> j < 8 \<and> 8 - n \<le> j" for j
    using n by (auto simp: drop_bit_255 bit_simps)
  have "\<not> bit (NOT (drop_bit n (255 :: 8 word))) 0" "bit (255 :: 8 word) 0" using b n by simp_all
  then have "NOT (drop_bit n 255) \<noteq> (255 :: 8 word)" by metis
  moreover have "leading_ones 8 (NOT (drop_bit n 255)) = n" unfolding leading_ones_8 b using n by simp arith
  ultimately show ?thesis by simp
qed

lemma mask_length_cidr: "n \<le> 8 * l \<Longrightarrow> mask_length (cidr_mask n l) = Some n"
proof (induction n l rule: cidr_mask.induct)
  case (2 n l)
  then show ?case using leading_ones_byte [of n] by (cases "8 \<le> n") (simp_all add: Let_def cidr_mask_0 list_all_length)
qed simp

lemma mask_size_cidr: "n \<le> 8 * l \<Longrightarrow> mask_size (cidr_mask n l) = (n, 8 * l)"
  by (simp add: mask_size_def mask_length_cidr)

text \<open>A random address is neither the first nor the last.\<close>

lemma random_ip_correct:
  assumes "net4 N n" and "n \<le> 30" and "rnd (2 ^ (32 - n) - 2) = Some r" and "r < 2 ^ (32 - n) - 2"
  obtains y b where "random_ip rnd N = Some (Inr y)" "last_ip N = Some b" "length y = 4" "net_contains N y"
    "num y = low N n + 1 + r" "num y < num b"
proof -
  obtain b where b: "last_ip N = Some b" "length b = 4" "num b = low N n + 2 ^ (32 - n) - 1"
    using last_ip_4 [OF assms(1)] by blast
  let ?a = "ip_mask (in_ip N) (in_mask N)"
  have fit: "num ?a + (r + 1) < 256 ^ 4" using low_bound [OF assms(1)] assms(4) first_ip_4 [OF assms(1)] by simp
  let ?y = "bytes_of 4 (num ?a + (r + 1))"
  have y: "num ?y = low N n + 1 + r" using num_bytes_of [OF fit] first_ip_4 [OF assms(1)] by simp
  have "(2 :: nat) ^ 2 \<le> 2 ^ (32 - n)" using assms(2) by (intro power_increasing) auto
  then have "random_ip rnd N = Some (Inr ?y)"
    using fit assms first_ip_4 [OF assms(1)] mask_size_cidr [of n 4] by (simp add: random_ip_def net4_def add_big_int_to_ip_def Let_def)
  then show thesis using that [of ?y b] b y assms(4) net_contains_4 [OF assms(1), of ?y] by simp
qed

section \<open>Free subnets\<close>

lemma ucast_byte: "unat (ucast (b :: 8 word) :: 32 word) = unat b"
proof -
  have "unat b < 2 ^ 32" by (rule less_trans [OF unat_byte_less]) simp
  then show ?thesis by (simp add: unsigned_ucast_eq take_bit_nat_eq_self_iff)
qed

lemma unat_push_byte: "k \<le> 24 \<Longrightarrow> unat (push_bit k (ucast (b :: 8 word)) :: 32 word) = unat b * 2 ^ k"
proof -
  assume "k \<le> 24"
  have "unat b * 2 ^ k < 256 * 2 ^ k" using unat_byte_less [of b] by simp
  also have "256 * 2 ^ k \<le> (256 * 2 ^ 24 :: nat)" using \<open>k \<le> 24\<close> by (intro mult_left_mono power_increasing) auto
  finally have "take_bit 32 (unat b * 2 ^ k) = unat b * 2 ^ k" by (simp add: take_bit_nat_eq_self_iff)
  then show ?thesis by (simp add: unsigned_push_bit_eq ucast_byte push_bit_eq_mult [of k "unat b"])
qed

lemma or_bytes:
  "push_bit 24 (ucast (a :: 8 word)) OR push_bit 16 (ucast b) OR push_bit 8 (ucast c) OR ucast d =
   (push_bit 24 (ucast a) + (push_bit 16 (ucast b) + (push_bit 8 (ucast c) + ucast d)) :: 32 word)" for b c d :: "8 word"
proof -
  have 1: "push_bit 8 (ucast c) OR ucast d = (push_bit 8 (ucast c) + ucast d :: 32 word)"
    by (rule disjunctive_add_eq_or [symmetric], rule bit_eqI) (auto simp: bit_simps dest: bit_imp_le_length)
  have 2: "push_bit 16 (ucast b) OR (push_bit 8 (ucast c) OR ucast d) = (push_bit 16 (ucast b) + (push_bit 8 (ucast c) OR ucast d) :: 32 word)"
    by (rule disjunctive_add_eq_or [symmetric], rule bit_eqI) (auto simp: bit_simps dest: bit_imp_le_length)
  have 3: "push_bit 24 (ucast a) OR (push_bit 16 (ucast b) OR (push_bit 8 (ucast c) OR ucast d)) =
      (push_bit 24 (ucast a) + (push_bit 16 (ucast b) OR (push_bit 8 (ucast c) OR ucast d)) :: 32 word)"
    by (rule disjunctive_add_eq_or [symmetric], rule bit_eqI) (auto simp: bit_simps dest: bit_imp_le_length)
  show ?thesis unfolding or.assoc using 1 2 3 by simp
qed

lemma list_4: "length b = 4 \<Longrightarrow> b = [b ! 0, b ! 1, b ! 2, b ! 3]"
  by (auto simp: list_eq_iff_nth_eq less_Suc_eq numeral_eq_Suc)

lemma unat_ip_to_uint32:
  assumes "to4 a = Some b"
  shows "unat (ip_to_uint32 a) = num b"
proof -
  note l = to4_length [OF assms]
  have n: "num b = unat (b ! 0) * 2 ^ 24 + (unat (b ! 1) * 2 ^ 16 + (unat (b ! 2) * 2 ^ 8 + unat (b ! 3)))"
    by (subst list_4 [OF l]) simp
  have "num b < 2 ^ 32" using num_less [of b] l by simp
  then show ?thesis unfolding n using assms
    by (simp add: ip_to_uint32_def or_bytes unat_word_ariths unat_push_byte ucast_byte)
qed

lemma four_bytes:
  "m div 2 ^ 24 * 2 ^ 24 + (m div 2 ^ 16 mod 256 * 2 ^ 16 + (m div 2 ^ 8 mod 256 * 2 ^ 8 + m mod 256)) = m" for m :: nat
proof -
  have s: "q = q div 256 * 256 + q mod 256" for q :: nat by simp
  define a where "a = m div 256"
  define b where "b = a div 256"
  define c where "c = b div 256"
  have d: "m div 2 ^ 16 = b" "m div 2 ^ 24 = c" "m div 2 ^ 8 = a" by (simp_all add: a_def b_def c_def flip: div_mult2_eq)
  have "m = a * 256 + m mod 256" "a = b * 256 + a mod 256" "b = c * 256 + b mod 256"
    using s [of m] s [of a] s [of b] by (simp_all only: a_def b_def c_def)
  then show ?thesis unfolding d by simp
qed

lemma uint32_to_ip_4: "length (uint32_to_ip n) = 4" "num (uint32_to_ip n) = unat n"
proof -
  show "length (uint32_to_ip n) = 4" by (simp add: uint32_to_ip_def)
  have b: "unat (ucast (drop_bit k n) :: 8 word) = unat n div 2 ^ k mod 256" for k
    by (simp add: unsigned_ucast_eq unat_drop_bit_eq take_bit_eq_mod drop_bit_eq_div [of k "unat n"])
  have "unat n < 2 ^ 32" using unsigned_less [of n] by simp
  then have "unat n div 2 ^ 24 < 256" by simp
  then show "num (uint32_to_ip n) = unat n"
    using b [of 24] b [of 16] b [of 8] b [of 0] four_bytes [of "unat n"] by (simp add: uint32_to_ip_def)
qed


lemma unat_block_size: "h \<le> 32 \<Longrightarrow> unat (block_size (int h)) = 2 ^ h mod 2 ^ 32"
proof -
  assume h: "h \<le> 32"
  then have "unat (word_of_int (int h) :: 32 word) = h" by (simp add: unat_of_nat)
  then have b: "block_size (int h) = (if h < 32 then word_of_nat (2 ^ h) else 0)" by (simp add: block_size_def Let_def)
  show ?thesis
  proof (cases "h < 32")
    case True
    then have "unat (block_size (int h)) = 2 ^ h mod 2 ^ LENGTH(32)" unfolding b by (simp only: if_True unat_of_nat)
    then show ?thesis by simp
  next
    case False
    then have "h = 32" "unat (block_size (int h)) = 0" using h unfolding b by simp_all
    then show ?thesis by (simp only: mod_self)
  qed
qed

lemma block_end:
  assumes "unat s + k \<le> 2 ^ 32" and "0 < k" and "unat z = k mod 2 ^ 32"
  shows "unat (s + z - 1 :: 32 word) = unat s + k - 1"
proof -
  have "z = word_of_nat k" using assms(3) by (simp add: word_unat_eq_iff unat_of_nat)
  then have "s + z - 1 = word_of_nat (unat s) + word_of_nat k - word_of_nat 1" by simp
  also have "\<dots> = word_of_nat (unat s + k - 1)" using assms(2) by (simp only: of_nat_add of_nat_diff)
  finally have "unat (s + z - 1) = (unat s + k - 1) mod 2 ^ LENGTH(32)" by (simp only: unat_of_nat)
  also have "\<dots> = unat s + k - 1" using assms(1,2) by (intro mod_less) simp
  finally show ?thesis .
qed

lemma parse_ipv4_length: "parse_ipv4 s = Some a \<Longrightarrow> length a = 4"
  by (auto simp: parse_ipv4_def Let_def split: if_splits)

lemma parse_addr_length:
  assumes "\<forall>s a. p6 s = Some a \<longrightarrow> length a = 16" and "parse_addr p6 s = Some a"
  shows "length a = 4 \<or> length a = 16"
proof -
  have "parse_addr_from p6 s cs = Some a \<Longrightarrow> ?thesis" for cs
    using assms(1) by (induction cs) (auto dest: parse_ipv4_length split: if_splits)
  then show ?thesis using assms(2) by (auto simp: parse_addr_def)
qed

text \<open>A parsed IPv4 network is given by its first address.\<close>

lemma parse_cidr_net4:
  assumes "\<forall>s a. p6 s = Some a \<longrightarrow> length a = 16" and "parse_cidr p6 s = Some (x, N)"
  shows "(\<exists>n. net4 N n \<and> num (in_ip N) = low N n) \<or> length (in_mask N) = 16"
proof -
  obtain a k where a: "length a = 4 \<or> length a = 16" "k \<le> 8 * length a" and
    N: "N = \<lparr>in_ip = ip_mask (as16 a) (cidr_mask k (length a)), in_mask = cidr_mask k (length a)\<rparr>"
  proof -
    define p where "p = tl (dropWhile (\<lambda>c. c \<noteq> CHR ''/'') s)"
    obtain a where "parse_addr p6 (takeWhile (\<lambda>c. c \<noteq> CHR ''/'') s) = Some a" "digits_val p \<le> 8 * int (length a)"
      "N = \<lparr>in_ip = ip_mask (as16 a) (cidr_mask (nat (digits_val p)) (length a)), in_mask = cidr_mask (nat (digits_val p)) (length a)\<rparr>"
      using assms(2) by (auto simp: parse_cidr_def p_def Let_def split: option.splits if_splits)
    then show thesis using that [of a "nat (digits_val p)"] parse_addr_length [OF assms(1)] by auto
  qed
  show ?thesis
  proof (cases "length a = 4")
    case True
    have "ip_mask (as16 a) (cidr_mask k 4) = map2 (AND) a (cidr_mask k 4)"
      using True by (simp add: ip_mask_def as16_def v4_prefix_def)
    then have i: "in_ip N = map2 (AND) a (cidr_mask k 4)" and m: "in_mask N = cidr_mask k 4" using N True by simp_all
    then have "net4 N k" using a True by (simp add: net4_def)
    moreover have "num (in_ip N) = low N k" using num_and_mask [of k 4 a] i a True by (simp add: low_def)
    ultimately show ?thesis by blast
  qed (use a N in simp)
qed

lemma mask_size_net4: "net4 N n \<Longrightarrow> mask_size (in_mask N) = (n, 32)"
  using mask_size_cidr [of n 4] by (simp add: net4_def)

lemma mask_size_16: "length (in_mask N) = 16 \<Longrightarrow> snd (mask_size (in_mask N)) \<noteq> 32"
  by (auto simp: mask_size_def split: option.splits)

text \<open>The ranges in use: those of the IPv4 networks, whose last address is right even for a whole address space.\<close>

lemma used_range:
  assumes "s \<in> set existing" and "parse_cidr p6 s = Some (x, N)" and "net4 N n" and "num (in_ip N) = low N n"
  obtains r0 r1 where "(r0, r1) \<in> set (used_ranges p6 existing)" "unat r0 = low N n" "unat r1 = low N n + 2 ^ (32 - n) - 1"
proof -
  let ?s = "ip_to_uint32 (in_ip N)"
  let ?z = "block_size (32 - int (fst (mask_size (in_mask N))))"
  have l: "length (in_ip N) = 4" "n \<le> 32" using assms(3) by (simp_all add: net4_def)
  then have r: "(?s, ?s + ?z - 1) \<in> set (used_ranges p6 existing)"
    using assms(1,2) by (auto simp: used_ranges_def map_filter_set Let_def intro!: bexI [of _ s])
  have s: "unat ?s = low N n" using unat_ip_to_uint32 [of "in_ip N"] l assms(4) by simp
  have "?z = block_size (int (32 - n))" using mask_size_net4 [OF assms(3)] l by (simp only: fst_conv of_nat_diff of_nat_numeral)
  then have "unat ?z = 2 ^ (32 - n) mod 2 ^ 32" by (simp only: unat_block_size diff_le_self)
  then have "unat (?s + ?z - 1) = low N n + 2 ^ (32 - n) - 1"
    using block_end [of ?s "2 ^ (32 - n)" ?z] s low_bound [OF assms(3)] by simp
  then show thesis using that [OF r s] by simp
qed

lemma find_subnet_Some:
  "find_subnet ranges p z count i = Some s \<Longrightarrow>
   \<exists>j. i \<le> j \<and> j < count \<and> s = p + word_of_nat j * z \<and> \<not> collides ranges s (s + z - 1)"
proof (induction ranges p z count i rule: find_subnet.induct)
  case (1 ranges p z count i)
  let ?s = "p + word_of_nat i * z"
  show ?case
  proof (cases "i < count \<and> collides ranges ?s (?s + z - 1)")
    case True
    then have "find_subnet ranges p z count (i + 1) = Some s"
      using "1.prems" by (simp add: find_subnet.simps [of ranges p z count i] Let_def)
    then obtain j where "i + 1 \<le> j" "j < count" "s = p + word_of_nat j * z" "\<not> collides ranges s (s + z - 1)"
      using "1.IH" [OF _ refl] True by blast
    then show ?thesis by (intro exI [of _ j]) simp
  next
    case False
    then have "i < count" "s = ?s" "\<not> collides ranges ?s (?s + z - 1)"
      using "1.prems" by (auto simp: find_subnet.simps [of ranges p z count i] Let_def split: if_splits)
    then show ?thesis by blast
  qed
qed

lemma find_subnet_None:
  "find_subnet ranges p z count i = None \<Longrightarrow> i \<le> j \<Longrightarrow> j < count \<Longrightarrow>
   collides ranges (p + word_of_nat j * z) (p + word_of_nat j * z + z - 1)"
proof (induction ranges p z count i rule: find_subnet.induct)
  case (1 ranges p z count i)
  then have c: "collides ranges (p + word_of_nat i * z) (p + word_of_nat i * z + z - 1)"
    "find_subnet ranges p z count (i + 1) = None"
    by (auto simp: find_subnet.simps [of ranges p z count i] Let_def split: if_splits)
  show ?case
  proof (cases "j = i")
    case False
    then show ?thesis using "1.IH" "1.prems" c by (simp add: Let_def)
  qed (use c in simp)
qed

lemma take_ips_4:
  assumes "net4 N n" and "last_ip N = Some b"
  shows "length a = 4 \<Longrightarrow> take_ips N b a k = Some xs \<Longrightarrow>
    map num xs = [num a..<num a + k] \<and> (\<forall>x\<in>set xs. length x = 4 \<and> num x < num b)"
proof (induction k arbitrary: a xs)
  case (Suc k)
  have lb: "length b = 4" using last_ip_4 [OF assms(1)] assms(2) by (metis option.inject)
  have "num a < num b" using Suc.prems past_end_4 [OF assms(1) Suc.prems(1) assms(2)] by (simp split: if_splits)
  then have n: "num (inc_ip a) = num a + 1" using inc_ip_4 Suc.prems(1) lb by blast
  obtain ys where ys: "xs = a # ys" "take_ips N b (inc_ip a) k = Some ys" using Suc.prems(2) by (auto split: if_splits)
  then show ?case using Suc.IH [of "inc_ip a" ys] Suc.prems(1) n \<open>num a < num b\<close> by (simp add: upt_rec [of "num a"])
qed simp


text \<open>The candidates are the blocks of the parent, in order.\<close>

lemma candidate:
  assumes "net4 P o'" and "num (in_ip P) = low P o'" and "o' \<le> p" "p \<le> 32" "0 < o'"
  defines "z \<equiv> block_size (32 - int p)"
  shows "z \<noteq> 0" "unat (block_size (32 - int o') div z) = 2 ^ (p - o')"
    "j < 2 ^ (p - o') \<Longrightarrow> s = ip_to_uint32 (in_ip P) + word_of_nat j * z \<Longrightarrow>
      unat s = low P o' + j * 2 ^ (32 - p) \<and> unat (s + z - 1) = unat s + 2 ^ (32 - p) - 1 \<and>
      j * 2 ^ (32 - p) + 2 ^ (32 - p) \<le> 2 ^ (32 - o')"
proof -
  have sz: "unat (block_size (32 - int h)) = 2 ^ (32 - h)" if "0 < h" "h \<le> 32" for h
  proof -
    have "32 - int h = int (32 - h)" using that by simp
    moreover have "(2 :: nat) ^ (32 - h) < 2 ^ 32" using that by (intro power_strict_increasing) auto
    ultimately show ?thesis by (simp only: unat_block_size diff_le_self mod_less)
  qed
  have z: "unat z = 2 ^ (32 - p)" using sz [of p] assms(3-5) by (simp add: z_def)
  then show "z \<noteq> 0" by (metis power_not_zero unsigned_0 zero_neq_numeral)
  have e: "(2 :: nat) ^ (32 - o') = 2 ^ (p - o') * 2 ^ (32 - p)" using assms(3,4) by (simp flip: power_add)
  have "unat (block_size (32 - int o') div z) = 2 ^ (32 - o') div 2 ^ (32 - p)"
    using sz [of o'] z assms(3-5) by (simp add: unat_div_distrib)
  then show "unat (block_size (32 - int o') div z) = 2 ^ (p - o')" unfolding e by simp
  assume j: "j < 2 ^ (p - o')" and s: "s = ip_to_uint32 (in_ip P) + word_of_nat j * z"
  have "(j + 1) * 2 ^ (32 - p) \<le> 2 ^ (p - o') * 2 ^ (32 - p)" using j by (intro mult_right_mono) auto
  then have fit: "j * 2 ^ (32 - p) + 2 ^ (32 - p) \<le> 2 ^ (32 - o')" unfolding e by simp
  have l: "length (in_ip P) = 4" using assms(1) by (simp add: net4_def)
  have ps: "unat (ip_to_uint32 (in_ip P)) = low P o'" using unat_ip_to_uint32 [of "in_ip P"] l assms(2) by simp
  have "s = word_of_nat (unat (ip_to_uint32 (in_ip P)) + j * unat z)" unfolding s by simp
  then have m: "unat s = (low P o' + j * 2 ^ (32 - p)) mod 2 ^ LENGTH(32)" unfolding ps z by (simp only: unat_of_nat)
  have top: "low P o' + j * 2 ^ (32 - p) + 2 ^ (32 - p) \<le> 2 ^ 32" using fit low_bound [OF assms(1)] by linarith
  moreover have "(0 :: nat) < 2 ^ (32 - p)" by simp
  ultimately have "low P o' + j * 2 ^ (32 - p) < 2 ^ 32" by linarith
  then have "low P o' + j * 2 ^ (32 - p) < 2 ^ LENGTH(32)" by simp
  then have us: "unat s = low P o' + j * 2 ^ (32 - p)" unfolding m by (rule mod_less)
  have "(2 :: nat) ^ (32 - p) < 2 ^ 32" using assms(3,5) by (intro power_strict_increasing) auto
  then have "unat (s + z - 1) = unat s + 2 ^ (32 - p) - 1"
    using block_end [of s "2 ^ (32 - p)" z] us top z by (simp only: mod_less zero_less_power zero_less_numeral)
  then show "unat s = low P o' + j * 2 ^ (32 - p) \<and> unat (s + z - 1) = unat s + 2 ^ (32 - p) - 1 \<and>
      j * 2 ^ (32 - p) + 2 ^ (32 - p) \<le> 2 ^ (32 - o')" using us fit by simp
qed

text \<open>
  What the search gives: a network of the asked size inside the parent that no IPv4 network in use meets, and the
  first addresses of it that may be given out; \<open>No_subnet\<close> is said only when every such network meets one in use.
\<close>

definition taken_subnet :: "(string \<Rightarrow> ip option) \<Rightarrow> string list \<Rightarrow> ip_net \<Rightarrow> bool" where
  "taken_subnet p6 existing M \<longleftrightarrow>
     (\<exists>s\<in>set existing. \<exists>x E. parse_cidr p6 s = Some (x, E) \<and> length (in_mask E) = 4 \<and>
        (\<exists>a. net_contains M a \<and> net_contains E a))"

definition subnet_of :: "ip_net \<Rightarrow> int \<Rightarrow> ip_net \<Rightarrow> bool" where
  "subnet_of P prefix M \<longleftrightarrow> in_mask M = cidr_mask (nat prefix) 4 \<and> length (in_ip M) = 4 \<and>
     in_ip M = ip_mask (in_ip M) (in_mask M) \<and> (\<forall>a. net_contains M a \<longrightarrow> net_contains P a)"

lemma ranges_meet:
  assumes "net4 M m" "net4 E n"
  shows "(\<exists>a. net_contains M a \<and> net_contains E a) \<longleftrightarrow>
    low M m < low E n + 2 ^ (32 - n) \<and> low E n < low M m + 2 ^ (32 - m)"
proof
  assume "\<exists>a. net_contains M a \<and> net_contains E a"
  then obtain a where "length a = 4" "net_contains M a" "net_contains E a"
    using net_contains_key [OF assms(1)] net_contains_key [OF assms(2)] by blast
  then show "low M m < low E n + 2 ^ (32 - n) \<and> low E n < low M m + 2 ^ (32 - m)"
    using net_contains_4 [OF assms(1), of a] net_contains_4 [OF assms(2), of a] by linarith
next
  assume r: "low M m < low E n + 2 ^ (32 - n) \<and> low E n < low M m + 2 ^ (32 - m)"
  let ?x = "max (low M m) (low E n)"
  have p: "(0 :: nat) < 2 ^ (32 - n)" "(0 :: nat) < 2 ^ (32 - m)" by simp_all
  then have "?x < 2 ^ 32" using low_bound [OF assms(1)] low_bound [OF assms(2)] by linarith
  then have "?x < 256 ^ 4" by simp
  then have "num (bytes_of 4 ?x) = ?x" by (rule num_bytes_of)
  then show "\<exists>a. net_contains M a \<and> net_contains E a"
    using net_contains_4 [OF assms(1), of "bytes_of 4 ?x"] net_contains_4 [OF assms(2), of "bytes_of 4 ?x"] r p
    by (intro exI [of _ "bytes_of 4 ?x"]) (auto simp: max_def)
qed

lemma subnet_ranges:
  assumes "net4 M m" "net4 P n"
  shows "(\<forall>a. net_contains M a \<longrightarrow> net_contains P a) \<longleftrightarrow>
    low P n \<le> low M m \<and> low M m + 2 ^ (32 - m) \<le> low P n + 2 ^ (32 - n)"
proof
  assume c: "\<forall>a. net_contains M a \<longrightarrow> net_contains P a"
  have p: "(0 :: nat) < 2 ^ (32 - m)" by simp
  let ?x = "low M m" and ?y = "low M m + 2 ^ (32 - m) - 1"
  have "?x < 2 ^ 32" "?y < 2 ^ 32" using low_bound [OF assms(1)] p by linarith+
  then have "?x < 256 ^ 4" "?y < 256 ^ 4" by simp_all
  then have n: "num (bytes_of 4 ?x) = ?x" "num (bytes_of 4 ?y) = ?y" by (simp_all only: num_bytes_of)
  then have "net_contains M (bytes_of 4 ?x)" "net_contains M (bytes_of 4 ?y)" 
    unfolding net_contains_4 [OF assms(1) length_bytes_of] n using p by linarith+
  then show "low P n \<le> low M m \<and> low M m + 2 ^ (32 - m) \<le> low P n + 2 ^ (32 - n)"
    using c net_contains_4 [OF assms(2), of "bytes_of 4 ?x"] net_contains_4 [OF assms(2), of "bytes_of 4 ?y"] p
    unfolding n length_bytes_of by (metis One_nat_def Suc_diff_1 Suc_leI add_gr_0)
next
  assume r: "low P n \<le> low M m \<and> low M m + 2 ^ (32 - m) \<le> low P n + 2 ^ (32 - n)"
  show "\<forall>a. net_contains M a \<longrightarrow> net_contains P a"
  proof (intro allI impI)
    fix a assume "net_contains M a"
    then have k: "length (ip_key a) = 4" "net_contains M (ip_key a)" using net_contains_key [OF assms(1)] by blast+
    then have "net_contains P (ip_key a)"
      using r unfolding net_contains_4 [OF assms(1) k(1)] net_contains_4 [OF assms(2) k(1)] by linarith
    then show "net_contains P a" using k(1) net_contains_key [OF assms(2)] by blast
  qed
qed

lemma taken_collides:
  assumes "\<forall>s a. p6 s = Some a \<longrightarrow> length a = 16" and "net4 M m"
    and "unat s = low M m" "unat e = low M m + 2 ^ (32 - m) - 1" and "taken_subnet p6 existing M"
  shows "collides (used_ranges p6 existing) s e"
proof -
  obtain t x E a where t: "t \<in> set existing" "parse_cidr p6 t = Some (x, E)" "length (in_mask E) = 4"
    "net_contains M a" "net_contains E a" using assms(5) by (auto simp: taken_subnet_def)
  then obtain n where n: "net4 E n" "num (in_ip E) = low E n" using parse_cidr_net4 [OF assms(1) t(2)] by auto
  obtain r0 r1 where r: "(r0, r1) \<in> set (used_ranges p6 existing)" "unat r0 = low E n" "unat r1 = low E n + 2 ^ (32 - n) - 1"
    using used_range [OF t(1,2) n] by blast
  have "low M m < low E n + 2 ^ (32 - n) \<and> low E n < low M m + 2 ^ (32 - m)"
    using ranges_meet [OF assms(2) n(1)] t(4,5) by blast
  then have "s \<le> r1 \<and> r0 \<le> e" unfolding word_le_nat_alt r(2,3) assms(3,4) by linarith
  then show ?thesis using r(1) by (auto simp: collides_def list_ex_iff)
qed

lemma option_pair_cases:
  assumes "(case p of None \<Rightarrow> None | Some (x, n) \<Rightarrow> f x n) = Some r"
  obtains x n where "p = Some (x, n)" "f x n = Some r"
  using assms by (cases p) auto

lemma collides_taken:
  assumes "\<forall>s a. p6 s = Some a \<longrightarrow> length a = 16" and "net4 M m"
    and "unat s = low M m" "unat e = low M m + 2 ^ (32 - m) - 1" and "collides (used_ranges p6 existing) s e"
    and v4: "\<forall>t\<in>set existing. \<forall>x E. parse_cidr p6 t = Some (x, E) \<and> to4 (in_ip E) \<noteq> None \<longrightarrow> length (in_mask E) = 4"
  shows "taken_subnet p6 existing M"
proof -
  obtain r0 r1 where r: "(r0, r1) \<in> set (used_ranges p6 existing)" "s \<le> r1" "r0 \<le> e"
    using assms(5) by (auto simp: collides_def list_ex_iff)
  obtain t x E where t: "t \<in> set existing" "parse_cidr p6 t = Some (x, E)" "to4 (in_ip E) \<noteq> None"
    and r01: "r0 = ip_to_uint32 (in_ip E)" "r1 = r0 + block_size (32 - int (fst (mask_size (in_mask E)))) - 1"
    using r(1) unfolding used_ranges_def map_filter_set Let_def
    by (elim bexE) (erule option_pair_cases, auto split: if_splits)
  have l: "length (in_mask E) = 4" using v4 t by blast
  then obtain n where n: "net4 E n" "num (in_ip E) = low E n" using parse_cidr_net4 [OF assms(1) t(2)] by auto
  have u: "unat r0 = low E n \<and> unat r1 = low E n + 2 ^ (32 - n) - 1"
    using used_range [of t "[t]", OF _ t(2) n] t(2,3) r01 by (auto simp: used_ranges_def List.map_filter_def Let_def)
  have "(0 :: nat) < 2 ^ (32 - n)" "(0 :: nat) < 2 ^ (32 - m)" by simp_all
  then have "low M m < low E n + 2 ^ (32 - n) \<and> low E n < low M m + 2 ^ (32 - m)"
    using r(2,3) u unfolding word_le_nat_alt assms(3,4) by linarith
  then show ?thesis using ranges_meet [OF assms(2) n(1)] t(1,2) l by (auto simp: taken_subnet_def)
qed

lemma subnet_32:
  assumes "parse_cidr p6 parent = Some (x, P)" and "\<forall>s a. p6 s = Some a \<longrightarrow> length a = 16"
    and "mask_size (in_mask P) = (o', 32)"
  shows "net4 P o' \<and> num (in_ip P) = low P o'"
  using parse_cidr_net4 [OF assms(2,1)] mask_size_16 [of P] mask_size_net4 [of P] assms(3) by auto

lemma block_net:
  assumes "p \<le> 32" and "unat s = q * 2 ^ (32 - p)"
  shows "net4 \<lparr>in_ip = uint32_to_ip s, in_mask = cidr_mask p 4\<rparr> p"
    "low \<lparr>in_ip = uint32_to_ip s, in_mask = cidr_mask p 4\<rparr> p = unat s"
  using assms uint32_to_ip_4 [of s] by (simp_all add: net4_def low_def)

lemma low_parent: "o' \<le> p \<Longrightarrow> p \<le> 32 \<Longrightarrow> \<exists>q. low P o' = q * 2 ^ (32 - p)"
proof -
  assume "o' \<le> p" "p \<le> 32"
  then have "(2 :: nat) ^ (32 - p) dvd 2 ^ (32 - o')" by (intro le_imp_power_dvd) simp
  then have "2 ^ (32 - p) dvd low P o'" by (simp add: low_def)
  then show ?thesis by (metis dvdE mult.commute)
qed

lemma next_subnet_sound:
  assumes p6: "\<forall>s a. p6 s = Some a \<longrightarrow> length a = 16"
    and res: "next_subnet_with_ips p6 parent prefix existing count = Some (Inr (M, ips))"
  shows "\<exists>x P. parse_cidr p6 parent = Some (x, P) \<and> subnet_of P prefix M" "\<not> taken_subnet p6 existing M"
    "length ips = nat count" "distinct ips" "\<forall>a\<in>set ips. usable M a"
proof -
  have "parse_cidr p6 parent \<noteq> None" by (rule notI) (use res in \<open>simp add: next_subnet_with_ips_def\<close>)
  then obtain x P where "parse_cidr p6 parent = Some (x, P)" by fast
  moreover obtain o' bits where "mask_size (in_mask P) = (o', bits)" by fastforce
  ultimately have P: "parse_cidr p6 parent = Some (x, P)" "mask_size (in_mask P) = (o', bits)" by blast+
  let ?z = "block_size (32 - prefix)"
  let ?find = "find_subnet (used_ranges p6 existing) (ip_to_uint32 (in_ip P)) ?z (unat (block_size (32 - int o') div ?z)) 0"
  have bits: "bits = 32" and pre: "int o' \<le> prefix" "prefix \<le> 32" and z: "?z \<noteq> 0"
    using res P by (auto simp: next_subnet_with_ips_def Let_def split: if_splits)
  obtain s b where s: "?find = Some s"
    and M: "M = \<lparr>in_ip = uint32_to_ip s, in_mask = cidr_mask (nat prefix) 4\<rparr>"
    and b: "last_ip M = Some b" and ips: "take_ips M b (pad_start (in_ip M)) (nat count) = Some ips"
    using res P bits pre z by (auto simp: next_subnet_with_ips_def Let_def split: if_splits option.splits)
  obtain p where p: "prefix = int p" "o' \<le> p" "p \<le> 32" using pre by (metis int_nat_eq nat_int_comparison(3) nat_le_iff of_nat_0_le_iff order_trans zle_int of_nat_numeral)
  note par = subnet_32 [OF P(1) p6 P(2) [unfolded bits]]
  obtain j where j: "j < unat (block_size (32 - int o') div ?z)" "s = ip_to_uint32 (in_ip P) + word_of_nat j * ?z"
    "\<not> collides (used_ranges p6 existing) s (s + ?z - 1)" using find_subnet_Some [OF s] by blast
  have o0: "0 < o'"
  proof (rule ccontr)
    assume "\<not> 0 < o'"
    then have "unat (block_size (32 - int o')) = 0" using unat_block_size [of 32] by simp
    then show False using j(1) by (simp add: unat_eq_0 [symmetric] unat_div_distrib)
  qed
  note cand = candidate [OF conjunct1 [OF par] conjunct2 [OF par] p(2,3) o0]
  have j': "j < 2 ^ (p - o')" using j(1) cand(2) unfolding p(1) by simp
  have c: "unat s = low P o' + j * 2 ^ (32 - p)" "unat (s + ?z - 1) = unat s + 2 ^ (32 - p) - 1"
    "j * 2 ^ (32 - p) + 2 ^ (32 - p) \<le> 2 ^ (32 - o')"
    using cand(3) [OF j' j(2) [unfolded p(1)]] unfolding p(1) by blast+
  obtain q where q: "low P o' = q * 2 ^ (32 - p)" using low_parent [OF p(2,3)] by blast
  then have "unat s = (q + j) * 2 ^ (32 - p)" using c(1) by (simp add: distrib_right)
  note net = block_net [OF p(3) this]
  have M': "M = \<lparr>in_ip = uint32_to_ip s, in_mask = cidr_mask p 4\<rparr>" using M p(1) by simp
  note netM = net [folded M']
  show "\<not> taken_subnet p6 existing M"
    using taken_collides [OF p6 netM(1), of s "s + ?z - 1" existing] netM(2) c(2) j(3) by auto
  have "in_ip M = ip_mask (in_ip M) (in_mask M)"
    using first_ip_4 [OF netM(1)] netM(2) num_inj [of "in_ip M" "ip_mask (in_ip M) (in_mask M)"] uint32_to_ip_4 [of s] M' by simp
  moreover have "\<forall>a. net_contains M a \<longrightarrow> net_contains P a"
    using subnet_ranges [OF netM(1) conjunct1 [OF par]] netM(2) c(1,3) by simp
  ultimately show "\<exists>x P. parse_cidr p6 parent = Some (x, P) \<and> subnet_of P prefix M"
    using P(1) M' p(1) uint32_to_ip_4 [of s] by (auto simp: subnet_of_def)
  have l: "length (in_ip M) = 4" "num (in_ip M) = low M p" using M' uint32_to_ip_4 [of s] netM(2) by simp_all
  note t = take_ips_4 [OF netM(1) b conjunct1 [OF pad_start_4 [OF l(1)]] ips]
  show "length ips = nat count" using arg_cong [OF conjunct1 [OF t], of length] by simp
  show "distinct ips" using conjunct1 [OF t] distinct_upt distinct_map by metis
  show "\<forall>a\<in>set ips. usable M a"
  proof
    fix a assume a: "a \<in> set ips"
    then have "nat count \<noteq> 0" using ips by (cases "nat count") auto
    then have "\<not> past_end M (pad_start (in_ip M)) b" using ips by (cases "nat count") (auto split: if_splits)
    then have "num (pad_start (in_ip M)) = low M p + 4" using pad_num [OF netM(1) b l] by simp
    moreover have "num a \<in> set (map num ips)" using a by simp
    ultimately show "usable M a" using t a usable_num [OF netM(1) b] by (simp only: conjunct1 [OF t] set_upt) simp
  qed
qed


lemma no_subnet_true:
  assumes p6: "\<forall>s a. p6 s = Some a \<longrightarrow> length a = 16"
    and v4: "\<forall>t\<in>set existing. \<forall>x E. parse_cidr p6 t = Some (x, E) \<and> to4 (in_ip E) \<noteq> None \<longrightarrow> length (in_mask E) = 4"
    and P: "parse_cidr p6 parent = Some (x, P)" "in_mask P \<noteq> cidr_mask 0 4"
    and res: "next_subnet_with_ips p6 parent prefix existing count = Some (Inl No_subnet)"
    and M: "subnet_of P prefix M"
  shows "taken_subnet p6 existing M"
proof -
  obtain o' bits where o': "mask_size (in_mask P) = (o', bits)" by fastforce
  let ?z = "block_size (32 - prefix)"
  have bits: "bits = 32" and pre: "int o' \<le> prefix" "prefix \<le> 32" and z: "?z \<noteq> 0"
    using res P(1) o' by (auto simp: next_subnet_with_ips_def Let_def split: if_splits)
  have find: "find_subnet (used_ranges p6 existing) (ip_to_uint32 (in_ip P)) ?z (unat (block_size (32 - int o') div ?z)) 0 = None"
    using res P(1) o' bits pre z by (auto simp: next_subnet_with_ips_def Let_def split: if_splits option.splits)
  obtain p where p: "prefix = int p" "o' \<le> p" "p \<le> 32" using pre by (metis int_nat_eq nat_int_comparison(3) nat_le_iff of_nat_0_le_iff order_trans zle_int of_nat_numeral)
  note par = subnet_32 [OF P(1) p6 o' [unfolded bits]]
  have o0: "0 < o'" by (rule gr0I) (use par P(2) in \<open>auto simp: net4_def\<close>)
  note cand = candidate [OF conjunct1 [OF par] conjunct2 [OF par] p(2,3) o0]
  have netM: "net4 M p" using M p by (simp add: subnet_of_def net4_def)
  have inM: "num (in_ip M) = low M p" using M first_ip_4(2) [OF netM] unfolding subnet_of_def by metis
  have r: "low P o' \<le> low M p" "low M p + 2 ^ (32 - p) \<le> low P o' + 2 ^ (32 - o')"
    using M subnet_ranges [OF netM conjunct1 [OF par]] by (auto simp: subnet_of_def)
  obtain q where q: "low P o' = q * 2 ^ (32 - p)" using low_parent [OF p(2,3)] by blast
  obtain k where k: "low M p = k * 2 ^ (32 - p)" by (simp add: low_def)
  have e: "(2 :: nat) ^ (32 - o') = 2 ^ (p - o') * 2 ^ (32 - p)" using p by (simp flip: power_add)
  have "q * 2 ^ (32 - p) \<le> k * 2 ^ (32 - p)" using r(1) q k by simp
  then have qk: "q \<le> k" by simp
  have "(k + 1) * 2 ^ (32 - p) \<le> (q + 2 ^ (p - o')) * 2 ^ (32 - p)" using r(2) unfolding q k e by (simp add: distrib_right)
  then have j: "k - q < 2 ^ (p - o')" using qk by (subst (asm) mult_le_cancel2) simp
  let ?s = "ip_to_uint32 (in_ip P) + word_of_nat (k - q) * ?z"
  have c: "unat ?s = low P o' + (k - q) * 2 ^ (32 - p)" "unat (?s + ?z - 1) = unat ?s + 2 ^ (32 - p) - 1"
    using cand(3) [OF j refl] unfolding p(1) by blast+
  have us: "unat ?s = low M p" unfolding c(1) q k using qk by (simp flip: distrib_right)
  have "collides (used_ranges p6 existing) ?s (?s + ?z - 1)"
    using find_subnet_None [OF find, of "k - q"] j cand(2) unfolding p(1) by simp
  then show ?thesis using collides_taken [OF p6 netM us _ _ v4] c(2) us by simp
qed

text \<open>In the other cases there is a panic, for the whole address space as one subnet, or the parameters are refused.\<close>

lemma cidr_mask_numeral [simp]:
  "cidr_mask n (numeral k) =
     (if 8 \<le> n then 255 # cidr_mask (n - 8) (pred_numeral k) else NOT (drop_bit n 255) # cidr_mask 0 (pred_numeral k))"
  by (simp add: numeral_eq_Suc)

lemma parse_whole: "parse_cidr p6 ''0.0.0.0/0'' = Some (as16 [0, 0, 0, 0], \<lparr>in_ip = [0, 0, 0, 0], in_mask = [0, 0, 0, 0]\<rparr>)"
  by (simp add: parse_cidr_def Let_def parse_addr_def parse_ipv4_def parse_octet_def is_digit_def digits_val_def
      ip_mask_def as16_def v4_prefix_def)

text \<open>
  C40. A search for a free subnet that succeeds gives a network of the asked size inside the parent, starting at its
  first address, that no IPv4 network in use meets in any address, and as many different addresses of it as asked, none
  of them among its first four or its last. When it says that there is no subnet, every network of that size in the
  parent meets one in use, unless the parent is the whole address space or a network in use is an IPv4 network
  written as an IPv6 one.
\<close>

theorem next_subnet_free:
  assumes "\<forall>s a. p6 s = Some a \<longrightarrow> length a = 16"
    and "parse_cidr p6 parent = Some (x, P)"
    and "next_subnet_with_ips p6 parent prefix existing count = Some r"
  shows "case r of
      Inr (M, ips) \<Rightarrow> subnet_of P prefix M \<and> \<not> taken_subnet p6 existing M \<and>
        length ips = nat count \<and> distinct ips \<and> (\<forall>a\<in>set ips. usable M a)
    | Inl No_subnet \<Rightarrow>
        in_mask P \<noteq> cidr_mask 0 4 \<longrightarrow>
        (\<forall>t\<in>set existing. \<forall>x E. parse_cidr p6 t = Some (x, E) \<and> to4 (in_ip E) \<noteq> None \<longrightarrow> length (in_mask E) = 4) \<longrightarrow>
        (\<forall>M. subnet_of P prefix M \<longrightarrow> taken_subnet p6 existing M)
    | _ \<Rightarrow> True"
proof (cases r)
  case (Inr y)
  obtain M ips where y: "y = (M, ips)" by fastforce
  show ?thesis using next_subnet_sound [OF assms(1) assms(3) [unfolded Inr y]] assms(2) Inr y by simp
next
  case (Inl e)
  show ?thesis using no_subnet_true [OF assms(1) _ assms(2), of existing prefix count] assms(3) Inl
    by (cases e) simp_all
qed


lemmas parse_eval = parse_cidr_def Let_def parse_addr_def parse_ipv4_def parse_octet_def is_digit_def digits_val_def
  ip_mask_def as16_def v4_prefix_def

lemma block_size_eval: "0 \<le> k \<Longrightarrow> k \<le> 32 \<Longrightarrow> block_size k = (if k < 32 then 2 ^ nat k else 0)"
proof -
  assume k: "0 \<le> k" "k \<le> 32"
  then obtain h where h: "k = int h" "h \<le> 32" by (metis nat_0_le nat_le_iff of_nat_numeral)
  then have "unat (word_of_int (int h) :: 32 word) = h" by (simp add: unat_of_nat)
  then show ?thesis using h by (simp add: block_size_def Let_def)
qed

lemma minus_256 [simp]: "(- 256 :: 8 word) = 0"
  by simp

lemma whole_space:
  "next_subnet_with_ips p6 ''0.0.0.0/0'' 0 existing count = None"
  "0 < prefix \<Longrightarrow> prefix \<le> 32 \<Longrightarrow> next_subnet_with_ips p6 ''0.0.0.0/0'' prefix existing count = Some (Inl No_subnet)"
proof -
  have m: "mask_size [0, 0, 0, 0] = (0, 32)" using mask_size_cidr [of 0 4] by simp
  have b: "block_size 32 = 0" by (simp add: block_size_eval)
  show "next_subnet_with_ips p6 ''0.0.0.0/0'' 0 existing count = None"
    by (simp add: next_subnet_with_ips_def parse_whole m b)
  assume p: "0 < prefix" "prefix \<le> 32"
  obtain h where h: "32 - prefix = int h" "h < 32" using p zero_le_imp_eq_int [of "32 - prefix"] by force
  have "(2 :: nat) ^ h < 2 ^ 32" using h(2) by (intro power_strict_increasing) auto
  then have "unat (block_size (32 - prefix)) = 2 ^ h" using h unat_block_size [of h] by simp
  then have "block_size (32 - prefix) \<noteq> 0" by (metis power_not_zero unsigned_0 zero_neq_numeral)
  then show "next_subnet_with_ips p6 ''0.0.0.0/0'' prefix existing count = Some (Inl No_subnet)"
    using p by (simp add: next_subnet_with_ips_def parse_whole m b Let_def find_subnet.simps)
qed

lemma host_bits_kept:
  "next_subnet_by_count p6 ''10.0.0.5/24'' 26 0 = Some (Inr \<lparr>in_ip = [10, 0, 0, 5], in_mask = [255, 255, 255, 192]\<rparr>)"
proof -
  have m: "mask_size [255, 255, 255, 0] = (24, 32)" using mask_size_cidr [of 24 4] by simp
  have "parse_cidr p6 ''10.0.0.5/24'' = Some (as16 [10, 0, 0, 5], \<lparr>in_ip = [10, 0, 0, 0], in_mask = [255, 255, 255, 0]\<rparr>)"
    by (simp add: parse_eval)
  moreover have "to4 (as16 [10, 0, 0, 5]) = Some [10, 0, 0, 5]" by (simp add: to4_def as16_def v4_prefix_def)
  ultimately show ?thesis
    by (simp add: next_subnet_by_count_def m Let_def block_size_eval ip_to_uint32_def to4_def as16_def v4_prefix_def uint32_to_ip_def)
qed

lemma pad_start_eval: "pad_start a = inc_ip (inc_ip (inc_ip (inc_ip a)))"
  by (simp add: pad_start_def padding_def numeral_eq_Suc)

lemma take_ips_two: "take_ips n b a 2 =
    (if past_end n a b \<or> past_end n (inc_ip a) b then None else Some [a, inc_ip a])"
  by (simp add: numeral_eq_Suc)

definition demo_subnet :: ip_net where
  "demo_subnet = \<lparr>in_ip = [10, 0, 0, 8], in_mask = [255, 255, 255, 248]\<rparr>"

lemma demo_search:
  "next_subnet_with_ips (\<lambda>_. None) ''10.0.0.0/28'' 29 [''10.0.0.0/29''] 2 = Some (Inr (demo_subnet, [[10, 0, 0, 12], [10, 0, 0, 13]]))"
proof -
  have m: "mask_size [255, 255, 255, 240] = (28, 32)" "mask_size [255, 255, 255, 248] = (29, 32)"
    by (simp_all add: mask_size_def leading_ones_8 Let_def)
  have p: "parse_cidr (\<lambda>_. None) ''10.0.0.0/28'' = Some (as16 [10, 0, 0, 0], \<lparr>in_ip = [10, 0, 0, 0], in_mask = [255, 255, 255, 240]\<rparr>)"
    "parse_cidr (\<lambda>_. None) ''10.0.0.0/29'' = Some (as16 [10, 0, 0, 0], \<lparr>in_ip = [10, 0, 0, 0], in_mask = [255, 255, 255, 248]\<rparr>)"
    by (simp_all add: parse_eval)
  have u: "used_ranges (\<lambda>_. None) [''10.0.0.0/29''] = [(167772160, 167772167)]"
    by (simp add: used_ranges_def List.map_filter_def p m Let_def block_size_eval ip_to_uint32_def to4_def)
  have f: "find_subnet [(167772160, 167772167)] 167772160 8 2 0 = Some 167772168"
    by (simp add: find_subnet.simps [of _ _ _ _ 0] find_subnet.simps [of _ _ _ _ "Suc 0"] collides_def Let_def)
  have t: "take_ips demo_subnet [10, 0, 0, 15] (pad_start [10, 0, 0, 8]) 2 = Some [[10, 0, 0, 12], [10, 0, 0, 13]]"
    by (simp add: pad_start_eval take_ips_two inc_ip_def past_end_def net_contains_def is_greater_or_equal_def demo_subnet_def)
  have l: "last_ip demo_subnet = Some [10, 0, 0, 15]" by (simp add: last_ip_def demo_subnet_def)
  have d: "\<lparr>in_ip = uint32_to_ip 167772168, in_mask = cidr_mask 29 4\<rparr> = demo_subnet"
    by (simp add: demo_subnet_def uint32_to_ip_def)
  have i: "in_ip demo_subnet = [10, 0, 0, 8]" by (simp add: demo_subnet_def)
  show ?thesis
    using f t l by (simp add: next_subnet_with_ips_def p m u Let_def block_size_eval ip_to_uint32_def to4_def d i del: cidr_mask_numeral)
qed

theorem next_subnet_free_witness:
  "\<exists>P. subnet_of P 29 demo_subnet \<and> \<not> taken_subnet (\<lambda>_. None) [''10.0.0.0/29''] demo_subnet \<and>
     (\<forall>a\<in>set [[10, 0, 0, 12], [10, 0, 0, 13]]. usable demo_subnet a)"
proof -
  obtain x P where "parse_cidr (\<lambda>_. None) ''10.0.0.0/28'' = Some (x, P)" by (simp add: parse_eval)
  then show ?thesis using next_subnet_free [OF _ _ demo_search] by fastforce
qed

end
