(* ===== verification/Spec2Isabelle.thy ===== *)
theory Spec2Isabelle
  imports RunExec Preview Terraform Deploy AgentClient RunApi Cli Ips
begin

text \<open>
  Stroppy Cloud (module \<open>hatchet-workflow\<close>, the Go code under \<open>src/internal\<close> and \<open>src/cmd/cli\<close>) runs database
  benchmarks. A client sends a run configuration; the server checks it, builds a graph of tasks (network, machines,
  installation and configuration of a database and its proxies, monitoring, load test, teardown) and executes the
  graph. A task reaches the machines through agents: the server puts commands into a queue for each machine, the agent
  on the machine polls, executes and reports. Around this stand tenants with accounts, settings, packages, presets and
  stored runs, the metrics of finished runs, a hub of live watchers, and a command line.

  This library models these parts as HOL functions and step relations, one theory for each part, and proves what
  makes them correct. A Go struct is a \<open>record\<close>, a sum of cases a \<open>datatype\<close>, an error a value (\<open>Inl\<close>, or \<open>Some\<close> of a
  text), a string a list of characters, a slice a list. A map is a function to \<open>option\<close>, or, where its iteration
  order can be observed, a list together with every order Go may iterate in as an argument. \<open>int\<close> is the Go \<open>int\<close>
  with its wrap-around written out where overflow can happen (\<open>int64\<close> of \<open>Prelude\<close>, \<open>word\<close> in \<open>Provision\<close> and \<open>Ips\<close>); time is
  an integer. Where goroutines interleave, a component is a step relation, or a function of a list of events, whose
  steps are the points at which another goroutine may run; everything under one lock is one step. Random values, the
  clock and the answers of programs outside this repository are arguments.
\<close>

section \<open>The parts\<close>

text \<open>
  \<^item> \<open>Prelude\<close>: the named collections, facts on strings, lists and association lists that all parts share, and the
    locales \<open>transition_system\<close> and \<open>terminating_system\<close>, interpreted on the executor. \<open>Text\<close>: decimal numerals,
    occurrences and replacement in texts made of lines.

  \<^item> \<open>RunTypes\<close>, \<open>Settings\<close>, \<open>Machines\<close>: \<open>domain/types\<close> (run configuration, topologies, presets, defaults, settings
    with their validation and quotas), \<open>run/machines.go\<close> and \<open>run/validate.go\<close>. Shown: exactly which runs the quotas
    reject; exactly which configurations the validation accepts; that the two ways of sizing machines, of a dry run and
    of a start, agree.

  \<^item> \<open>DagGraph\<close>: \<open>core/dag/dag.go\<close>, the graph with \<open>Validate\<close> (depth-first search with colours), \<open>Ready\<close>, JSON and the
    registry of tasks. Shown: \<open>Validate\<close> accepts exactly the graphs whose dependencies exist and that have no cycle,
    for every map order, and what its errors name; the JSON round trip. The search has fuel, one unit for each node:
    every call colours a node, so the fuel never runs out (\<open>visit_fuel\<close>, \<open>detect_loop_total\<close>). The locale \<open>ranked_graph\<close> says that a graph with
    a rank that falls along dependencies is valid.

  \<^item> \<open>DagExec\<close>, \<open>DagRun\<close>: \<open>core/dag/executor.go\<close> and \<open>storage.go\<close>. \<open>exec_step\<close> is one event of \<open>Run\<close> or of a worker
    (top of a loop, end of a wave, an attempt with what the task returned, a timer, a cancellation), so that a list of
    events is an interleaving. Shown, by invariants over all event lists: dependencies are done before a node
    starts; what runs after a failure; how often and after which waits a node is tried; the meaning of the value of
    \<open>Run\<close>; the last snapshot; and termination, by a measure on the executor's own steps. \<open>st_saves\<close> are the snapshots
    handed to the storage, whose error the code drops; \<open>stored_after\<close> is what the storage then holds.

  \<^item> \<open>Builder\<close>, \<open>BuilderProps\<close>, \<open>RunExec\<close>: \<open>run/builder.go\<close>, one \<open>fun\<close> for each function that adds nodes. Shown: the
    graph of every supported configuration is valid and its saved form is restored; the load test depends on
    everything but the teardown, and so executes only when all else is done. \<open>BuilderProps\<close> interprets
    \<open>ranked_graph\<close>, \<open>RunExec\<close> composes graph and executor.

  \<^item> \<open>DbConfig\<close>, \<open>YdbConfig\<close>, \<open>AuxConfig\<close>, \<open>Rendered\<close>, \<open>Preview\<close>: \<open>domain/dbconfig\<close> (files and options of PostgreSQL,
    MySQL, Picodata, YDB, Patroni, PgBouncer, HAProxy), \<open>run/rendered_configs.go\<close>, \<open>run/effective_config.go\<close>. Shown:
    the renderers do not depend on map order, user options win, the placeholders of YDB hosts are replaced
    exactly, and, where the two may be compared (\<open>comparable\<close>), the entries of a dry run are the files that the agents
    write for the payloads that the tasks send.

  \<^item> \<open>AgentHost\<close>, \<open>AgentDb\<close>, \<open>AgentTools\<close>, \<open>AgentRun\<close>: \<open>agent/executor.go\<close>, \<open>protocol.go\<close>, \<open>setup_*.go\<close>. The machine
    (bash, files, processes) is the record \<open>host\<close>, and every handler is a function on the executor's state that keeps
    all operations on the machine in order. Shown: what a report says of the operations done, exactly on which runs it
    says \<open>completed\<close>, and that the bootstrap is tried once.

  \<^item> \<open>AgentServer\<close>, \<open>PollClient\<close>, \<open>AgentClient\<close>: the agent's poll loop with its batches of log lines
    (\<open>agent_server.go\<close>), the command queue (\<open>client_poll.go\<close>) as a step relation of calls, polls, reports, timeouts
    and cancellations, and the direct client (\<open>client_http.go\<close>). Shown: the loop runs the commands it was
    given, and a report that cannot be posted is given up; no line is lost or reordered; commands are handed out in order and once; a call returns success only on a
    report of its own command, and can return exactly when there is one. The locale \<open>agent_client\<close> is the contract of
    the two clients, interpreted on both: between the state before a send and the one after it stands the confirmation
    of just this send. \<open>plan_success_confirmed\<close> is the contract for the plans of the tasks. A queue
    holds eight commands, as the Go channel does.

  \<^item> \<open>RunState\<close>, \<open>Tasks\<close>, \<open>StroppyTask\<close>, \<open>Provision\<close>, \<open>Terraform\<close>, \<open>Deploy\<close>: \<open>run/state.go\<close>, \<open>run/task_*.go\<close>, the
    configuration of the load generator, machines of both providers, the terraform actor
    (\<open>infrastructure/terraform/actor.go\<close>, \<open>core/uow\<close>) and the Docker deployer (\<open>agent/deploy_docker.go\<close>). Shown: what
    teardown tries to remove, also after a failure; that a failed apply leaves no resources unless it says so; what a
    destroy removes, and that runs with the same id share a working directory; exactly what the injection of the
    metrics export changes; what the deployer does to containers of other names.

  \<^item> \<open>App\<close>, \<open>RunServer\<close>, \<open>RunApi\<close>: \<open>api/api.go\<close>, \<open>api/server.go\<close>, \<open>postgres/run_storage.go\<close>, \<open>api/probe_handler.go\<close>,
    \<open>api/upload.go\<close>. Shown: a recovered run resumes with the nodes that were done; what a restart leaves of
    interrupted runs, the writes and removals that fail included; the limit of concurrent runs. The check of a start and
    its registration are two steps, so that the limit may be exceeded by one less than the number of starts of a tenant
    that overlap (\<open>RunApi.overlap_exceeds\<close>), under the hypothesis that no start reuses the id of an
    executing run (without it the limit fails, \<open>RunApi.same_id_counted_once\<close>).

  \<^item> \<open>Access\<close>, \<open>Accounts\<close>, \<open>Catalog\<close>: \<open>domain/auth\<close>, the handlers of accounts, tenants, members, tokens, packages and
    presets with the queries of \<open>postgres/generated\<close> and the keys and cascades of the migrations. Shown: no request
    reaches a handler past its guards; the tables stay well-formed; issued tokens carry the caller's role;
    a refresh token is spent once; tenants are isolated. The locale \<open>tenant_table\<close> is what packages and presets
    share, interpreted on both tables.

  \<^item> \<open>Metrics\<close>, \<open>Hub\<close>: \<open>domain/metrics\<close>, \<open>infrastructure/victoria\<close>, \<open>api/ws_hub.go\<close>, the agents' endpoints, webhooks,
    releases and the cloud-init script. Shown: what the extremes of a summary are, the counts of a comparison, and who
    sees which log line, also when the lookup of the tenant fails.

  \<^item> \<open>Session\<close>, \<open>Cli\<close>: \<open>cmd/cli\<close>, the file of credentials, the client that renews its tokens, every command. Shown:
    against the server of \<open>Accounts\<close> a session that is used lasts, if its writes succeed; waiting for a run ends, if
    every request comes back. The polling loop is a \<open>partial_function\<close>, \<open>None\<close> when it hangs, and \<open>waiting_ends\<close> shows
    that it has a result; no fuel is involved.

  \<^item> \<open>Ips\<close>: \<open>core/ips/ips.go\<close>, arithmetic on addresses and subnets in bytes and 32-bit words, which no other package
    uses yet. Shown: the first free address is the first that is free, and the search for it ends (it is a
    \<open>partial_function\<close> too); a subnet that is found overlaps no network in use.
\<close>

section \<open>How the parts meet\<close>

text \<open>
  The theories import each other as the packages call each other. \<open>Builder\<close> makes the graph that \<open>DagExec\<close> executes
  (\<open>RunExec\<close>). \<open>Tasks\<close> and \<open>StroppyTask\<close> say what \<open>Execute\<close> of a task sends, \<open>Preview\<close> composes them with the renderers
  and with the handlers of \<open>AgentDb\<close>, and \<open>AgentClient\<close> with the queue. \<open>App\<close> puts graph, registry and snapshot together,
  \<open>RunServer\<close> and \<open>RunApi\<close> add the table of runs and the map of active runs, \<open>Catalog\<close> the package that a run uses.
  \<open>Session\<close> runs the command line's client against the handlers of \<open>Accounts\<close> behind the guards of \<open>Access\<close>.

  Where a part does not do what its comments or its callers expect, a lemma records what it does, for instance
  \<open>Cli.preset_not_submitted\<close>, \<open>Terraform.run_id_leaves_directory\<close>, \<open>RunApi.accepted_though_invalid\<close> and
  \<open>Deploy.failed_deploy_leaves_container\<close>.
\<close>

section \<open>Assumptions\<close>

text \<open>
  The following is outside the repository and is an argument wherever it is used: bcrypt, SHA-256 and JWT signatures
  (a signature verifies exactly for what was signed), JSON and protobuf text (decoding gives back what was encoded,
  where a round trip is claimed), the HTTP transport, the router chi (a request is served by a route that matches),
  Docker, terraform, the shell and files of a machine, the stores for metrics and logs. What is required of
  one of them is a named predicate with an instance that satisfies it (\<open>lawful\<close> of \<open>Terraform\<close>, \<open>lawful_daemon\<close> of
  \<open>Deploy\<close>, \<open>lawful_docker\<close> of \<open>Provision\<close>), or a premise of the theorem, and the witness after the theorem discharges it on a concrete
  input. PostgreSQL is modelled by lists of rows with the keys that the queries and migrations name. In \<open>Access\<close>,
  \<open>Accounts\<close> and \<open>Catalog\<close> every query may fail, as may the lookup of a run's tenant in \<open>Hub\<close> and every write of the
  table of runs (\<open>save_run\<close>, \<open>rv_write_error\<close>); the reads of the table of runs are assumed to be answered.
\<close>

section \<open>Not modelled\<close>

text \<open>
  \<^item> Output: logging (\<open>core/logger\<close>, \<open>core/dag/run_context.go\<close>), the counters and histograms of \<open>api/metrics.go\<close>, prompts and
    colours of the command line.

  \<^item> Decoding that only calls a library: \<open>ParseTopology\<close>, \<open>LoadConfig\<close>, \<open>parseConfig\<close>, the JSON of requests. The decoded
    value is an argument, and a failed decoding is a branch.

  \<^item> Utilities around the runtime and other libraries: \<open>core/shutdown\<close>, \<open>core/protoyaml\<close>, \<open>core/defaults\<close>,
    \<open>core/build\<close>; opening the pool of connections and running migrations.

  \<^item> Code that the program does not use: the clients of S3 and Valkey (\<open>infrastructure/s3\<close>, \<open>infrastructure/valkey\<close>).

  \<^item> The generated protobuf code under \<open>proto\<close>, the web frontend (TypeScript) and the deployment files.

  \<^item> A \<open>float64\<close> is a real number, and the rounding of every operation an argument (\<open>Metrics\<close>); sizes of queues and numbers of retries are those of the
    code, but the counter of command ids has no bound.
\<close>

end
